(* ===== verification/Prelude.thy ===== *)
theory Prelude
  imports Complex_Main "HOL-Library.Word" "HOL-Library.Sublist" "HOL-Library.Char_ord"
    "HOL-Library.List_Lexorder" "HOL-Library.AList" "HOL-Library.Multiset"
begin

text \<open>
  Shared vocabulary of the development: results as sums with their sequencing
  operators, byte strings (a Rust \<open>String\<close> is the list of its UTF-8 bytes) with
  the operations of \<open>str\<close> the program calls, the JSON value type of
  \<open>serde_json\<close>, and the generic facts on lists and association lists that
  several components use.
\<close>

named_theorems res_simps "equations that drive evaluation of result-valued code"
named_theorems table_simps "constant tables of the program, unfolded for evaluation"

section \<open>Results\<close>

text \<open>A Rust \<open>Result<T, E>\<close> is \<open>E + T\<close>: \<open>Inl\<close> carries the error.  \<open>rbind\<close> is the \<open>?\<close> operator.\<close>

type_synonym ('e, 'a) result = "'e + 'a"

definition rbind :: "('e, 'a) result \<Rightarrow> ('a \<Rightarrow> ('e, 'b) result) \<Rightarrow> ('e, 'b) result" where
  "rbind r f = (case r of Inl e \<Rightarrow> Inl e | Inr a \<Rightarrow> f a)"

lemma rbind_simps [simp, res_simps]:
  "rbind (Inl e) f = Inl e"
  "rbind (Inr a) f = f a"
  by (simp_all add: rbind_def)

lemma rbind_eq_Inr: "rbind r f = Inr b \<longleftrightarrow> (\<exists>a. r = Inr a \<and> f a = Inr b)"
  by (cases r) auto

lemma rbind_eq_Inl: "rbind r f = Inl e \<longleftrightarrow> r = Inl e \<or> (\<exists>a. r = Inr a \<and> f a = Inl e)"
  by (cases r) auto

lemma rbind_assoc: "rbind (rbind r f) g = rbind r (\<lambda>a. rbind (f a) g)"
  by (cases r) auto

definition is_ok :: "('e, 'a) result \<Rightarrow> bool" where
  "is_ok r = (case r of Inl _ \<Rightarrow> False | Inr _ \<Rightarrow> True)"

lemma is_ok_simps [simp, res_simps]: "\<not> is_ok (Inl e)" "is_ok (Inr a)"
  by (simp_all add: is_ok_def)

definition ok_or :: "'e \<Rightarrow> 'a option \<Rightarrow> ('e, 'a) result" where
  "ok_or e x = (case x of None \<Rightarrow> Inl e | Some a \<Rightarrow> Inr a)"

lemma ok_or_simps [simp, res_simps]: "ok_or e None = Inl e" "ok_or e (Some a) = Inr a"
  by (simp_all add: ok_or_def)

section \<open>Byte strings\<close>

definition starts_with :: "string \<Rightarrow> string \<Rightarrow> bool" where
  "starts_with s p \<longleftrightarrow> take (length p) s = p"

definition ends_with :: "string \<Rightarrow> string \<Rightarrow> bool" where
  "ends_with s p \<longleftrightarrow> starts_with (rev s) (rev p)"

fun contains :: "string \<Rightarrow> string \<Rightarrow> bool" where
  "contains [] n = (n = [])"
| "contains (c # cs) n = (starts_with (c # cs) n \<or> contains cs n)"

lemma starts_with_iff_prefix: "starts_with s p \<longleftrightarrow> prefix p s"
  unfolding starts_with_def
  by (metis append_eq_conv_conj append_take_drop_id prefix_def)

lemma ends_with_iff_suffix: "ends_with s p \<longleftrightarrow> suffix p s"
  by (simp add: ends_with_def starts_with_iff_prefix suffix_to_prefix)

lemma contains_iff_sublist: "contains s n \<longleftrightarrow> sublist n s"
  by (induction s) (auto simp: starts_with_iff_prefix sublist_Cons_right)

lemma starts_with_append [simp]: "starts_with (p @ s) p"
  by (simp add: starts_with_def)

definition strip_prefix :: "string \<Rightarrow> string \<Rightarrow> string option" where
  "strip_prefix p s = (if starts_with s p then Some (drop (length p) s) else None)"

lemma strip_prefix_Some: "strip_prefix p s = Some r \<longleftrightarrow> s = p @ r"
  by (auto simp: strip_prefix_def starts_with_def) (metis append_take_drop_id)

definition ascii_upper :: "char \<Rightarrow> char" where
  "ascii_upper c = (if 97 \<le> (of_char c :: nat) \<and> (of_char c :: nat) \<le> 122
                    then char_of ((of_char c :: nat) - 32) else c)"

definition ascii_lower :: "char \<Rightarrow> char" where
  "ascii_lower c = (if 65 \<le> (of_char c :: nat) \<and> (of_char c :: nat) \<le> 90
                    then char_of ((of_char c :: nat) + 32) else c)"

definition to_upper :: "string \<Rightarrow> string" where
  "to_upper s = map ascii_upper s"

definition to_lower :: "string \<Rightarrow> string" where
  "to_lower s = map ascii_lower s"

definition is_digit :: "char \<Rightarrow> bool" where
  "is_digit c \<longleftrightarrow> 48 \<le> (of_char c :: nat) \<and> (of_char c :: nat) \<le> 57"

definition is_hexdigit :: "char \<Rightarrow> bool" where
  "is_hexdigit c \<longleftrightarrow> is_digit c \<or> 97 \<le> (of_char c :: nat) \<and> (of_char c :: nat) \<le> 102
     \<or> 65 \<le> (of_char c :: nat) \<and> (of_char c :: nat) \<le> 70"

definition is_alnum :: "char \<Rightarrow> bool" where
  "is_alnum c \<longleftrightarrow> is_digit c \<or> 97 \<le> (of_char c :: nat) \<and> (of_char c :: nat) \<le> 122
     \<or> 65 \<le> (of_char c :: nat) \<and> (of_char c :: nat) \<le> 90"

text \<open>\<open>str::trim\<close> strips the characters with the Unicode property White_Space;
  on UTF-8 bytes these are exactly the byte sequences below.\<close>

definition whitespace_seqs :: "string list" where
  "whitespace_seqs =
     [[CHR 0x09], [CHR 0x0A], [CHR 0x0B], [CHR 0x0C], [CHR 0x0D], [CHR 0x20],
      [CHR 0xC2, CHR 0x85], [CHR 0xC2, CHR 0xA0], [CHR 0xE1, CHR 0x9A, CHR 0x80],
      [CHR 0xE2, CHR 0x80, CHR 0x80], [CHR 0xE2, CHR 0x80, CHR 0x81],
      [CHR 0xE2, CHR 0x80, CHR 0x82], [CHR 0xE2, CHR 0x80, CHR 0x83],
      [CHR 0xE2, CHR 0x80, CHR 0x84], [CHR 0xE2, CHR 0x80, CHR 0x85],
      [CHR 0xE2, CHR 0x80, CHR 0x86], [CHR 0xE2, CHR 0x80, CHR 0x87],
      [CHR 0xE2, CHR 0x80, CHR 0x88], [CHR 0xE2, CHR 0x80, CHR 0x89],
      [CHR 0xE2, CHR 0x80, CHR 0x8A], [CHR 0xE2, CHR 0x80, CHR 0xA8],
      [CHR 0xE2, CHR 0x80, CHR 0xA9], [CHR 0xE2, CHR 0x80, CHR 0xAF],
      [CHR 0xE2, CHR 0x81, CHR 0x9F], [CHR 0xE3, CHR 0x80, CHR 0x80]]"

function strip_seqs :: "string list \<Rightarrow> string \<Rightarrow> string" where
  "strip_seqs ws s =
     (case find (\<lambda>w. w \<noteq> [] \<and> starts_with s w) ws of
        None \<Rightarrow> s
      | Some w \<Rightarrow> strip_seqs ws (drop (length w) s))"
  by pat_completeness auto
termination
proof (relation "measure (\<lambda>(ws, s). length s)")
  fix ws :: "string list" and s w :: string
  assume "find (\<lambda>w. w \<noteq> [] \<and> starts_with s w) ws = Some w"
  then have "w \<noteq> []" "starts_with s w"
    by (auto simp: find_Some_iff)
  then have "0 < length w" "length w \<le> length s"
    by (auto simp: starts_with_def) (metis length_take min.cobounded1)
  then show "((ws, drop (length w) s), (ws, s)) \<in> measure (\<lambda>(ws, s). length s)"
    by (cases w) auto
qed simp

declare strip_seqs.simps [simp del]

lemma strip_seqs_id:
  assumes "hd s \<notin> hd ` set ws" "s \<noteq> []"
  shows "strip_seqs ws s = s"
proof -
  have "find (\<lambda>w. w \<noteq> [] \<and> starts_with s w) ws = None"
    unfolding find_None_iff
  proof
    assume "\<exists>w. w \<in> set ws \<and> w \<noteq> [] \<and> starts_with s w"
    then obtain w where "w \<in> set ws" "w \<noteq> []" "starts_with s w" by blast
    then have "hd w = hd s"
      using assms(2) by (auto simp: starts_with_iff_prefix prefix_def)
    with \<open>w \<in> set ws\<close> assms(1) show False by (metis imageI)
  qed
  then show ?thesis by (subst strip_seqs.simps) simp
qed

definition trim_start :: "string \<Rightarrow> string" where
  "trim_start s = strip_seqs whitespace_seqs s"

definition trim_end :: "string \<Rightarrow> string" where
  "trim_end s = rev (strip_seqs (map rev whitespace_seqs) (rev s))"

definition trim :: "string \<Rightarrow> string" where
  "trim s = trim_end (trim_start s)"

text \<open>\<open>split\<close> on a character never yields the empty list; \<open>lines\<close> drops the last empty piece.\<close>

fun split_on :: "'a \<Rightarrow> 'a list \<Rightarrow> 'a list list" where
  "split_on d [] = [[]]"
| "split_on d (c # cs) =
     (if c = d then [] # split_on d cs
      else case split_on d cs of [] \<Rightarrow> [[c]] | p # ps \<Rightarrow> (c # p) # ps)"

lemma split_on_nonempty [simp]: "split_on d s \<noteq> []"
  by (induction s) (auto split: list.splits)

fun intercalate :: "'a list \<Rightarrow> 'a list list \<Rightarrow> 'a list" where
  "intercalate sep [] = []"
| "intercalate sep [x] = x"
| "intercalate sep (x # y # ys) = x @ sep @ intercalate sep (y # ys)"

lemma intercalate_split_on: "intercalate [d] (split_on d s) = s"
proof (induction s)
  case (Cons c cs)
  then show ?case
    by (cases "split_on d cs"; cases "tl (split_on d cs)") auto
qed simp

lemma split_on_no_sep: "d \<notin> set s \<Longrightarrow> split_on d s = [s]"
  by (induction s) auto

lemma split_on_append_sep: "d \<notin> set x \<Longrightarrow> split_on d (x @ d # y) = x # split_on d y"
  by (induction x) auto

lemma split_on_intercalate:
  assumes "xs \<noteq> []" "\<forall>x\<in>set xs. d \<notin> set x"
  shows "split_on d (intercalate [d] xs) = xs"
  using assms
proof (induction "[d]" xs rule: intercalate.induct)
  case (3 x y ys)
  then show ?case by (simp add: split_on_append_sep)
qed (auto simp: split_on_no_sep)

section \<open>Numbers in decimal\<close>

definition digit_char :: "nat \<Rightarrow> char" where
  "digit_char n = char_of (48 + n)"

fun show_nat :: "nat \<Rightarrow> string" where
  "show_nat n = (if n < 10 then [digit_char n] else show_nat (n div 10) @ [digit_char (n mod 10)])"

declare show_nat.simps [simp del]

lemma of_char_digit [simp]: "n < 10 \<Longrightarrow> of_char (digit_char n) = 48 + n"
  by (simp add: digit_char_def)

lemma digit_char_inj: "a < 10 \<Longrightarrow> b < 10 \<Longrightarrow> digit_char a = digit_char b \<longleftrightarrow> a = b"
  by (metis add_left_imp_eq of_char_digit)

lemma is_digit_digit_char [simp]: "n < 10 \<Longrightarrow> is_digit (digit_char n)"
  by (simp add: is_digit_def)

definition digits_value :: "string \<Rightarrow> nat" where
  "digits_value s = foldl (\<lambda>a c. 10 * a + (of_char c - 48)) 0 s"

lemma digits_value_snoc: "digits_value (s @ [c]) = 10 * digits_value s + (of_char c - 48)"
  by (simp add: digits_value_def)

lemma digits_value_show_nat [simp]: "digits_value (show_nat n) = n"
proof (induction n rule: show_nat.induct)
  case (1 n)
  show ?case
  proof (cases "n < 10")
    case True
    then show ?thesis by (simp add: show_nat.simps digits_value_def)
  next
    case False
    then have "digits_value (show_nat n) = 10 * digits_value (show_nat (n div 10)) + n mod 10"
      by (subst show_nat.simps) (simp add: digits_value_snoc)
    then show ?thesis using 1 False by simp
  qed
qed

lemma show_nat_inj: "show_nat a = show_nat b \<longleftrightarrow> a = b"
  by (metis digits_value_show_nat)

lemma show_nat_digits: "list_all is_digit (show_nat n)"
proof (induction n rule: show_nat.induct)
  case (1 n)
  then show ?case
    by (cases "n < 10") (simp_all add: show_nat.simps [of n])
qed

lemma show_nat_nonempty [simp]: "show_nat n \<noteq> []"
  by (subst show_nat.simps) simp

lemma digit_not_space: "is_digit c \<Longrightarrow> c \<notin> hd ` set whitespace_seqs" "is_digit c \<Longrightarrow> c \<notin> last ` set whitespace_seqs"
  by (auto simp: whitespace_seqs_def is_digit_def)

lemma trim_digits:
  assumes "s \<noteq> []" "list_all is_digit s"
  shows "trim s = s"
proof -
  have a: "hd s \<notin> hd ` set whitespace_seqs"
    using assms digit_not_space(1) [of "hd s"] by (cases s) auto
  have "last s \<notin> last ` set whitespace_seqs"
    using assms digit_not_space(2) [of "last s"] by (auto simp: list_all_iff)
  then have b: "hd (rev s) \<notin> hd ` set (map rev whitespace_seqs)"
    using assms(1) by (auto simp: hd_rev image_iff)
  show ?thesis
    using strip_seqs_id [OF a assms(1)] strip_seqs_id [OF b] assms(1)
    by (simp add: trim_def trim_start_def trim_end_def)
qed

text \<open>\<open>str::parse\<close> at an unsigned type with largest value \<open>m\<close>: an optional plus sign and at
  least one digit; anything else, or a value that does not fit, is an error.\<close>

definition parse_unsigned :: "nat \<Rightarrow> string \<Rightarrow> nat option" where
  "parse_unsigned m s =
     (let d = (case s of c # cs \<Rightarrow> if c = CHR ''+'' then cs else s | [] \<Rightarrow> []) in
      if d \<noteq> [] \<and> list_all is_digit d \<and> digits_value d \<le> m then Some (digits_value d) else None)"

lemma parse_unsigned_show [simp]: "n \<le> m \<Longrightarrow> parse_unsigned m (show_nat n) = Some n"
proof -
  assume n: "n \<le> m"
  obtain c cs where c: "show_nat n = c # cs" by (cases "show_nat n") simp_all
  then have "is_digit c" using show_nat_digits [of n] by simp
  then have "c \<noteq> CHR ''+''" by (auto simp: is_digit_def)
  then show ?thesis
    using n show_nat_digits [of n] digits_value_show_nat [of n] unfolding parse_unsigned_def c by simp
qed

text \<open>\<open>{:016x}\<close> of a 64-bit value, and the FNV-1a step on the bytes of a string.\<close>

definition hex_digit :: "nat \<Rightarrow> char" where
  "hex_digit n = (if n < 10 then char_of (48 + n) else char_of (87 + n))"

definition hex16 :: "64 word \<Rightarrow> string" where
  "hex16 w = map (\<lambda>i. hex_digit (unat w div 16 ^ (15 - i) mod 16)) [0..<16]"

definition fnv_push :: "64 word \<Rightarrow> string \<Rightarrow> 64 word" where
  "fnv_push h s = foldl (\<lambda>h c. semiring_bit_operations_class.xor h (of_char c) * 0x100000001b3) h s"

definition FNV_OFFSET :: "64 word" where
  "FNV_OFFSET = 0xcbf29ce484222325"

lemma length_hex16 [simp]: "length (hex16 w) = 16"
  by (simp add: hex16_def)

section \<open>UTF-8\<close>

text \<open>\<open>str::from_utf8\<close>: the well-formed byte sequences of RFC 3629.\<close>

definition byte_in :: "nat \<Rightarrow> nat \<Rightarrow> char \<Rightarrow> bool" where
  "byte_in lo hi c \<longleftrightarrow> lo \<le> (of_char c :: nat) \<and> (of_char c :: nat) \<le> hi"

definition utf8_tail :: "char \<Rightarrow> bool" where
  "utf8_tail = byte_in 0x80 0xBF"

fun valid_utf8 :: "string \<Rightarrow> bool" where
  "valid_utf8 [] = True"
| "valid_utf8 (a # s) =
     (if byte_in 0x00 0x7F a then valid_utf8 s
      else case s of [] \<Rightarrow> False | b # s2 \<Rightarrow>
        if byte_in 0xC2 0xDF a then utf8_tail b \<and> valid_utf8 s2
        else case s2 of [] \<Rightarrow> False | c # s3 \<Rightarrow>
          if byte_in 0xE0 0xE0 a then byte_in 0xA0 0xBF b \<and> utf8_tail c \<and> valid_utf8 s3
          else if byte_in 0xE1 0xEC a \<or> byte_in 0xEE 0xEF a
            then utf8_tail b \<and> utf8_tail c \<and> valid_utf8 s3
          else if byte_in 0xED 0xED a then byte_in 0x80 0x9F b \<and> utf8_tail c \<and> valid_utf8 s3
          else case s3 of [] \<Rightarrow> False | d # s4 \<Rightarrow>
            utf8_tail c \<and> utf8_tail d \<and> valid_utf8 s4 \<and>
            (byte_in 0xF0 0xF0 a \<and> byte_in 0x90 0xBF b
             \<or> byte_in 0xF1 0xF3 a \<and> utf8_tail b
             \<or> byte_in 0xF4 0xF4 a \<and> byte_in 0x80 0x8F b))"

lemma valid_utf8_ascii: "list_all (byte_in 0x00 0x7F) s \<Longrightarrow> valid_utf8 s"
  by (induction s) auto

text \<open>\<open>BufRead::lines\<close>: pieces between line feeds, without a final empty piece, a carriage
  return before the line feed dropped, and an error for a piece that is not UTF-8.\<close>

definition drop_cr :: "string \<Rightarrow> string" where
  "drop_cr l = (if l \<noteq> [] \<and> last l = CHR 0x0D then butlast l else l)"

fun raw_lines :: "string \<Rightarrow> (string \<times> bool) list" where
  "raw_lines s =
     (let ps = split_on (CHR 0x0A) s in
      map (\<lambda>p. (p, True)) (butlast ps) @ (if last ps = [] then [] else [(last ps, False)]))"

definition read_lines :: "string \<Rightarrow> (unit, string) result list" where
  "read_lines s =
     map (\<lambda>(p, nl). if valid_utf8 p then Inr (if nl then drop_cr p else p) else Inl ()) (raw_lines s)"

text \<open>\<open>str::lines\<close> on a string already known to be UTF-8, and the characters of a UTF-8
  string: a character is a byte with the continuation bytes that follow it.\<close>

definition str_lines :: "string \<Rightarrow> string list" where
  "str_lines s = map (\<lambda>(p, nl). if nl then drop_cr p else p) (raw_lines s)"

lemma length_dropWhile_less [termination_simp]: "length (dropWhile P s) < Suc (length s)"
  using length_dropWhile_le [of P s] by simp

fun utf8_chars :: "string \<Rightarrow> string list" where
  "utf8_chars [] = []"
| "utf8_chars (c # s) = (c # takeWhile utf8_tail s) # utf8_chars (dropWhile utf8_tail s)"

definition take_chars :: "nat \<Rightarrow> string \<Rightarrow> string" where
  "take_chars n s = concat (take n (utf8_chars s))"

text \<open>\<open>Path::file_name\<close> and \<open>Path::extension\<close> on a path with \<open>/\<close> separators.\<close>

definition path_file_name :: "string \<Rightarrow> string option" where
  "path_file_name p =
     (let cs = filter (\<lambda>c. c \<noteq> [] \<and> c \<noteq> ''.'') (split_on (CHR ''/'') p) in
      if cs = [] \<or> last cs = ''..'' then None else Some (last cs))"

definition path_extension :: "string \<Rightarrow> string option" where
  "path_extension p =
     (case path_file_name p of
        None \<Rightarrow> None
      | Some n \<Rightarrow>
          (let ps = split_on (CHR ''.'') n in
           if length ps < 2 \<or> butlast ps = [[]] then None else Some (last ps)))"

section \<open>Machine counters\<close>

definition saturating_inc :: "'a::len word \<Rightarrow> 'a word" where
  "saturating_inc w = (if w = - 1 then w else w + 1)"

section \<open>Lists\<close>

lemma set_map_filter: "x \<in> set (List.map_filter f xs) \<longleftrightarrow> (\<exists>y\<in>set xs. f y = Some x)"
  by (force simp: List.map_filter_def)

lemma ex_take_enumerate:
  "(\<exists>x\<in>set (take n (List.enumerate 0 ls)). P x) \<longleftrightarrow> (\<exists>i. i < n \<and> i < length ls \<and> P (i, ls ! i))"
proof
  assume "\<exists>i. i < n \<and> i < length ls \<and> P (i, ls ! i)"
  then obtain i where i: "i < n" "i < length ls" "P (i, ls ! i)" by blast
  then have "take n (List.enumerate 0 ls) ! i = (i, ls ! i)" by (simp add: nth_enumerate_eq)
  then have "(i, ls ! i) \<in> set (take n (List.enumerate 0 ls))"
    using i by (metis length_enumerate length_take min_less_iff_conj nth_mem)
  then show "\<exists>x\<in>set (take n (List.enumerate 0 ls)). P x" using i by blast
next
  assume "\<exists>x\<in>set (take n (List.enumerate 0 ls)). P x"
  then obtain i where "i < n" "i < length ls" "P (i, ls ! i)"
    by (auto simp: in_set_conv_nth nth_enumerate_eq)
  then show "\<exists>i. i < n \<and> i < length ls \<and> P (i, ls ! i)" by blast
qed

section \<open>JSON values\<close>

text \<open>\<open>serde_json::Value\<close>; objects are kept as key-value lists in the order of the
  map (a \<open>BTreeMap\<close> in this build, so sorted by key).  Numbers that are not
  integers are rationals.\<close>

datatype json =
    JNull
  | JBool bool
  | JInt int
  | JNum rat
  | JStr string
  | JArr "json list"
  | JObj "(string \<times> json) list"

fun obj_insert :: "string \<Rightarrow> 'v \<Rightarrow> (string \<times> 'v) list \<Rightarrow> (string \<times> 'v) list" where
  "obj_insert k v [] = [(k, v)]"
| "obj_insert k v ((k', v') # kvs) =
     (if k = k' then (k, v) # kvs
      else if k < k' then (k, v) # (k', v') # kvs
      else (k', v') # obj_insert k v kvs)"

lemma map_of_obj_insert: "map_of (obj_insert k v kvs) = (map_of kvs)(k \<mapsto> v)"
  by (induction kvs) (auto simp: fun_eq_iff)

section \<open>Association lists, URLs and HTTP statuses\<close>

lemma set_alist_update: "set (AList.update k v m) \<subseteq> insert (k, v) (set m)"
  by (induction m) auto

text \<open>\<open>trim_end_matches\<close> of a slash, and \<open>StatusCode::is_success\<close>.\<close>

definition trim_end_slash :: "string \<Rightarrow> string" where
  "trim_end_slash s = rev (dropWhile (\<lambda>c. c = CHR ''/'') (rev s))"

definition is_success :: "nat \<Rightarrow> bool" where
  "is_success status \<longleftrightarrow> 200 \<le> status \<and> status < 300"

section \<open>The host's inputs\<close>

text \<open>Standard input as a whole, or the error reading it; files by path; which paths are files.\<close>

record host_io =
  hio_stdin :: "(string, string) result"
  hio_read :: "string \<Rightarrow> (string, string) result"
  hio_is_file :: "string \<Rightarrow> bool"

definition read_input :: "host_io \<Rightarrow> string \<Rightarrow> (string, string) result" where
  "read_input io path = (if path = ''-'' then hio_stdin io else hio_read io path)"

text \<open>A command logs its statistics; \<open>main\<close> returns only success or the error.\<close>

definition stats_logged :: "(string, 'r) result \<Rightarrow> (string, unit) result" where
  "stats_logged r = rbind r (\<lambda>_. Inr ())"

lemma stats_logged_simps [simp]: "stats_logged (Inl e) = Inl e" "stats_logged (Inr st) = Inr ()"
  by (simp_all add: stats_logged_def)

end
