(* ===== verification/Core_Types.thy ===== *)
theory Core_Types
  imports Prelude
begin

text \<open>
  The event schema of \<open>ree0xq-core\<close> (src/crates/ree0xq-core/src/lib.rs): every
  module of the system emits a \<open>crypto_inventory_event\<close>.  \<open>f32\<close> fields are
  rationals (their arithmetic is in the theory of binary32 rounding), wall-clock
  times are integers (nanoseconds since the epoch), \<open>u32\<close>/\<open>u64\<close>/\<open>u8\<close> fields are words.
  Field names carry the prefix of their struct.
\<close>

type_synonym u8 = "8 word"
type_synonym u16 = "16 word"
type_synonym u32 = "32 word"
type_synonym u64 = "64 word"
type_synonym bytes = "8 word list"
type_synonym timestamp = int
type_synonym f32 = rat

definition SCHEMA_VERSION :: u32 where
  "SCHEMA_VERSION = 1"

definition SCHEMA_MINOR :: u32 where
  "SCHEMA_MINOR = 1"

definition default_schema_minor :: u32 where
  "default_schema_minor = 0"

datatype asset_kind =
    TlsSession | SshSession | IpsecSa | X509Cert | BlockchainKey | HsmSlot
  | DnsDnssec | QkdLink | QkdKme

record asset =
  as_kind :: asset_kind
  as_identity :: string
  as_host :: "string option"

datatype primitive_role = Kex | Sig | Auth | Encrypt | Hash

datatype nist_level = L1 | L3 | L5

record primitive =
  pr_role :: primitive_role
  pr_algorithm :: string
  pr_parameters :: "(string \<times> json) list"
  pr_pq_resistant :: "bool option"
  pr_nist :: "nist_level option"

datatype channel_state = Classical | QkdHybridPsk | QkdOnly

datatype link_health = HealthOk | HealthDegraded | HealthFailed

record channel_protection =
  cp_state :: channel_state
  cp_kme_endpoint :: "string option"
  cp_key_id_observed :: "string option"
  cp_psk_age_seconds :: "u64 option"
  cp_link_qber :: "f32 option"
  cp_link_key_rate_bps :: "u64 option"
  cp_link_health :: link_health
  cp_degraded_reason :: "string option"

datatype agility_level = Negotiated | Configurable | Pinned | Locked | Frozen

fun agility_score :: "agility_level \<Rightarrow> f32" where
  "agility_score Negotiated = 1"
| "agility_score Configurable = 3/4"
| "agility_score Pinned = 1/2"
| "agility_score Locked = 1/5"
| "agility_score Frozen = 0"

datatype agility_evidence =
    ProtocolNegotiation string "string list"
  | ConfigPattern string u32 string
  | CodePattern string u32 string string
  | FirmwareString string string
  | FipsMode bool
  | VendorDeclaration string

record agility_block =
  ag_level :: agility_level
  ag_level_score :: f32
  ag_evidence :: "agility_evidence list"
  ag_scanner_version :: string
  ag_rubric_version :: string

record posture =
  po_score :: u8
  po_rationale :: string
  po_replacement :: "string option"

record crypto_inventory_event =
  ev_schema_version :: u32
  ev_schema_minor :: u32
  ev_source_module :: string
  ev_observed_at :: timestamp
  ev_asset :: asset
  ev_primitives :: "primitive list"
  ev_channel_protection :: "channel_protection option"
  ev_agility :: "agility_block option"
  ev_posture :: posture

text \<open>The shape most producers give a primitive: no parameters.\<close>

definition mk_primitive :: "primitive_role \<Rightarrow> string \<Rightarrow> bool option \<Rightarrow> nist_level option \<Rightarrow> primitive" where
  "mk_primitive r a pq n =
     \<lparr>pr_role = r, pr_algorithm = a, pr_parameters = [], pr_pq_resistant = pq, pr_nist = n\<rparr>"

lemma mk_primitive_sel [simp]:
  "pr_role (mk_primitive r a pq n) = r"
  "pr_algorithm (mk_primitive r a pq n) = a"
  "pr_parameters (mk_primitive r a pq n) = []"
  "pr_pq_resistant (mk_primitive r a pq n) = pq"
  "pr_nist (mk_primitive r a pq n) = n"
  by (simp_all add: mk_primitive_def)

text \<open>The canonical score is antitone in the ordinal scale and lies in the unit interval.\<close>

fun agility_rank :: "agility_level \<Rightarrow> nat" where
  "agility_rank Negotiated = 0"
| "agility_rank Configurable = 1"
| "agility_rank Pinned = 2"
| "agility_rank Locked = 3"
| "agility_rank Frozen = 4"

lemma agility_score_range: "0 \<le> agility_score l" "agility_score l \<le> 1"
  by (cases l; simp)+

lemma agility_score_antimono: "agility_rank a \<le> agility_rank b \<longleftrightarrow> agility_score b \<le> agility_score a"
  by (cases a; cases b; simp)

end
