(* ===== verification/Tls_Parser.thy ===== *)
theory Tls_Parser
  imports Core_Types
begin

unbundle bit_operations_syntax

text \<open>
  The TLS handshake parser of src/crates/ree0xq-net/src/tls/mod.rs: the byte
  cursor, \<open>parse_handshake\<close> with its two loops, and, as the specification it
  is checked against, an encoder of hello messages.  \<open>usize\<close> offsets are
  naturals: they stay below the buffer length plus $2^{17}$, far from wrap-around.
\<close>

section \<open>Data\<close>

datatype handshake_kind = ClientHello | ServerHello

record handshake_summary =
  msg_kind :: handshake_kind
  legacy_version :: u16
  ciphersuites :: "u16 list"
  supported_groups :: "u16 list"
  signature_schemes :: "u16 list"
  supported_versions :: "u16 list"

datatype parse_error =
    Truncated nat nat
  | UnsupportedKind u8
  | LengthMismatch nat nat

section \<open>The cursor\<close>

record cursor =
  buf :: bytes
  pos :: nat

definition cursor_new :: "bytes \<Rightarrow> cursor" where
  "cursor_new b = \<lparr>buf = b, pos = 0\<rparr>"

definition remaining :: "cursor \<Rightarrow> nat" where
  "remaining c = length (buf c) - pos c"

definition need :: "nat \<Rightarrow> cursor \<Rightarrow> (parse_error, unit) result" where
  "need n c = (if remaining c < n then Inl (Truncated (pos c) (n - remaining c)) else Inr ())"

definition read_u8 :: "cursor \<Rightarrow> (parse_error, u8 \<times> cursor) result" where
  "read_u8 c = rbind (need 1 c) (\<lambda>_.
     Inr (buf c ! pos c, c\<lparr>pos := pos c + 1\<rparr>))"

definition u16_from_be :: "u8 \<Rightarrow> u8 \<Rightarrow> u16" where
  "u16_from_be a b = (push_bit 8 (ucast a)) OR ucast b"

definition read_u16 :: "cursor \<Rightarrow> (parse_error, u16 \<times> cursor) result" where
  "read_u16 c = rbind (need 2 c) (\<lambda>_.
     Inr (u16_from_be (buf c ! pos c) (buf c ! (pos c + 1)), c\<lparr>pos := pos c + 2\<rparr>))"

definition read_u24 :: "cursor \<Rightarrow> (parse_error, u32 \<times> cursor) result" where
  "read_u24 c = rbind (need 3 c) (\<lambda>_.
     Inr ((push_bit 16 (ucast (buf c ! pos c)) OR push_bit 8 (ucast (buf c ! (pos c + 1))))
            OR ucast (buf c ! (pos c + 2)),
          c\<lparr>pos := pos c + 3\<rparr>))"

definition advance :: "nat \<Rightarrow> cursor \<Rightarrow> (parse_error, cursor) result" where
  "advance n c = rbind (need n c) (\<lambda>_. Inr (c\<lparr>pos := pos c + n\<rparr>))"

section \<open>The parser\<close>

text \<open>\<open>while c.pos < inner_end { v.push(c.read_u16()?) }\<close>\<close>

lemma read_u16_pos: "read_u16 c = Inr (v, c') \<Longrightarrow> pos c' = pos c + 2 \<and> buf c' = buf c"
  by (auto simp: read_u16_def rbind_eq_Inr)

function read_u16s_until :: "nat \<Rightarrow> u16 list \<Rightarrow> cursor \<Rightarrow> (parse_error, u16 list \<times> cursor) result" where
  "read_u16s_until inner_end acc c =
     (if pos c < inner_end
      then (case read_u16 c of
              Inl e \<Rightarrow> Inl e
            | Inr (v, c') \<Rightarrow> read_u16s_until inner_end (acc @ [v]) c')
      else Inr (acc, c))"
  by pat_completeness auto
termination
  by (relation "measure (\<lambda>(e, acc, c). e - pos c)") (auto dest!: read_u16_pos [OF sym] read_u16_pos)

text \<open>\<open>for _ in 0..n { v.push(c.read_u16()?) }\<close>\<close>

fun read_u16s :: "nat \<Rightarrow> cursor \<Rightarrow> (parse_error, u16 list \<times> cursor) result" where
  "read_u16s 0 c = Inr ([], c)"
| "read_u16s (Suc n) c =
     rbind (read_u16 c) (\<lambda>(v, c). rbind (read_u16s n c) (\<lambda>(vs, c). Inr (v # vs, c)))"

text \<open>One arm of the extension \<open>match\<close>; the cursor it leaves is overwritten by the resync.\<close>

definition parse_extension ::
  "handshake_kind \<Rightarrow> u16 \<Rightarrow> handshake_summary \<Rightarrow> cursor \<Rightarrow> (parse_error, handshake_summary) result" where
  "parse_extension kind ext_type s c =
     (if ext_type = 0x000a then
        rbind (read_u16 c) (\<lambda>(inner_len, c).
        rbind (read_u16s_until (pos c + unat inner_len) (supported_groups s) c) (\<lambda>(gs, c).
        Inr (s\<lparr>supported_groups := gs\<rparr>)))
      else if ext_type = 0x000d then
        rbind (read_u16 c) (\<lambda>(inner_len, c).
        rbind (read_u16s_until (pos c + unat inner_len) (signature_schemes s) c) (\<lambda>(gs, c).
        Inr (s\<lparr>signature_schemes := gs\<rparr>)))
      else if ext_type = 0x002b then
        (if kind = ClientHello then
           rbind (read_u8 c) (\<lambda>(inner_len, c).
           rbind (read_u16s_until (pos c + unat inner_len) (supported_versions s) c) (\<lambda>(gs, c).
           Inr (s\<lparr>supported_versions := gs\<rparr>)))
         else
           rbind (read_u16 c) (\<lambda>(v, c).
           Inr (s\<lparr>supported_versions := supported_versions s @ [v]\<rparr>)))
      else Inr s)"

function parse_extensions ::
  "handshake_kind \<Rightarrow> nat \<Rightarrow> handshake_summary \<Rightarrow> cursor \<Rightarrow> (parse_error, handshake_summary) result" where
  "parse_extensions kind ext_end s c =
     (if pos c < ext_end then
        (case read_u16 c of
           Inl e \<Rightarrow> Inl e
         | Inr (ext_type, c1) \<Rightarrow>
             (case read_u16 c1 of
                Inl e \<Rightarrow> Inl e
              | Inr (ext_len, c2) \<Rightarrow>
                  (case parse_extension kind ext_type s c2 of
                     Inl e \<Rightarrow> Inl e
                   | Inr s' \<Rightarrow>
                       parse_extensions kind ext_end s' (c2\<lparr>pos := pos c2 + unat ext_len\<rparr>))))
      else Inr s)"
  by pat_completeness auto
termination
  by (relation "measure (\<lambda>(k, e, s, c). e - pos c)") (auto dest!: read_u16_pos [OF sym] read_u16_pos)

declare read_u16s_until.simps [simp del] parse_extensions.simps [simp del]

definition parse_handshake_body ::
  "handshake_kind \<Rightarrow> handshake_summary \<Rightarrow> cursor \<Rightarrow> (parse_error, handshake_summary \<times> cursor) result" where
  "parse_handshake_body kind s c = (case kind of
     ClientHello \<Rightarrow>
       rbind (read_u16 c) (\<lambda>(cs_bytes, c).
       if \<not> 2 dvd unat cs_bytes then Inl (LengthMismatch (unat cs_bytes) (remaining c))
       else rbind (read_u16s (unat cs_bytes div 2) c) (\<lambda>(cs, c).
       rbind (read_u8 c) (\<lambda>(comp_len, c).
       rbind (advance (unat comp_len) c) (\<lambda>c.
       Inr (s\<lparr>ciphersuites := ciphersuites s @ cs\<rparr>, c)))))
   | ServerHello \<Rightarrow>
       rbind (read_u16 c) (\<lambda>(cs, c).
       rbind (advance 1 c) (\<lambda>c.
       Inr (s\<lparr>ciphersuites := ciphersuites s @ [cs]\<rparr>, c))))"

definition parse_handshake_exts ::
  "handshake_kind \<Rightarrow> handshake_summary \<Rightarrow> cursor \<Rightarrow> (parse_error, handshake_summary) result" where
  "parse_handshake_exts kind s c =
     (if remaining c < 2 then Inr s
      else rbind (read_u16 c) (\<lambda>(ext_bytes, c).
        if remaining c < unat ext_bytes
        then Inl (LengthMismatch (unat ext_bytes) (remaining c))
        else parse_extensions kind (pos c + unat ext_bytes) s c))"

definition handshake_kind_of :: "u8 \<Rightarrow> (parse_error, handshake_kind) result" where
  "handshake_kind_of b =
     (if b = 0x01 then Inr ClientHello
      else if b = 0x02 then Inr ServerHello
      else Inl (UnsupportedKind b))"

definition empty_summary :: "handshake_kind \<Rightarrow> u16 \<Rightarrow> handshake_summary" where
  "empty_summary kind v =
     \<lparr>msg_kind = kind, legacy_version = v, ciphersuites = [], supported_groups = [],
      signature_schemes = [], supported_versions = []\<rparr>"

definition parse_handshake :: "bytes \<Rightarrow> (parse_error, handshake_summary) result" where
  "parse_handshake b =
     rbind (read_u8 (cursor_new b)) (\<lambda>(kind_byte, c).
     rbind (handshake_kind_of kind_byte) (\<lambda>kind.
     rbind (read_u24 c) (\<lambda>(total_len, c).
     if remaining c < unat total_len
     then Inl (LengthMismatch (unat total_len) (remaining c))
     else
     rbind (read_u16 c) (\<lambda>(version, c).
     rbind (advance 32 c) (\<lambda>c.
     rbind (read_u8 c) (\<lambda>(sid_len, c).
     rbind (advance (unat sid_len) c) (\<lambda>c.
     rbind (parse_handshake_body kind (empty_summary kind version) c) (\<lambda>(s, c).
     parse_handshake_exts kind s c))))))))"

section \<open>What the cursor reads\<close>

declare add_2_eq_Suc [simp del] add_2_eq_Suc' [simp del]

definition rest :: "cursor \<Rightarrow> bytes" where
  "rest c = drop (pos c) (buf c)"

lemma remaining_rest: "remaining c = length (rest c)"
  by (simp add: remaining_def rest_def)

lemma rest_advance [simp]: "rest (c\<lparr>pos := pos c + n\<rparr>) = drop n (rest c)"
  by (simp add: rest_def add.commute)

lemma rest_Suc [simp]: "rest (c\<lparr>pos := Suc (pos c)\<rparr>) = drop 1 (rest c)"
  using rest_advance [of c 1] by simp

lemma rest_new [simp]: "rest (cursor_new b) = b" "pos (cursor_new b) = 0" "buf (cursor_new b) = b"
  by (simp_all add: rest_def cursor_new_def)

lemma rest_nth: "i < length (rest c) \<Longrightarrow> buf c ! (pos c + i) = rest c ! i"
  by (simp add: rest_def)

lemma need_rest:
  "need n c = (if length (rest c) < n then Inl (Truncated (pos c) (n - length (rest c))) else Inr ())"
  by (simp add: need_def remaining_rest)

lemma read_u8_cons [res_simps]:
  "rest c = x # r \<Longrightarrow> read_u8 c = Inr (x, c\<lparr>pos := pos c + 1\<rparr>)"
  using rest_nth [of 0 c] by (simp add: read_u8_def need_rest)

lemma read_u8_nil: "rest c = [] \<Longrightarrow> read_u8 c = Inl (Truncated (pos c) 1)"
  by (simp add: read_u8_def need_rest)

lemma read_u16_cons [res_simps]:
  "rest c = x # y # r \<Longrightarrow> read_u16 c = Inr (u16_from_be x y, c\<lparr>pos := pos c + 2\<rparr>)"
  using rest_nth [of 0 c] rest_nth [of 1 c] by (simp add: read_u16_def need_rest)

lemma read_u16_short:
  "length (rest c) < 2 \<Longrightarrow> read_u16 c = Inl (Truncated (pos c) (2 - length (rest c)))"
  by (simp add: read_u16_def need_rest)

lemma advance_ok [res_simps]:
  "n \<le> length (rest c) \<Longrightarrow> advance n c = Inr (c\<lparr>pos := pos c + n\<rparr>)"
  by (simp add: advance_def need_rest)

lemma advance_short:
  "length (rest c) < n \<Longrightarrow> advance n c = Inl (Truncated (pos c) (n - length (rest c)))"
  by (simp add: advance_def need_rest)

section \<open>The reference encoder\<close>

definition u16_to_be :: "u16 \<Rightarrow> bytes" where
  "u16_to_be v = [ucast (drop_bit 8 v), ucast v]"

definition u24_to_be :: "nat \<Rightarrow> bytes" where
  "u24_to_be n = [word_of_nat (n div 65536), word_of_nat (n div 256), word_of_nat n]"

lemma u16_be_roundtrip [simp]: "u16_from_be (ucast (drop_bit 8 v)) (ucast v) = v"
  unfolding u16_from_be_def
  by (rule bit_word_eqI) (auto simp: bit_simps)

lemma length_u16_to_be [simp]: "length (u16_to_be v) = 2"
  by (simp add: u16_to_be_def)

lemma length_u24_to_be [simp]: "length (u24_to_be v) = 3"
  by (simp add: u24_to_be_def)

lemma u24_be_roundtrip:
  assumes "n < 2 ^ 24"
  shows "unat ((push_bit 16 (ucast (word_of_nat (n div 65536) :: u8)) OR
           push_bit 8 (ucast (word_of_nat (n div 256) :: u8))) OR
           ucast (word_of_nat n :: u8) :: u32) = n"
proof -
  have "(push_bit 16 (ucast (word_of_nat (n div 65536) :: u8)) OR
           push_bit 8 (ucast (word_of_nat (n div 256) :: u8))) OR
           ucast (word_of_nat n :: u8) = (word_of_nat n :: u32)"
  proof (rule bit_word_eqI)
    fix k assume k: "k < LENGTH(32)"
    have high: "\<not> bit n k" if "24 \<le> k"
    proof -
      have "n < 2 ^ k" using assms that by (meson less_le_trans one_le_numeral power_increasing)
      then show ?thesis by (simp add: bit_iff_odd)
    qed
    have d16: "bit (n div 65536) i = bit n (i + 16)" for i
      using bit_drop_bit_eq [of 16 n] by (simp add: drop_bit_eq_div fun_eq_iff add.commute)
    have d8: "bit (n div 256) i = bit n (i + 8)" for i
      using bit_drop_bit_eq [of 8 n] by (simp add: drop_bit_eq_div fun_eq_iff add.commute)
    show "bit ((push_bit 16 (ucast (word_of_nat (n div 65536) :: u8)) OR
           push_bit 8 (ucast (word_of_nat (n div 256) :: u8))) OR
           ucast (word_of_nat n :: u8) :: u32) k = bit (word_of_nat n :: u32) k"
    proof -
      consider "k < 8" | "8 \<le> k" "k < 16" | "16 \<le> k" "k < 24" | "24 \<le> k" by linarith
      then show ?thesis
        by cases (use k high in \<open>auto simp: bit_simps d16 d8\<close>)
    qed
  qed
  then show ?thesis using assms by (simp add: unat_of_nat take_bit_eq_mod)
qed

datatype wire_ext =
    ExtGroups "u16 list" bytes
  | ExtSchemes "u16 list" bytes
  | ExtVersions "u16 list" bytes
  | ExtOther u16 bytes

record hello =
  he_kind :: handshake_kind
  he_version :: u16
  he_random :: bytes
  he_session :: bytes
  he_suites :: "u16 list"
  he_compression :: bytes
  he_exts :: "wire_ext list option"

definition len16 :: "nat \<Rightarrow> u16" where
  "len16 n = word_of_nat n"

definition len8 :: "nat \<Rightarrow> u8" where
  "len8 n = word_of_nat n"

lemma unat_len [simp]: "n < 65536 \<Longrightarrow> unat (len16 n) = n" "n < 256 \<Longrightarrow> unat (len8 n) = n"
  by (simp_all add: len16_def len8_def unat_of_nat take_bit_eq_mod)

definition encode_u16s :: "u16 list \<Rightarrow> bytes" where
  "encode_u16s vs = concat (map u16_to_be vs)"

lemma length_encode_u16s [simp]: "length (encode_u16s vs) = 2 * length vs"
  by (induction vs) (simp_all add: encode_u16s_def)

lemma encode_u16s_Cons [simp]: "encode_u16s (v # vs) = u16_to_be v @ encode_u16s vs"
  "encode_u16s [] = []"
  by (simp_all add: encode_u16s_def)

definition ext_type_code :: "wire_ext \<Rightarrow> u16" where
  "ext_type_code e = (case e of ExtGroups _ _ \<Rightarrow> 0x000a | ExtSchemes _ _ \<Rightarrow> 0x000d
     | ExtVersions _ _ \<Rightarrow> 0x002b | ExtOther t _ \<Rightarrow> t)"

definition ext_body :: "handshake_kind \<Rightarrow> wire_ext \<Rightarrow> bytes" where
  "ext_body k e = (case e of
     ExtGroups vs pad \<Rightarrow> u16_to_be (len16 (2 * length vs)) @ encode_u16s vs @ pad
   | ExtSchemes vs pad \<Rightarrow> u16_to_be (len16 (2 * length vs)) @ encode_u16s vs @ pad
   | ExtVersions vs pad \<Rightarrow>
       (if k = ClientHello then [len8 (2 * length vs)] else []) @ encode_u16s vs @ pad
   | ExtOther _ d \<Rightarrow> d)"

definition encode_ext :: "handshake_kind \<Rightarrow> wire_ext \<Rightarrow> bytes" where
  "encode_ext k e =
     u16_to_be (ext_type_code e) @ u16_to_be (len16 (length (ext_body k e))) @ ext_body k e"

definition encode_exts :: "handshake_kind \<Rightarrow> wire_ext list \<Rightarrow> bytes" where
  "encode_exts k es = concat (map (encode_ext k) es)"

definition encode_hello_body :: "hello \<Rightarrow> bytes" where
  "encode_hello_body h =
     u16_to_be (he_version h) @ he_random h
     @ [len8 (length (he_session h))] @ he_session h
     @ (case he_kind h of
          ClientHello \<Rightarrow> u16_to_be (len16 (2 * length (he_suites h)))
            @ encode_u16s (he_suites h)
            @ [len8 (length (he_compression h))] @ he_compression h
        | ServerHello \<Rightarrow> encode_u16s (he_suites h) @ he_compression h)
     @ (case he_exts h of
          None \<Rightarrow> []
        | Some es \<Rightarrow> u16_to_be (len16 (length (encode_exts (he_kind h) es)))
            @ encode_exts (he_kind h) es)"

definition kind_code :: "handshake_kind \<Rightarrow> u8" where
  "kind_code k = (case k of ClientHello \<Rightarrow> 0x01 | ServerHello \<Rightarrow> 0x02)"

definition encode_hello :: "hello \<Rightarrow> bytes" where
  "encode_hello h =
     [kind_code (he_kind h)] @ u24_to_be (length (encode_hello_body h)) @ encode_hello_body h"

text \<open>The length fields of the wire format bound what can be encoded.\<close>

definition ext_wf :: "handshake_kind \<Rightarrow> wire_ext \<Rightarrow> bool" where
  "ext_wf k e \<longleftrightarrow> length (ext_body k e) < 65536 \<and>
     (case e of
        ExtVersions vs _ \<Rightarrow> (if k = ClientHello then length vs < 128 else length vs = 1)
      | ExtOther t _ \<Rightarrow> t \<noteq> 0x000a \<and> t \<noteq> 0x000d \<and> t \<noteq> 0x002b
      | _ \<Rightarrow> True)"

definition hello_wf :: "hello \<Rightarrow> bool" where
  "hello_wf h \<longleftrightarrow>
     length (he_random h) = 32 \<and> length (he_session h) < 256 \<and>
     (case he_kind h of
        ClientHello \<Rightarrow> length (he_suites h) < 32768 \<and> length (he_compression h) < 256
      | ServerHello \<Rightarrow> length (he_suites h) = 1 \<and> length (he_compression h) = 1) \<and>
     (case he_exts h of
        None \<Rightarrow> True
      | Some es \<Rightarrow> length (encode_exts (he_kind h) es) < 65536 \<and> list_all (ext_wf (he_kind h)) es)"

text \<open>What a reader of the message should report.\<close>

fun report_ext :: "wire_ext \<Rightarrow> handshake_summary \<Rightarrow> handshake_summary" where
  "report_ext (ExtGroups vs _) s = s\<lparr>supported_groups := supported_groups s @ vs\<rparr>"
| "report_ext (ExtSchemes vs _) s = s\<lparr>signature_schemes := signature_schemes s @ vs\<rparr>"
| "report_ext (ExtVersions vs _) s = s\<lparr>supported_versions := supported_versions s @ vs\<rparr>"
| "report_ext (ExtOther _ _) s = s"

definition report_hello :: "hello \<Rightarrow> handshake_summary" where
  "report_hello h =
     fold report_ext (case he_exts h of None \<Rightarrow> [] | Some es \<Rightarrow> es)
       ((empty_summary (he_kind h) (he_version h))\<lparr>ciphersuites := he_suites h\<rparr>)"

section \<open>Decoding an encoded message\<close>

lemma read_u16_be [res_simps]:
  "rest c = u16_to_be v @ r \<Longrightarrow> read_u16 c = Inr (v, c\<lparr>pos := pos c + 2\<rparr>)"
  by (simp add: u16_to_be_def read_u16_cons)

lemma drop_u16_to_be [simp]: "drop 2 (u16_to_be v @ r) = r"
  by (simp add: u16_to_be_def)

lemma rest_step: "rest c = x @ r \<Longrightarrow> rest (c\<lparr>pos := pos c + length x\<rparr>) = r"
  by simp

lemma rest_step2: "rest (c\<lparr>pos := pos c + n\<rparr>) = x @ r \<Longrightarrow> rest (c\<lparr>pos := pos c + (n + length x)\<rparr>) = r"
  using rest_step [of "c\<lparr>pos := pos c + n\<rparr>" x r] by (simp add: add.assoc)

lemma read_u16s_until_encoded:
  "rest c = encode_u16s vs @ r \<Longrightarrow>
   read_u16s_until (pos c + 2 * length vs) acc c = Inr (acc @ vs, c\<lparr>pos := pos c + 2 * length vs\<rparr>)"
proof (induction vs arbitrary: acc c)
  case Nil
  then show ?case by (simp add: read_u16s_until.simps)
next
  case (Cons v vs)
  let ?c = "c\<lparr>pos := pos c + 2\<rparr>"
  have "rest ?c = encode_u16s vs @ r" using Cons.prems by simp
  from Cons.IH [OF this, of "acc @ [v]"] Cons.prems show ?case
    by (subst read_u16s_until.simps) (simp add: read_u16_be add.assoc)
qed

lemma read_u16s_encoded:
  "rest c = encode_u16s vs @ r \<Longrightarrow>
   read_u16s (length vs) c = Inr (vs, c\<lparr>pos := pos c + 2 * length vs\<rparr>)"
proof (induction vs arbitrary: c)
  case (Cons v vs)
  have "rest (c\<lparr>pos := pos c + 2\<rparr>) = encode_u16s vs @ r" using Cons.prems by simp
  from Cons.IH [OF this] Cons.prems show ?case
    by (simp add: read_u16_be)
qed simp

lemma parse_extension_encoded:
  assumes "rest c = ext_body k e @ r" "ext_wf k e"
  shows "parse_extension k (ext_type_code e) s c = Inr (report_ext e s)"
proof (cases e)
  case (ExtGroups vs pad)
  have "rest (c\<lparr>pos := pos c + 2\<rparr>) = encode_u16s vs @ pad @ r"
    using assms ExtGroups by (simp add: ext_body_def)
  from read_u16s_until_encoded [OF this] assms ExtGroups show ?thesis
    by (simp add: parse_extension_def ext_type_code_def ext_body_def ext_wf_def read_u16_be)
next
  case (ExtSchemes vs pad)
  have "rest (c\<lparr>pos := pos c + 2\<rparr>) = encode_u16s vs @ pad @ r"
    using assms ExtSchemes by (simp add: ext_body_def)
  from read_u16s_until_encoded [OF this] assms ExtSchemes show ?thesis
    by (simp add: parse_extension_def ext_type_code_def ext_body_def ext_wf_def read_u16_be)
next
  case (ExtVersions vs pad)
  show ?thesis
  proof (cases k)
    case ClientHello
    have "rest (c\<lparr>pos := pos c + 1\<rparr>) = encode_u16s vs @ pad @ r"
      using assms ExtVersions ClientHello by (simp add: ext_body_def)
    from read_u16s_until_encoded [OF this] assms ExtVersions ClientHello show ?thesis
      by (simp add: parse_extension_def ext_type_code_def ext_body_def ext_wf_def read_u8_cons)
  next
    case ServerHello
    with assms ExtVersions obtain v where "vs = [v]"
      by (auto simp: ext_wf_def length_Suc_conv)
    with assms ExtVersions ServerHello show ?thesis
      by (simp add: parse_extension_def ext_type_code_def ext_body_def read_u16_be)
  qed
next
  case (ExtOther t d)
  with assms show ?thesis
    by (simp add: parse_extension_def ext_type_code_def ext_wf_def)
qed

lemma parse_extensions_encoded:
  assumes "rest c = encode_exts k es @ r" "list_all (ext_wf k) es"
  shows "parse_extensions k (pos c + length (encode_exts k es)) s c = Inr (fold report_ext es s)"
  using assms
proof (induction es arbitrary: s c)
  case Nil
  then show ?case by (simp add: parse_extensions.simps encode_exts_def)
next
  case (Cons e es)
  let ?n = "length (ext_body k e)"
  let ?c4 = "c\<lparr>pos := pos c + 4\<rparr>" and ?c' = "c\<lparr>pos := pos c + (4 + ?n)\<rparr>"
  have r0: "rest c = u16_to_be (ext_type_code e) @ u16_to_be (len16 ?n) @ ext_body k e
              @ encode_exts k es @ r"
    using Cons.prems by (simp add: encode_exts_def encode_ext_def)
  have r2: "rest (c\<lparr>pos := pos c + 2\<rparr>) = u16_to_be (len16 ?n) @ ext_body k e
              @ encode_exts k es @ r"
    using r0 by simp
  have r4: "rest ?c4 = ext_body k e @ encode_exts k es @ r"
    using rest_step2 [OF r2] by simp
  have r': "rest ?c' = encode_exts k es @ r"
    by (rule rest_step2 [OF r4])
  have wf: "ext_wf k e" "list_all (ext_wf k) es" "?n < 65536"
    using Cons.prems by (auto simp: ext_wf_def [of k e])
  have len: "length (encode_exts k (e # es)) = 4 + ?n + length (encode_exts k es)"
    by (simp add: encode_exts_def encode_ext_def)
  have "parse_extensions k (pos c + length (encode_exts k (e # es))) s c =
        parse_extensions k (pos c + length (encode_exts k (e # es))) (report_ext e s) ?c'"
    using parse_extension_encoded [OF r4 wf(1), of s] wf
    by (subst parse_extensions.simps)
       (simp add: len read_u16_be [OF r0] read_u16_be [OF r2] add.assoc)
  also have "\<dots> = Inr (fold report_ext es (report_ext e s))"
    using Cons.IH [OF r' wf(2), of "report_ext e s"] by (simp add: len ac_simps)
  finally show ?case by simp
qed

lemma parse_handshake_exts_encoded:
  assumes "rest c = u16_to_be (len16 (length (encode_exts k es))) @ encode_exts k es @ r"
    and "length (encode_exts k es) < 65536" "list_all (ext_wf k) es"
  shows "parse_handshake_exts k s c = Inr (fold report_ext es s)"
proof -
  have r2: "rest (c\<lparr>pos := pos c + 2\<rparr>) = encode_exts k es @ r" using assms by simp
  show ?thesis
    using parse_extensions_encoded [OF r2 assms(3), of s] assms
    by (simp add: parse_handshake_exts_def remaining_rest read_u16_be [OF assms(1)] r2)
qed

lemma parse_handshake_body_encoded:
  assumes "hello_wf h" "ciphersuites s = []"
    and "rest c = (case he_kind h of
          ClientHello \<Rightarrow> u16_to_be (len16 (2 * length (he_suites h)))
            @ encode_u16s (he_suites h)
            @ [len8 (length (he_compression h))] @ he_compression h
        | ServerHello \<Rightarrow> encode_u16s (he_suites h) @ he_compression h) @ r"
  obtains c' where "parse_handshake_body (he_kind h) s c = Inr (s\<lparr>ciphersuites := he_suites h\<rparr>, c')"
    "rest c' = r"
proof (cases "he_kind h")
  case ClientHello
  let ?n = "length (he_suites h)" and ?m = "length (he_compression h)"
  have b: "2 * ?n < 65536" "?m < 256" using assms(1) ClientHello by (auto simp: hello_wf_def)
  let ?c2 = "c\<lparr>pos := pos c + 2\<rparr>" and ?c3 = "c\<lparr>pos := pos c + (2 + 2 * ?n)\<rparr>"
  let ?c4 = "c\<lparr>pos := pos c + (2 + 2 * ?n + 1)\<rparr>"
  have r2: "rest ?c2 = encode_u16s (he_suites h) @ [len8 ?m] @ he_compression h @ r"
    using assms(3) ClientHello by simp
  have r3: "rest ?c3 = len8 ?m # he_compression h @ r"
    using rest_step2 [OF r2] by simp
  have r4: "rest ?c4 = he_compression h @ r"
    using rest_step2 [of c "2 + 2 * ?n" "[len8 ?m]"] r3 by simp
  have r5: "rest (?c4\<lparr>pos := pos ?c4 + ?m\<rparr>) = r"
    by (rule rest_step [OF r4])
  have "parse_handshake_body (he_kind h) s c =
      Inr (s\<lparr>ciphersuites := he_suites h\<rparr>, ?c4\<lparr>pos := pos ?c4 + ?m\<rparr>)"
    using assms(2,3) ClientHello b read_u16s_encoded [OF r2] read_u8_cons [OF r3] advance_ok [of ?m ?c4]
    by (simp add: parse_handshake_body_def read_u16_be r4 ac_simps)
  with r5 that show ?thesis by blast
next
  case ServerHello
  obtain v m where vm: "he_suites h = [v]" "he_compression h = [m]"
    using assms(1) ServerHello by (auto simp: hello_wf_def length_Suc_conv)
  let ?c2 = "c\<lparr>pos := pos c + 2\<rparr>"
  have r2: "rest ?c2 = m # r" using assms(3) ServerHello vm by simp
  have r3: "rest (?c2\<lparr>pos := pos ?c2 + 1\<rparr>) = r"
    using rest_step [of ?c2 "[m]" r] r2 by simp
  have "parse_handshake_body (he_kind h) s c =
      Inr (s\<lparr>ciphersuites := he_suites h\<rparr>, ?c2\<lparr>pos := pos ?c2 + 1\<rparr>)"
    using assms(2,3) ServerHello vm advance_ok [of 1 ?c2]
    by (simp add: parse_handshake_body_def read_u16_be r2)
  with r3 that show ?thesis by blast
qed

lemma read_u24_encoded:
  assumes "rest c = u24_to_be n @ r" "n < 2 ^ 24"
  obtains v where "read_u24 c = Inr (v, c\<lparr>pos := pos c + 3\<rparr>)" "unat v = n"
proof -
  have "buf c ! pos c = word_of_nat (n div 65536)" "buf c ! (pos c + 1) = word_of_nat (n div 256)"
    "buf c ! (pos c + 2) = word_of_nat n" "3 \<le> length (rest c)"
    using rest_nth [of 0 c] rest_nth [of 1 c] rest_nth [of 2 c] assms(1)
    by (simp_all add: u24_to_be_def)
  then show ?thesis
    using that u24_be_roundtrip [OF assms(2)] by (simp add: read_u24_def need_rest)
qed

lemma handshake_kind_of_code [simp]: "handshake_kind_of (kind_code k) = Inr k"
  by (cases k) (simp_all add: handshake_kind_of_def kind_code_def)

lemma parse_prefix_encoded:
  assumes "hello_wf h" "length (encode_hello_body h) < 2 ^ 24"
  obtains c where "rest c = drop (35 + length (he_session h)) (encode_hello_body h) @ r"
    "parse_handshake (encode_hello h @ r) =
       rbind (parse_handshake_body (he_kind h) (empty_summary (he_kind h) (he_version h)) c)
         (\<lambda>(s, c). parse_handshake_exts (he_kind h) s c)"
proof -
  let ?b = "encode_hello_body h" and ?sid = "he_session h"
  let ?c0 = "cursor_new (encode_hello h @ r)"
  let ?c1 = "?c0\<lparr>pos := 1\<rparr>" and ?c4 = "?c0\<lparr>pos := 4\<rparr>" and ?c6 = "?c0\<lparr>pos := 6\<rparr>"
  let ?c38 = "?c0\<lparr>pos := 38\<rparr>" and ?c39 = "?c0\<lparr>pos := 39\<rparr>"
  let ?ce = "?c0\<lparr>pos := 39 + length ?sid\<rparr>"
  have wf: "length (he_random h) = 32" "length ?sid < 256" using assms by (auto simp: hello_wf_def)
  obtain t where b: "?b = u16_to_be (he_version h) @ he_random h @ len8 (length ?sid) # ?sid @ t"
    by (simp add: encode_hello_body_def)
  have r0: "rest ?c0 = kind_code (he_kind h) # u24_to_be (length ?b) @ ?b @ r"
    by (simp add: encode_hello_def)
  have r1: "rest ?c1 = u24_to_be (length ?b) @ ?b @ r"
    using r0 by (simp add: rest_def cursor_new_def)
  have r4: "rest ?c4 = ?b @ r" using rest_step2 [of ?c0 1 "u24_to_be (length ?b)"] r1 by simp
  have r6: "rest ?c6 = he_random h @ len8 (length ?sid) # ?sid @ t @ r"
    using rest_step2 [of ?c0 4 "u16_to_be (he_version h)"] r4 b by simp
  have r38: "rest ?c38 = len8 (length ?sid) # ?sid @ t @ r"
    using rest_step2 [of ?c0 6 "he_random h"] r6 wf by simp
  have r39: "rest ?c39 = ?sid @ t @ r"
    using rest_step2 [of ?c0 38 "[len8 (length ?sid)]"] r38 by simp
  have re: "rest ?ce = t @ r"
    using rest_step2 [of ?c0 39 ?sid] r39 by simp
  have tt: "t = drop (35 + length ?sid) ?b" using wf by (simp add: b)
  obtain v where v: "read_u24 ?c1 = Inr (v, ?c4)" "unat v = length ?b"
    using read_u24_encoded [OF r1 assms(2)] by auto
  have v6: "read_u16 ?c4 = Inr (he_version h, ?c6)"
    using read_u16_be [of ?c4 "he_version h"] r4 b by simp
  have "parse_handshake (encode_hello h @ r) =
      rbind (parse_handshake_body (he_kind h) (empty_summary (he_kind h) (he_version h)) ?ce)
        (\<lambda>(s, c). parse_handshake_exts (he_kind h) s c)"
    using read_u8_cons [OF r0] v v6 advance_ok [of 32 ?c6] read_u8_cons [OF r38]
      advance_ok [of "length ?sid" ?c39] wf
    by (simp add: parse_handshake_def remaining_rest r4 r6 r39)
  with re tt that show ?thesis by metis
qed

lemma parse_hello_encoded:
  assumes "hello_wf h" "length (encode_hello_body h) < 2 ^ 24"
    and "he_exts h = None \<Longrightarrow> length trailing < 2"
  shows "parse_handshake (encode_hello h @ trailing) = Inr (report_hello h)"
proof -
  let ?s = "(empty_summary (he_kind h) (he_version h))"
  obtain c where c: "rest c = drop (35 + length (he_session h)) (encode_hello_body h) @ trailing"
    and p: "parse_handshake (encode_hello h @ trailing) =
       rbind (parse_handshake_body (he_kind h) ?s c)
         (\<lambda>(s, c). parse_handshake_exts (he_kind h) s c)"
    using parse_prefix_encoded [OF assms(1,2)] by blast
  let ?exts = "case he_exts h of None \<Rightarrow> []
        | Some es \<Rightarrow> u16_to_be (len16 (length (encode_exts (he_kind h) es)))
            @ encode_exts (he_kind h) es"
  have wf: "length (he_random h) = 32" using assms by (auto simp: hello_wf_def)
  have c': "rest c = (case he_kind h of
          ClientHello \<Rightarrow> u16_to_be (len16 (2 * length (he_suites h)))
            @ encode_u16s (he_suites h)
            @ [len8 (length (he_compression h))] @ he_compression h
        | ServerHello \<Rightarrow> encode_u16s (he_suites h) @ he_compression h) @ ?exts @ trailing"
    using c wf by (simp add: encode_hello_body_def split: handshake_kind.splits)
  obtain c2 where c2: "parse_handshake_body (he_kind h) ?s c = Inr (?s\<lparr>ciphersuites := he_suites h\<rparr>, c2)"
    and r2: "rest c2 = ?exts @ trailing"
    using parse_handshake_body_encoded [OF assms(1) _ c', of ?s] by (auto simp: empty_summary_def)
  show ?thesis
  proof (cases "he_exts h")
    case None
    with r2 assms(3) show ?thesis
      by (simp add: p c2 parse_handshake_exts_def remaining_rest report_hello_def)
  next
    case (Some es)
    then have "rest c2 = u16_to_be (len16 (length (encode_exts (he_kind h) es)))
            @ encode_exts (he_kind h) es @ trailing" using r2 by simp
    from parse_handshake_exts_encoded [OF this] Some assms(1) show ?thesis
      by (simp add: p c2 report_hello_def hello_wf_def)
  qed
qed

text \<open>A buffer that ends inside the message.\<close>

lemma parse_hello_truncated:
  assumes "length (encode_hello_body h) < 2 ^ 24" "4 \<le> n" "n < length (encode_hello h)"
  shows "parse_handshake (take n (encode_hello h)) = Inl (LengthMismatch (length (encode_hello_body h)) (n - 4))"
proof -
  let ?b = "take (n - 4) (encode_hello_body h)"
  have l: "length (encode_hello h) = 4 + length (encode_hello_body h)" by (simp add: encode_hello_def)
  have t: "take n (encode_hello h) =
      kind_code (he_kind h) # u24_to_be (length (encode_hello_body h)) @ ?b"
  proof -
    obtain m where n: "n = 4 + m" using assms(2) le_Suc_ex by blast
    have "take (3 + m) (u24_to_be (length (encode_hello_body h)) @ encode_hello_body h) =
        u24_to_be (length (encode_hello_body h)) @ take m (encode_hello_body h)" by simp
    then show ?thesis using n by (simp add: encode_hello_def numeral_Bit0 numeral_Bit1)
  qed
  let ?c0 = "cursor_new (take n (encode_hello h))"
  let ?c1 = "?c0\<lparr>pos := 1\<rparr>" and ?c4 = "?c0\<lparr>pos := 4\<rparr>"
  have r0: "rest ?c0 = kind_code (he_kind h) # u24_to_be (length (encode_hello_body h)) @ ?b"
    using t by simp
  have r1: "rest ?c1 = u24_to_be (length (encode_hello_body h)) @ ?b"
    using r0 by (simp add: rest_def cursor_new_def)
  have r4: "rest ?c4 = ?b" using rest_step2 [of ?c0 1 "u24_to_be (length (encode_hello_body h))"] r1 by simp
  obtain v where v: "read_u24 ?c1 = Inr (v, ?c4)" "unat v = length (encode_hello_body h)"
    using read_u24_encoded [OF r1 assms(1)] by auto
  have rem: "remaining ?c4 = n - 4" using r4 assms(2,3) l by (simp add: remaining_rest)
  have lt: "n - 4 < unat v" using v(2) assms(2,3) l by simp
  from read_u8_cons [OF r0] v(1) show ?thesis
    by (simp add: parse_handshake_def rem lt) (simp add: v(2))
qed

section \<open>Round trip\<close>

text \<open>C4: parsing the encoding of a well-formed ClientHello or ServerHello yields exactly the
  fields it was built from, whatever the padding inside its extensions and whatever
  bytes follow the message in the buffer (when the message has an extension block;
  without one, fewer than two bytes may follow).\<close>
theorem parse_encode_hello:
  assumes "hello_wf h" "length (encode_hello_body h) < 2 ^ 24"
    and "he_exts h = None \<Longrightarrow> length trailing < 2"
  shows "parse_handshake (encode_hello h @ trailing) = Inr (report_hello h)"
  by (rule parse_hello_encoded [OF assms])

lemma parse_encode_hello_witness:
  "parse_handshake (encode_hello \<lparr>he_kind = ClientHello, he_version = 0x0303,
      he_random = replicate 32 7, he_session = [1, 2], he_suites = [0x1301, 0x1302],
      he_compression = [0], he_exts = Some [ExtOther 0x0000 [9], ExtGroups [0x11ec, 0x001d] [],
        ExtSchemes [0x0403] [0], ExtVersions [0x0304] []]\<rparr> @ [1, 2, 3]) =
   Inr \<lparr>msg_kind = ClientHello, legacy_version = 0x0303, ciphersuites = [0x1301, 0x1302],
     supported_groups = [0x11ec, 0x001d], signature_schemes = [0x0403],
     supported_versions = [0x0304]\<rparr>"
  by (subst parse_encode_hello)
     (simp_all add: hello_wf_def ext_wf_def encode_exts_def encode_ext_def ext_body_def
       encode_hello_body_def report_hello_def empty_summary_def)

section \<open>Errors and offsets on arbitrary input\<close>

definition in_buf :: "bytes \<Rightarrow> cursor \<Rightarrow> bool" where
  "in_buf b c \<longleftrightarrow> buf c = b \<and> pos c \<le> length b"

definition err_in_buf :: "bytes \<Rightarrow> parse_error \<Rightarrow> bool" where
  "err_in_buf b e = (case e of
     Truncated off n \<Rightarrow> off \<le> length b \<and> 0 < n \<and> (length b - off) + n \<le> 255
   | LengthMismatch claimed available \<Rightarrow> available \<le> length b \<and> (available < claimed \<or> odd claimed)
   | UnsupportedKind k \<Rightarrow> k \<noteq> 1 \<and> k \<noteq> 2)"

text \<open>\<open>safe b P r\<close>: an error of \<open>r\<close> is located inside the buffer, a result satisfies \<open>P\<close>.\<close>

definition safe :: "bytes \<Rightarrow> ('a \<Rightarrow> bool) \<Rightarrow> (parse_error, 'a) result \<Rightarrow> bool" where
  "safe b P r = (case r of Inl e \<Rightarrow> err_in_buf b e | Inr a \<Rightarrow> P a)"

lemma safe_simps [simp]: "safe b P (Inl e) = err_in_buf b e" "safe b P (Inr a) = P a"
  by (simp_all add: safe_def)

lemma safe_rbind: "safe b Q r \<Longrightarrow> (\<And>a. Q a \<Longrightarrow> safe b P (f a)) \<Longrightarrow> safe b P (rbind r f)"
  by (cases r) auto

lemma safe_mono: "safe b Q r \<Longrightarrow> (\<And>a. Q a \<Longrightarrow> P a) \<Longrightarrow> safe b P r"
  by (cases r) auto

lemma safe_need: "in_buf b c \<Longrightarrow> n \<le> 255 \<Longrightarrow> safe b (\<lambda>_. pos c + n \<le> length b) (need n c)"
  by (auto simp: need_def remaining_def in_buf_def err_in_buf_def)

lemma safe_read_u8: "in_buf b c \<Longrightarrow> safe b (\<lambda>(v, c'). in_buf b c' \<and> pos c' = pos c + 1) (read_u8 c)"
  unfolding read_u8_def
  by (rule safe_rbind [OF safe_need]) (auto simp: in_buf_def)

lemma safe_read_u16: "in_buf b c \<Longrightarrow> safe b (\<lambda>(v, c'). in_buf b c' \<and> pos c' = pos c + 2) (read_u16 c)"
  unfolding read_u16_def
  by (rule safe_rbind [OF safe_need]) (auto simp: in_buf_def)

lemma safe_read_u24: "in_buf b c \<Longrightarrow> safe b (\<lambda>(v, c'). in_buf b c' \<and> pos c' = pos c + 3) (read_u24 c)"
  unfolding read_u24_def
  by (rule safe_rbind [OF safe_need]) (auto simp: in_buf_def)

lemma safe_advance: "in_buf b c \<Longrightarrow> n \<le> 255 \<Longrightarrow> safe b (in_buf b) (advance n c)"
  unfolding advance_def
  by (rule safe_rbind [OF safe_need]) (auto simp: in_buf_def)

lemma safe_read_u16s_until:
  "in_buf b c \<Longrightarrow> safe b (\<lambda>(vs, c'). in_buf b c') (read_u16s_until e acc c)"
proof (induction e acc c rule: read_u16s_until.induct)
  case (1 e acc c)
  show ?case
  proof (cases "read_u16 c")
    case (Inl err)
    with safe_read_u16 [OF 1(2)] 1(2) show ?thesis by (subst read_u16s_until.simps) simp
  next
    case (Inr r)
    obtain v c' where r: "r = (v, c')" by fastforce
    with Inr safe_read_u16 [OF 1(2)] have "in_buf b c'" by simp
    with 1 Inr r show ?thesis by (subst read_u16s_until.simps) simp
  qed
qed

lemma safe_read_u16s: "in_buf b c \<Longrightarrow> safe b (\<lambda>(vs, c'). in_buf b c') (read_u16s n c)"
proof (induction n arbitrary: c)
  case (Suc n)
  show ?case
    by (simp, rule safe_rbind [OF safe_read_u16 [OF Suc.prems]])
       (auto intro!: safe_rbind [OF Suc.IH])
qed simp

lemma safe_parse_extension: "in_buf b c \<Longrightarrow> safe b (\<lambda>_. True) (parse_extension k t s c)"
  unfolding parse_extension_def
  by (auto intro!: safe_rbind [OF safe_read_u16] safe_rbind [OF safe_read_u8]
        safe_rbind [OF safe_read_u16s_until])

lemma safe_parse_extensions:
  "buf c = b \<Longrightarrow> e \<le> length b \<Longrightarrow> safe b (\<lambda>_. True) (parse_extensions k e s c)"
proof (induction k e s c rule: parse_extensions.induct)
  case (1 k e s c)
  show ?case
  proof (cases "pos c < e")
    case False
    then show ?thesis by (subst parse_extensions.simps) simp
  next
    case True
    then have c: "in_buf b c" using 1 by (simp add: in_buf_def)
    show ?thesis
    proof (cases "read_u16 c")
      case (Inl err)
      with safe_read_u16 [OF c] True show ?thesis by (subst parse_extensions.simps) simp
    next
      case (Inr r)
      obtain t c1 where r: "r = (t, c1)" by fastforce
      with Inr safe_read_u16 [OF c] have c1: "in_buf b c1" by simp
      show ?thesis
      proof (cases "read_u16 c1")
        case (Inl err)
        with safe_read_u16 [OF c1] True Inr r show ?thesis
          by (subst parse_extensions.simps) (simp add: \<open>read_u16 c = _\<close>)
      next
        case (Inr r')
        obtain l c2 where r': "r' = (l, c2)" by fastforce
        with Inr safe_read_u16 [OF c1] have c2: "in_buf b c2" by simp
        show ?thesis
        proof (cases "parse_extension k t s c2")
          case (Inl err)
          with safe_parse_extension [OF c2, of k t s] True Inr r' \<open>read_u16 c = _\<close> r
          show ?thesis by (subst parse_extensions.simps) simp
        next
          case (Inr s')
          have "safe b (\<lambda>_. True) (parse_extensions k e s' (c2\<lparr>pos := pos c2 + unat l\<rparr>))"
            using 1 True \<open>read_u16 c = _\<close> r \<open>read_u16 c1 = _\<close> r' Inr c2
            by (simp add: in_buf_def)
          then show ?thesis
            using True \<open>read_u16 c = _\<close> r \<open>read_u16 c1 = _\<close> r' Inr
            by (subst parse_extensions.simps) simp
        qed
      qed
    qed
  qed
qed

lemma unat_u8_le [simp]: "unat (v :: u8) \<le> 255"
  using unsigned_less [of v, where ?'a = nat] by simp

lemma safe_parse_handshake_body:
  "in_buf b c \<Longrightarrow> safe b (\<lambda>(s, c'). in_buf b c') (parse_handshake_body k s c)"
  unfolding parse_handshake_body_def
  by (cases k)
     (auto intro!: safe_rbind [OF safe_read_u16] safe_rbind [OF safe_read_u8]
        safe_rbind [OF safe_read_u16s] safe_rbind [OF safe_advance]
        simp: err_in_buf_def remaining_def in_buf_def)

lemma safe_parse_handshake_exts: "in_buf b c \<Longrightarrow> safe b (\<lambda>_. True) (parse_handshake_exts k s c)"
  unfolding parse_handshake_exts_def
  by (auto intro!: safe_rbind [OF safe_read_u16] safe_parse_extensions
        simp: err_in_buf_def remaining_def in_buf_def)

lemma safe_handshake_kind_of: "safe b (\<lambda>_. True) (handshake_kind_of v)"
  by (simp add: handshake_kind_of_def err_in_buf_def)

lemma in_buf_new: "in_buf b (cursor_new b)"
  by (simp add: in_buf_def)

lemma safe_parse_handshake: "safe b (\<lambda>_. True) (parse_handshake b)"
  unfolding parse_handshake_def
  by (auto intro!: in_buf_new safe_rbind [OF safe_read_u8] safe_rbind [OF safe_handshake_kind_of]
        safe_rbind [OF safe_read_u24] safe_rbind [OF safe_read_u16] safe_rbind [OF safe_advance]
        safe_rbind [OF safe_parse_handshake_body] safe_parse_handshake_exts
        simp: err_in_buf_def remaining_def in_buf_def)

text \<open>C27: on arbitrary bytes the parser ends, and whatever error it reports is located inside the
  buffer: a truncation names an offset of the buffer and a positive deficit of at most one
  field, a length mismatch an impossible length, an unsupported kind a byte that is not 1 or 2.
  (That it ends is the totality of the two loops, shown by their measures.)\<close>

theorem parse_errors_in_buffer:
  assumes "parse_handshake b = Inl e"
  shows "err_in_buf b e"
  using safe_parse_handshake [of b] by (simp add: assms)

lemma parse_errors_in_buffer_witness: "err_in_buf [1, 0, 0, 4, 3, 3, 0, 0] (Truncated 6 30)"
  by (rule parse_errors_in_buffer) code_simp

text \<open>The declared handshake length does not delimit the message: when a hello without an
  extension block is followed by another message, the bytes of that message are read as the
  length of an extension block, and the whole hello is rejected when they exceed the buffer.\<close>

theorem trailing_bytes_read_as_extensions:
  assumes "hello_wf h" "length (encode_hello_body h) < 2 ^ 24" "he_exts h = None"
    and "trailing = x # y # r" and "length r < unat (u16_from_be x y)"
  shows "parse_handshake (encode_hello h @ trailing)
     = Inl (LengthMismatch (unat (u16_from_be x y)) (length r))"
proof -
  let ?s = "(empty_summary (he_kind h) (he_version h))"
  obtain c where c: "rest c = drop (35 + length (he_session h)) (encode_hello_body h) @ trailing"
    and p: "parse_handshake (encode_hello h @ trailing) =
       rbind (parse_handshake_body (he_kind h) ?s c)
         (\<lambda>(s, c). parse_handshake_exts (he_kind h) s c)"
    using parse_prefix_encoded [OF assms(1,2)] by blast
  have wf: "length (he_random h) = 32" using assms by (auto simp: hello_wf_def)
  have c': "rest c = (case he_kind h of
          ClientHello \<Rightarrow> u16_to_be (len16 (2 * length (he_suites h)))
            @ encode_u16s (he_suites h)
            @ [len8 (length (he_compression h))] @ he_compression h
        | ServerHello \<Rightarrow> encode_u16s (he_suites h) @ he_compression h) @ trailing"
    using c wf assms(3) by (simp add: encode_hello_body_def split: handshake_kind.splits)
  obtain c2 where c2: "parse_handshake_body (he_kind h) ?s c = Inr (?s\<lparr>ciphersuites := he_suites h\<rparr>, c2)"
    and r2: "rest c2 = trailing"
    using parse_handshake_body_encoded [OF assms(1) _ c', of ?s] by (auto simp: empty_summary_def)
  show ?thesis
    unfolding p c2 using assms(4,5) r2
    by (simp add: parse_handshake_exts_def remaining_rest read_u16_cons)
qed

lemma trailing_bytes_read_as_extensions_witness:
  "parse_handshake (encode_hello \<lparr>he_kind = ServerHello, he_version = 0x0301,
      he_random = replicate 32 7, he_session = [], he_suites = [0x002f],
      he_compression = [0], he_exts = None\<rparr> @ [0x0b, 0x00, 0x00, 0x01, 0xff]) =
   Inl (LengthMismatch 2816 3)"
proof -
  have len: "unat (u16_from_be 0x0b 0) = 2816" by code_simp
  show ?thesis
    by (subst trailing_bytes_read_as_extensions [where x = "0x0b" and y = "0" and r = "[0, 1, 0xff]"])
       (simp_all add: hello_wf_def encode_hello_body_def len)
qed

text \<open>Nor does the declared length of an extension: a list of groups may run on over the extensions after it, which
  are read again once the cursor is set back, so the codepoints reported grow with the square of the message.  Here
  three \<open>supported_groups\<close> extensions of 6 bytes give nine codepoints, the bytes of the later ones.\<close>

lemma overlapping_groups_read_again:
  "map_sum (\<lambda>_. ()) supported_groups (parse_handshake ([2, 0, 0, 58, 3, 3] @ replicate 32 7 @ [0, 0x13, 1, 0, 0, 18] @
      [0, 10, 0, 2, 0, 12] @ [0, 10, 0, 2, 0, 6] @ [0, 10, 0, 2, 0, 0])) =
   Inr [10, 2, 6, 10, 2, 0, 10, 2, 0]"
  by code_simp

end
