(* ===== verification/Algo_Tables.thy ===== *)
theory Algo_Tables
  imports Tls_Parser
begin

text \<open>
  The classification tables of src/crates/ree0xq-net/src/algos.rs and the
  codepoint tables and \<open>primitives_from_summary\<close> of
  src/crates/ree0xq-net/src/tls/mod.rs.  A \<open>match\<close> on string literals is an
  association list; the literals of one \<open>match\<close> are distinct, so the first match is
  the only one.
\<close>

section \<open>TLS ciphersuites\<close>

definition tls13_encrypt_table :: "(string \<times> string \<times> bool option) list" where
  "tls13_encrypt_table =
     [(''TLS_AES_128_GCM_SHA256'', ''AES-128-GCM'', Some False),
      (''TLS_AES_256_GCM_SHA384'', ''AES-256-GCM'', Some True),
      (''TLS_CHACHA20_POLY1305_SHA256'', ''ChaCha20-Poly1305'', Some True),
      (''TLS_AES_128_CCM_SHA256'', ''AES-128-CCM'', Some False),
      (''TLS_AES_128_CCM_8_SHA256'', ''AES-128-CCM-8'', Some False)]"

definition primitives_from_tls13_ciphersuite :: "string \<Rightarrow> primitive list" where
  "primitives_from_tls13_ciphersuite name =
     (case map_of tls13_encrypt_table name of
        None \<Rightarrow> []
      | Some (encrypt_algo, encrypt_pq) \<Rightarrow>
          (let enc = mk_primitive Encrypt encrypt_algo encrypt_pq None in
           if ends_with name ''SHA384'' then [enc, mk_primitive Hash ''SHA-384'' (Some True) None]
           else if ends_with name ''SHA256'' then [enc, mk_primitive Hash ''SHA-256'' (Some True) None]
           else [enc]))"

definition tls12_kex :: "string \<Rightarrow> string option" where
  "tls12_kex name =
     (if contains name ''_ECDHE_'' then Some ''ECDHE''
      else if contains name ''_DHE_'' then Some ''DHE''
      else if contains name ''_ECDH_'' then Some ''ECDH''
      else if contains name ''_RSA_'' \<and> \<not> contains name ''_DHE_'' \<and> \<not> contains name ''_ECDHE_''
        then Some ''RSA-KEX''
      else None)"

definition tls12_sig :: "string \<Rightarrow> string option" where
  "tls12_sig name =
     (if contains name ''_ECDSA_'' then Some ''ECDSA''
      else if contains name ''_RSA_'' then Some ''RSA''
      else if contains name ''_DSS_'' then Some ''DSA''
      else if contains name ''_anon_'' then Some ''anonymous''
      else None)"

definition tls12_encrypt :: "string \<Rightarrow> (string \<times> bool option) option" where
  "tls12_encrypt name =
     (if contains name ''_AES_256_GCM'' then Some (''AES-256-GCM'', Some True)
      else if contains name ''_AES_128_GCM'' then Some (''AES-128-GCM'', Some False)
      else if contains name ''_AES_256_CBC'' then Some (''AES-256-CBC'', Some False)
      else if contains name ''_AES_128_CBC'' then Some (''AES-128-CBC'', Some False)
      else if contains name ''_CHACHA20_POLY1305'' then Some (''ChaCha20-Poly1305'', Some True)
      else if contains name ''_3DES_'' then Some (''3DES'', Some False)
      else if contains name ''_RC4_'' then Some (''RC4'', Some False)
      else if contains name ''_NULL_'' then Some (''NULL'', Some False)
      else None)"

definition tls12_hash :: "string \<Rightarrow> (string \<times> bool option) option" where
  "tls12_hash name =
     (if ends_with name ''_SHA384'' then Some (''SHA-384'', Some True)
      else if ends_with name ''_SHA256'' then Some (''SHA-256'', Some True)
      else if ends_with name ''_SHA'' then Some (''SHA-1'', Some False)
      else if ends_with name ''_MD5'' then Some (''MD5'', Some False)
      else None)"

definition primitives_from_tls12_ciphersuite :: "string \<Rightarrow> primitive list" where
  "primitives_from_tls12_ciphersuite name =
     (case tls12_kex name of
        None \<Rightarrow> []
      | Some kex_alg \<Rightarrow>
          (let pq = (if kex_alg = ''RSA-KEX'' then Some False else None) in
           [mk_primitive Kex kex_alg (case pq of None \<Rightarrow> Some False | Some b \<Rightarrow> Some b) None]))
     @ (case tls12_sig name of
          None \<Rightarrow> []
        | Some sig_alg \<Rightarrow> [mk_primitive Sig sig_alg (Some False) None])
     @ (case tls12_encrypt name of
          None \<Rightarrow> []
        | Some (enc, pq) \<Rightarrow> [mk_primitive Encrypt enc pq None])
     @ (case tls12_hash name of
          None \<Rightarrow> []
        | Some (h, pq) \<Rightarrow> [mk_primitive Hash h pq None])"

section \<open>Named groups and signature schemes\<close>

definition supported_group_table :: "(string \<times> string \<times> bool option \<times> nist_level option) list" where
  "supported_group_table =
     [(''secp256r1'', ''ECDHE-P256'', Some False, None),
      (''P-256'', ''ECDHE-P256'', Some False, None),
      (''prime256v1'', ''ECDHE-P256'', Some False, None),
      (''secp384r1'', ''ECDHE-P384'', Some False, None),
      (''P-384'', ''ECDHE-P384'', Some False, None),
      (''secp521r1'', ''ECDHE-P521'', Some False, None),
      (''P-521'', ''ECDHE-P521'', Some False, None),
      (''x25519'', ''X25519'', Some False, None),
      (''X25519'', ''X25519'', Some False, None),
      (''x448'', ''X448'', Some False, None),
      (''X448'', ''X448'', Some False, None),
      (''ffdhe2048'', ''DHE-2048'', Some False, None),
      (''ffdhe3072'', ''DHE-3072'', Some False, None),
      (''ffdhe4096'', ''DHE-4096'', Some False, None),
      (''MLKEM512'', ''ML-KEM-512'', Some True, Some L1),
      (''mlkem512'', ''ML-KEM-512'', Some True, Some L1),
      (''ML-KEM-512'', ''ML-KEM-512'', Some True, Some L1),
      (''MLKEM768'', ''ML-KEM-768'', Some True, Some L3),
      (''mlkem768'', ''ML-KEM-768'', Some True, Some L3),
      (''ML-KEM-768'', ''ML-KEM-768'', Some True, Some L3),
      (''MLKEM1024'', ''ML-KEM-1024'', Some True, Some L5),
      (''mlkem1024'', ''ML-KEM-1024'', Some True, Some L5),
      (''ML-KEM-1024'', ''ML-KEM-1024'', Some True, Some L5),
      (''X25519MLKEM768'', ''X25519+ML-KEM-768'', Some True, Some L3),
      (''x25519mlkem768'', ''X25519+ML-KEM-768'', Some True, Some L3),
      (''X25519Kyber768Draft00'', ''X25519+ML-KEM-768'', Some True, Some L3),
      (''SecP256r1MLKEM768'', ''ECDHE-P256+ML-KEM-768'', Some True, Some L3),
      (''secp256r1mlkem768'', ''ECDHE-P256+ML-KEM-768'', Some True, Some L3),
      (''P384MLKEM1024'', ''ECDHE-P384+ML-KEM-1024'', Some True, Some L5),
      (''secp384r1mlkem1024'', ''ECDHE-P384+ML-KEM-1024'', Some True, Some L5)]"

definition primitive_from_supported_group :: "string \<Rightarrow> primitive option" where
  "primitive_from_supported_group name =
     (case map_of supported_group_table name of
        None \<Rightarrow> None
      | Some (algo, pq, nist) \<Rightarrow>
          Some \<lparr>pr_role = Kex, pr_algorithm = algo,
                pr_parameters = obj_insert ''named_group'' (JStr name) [],
                pr_pq_resistant = pq, pr_nist = nist\<rparr>)"

definition signature_scheme_table :: "(string \<times> string \<times> bool option \<times> nist_level option) list" where
  "signature_scheme_table =
     [(''rsa_pss_rsae_sha256'', ''RSA-PSS-SHA256'', Some False, None),
      (''rsa_pss_pss_sha256'', ''RSA-PSS-SHA256'', Some False, None),
      (''rsa_pss_rsae_sha384'', ''RSA-PSS-SHA384'', Some False, None),
      (''rsa_pss_pss_sha384'', ''RSA-PSS-SHA384'', Some False, None),
      (''rsa_pss_rsae_sha512'', ''RSA-PSS-SHA512'', Some False, None),
      (''rsa_pss_pss_sha512'', ''RSA-PSS-SHA512'', Some False, None),
      (''rsa_pkcs1_sha1'', ''RSA-PKCS1-SHA1'', Some False, None),
      (''rsa_pkcs1_sha256'', ''RSA-PKCS1-SHA256'', Some False, None),
      (''rsa_pkcs1_sha384'', ''RSA-PKCS1-SHA384'', Some False, None),
      (''rsa_pkcs1_sha512'', ''RSA-PKCS1-SHA512'', Some False, None),
      (''ecdsa_secp256r1_sha256'', ''ECDSA-P256'', Some False, None),
      (''ecdsa_secp384r1_sha384'', ''ECDSA-P384'', Some False, None),
      (''ecdsa_secp521r1_sha512'', ''ECDSA-P521'', Some False, None),
      (''ed25519'', ''Ed25519'', Some False, None),
      (''ed448'', ''Ed448'', Some False, None),
      (''mldsa44'', ''ML-DSA-44'', Some True, Some L1),
      (''ML-DSA-44'', ''ML-DSA-44'', Some True, Some L1),
      (''dilithium2'', ''ML-DSA-44'', Some True, Some L1),
      (''mldsa65'', ''ML-DSA-65'', Some True, Some L3),
      (''ML-DSA-65'', ''ML-DSA-65'', Some True, Some L3),
      (''dilithium3'', ''ML-DSA-65'', Some True, Some L3),
      (''mldsa87'', ''ML-DSA-87'', Some True, Some L5),
      (''ML-DSA-87'', ''ML-DSA-87'', Some True, Some L5),
      (''dilithium5'', ''ML-DSA-87'', Some True, Some L5),
      (''slhdsa_sha2_128s'', ''SLH-DSA-SHA2-128s'', Some True, Some L1),
      (''SLH-DSA-SHA2-128S'', ''SLH-DSA-SHA2-128s'', Some True, Some L1),
      (''sphincs_sha2_128s'', ''SLH-DSA-SHA2-128s'', Some True, Some L1),
      (''slhdsa_sha2_256s'', ''SLH-DSA-SHA2-256s'', Some True, Some L5),
      (''SLH-DSA-SHA2-256S'', ''SLH-DSA-SHA2-256s'', Some True, Some L5),
      (''sha1_dsa'', ''DSA-SHA1'', Some False, None),
      (''dsa_sha1'', ''DSA-SHA1'', Some False, None)]"

definition primitive_from_signature_scheme :: "string \<Rightarrow> primitive option" where
  "primitive_from_signature_scheme name =
     (case map_of signature_scheme_table name of
        None \<Rightarrow> None
      | Some (algo, pq, nist) \<Rightarrow> Some (mk_primitive Sig algo pq nist))"

section \<open>Codepoints\<close>

definition ciphersuite_table :: "(u16 \<times> string) list" where
  "ciphersuite_table =
     [(0x1301, ''TLS_AES_128_GCM_SHA256''),
      (0x1302, ''TLS_AES_256_GCM_SHA384''),
      (0x1303, ''TLS_CHACHA20_POLY1305_SHA256''),
      (0x1304, ''TLS_AES_128_CCM_SHA256''),
      (0x1305, ''TLS_AES_128_CCM_8_SHA256''),
      (0xc02f, ''TLS_ECDHE_RSA_WITH_AES_128_GCM_SHA256''),
      (0xc030, ''TLS_ECDHE_RSA_WITH_AES_256_GCM_SHA384''),
      (0xc02b, ''TLS_ECDHE_ECDSA_WITH_AES_128_GCM_SHA256''),
      (0xc02c, ''TLS_ECDHE_ECDSA_WITH_AES_256_GCM_SHA384''),
      (0xcca8, ''TLS_ECDHE_RSA_WITH_CHACHA20_POLY1305_SHA256''),
      (0xcca9, ''TLS_ECDHE_ECDSA_WITH_CHACHA20_POLY1305_SHA256''),
      (0xc013, ''TLS_ECDHE_RSA_WITH_AES_128_CBC_SHA''),
      (0xc014, ''TLS_ECDHE_RSA_WITH_AES_256_CBC_SHA''),
      (0x009c, ''TLS_RSA_WITH_AES_128_GCM_SHA256''),
      (0x009d, ''TLS_RSA_WITH_AES_256_GCM_SHA384''),
      (0x002f, ''TLS_RSA_WITH_AES_128_CBC_SHA''),
      (0x0035, ''TLS_RSA_WITH_AES_256_CBC_SHA''),
      (0x000a, ''TLS_RSA_WITH_3DES_EDE_CBC_SHA''),
      (0x0005, ''TLS_RSA_WITH_RC4_128_SHA'')]"

definition ciphersuite_name :: "u16 \<Rightarrow> string option" where
  "ciphersuite_name code = map_of ciphersuite_table code"

definition named_group_table :: "(u16 \<times> string) list" where
  "named_group_table =
     [(0x0017, ''secp256r1''), (0x0018, ''secp384r1''), (0x0019, ''secp521r1''),
      (0x001d, ''x25519''), (0x001e, ''x448''),
      (0x0100, ''ffdhe2048''), (0x0101, ''ffdhe3072''), (0x0102, ''ffdhe4096''),
      (0x11ec, ''X25519MLKEM768''), (0x11eb, ''SecP256r1MLKEM768''),
      (0x11ed, ''P384MLKEM1024''),
      (0x0768, ''MLKEM768''), (0x0769, ''MLKEM512''), (0x076a, ''MLKEM1024'')]"

definition named_group_name :: "u16 \<Rightarrow> string option" where
  "named_group_name code = map_of named_group_table code"

definition signature_code_table :: "(u16 \<times> string) list" where
  "signature_code_table =
     [(0x0201, ''rsa_pkcs1_sha1''), (0x0401, ''rsa_pkcs1_sha256''),
      (0x0501, ''rsa_pkcs1_sha384''), (0x0601, ''rsa_pkcs1_sha512''),
      (0x0804, ''rsa_pss_rsae_sha256''), (0x0805, ''rsa_pss_rsae_sha384''),
      (0x0806, ''rsa_pss_rsae_sha512''), (0x0809, ''rsa_pss_pss_sha256''),
      (0x080a, ''rsa_pss_pss_sha384''), (0x080b, ''rsa_pss_pss_sha512''),
      (0x0403, ''ecdsa_secp256r1_sha256''), (0x0503, ''ecdsa_secp384r1_sha384''),
      (0x0603, ''ecdsa_secp521r1_sha512''),
      (0x0807, ''ed25519''), (0x0808, ''ed448''),
      (0x0904, ''mldsa44''), (0x0905, ''mldsa65''), (0x0906, ''mldsa87''),
      (0x0910, ''slhdsa_sha2_128s''), (0x0911, ''slhdsa_sha2_256s'')]"

definition signature_scheme_name :: "u16 \<Rightarrow> string option" where
  "signature_scheme_name code = map_of signature_code_table code"

text \<open>The loop over the suites breaks at the first suite with a name.\<close>

fun first_suite_primitives :: "u16 list \<Rightarrow> primitive list" where
  "first_suite_primitives [] = []"
| "first_suite_primitives (cs # css) =
     (case ciphersuite_name cs of
        Some name \<Rightarrow>
          (if starts_with name ''TLS_AES_'' \<or> starts_with name ''TLS_CHACHA20_''
           then primitives_from_tls13_ciphersuite name
           else primitives_from_tls12_ciphersuite name)
      | None \<Rightarrow> first_suite_primitives css)"

definition group_primitive :: "u16 \<Rightarrow> primitive option" where
  "group_primitive g = Option.bind (named_group_name g) primitive_from_supported_group"

definition scheme_primitive :: "u16 \<Rightarrow> primitive option" where
  "scheme_primitive s = Option.bind (signature_scheme_name s) primitive_from_signature_scheme"

definition primitives_from_summary :: "handshake_summary \<Rightarrow> primitive list" where
  "primitives_from_summary s =
     first_suite_primitives (ciphersuites s)
     @ List.map_filter group_primitive (supported_groups s)
     @ List.map_filter scheme_primitive (signature_schemes s)"

end
