(* ===== verification/Pq_Probe.thy ===== *)
theory Pq_Probe
  imports Algo_Tables
begin

text \<open>
  The PQ probe of src/crates/ree0xq-net/src/pq_probe.rs.  The network, rustls and
  the X.509 parser are outside the repository: what they return is the record
  \<open>probe_env\<close>, an argument of \<open>pq_probe\<close>.
\<close>

record pq_probe_result =
  pp_host :: string
  pp_ok :: bool
  pp_protocol_version :: "string option"
  pp_cipher_suite :: "string option"
  pp_kex_group :: "string option"
  pp_kex_pq :: bool
  pp_cert_sig_algo :: "string option"
  pp_cert_subject :: "string option"
  pp_error :: "string option"

definition probe_fail :: "string \<Rightarrow> string \<Rightarrow> pq_probe_result" where
  "probe_fail host e =
     \<lparr>pp_host = host, pp_ok = False, pp_protocol_version = None, pp_cipher_suite = None,
      pp_kex_group = None, pp_kex_pq = False, pp_cert_sig_algo = None, pp_cert_subject = None,
      pp_error = Some e\<rparr>"

definition probe_group_table :: "(u16 \<times> string) list" where
  "probe_group_table =
     [(0x0017, ''secp256r1''), (0x0018, ''secp384r1''), (0x0019, ''secp521r1''),
      (0x001d, ''x25519''), (0x001e, ''x448''),
      (0x0100, ''ffdhe2048''), (0x0101, ''ffdhe3072''), (0x0102, ''ffdhe4096''),
      (0x11ec, ''X25519MLKEM768''), (0x11eb, ''SecP256r1MLKEM768''),
      (0x11ed, ''P384MLKEM1024''),
      (0x0768, ''MLKEM768''), (0x0769, ''MLKEM512''), (0x076a, ''MLKEM1024'')]"

definition probe_group_name :: "u16 \<Rightarrow> string" where
  "probe_group_name g = (case map_of probe_group_table g of Some n \<Rightarrow> n | None \<Rightarrow> ''unknown'')"

definition is_pq_named_group :: "string \<Rightarrow> bool" where
  "is_pq_named_group name =
     (name \<in> set [''X25519MLKEM768'', ''SecP256r1MLKEM768'', ''P384MLKEM1024'',
                   ''MLKEM768'', ''MLKEM512'', ''MLKEM1024''])"

definition oid_sig_table :: "(string \<times> string) list" where
  "oid_sig_table =
     [(''1.2.840.113549.1.1.5'', ''RSA-PKCS1-SHA1''),
      (''1.2.840.113549.1.1.11'', ''RSA-PKCS1-SHA256''),
      (''1.2.840.113549.1.1.12'', ''RSA-PKCS1-SHA384''),
      (''1.2.840.113549.1.1.13'', ''RSA-PKCS1-SHA512''),
      (''1.2.840.113549.1.1.10'', ''RSA-PSS''),
      (''1.2.840.10045.4.3.2'', ''ECDSA-SHA256''),
      (''1.2.840.10045.4.3.3'', ''ECDSA-SHA384''),
      (''1.2.840.10045.4.3.4'', ''ECDSA-SHA512''),
      (''1.3.101.112'', ''Ed25519''),
      (''1.3.101.113'', ''Ed448''),
      (''2.16.840.1.101.3.4.3.17'', ''ML-DSA-44''),
      (''2.16.840.1.101.3.4.3.18'', ''ML-DSA-65''),
      (''2.16.840.1.101.3.4.3.19'', ''ML-DSA-87''),
      (''2.16.840.1.101.3.4.3.20'', ''SLH-DSA-SHA2-128s'')]"

definition oid_to_sig_name :: "string \<Rightarrow> string" where
  "oid_to_sig_name oid = (case map_of oid_sig_table oid of Some n \<Rightarrow> n | None \<Rightarrow> oid)"

text \<open>The schemes the probe's verifier, which accepts every certificate, says it verifies: rustls sends
  them as the \<open>signature_algorithms\<close> of its hello.  Codepoints of RFC 8446.\<close>

definition supported_verify_schemes :: "u16 list" where
  "supported_verify_schemes =
     [0x0403, 0x0503, 0x0603, 0x0807, 0x0808, 0x0804, 0x0805, 0x0806, 0x0401, 0x0501, 0x0601, 0x0201]"

text \<open>What \<open>x509_parser\<close> reads from a certificate: the dotted signature OID and the
  first common name, when it is a string.\<close>

record x509_meta =
  xm_sig_oid :: string
  xm_common_name :: "string option"

definition parse_cert_metadata ::
  "(bytes \<Rightarrow> x509_meta option) \<Rightarrow> bytes \<Rightarrow> string option \<times> string option" where
  "parse_cert_metadata from_der der =
     (case from_der der of
        None \<Rightarrow> (None, None)
      | Some cert \<Rightarrow> (Some (oid_to_sig_name (xm_sig_oid cert)), xm_common_name cert))"

text \<open>\<open>timeout(..).await\<close> around an I/O operation: \<open>Inl\<close> the error, \<open>None\<close> the elapsed timer.\<close>

type_synonym 'a timed = "(string, 'a) result option"

record tls_session =
  ts_protocol_version :: "string option"
  ts_cipher_suite :: "string option"
  ts_kex_group :: "u16 option"
  ts_peer_certificates :: "bytes list option"

record probe_env =
  pe_connect :: "string \<Rightarrow> unit timed"
  pe_server_name :: "string \<Rightarrow> (string, unit) result"
  pe_handshake :: "string \<Rightarrow> tls_session timed"
  pe_from_der :: "bytes \<Rightarrow> x509_meta option"

definition pq_probe :: "probe_env \<Rightarrow> string \<Rightarrow> u16 \<Rightarrow> pq_probe_result" where
  "pq_probe env host port =
     (case pe_connect env (host @ '':'' @ show_nat (unat port)) of
        None \<Rightarrow> probe_fail host ''connect timeout''
      | Some (Inl e) \<Rightarrow> probe_fail host (''connect: '' @ e)
      | Some (Inr _) \<Rightarrow>
     (case pe_server_name env host of
        Inl e \<Rightarrow> probe_fail host (''bad server name: '' @ e)
      | Inr _ \<Rightarrow>
     (case pe_handshake env host of
        None \<Rightarrow> probe_fail host ''handshake timeout''
      | Some (Inl e) \<Rightarrow> probe_fail host (''tls handshake: '' @ e)
      | Some (Inr conn) \<Rightarrow>
          (let kex_name = map_option probe_group_name (ts_kex_group conn);
               kex_pq = (case map_option is_pq_named_group kex_name of None \<Rightarrow> False | Some b \<Rightarrow> b);
               (cert_sig, cert_subject) =
                 (case ts_peer_certificates conn of
                    None \<Rightarrow> (None, None)
                  | Some [] \<Rightarrow> (None, None)
                  | Some (leaf # _) \<Rightarrow> parse_cert_metadata (pe_from_der env) leaf)
           in \<lparr>pp_host = host, pp_ok = True, pp_protocol_version = ts_protocol_version conn,
               pp_cipher_suite = ts_cipher_suite conn, pp_kex_group = kex_name,
               pp_kex_pq = kex_pq, pp_cert_sig_algo = cert_sig, pp_cert_subject = cert_subject,
               pp_error = None\<rparr>))))"

section \<open>The tables agree\<close>

lemma probe_table_eq: "probe_group_table = named_group_table"
  by (simp add: probe_group_table_def named_group_table_def)

lemma probe_group_name_some: "named_group_name g = Some n \<Longrightarrow> probe_group_name g = n"
  by (simp add: probe_group_name_def named_group_name_def probe_table_eq)

lemma map_of_list_all: "list_all P t \<Longrightarrow> map_of t k = Some v \<Longrightarrow> P (k, v)"
  by (auto simp: list_all_iff dest!: map_of_SomeD)

lemma named_groups_classified:
  "list_all (\<lambda>(c, n). case primitive_from_supported_group n of
      None \<Rightarrow> False
    | Some p \<Rightarrow> pr_role p = Kex \<and> pr_pq_resistant p = Some (is_pq_named_group n)) named_group_table"
  by code_simp

lemma signature_codes_classified:
  "list_all (\<lambda>(c, n). case primitive_from_signature_scheme n of
      None \<Rightarrow> False
    | Some p \<Rightarrow> pr_role p = Sig \<and> pr_pq_resistant p \<noteq> None) signature_code_table"
  by code_simp

lemma unknown_not_pq: "\<not> is_pq_named_group ''unknown''"
  by code_simp

lemma group_primitive_named:
  assumes "named_group_name g = Some n"
  obtains p where "group_primitive g = Some p" "pr_role p = Kex"
    "pr_pq_resistant p = Some (is_pq_named_group n)"
  using map_of_list_all [OF named_groups_classified, of g n] assms
  by (auto simp: named_group_name_def group_primitive_def split: option.splits)

lemma group_primitive_None: "group_primitive g = None \<longleftrightarrow> named_group_name g = None"
proof (cases "named_group_name g")
  case (Some n)
  from group_primitive_named [OF this] Some show ?thesis by auto
qed (simp add: group_primitive_def)

lemma probe_pq_iff:
  "is_pq_named_group (probe_group_name g)
     \<longleftrightarrow> (\<exists>p. group_primitive g = Some p \<and> pr_pq_resistant p = Some True)"
proof (cases "named_group_name g")
  case None
  then show ?thesis
    using unknown_not_pq group_primitive_None [of g]
    by (simp add: probe_group_name_def named_group_name_def probe_table_eq)
next
  case (Some n)
  then show ?thesis
    using probe_group_name_some [OF Some] by (auto elim!: group_primitive_named)
qed

text \<open>The active probe and the passive classifier give one verdict.  A successful probe
  flags the negotiated group as post-quantum exactly when the handshake parser would classify a
  session offering that group as post-quantum, and a failed probe never claims it.\<close>

theorem probe_kex_pq_iff_classifier:
  "pp_kex_pq (pq_probe env host port) \<longleftrightarrow>
     (\<exists>conn g p. pe_connect env (host @ '':'' @ show_nat (unat port)) = Some (Inr ()) \<and>
        pe_server_name env host = Inr () \<and> pe_handshake env host = Some (Inr conn) \<and>
        ts_kex_group conn = Some g \<and> group_primitive g = Some p \<and> pr_pq_resistant p = Some True)"
  by (auto simp: pq_probe_def probe_fail_def Let_def probe_pq_iff
      split: option.splits sum.splits list.splits prod.splits)

text \<open>The probe offers no post-quantum signature scheme, by the classifier's own tables, although its
  table of certificate algorithms has four: a server that can sign with ML-DSA only has nothing to
  choose from.\<close>

lemma offered_schemes_classical:
  "list_all (\<lambda>s. case scheme_primitive s of Some p \<Rightarrow> pr_pq_resistant p = Some False | None \<Rightarrow> False)
     supported_verify_schemes"
  by code_simp

text \<open>The key exchange named by a ciphersuite is never counted as post-quantum.\<close>

lemma tls13_no_kex: "p \<in> set (primitives_from_tls13_ciphersuite n) \<Longrightarrow> pr_role p \<noteq> Kex"
  by (auto simp: primitives_from_tls13_ciphersuite_def Let_def split: option.splits if_splits)

lemma tls12_kex_classical:
  "p \<in> set (primitives_from_tls12_ciphersuite n) \<Longrightarrow> pr_role p = Kex \<Longrightarrow> pr_pq_resistant p = Some False"
  by (auto simp: primitives_from_tls12_ciphersuite_def Let_def split: option.splits if_splits)

lemma first_suite_kex:
  "p \<in> set (first_suite_primitives cs) \<Longrightarrow> pr_role p = Kex \<Longrightarrow> pr_pq_resistant p = Some False"
  by (induction cs) (auto dest: tls13_no_kex tls12_kex_classical split: option.splits if_splits)

lemma scheme_primitive_role: "scheme_primitive s = Some p \<Longrightarrow> pr_role p = Sig"
  by (auto simp: scheme_primitive_def primitive_from_signature_scheme_def
      split: Option.bind_splits option.splits)

text \<open>A parsed handshake is reported with a post-quantum key exchange exactly when its
  \<open>supported_groups\<close> extension lists one of the post-quantum groups the probe knows; no
  ciphersuite and no signature scheme can produce that verdict.\<close>

theorem summary_pq_kex_iff_group:
  "(\<exists>p \<in> set (primitives_from_summary s). pr_role p = Kex \<and> pr_pq_resistant p = Some True)
     \<longleftrightarrow> (\<exists>g \<in> set (supported_groups s). is_pq_named_group (probe_group_name g))"
proof -
  have kex: "pr_role p = Kex" if "group_primitive g = Some p" for g p
    using that group_primitive_None [of g]
    by (cases "named_group_name g") (auto elim: group_primitive_named)
  have "(p \<in> set (primitives_from_summary s) \<and> pr_role p = Kex \<and> pr_pq_resistant p = Some True)
    \<longleftrightarrow> (\<exists>g \<in> set (supported_groups s). group_primitive g = Some p \<and> pr_pq_resistant p = Some True)" for p
    using kex by (auto simp: primitives_from_summary_def set_map_filter dest: first_suite_kex scheme_primitive_role)
  then show ?thesis
    unfolding probe_pq_iff Bex_def by blast
qed

end
