(* ===== verification/Dedup.thy ===== *)
theory Dedup
  imports Core_Types
begin

text \<open>
  The recent-session cache of src/crates/ree0xq-net/src/dedup.rs.  The hash map is
  an association list whose order stands for the iteration order of the map; the
  order is not specified, so the step relation lets it change before every call.
  Instants and durations are naturals (nanoseconds); \<open>duration_since\<close> saturates at
  zero, as subtraction on naturals does.
\<close>

section \<open>The cache\<close>

definition DEFAULT_TTL :: nat where
  "DEFAULT_TTL = 5 * 60 * 1000000000"

definition DEFAULT_CAPACITY :: nat where
  "DEFAULT_CAPACITY = 65536"

record dedup_cache =
  dc_ttl :: nat
  dc_capacity :: nat
  dc_entries :: "(string \<times> nat) list"
  dc_forced_evictions :: u64

definition dedup_new :: "nat \<Rightarrow> nat \<Rightarrow> dedup_cache" where
  "dedup_new ttl capacity =
     \<lparr>dc_ttl = ttl, dc_capacity = max capacity 1, dc_entries = [], dc_forced_evictions = 0\<rparr>"

definition dedup_default :: dedup_cache where
  "dedup_default = dedup_new DEFAULT_TTL DEFAULT_CAPACITY"

text \<open>\<open>min_by_key\<close> returns the first of several minima.\<close>

fun oldest_entry :: "(string \<times> nat) list \<Rightarrow> (string \<times> nat) option" where
  "oldest_entry [] = None"
| "oldest_entry (e # es) =
     (case oldest_entry es of
        None \<Rightarrow> Some e
      | Some m \<Rightarrow> if snd e \<le> snd m then Some e else Some m)"

definition prune_entries :: "nat \<Rightarrow> nat \<Rightarrow> (string \<times> nat) list \<Rightarrow> (string \<times> nat) list" where
  "prune_entries ttl now es = filter (\<lambda>(_, t). now - t < ttl) es"

definition dedup_insert :: "dedup_cache \<Rightarrow> string \<Rightarrow> nat \<Rightarrow> dedup_cache" where
  "dedup_insert c ident now =
     (let es = prune_entries (dc_ttl c) now (dc_entries c);
          (es, ev) =
            (if dc_capacity c \<le> length es
             then (case oldest_entry es of
                     None \<Rightarrow> (es, dc_forced_evictions c)
                   | Some (oldest_key, _) \<Rightarrow>
                       (AList.delete oldest_key es, saturating_inc (dc_forced_evictions c)))
             else (es, dc_forced_evictions c))
      in c\<lparr>dc_entries := AList.update ident now es, dc_forced_evictions := ev\<rparr>)"

definition observe_at :: "dedup_cache \<Rightarrow> string \<Rightarrow> nat \<Rightarrow> bool \<times> dedup_cache" where
  "observe_at c ident now =
     (case map_of (dc_entries c) ident of
        Some seen_at \<Rightarrow>
          (if now - seen_at < dc_ttl c then (False, c) else (True, dedup_insert c ident now))
      | None \<Rightarrow> (True, dedup_insert c ident now))"

definition dedup_len :: "dedup_cache \<Rightarrow> nat" where
  "dedup_len c = length (dc_entries c)"

definition dedup_is_empty :: "dedup_cache \<Rightarrow> bool" where
  "dedup_is_empty c \<longleftrightarrow> dc_entries c = []"

text \<open>A run: a sequence of observations, each with its answer; the iteration order may change
  before every call.\<close>

definition same_map :: "dedup_cache \<Rightarrow> dedup_cache \<Rightarrow> bool" where
  "same_map c c' \<longleftrightarrow> mset (dc_entries c) = mset (dc_entries c') \<and>
     dc_ttl c = dc_ttl c' \<and> dc_capacity c = dc_capacity c' \<and>
     dc_forced_evictions c = dc_forced_evictions c'"

inductive dedup_run :: "dedup_cache \<Rightarrow> (string \<times> nat \<times> bool) list \<Rightarrow> dedup_cache \<Rightarrow> bool" where
  run_nil: "dedup_run c [] c"
| run_step: "same_map c c1 \<Longrightarrow> observe_at c1 ident now = (fresh, c2) \<Longrightarrow> dedup_run c2 tr c3
     \<Longrightarrow> dedup_run c ((ident, now, fresh) # tr) c3"

inductive_cases dedup_run_nilE: "dedup_run c [] c'"
inductive_cases dedup_run_consE: "dedup_run c ((ident, now, fresh) # tr) c'"

section \<open>Invariant\<close>

definition dedup_inv :: "dedup_cache \<Rightarrow> bool" where
  "dedup_inv c \<longleftrightarrow> distinct (map fst (dc_entries c)) \<and> length (dc_entries c) \<le> dc_capacity c
     \<and> 1 \<le> dc_capacity c"

lemma dedup_inv_new [simp]: "dedup_inv (dedup_new ttl cap)"
  by (simp add: dedup_inv_def dedup_new_def)

lemma oldest_entry_None [simp]: "oldest_entry es = None \<longleftrightarrow> es = []"
  by (cases es) (auto split: option.splits)

lemma oldest_entry_in: "oldest_entry es = Some e \<Longrightarrow> e \<in> set es \<and> (\<forall>x \<in> set es. snd e \<le> snd x)"
proof (induction es arbitrary: e)
  case (Cons a es)
  show ?case
  proof (cases "oldest_entry es")
    case (Some m)
    with Cons.IH [OF Some] Cons.prems show ?thesis
      by (auto split: if_splits intro: order.trans)
  qed (use Cons.prems in auto)
qed simp

lemma delete_absent: "k \<notin> fst ` set al \<Longrightarrow> AList.delete k al = al"
  by (induction al) auto

lemma length_delete_present:
  "distinct (map fst al) \<Longrightarrow> k \<in> fst ` set al \<Longrightarrow> Suc (length (AList.delete k al)) = length al"
  by (induction al) (auto simp: delete_absent)

lemma length_update_le: "length (AList.update k v al) \<le> Suc (length al)"
  by (induction al) auto

lemma length_update_new: "k \<notin> fst ` set al \<Longrightarrow> length (AList.update k v al) = Suc (length al)"
  by (induction al) auto

lemma prune_keys: "fst ` set (prune_entries ttl now es) \<subseteq> fst ` set es"
  by (auto simp: prune_entries_def)

lemma distinct_prune: "distinct (map fst es) \<Longrightarrow> distinct (map fst (prune_entries ttl now es))"
  by (auto simp: prune_entries_def distinct_map_filter)

lemma map_of_prune:
  "distinct (map fst es) \<Longrightarrow> map_of (prune_entries ttl now es) k =
     (case map_of es k of None \<Rightarrow> None | Some t \<Rightarrow> if now - t < ttl then Some t else None)"
  by (induction es)
     (auto simp: prune_entries_def map_of_eq_None_iff image_iff split: option.splits)

lemma dedup_inv_insert: "dedup_inv c \<Longrightarrow> dedup_inv (dedup_insert c ident now)"
proof -
  assume inv: "dedup_inv c"
  let ?es = "prune_entries (dc_ttl c) now (dc_entries c)"
  have d: "distinct (map fst ?es)" using inv by (simp add: dedup_inv_def distinct_prune)
  have l: "length ?es \<le> dc_capacity c"
    using inv by (simp add: dedup_inv_def prune_entries_def) (meson le_trans length_filter_le)
  show ?thesis
  proof (cases "dc_capacity c \<le> length ?es")
    case True
    then obtain k t where kt: "oldest_entry ?es = Some (k, t)"
      using inv by (cases "oldest_entry ?es") (auto simp: dedup_inv_def)
    then have "k \<in> fst ` set ?es" by (metis oldest_entry_in fst_conv image_eqI)
    with d have "Suc (length (AList.delete k ?es)) = length ?es" by (rule length_delete_present)
    with inv l d True kt show ?thesis
      using length_update_le [of ident now "AList.delete k ?es"]
      by (simp add: dedup_insert_def Let_def dedup_inv_def distinct_update distinct_delete)
  next
    case False
    with inv d show ?thesis
      using length_update_le [of ident now ?es]
      by (simp add: dedup_insert_def Let_def dedup_inv_def distinct_update)
  qed
qed

lemma dedup_insert_fields [simp]:
  "dc_ttl (dedup_insert c i n) = dc_ttl c" "dc_capacity (dedup_insert c i n) = dc_capacity c"
  by (simp_all add: dedup_insert_def Let_def split: prod.splits)

lemma observe_at_inv: "dedup_inv c \<Longrightarrow> dedup_inv (snd (observe_at c i n))"
  by (auto simp: observe_at_def dedup_inv_insert split: option.splits)

lemma observe_at_fields:
  "dc_ttl (snd (observe_at c i n)) = dc_ttl c" "dc_capacity (snd (observe_at c i n)) = dc_capacity c"
  by (auto simp: observe_at_def split: option.splits)

lemma same_map_inv: "same_map c c' \<Longrightarrow> dedup_inv c \<Longrightarrow> dedup_inv c'"
proof -
  assume a: "same_map c c'" "dedup_inv c"
  then have m: "mset (map fst (dc_entries c)) = mset (map fst (dc_entries c'))"
    by (simp add: same_map_def)
  have "distinct (map fst (dc_entries c'))"
    using a(2) mset_eq_imp_distinct_iff [OF m] by (simp add: dedup_inv_def)
  moreover have "length (dc_entries c') = length (dc_entries c)"
    using mset_eq_length [OF m] by simp
  ultimately show ?thesis
    using a by (simp add: dedup_inv_def same_map_def)
qed

lemma same_map_lookup:
  assumes "same_map c c'" "dedup_inv c"
  shows "map_of (dc_entries c') = map_of (dc_entries c)"
proof -
  have "set (dc_entries c') = set (dc_entries c)"
    using assms(1) by (auto simp: same_map_def dest: mset_eq_setD)
  then show ?thesis
    using assms(2) same_map_inv [OF assms] by (simp add: dedup_inv_def map_of_inject_set)
qed

lemma dedup_run_inv:
  "dedup_run c tr c' \<Longrightarrow> dedup_inv c \<Longrightarrow> dedup_inv c' \<and> dc_capacity c' = dc_capacity c"
proof (induction rule: dedup_run.induct)
  case (run_step c c1 ident now fresh c2 tr c3)
  from run_step.hyps(2) have c2: "c2 = snd (observe_at c1 ident now)" by simp
  from same_map_inv [OF run_step.hyps(1) run_step.prems] have "dedup_inv c2"
    unfolding c2 by (rule observe_at_inv)
  moreover have "dc_capacity c2 = dc_capacity c"
    using run_step.hyps(1) unfolding c2 by (simp add: observe_at_fields same_map_def)
  ultimately show ?case using run_step.IH by simp
qed simp

section \<open>What a gate promises its client\<close>

text \<open>The contract the live observer relies on: which timestamp is held for an identity decides
  the answer, an emitted observation is held, a dropped one changes nothing, and
  nothing appears for an identity that was not emitted.\<close>

locale dedup_gate =
  fixes inv :: "'c \<Rightarrow> bool"
    and observe :: "'c \<Rightarrow> string \<Rightarrow> nat \<Rightarrow> bool \<times> 'c"
    and held :: "'c \<Rightarrow> string \<Rightarrow> nat option"
    and ttl :: "'c \<Rightarrow> nat"
  assumes observe_inv: "inv c \<Longrightarrow> inv (snd (observe c i t))"
    and observe_fresh: "fst (observe c i t) \<longleftrightarrow> (case held c i of None \<Rightarrow> True | Some s \<Rightarrow> \<not> t - s < ttl c)"
    and observe_ttl: "ttl (snd (observe c i t)) = ttl c"
    and held_fresh: "inv c \<Longrightarrow> fst (observe c i t) \<Longrightarrow> held (snd (observe c i t)) i = Some t"
    and dropped_same: "\<not> fst (observe c i t) \<Longrightarrow> snd (observe c i t) = c"
    and held_other: "inv c \<Longrightarrow> i' \<noteq> i \<Longrightarrow> held (snd (observe c i t)) i' = Some s \<Longrightarrow> held c i' = Some s"
begin

lemma retransmit_dropped:
  assumes "inv c" "fst (observe c i t)" "t' - t < ttl c"
  shows "observe (snd (observe c i t)) i t' = (False, snd (observe c i t))"
  using held_fresh [OF assms(1,2)] observe_fresh [of "snd (observe c i t)" i t'] assms(3)
    dropped_same [of "snd (observe c i t)" i t'] observe_ttl [of c i t]
  by (cases "observe (snd (observe c i t)) i t'") auto

lemma first_always_emitted:
  "held c i = None \<Longrightarrow> fst (observe c i t)"
  by (simp add: observe_fresh)

lemma dropped_was_held:
  "\<not> fst (observe c i t) \<Longrightarrow> \<exists>s. held c i = Some s \<and> t - s < ttl c"
  by (auto simp: observe_fresh split: option.splits)

lemma held_after:
  assumes "inv c" "held (snd (observe c i t)) i' = Some s"
  shows "held c i' = Some s \<or> i' = i \<and> s = t \<and> fst (observe c i t)"
  using assms held_fresh [OF assms(1)] dropped_same held_other [OF assms(1)]
  by (cases "i' = i"; cases "fst (observe c i t)") (fastforce)+

end

lemma map_of_delete_Some: "map_of (AList.delete k es) j = Some t \<Longrightarrow> map_of es j = Some t \<and> j \<noteq> k"
  by (auto simp: delete_conv' split: if_splits)

lemma dedup_insert_lookup_same [simp]: "map_of (dc_entries (dedup_insert c i t)) i = Some t"
  by (simp add: dedup_insert_def Let_def update_conv' split: prod.splits)

lemma dedup_insert_lookup_other:
  assumes "dedup_inv c" "i' \<noteq> i" "map_of (dc_entries (dedup_insert c i t)) i' = Some s"
  shows "map_of (dc_entries c) i' = Some s"
proof -
  let ?es = "prune_entries (dc_ttl c) t (dc_entries c)"
  have "map_of ?es i' = Some s"
    using assms(2,3)
    by (auto simp: dedup_insert_def Let_def update_conv'
        split: option.splits if_splits dest: map_of_delete_Some)
  then show ?thesis
    using assms(1) by (auto simp: dedup_inv_def map_of_prune split: option.splits if_splits)
qed

interpretation cache: dedup_gate dedup_inv observe_at "\<lambda>c. map_of (dc_entries c)" dc_ttl
proof
  fix c :: dedup_cache and i i' t s
  show "dedup_inv c \<Longrightarrow> dedup_inv (snd (observe_at c i t))" by (rule observe_at_inv)
  show "fst (observe_at c i t) \<longleftrightarrow>
      (case map_of (dc_entries c) i of None \<Rightarrow> True | Some s \<Rightarrow> \<not> t - s < dc_ttl c)"
    by (auto simp: observe_at_def split: option.splits)
  show "dc_ttl (snd (observe_at c i t)) = dc_ttl c" by (rule observe_at_fields)
  show "fst (observe_at c i t) \<Longrightarrow> map_of (dc_entries (snd (observe_at c i t))) i = Some t"
    by (auto simp: observe_at_def split: option.splits if_splits)
  show "\<not> fst (observe_at c i t) \<Longrightarrow> snd (observe_at c i t) = c"
    by (auto simp: observe_at_def split: option.splits if_splits)
  show "dedup_inv c \<Longrightarrow> i' \<noteq> i \<Longrightarrow> map_of (dc_entries (snd (observe_at c i t))) i' = Some s
      \<Longrightarrow> map_of (dc_entries c) i' = Some s"
    by (auto simp: observe_at_def split: option.splits if_splits dest: dedup_insert_lookup_other)
qed

section \<open>Properties of runs\<close>

text \<open>The run in which the iteration order never changes.\<close>

fun dedup_exec :: "dedup_cache \<Rightarrow> (string \<times> nat) list \<Rightarrow> (string \<times> nat \<times> bool) list \<times> dedup_cache" where
  "dedup_exec c [] = ([], c)"
| "dedup_exec c ((i, t) # obs) =
     (case observe_at c i t of (fresh, c') \<Rightarrow>
       (case dedup_exec c' obs of (tr, c'') \<Rightarrow> ((i, t, fresh) # tr, c'')))"

lemma dedup_exec_run: "dedup_exec c obs = (tr, c') \<Longrightarrow> dedup_run c tr c'"
  by (induction c obs arbitrary: tr rule: dedup_exec.induct)
     (auto split: prod.splits intro!: dedup_run.intros simp: same_map_def)

lemma exec_example:
  "dedup_exec (dedup_new 10 2) [(''a'', 0), (''b'', 1), (''a'', 5), (''a'', 12)] =
    ([(''a'', 0, True), (''b'', 1, True), (''a'', 5, False), (''a'', 12, True)],
     \<lparr>dc_ttl = 10, dc_capacity = 2, dc_entries = [(''a'', 12)], dc_forced_evictions = 0\<rparr>)"
  by code_simp

text \<open>The cache never holds more sessions than its capacity, whatever is observed, in
  whatever order the hash map enumerates its entries.\<close>

theorem dedup_bounded:
  assumes "dedup_run (dedup_new ttl capacity) tr c"
  shows "dedup_len c \<le> max capacity 1"
  using dedup_run_inv [OF assms] by (simp add: dedup_inv_def dedup_len_def dedup_new_def)

lemma dedup_bounded_witness:
  "dedup_len \<lparr>dc_ttl = 10, dc_capacity = 2, dc_entries = [(''a'', 12)], dc_forced_evictions = 0\<rparr>
     \<le> max 2 1"
  by (rule dedup_bounded [OF dedup_exec_run [OF exec_example]])

text \<open>No session is lost.  An observation is dropped only if the same identity was emitted
  less than one TTL earlier, even when the cache is full and evicts.\<close>

theorem dedup_drops_only_duplicates:
  assumes "dedup_run (dedup_new ttl capacity) (pre @ (i, t, False) # post) c"
  shows "\<exists>t'. (i, t', True) \<in> set pre \<and> t - t' < ttl"
proof -
  have "\<exists>t'. ((i, t', True) \<in> set pre \<or> map_of (dc_entries c0) i = Some t') \<and> t - t' < dc_ttl c0"
    if "dedup_run c0 tr c" "dedup_inv c0" "tr = pre @ (i, t, False) # post" for c0 tr pre
    using that
  proof (induction arbitrary: pre rule: dedup_run.induct)
    case (run_step c0 c1 j u fresh c2 tr c3)
    note look = same_map_lookup [OF run_step.hyps(1) run_step.prems(1)]
    note inv1 = same_map_inv [OF run_step.hyps(1) run_step.prems(1)]
    have c2: "c2 = snd (observe_at c1 j u)" and fr: "fresh = fst (observe_at c1 j u)"
      using run_step.hyps(2) by simp_all
    have ttl: "dc_ttl c2 = dc_ttl c0" "dc_ttl c1 = dc_ttl c0"
      using run_step.hyps(1) c2 by (simp_all add: same_map_def observe_at_fields)
    show ?case
    proof (cases pre)
      case Nil
      then have "j = i" "u = t" "\<not> fresh" using run_step.prems(2) by auto
      with fr have "\<not> fst (observe_at c1 i t)" by simp
      from cache.dropped_was_held [OF this] show ?thesis using look ttl by auto
    next
      case (Cons e pre')
      then have e: "e = (j, u, fresh)" and tr: "tr = pre' @ (i, t, False) # post"
        using run_step.prems(2) by auto
      have "dedup_inv c2" unfolding c2 by (rule observe_at_inv [OF inv1])
      from run_step.IH [OF this tr] obtain t'
        where t': "(i, t', True) \<in> set pre' \<or> map_of (dc_entries c2) i = Some t'" "t - t' < dc_ttl c2"
        by blast
      with cache.held_after [OF inv1, of j u i t'] c2 fr look ttl e Cons show ?thesis by auto
    qed
  qed simp
  from this [OF assms dedup_inv_new refl] show ?thesis by (auto simp: dedup_new_def)
qed

lemma dedup_drops_only_duplicates_witness:
  "\<exists>t'. (''a'', t', True) \<in> set [(''a'', 0, True), (''b'', 1, True)] \<and> 5 - t' < (10::nat)"
  by (rule dedup_drops_only_duplicates [where capacity = 2 and post = "[(''a'', 12, True)]"])
     (use dedup_exec_run [OF exec_example] in simp)

text \<open>The specification: remember every identity's last emission for ever.\<close>

definition spec_observe :: "nat \<Rightarrow> (string \<Rightarrow> nat option) \<Rightarrow> string \<Rightarrow> nat \<Rightarrow> bool" where
  "spec_observe ttl m i t = (case m i of None \<Rightarrow> True | Some s \<Rightarrow> \<not> t - s < ttl)"

fun spec_answers :: "nat \<Rightarrow> (string \<Rightarrow> nat option) \<Rightarrow> (string \<times> nat) list \<Rightarrow> bool list" where
  "spec_answers ttl m [] = []"
| "spec_answers ttl m ((i, t) # obs) =
     spec_observe ttl m i t #
     spec_answers ttl (if spec_observe ttl m i t then m(i \<mapsto> t) else m) obs"

definition dedup_rel :: "string set \<Rightarrow> nat \<Rightarrow> dedup_cache \<Rightarrow> (string \<Rightarrow> nat option) \<Rightarrow> bool" where
  "dedup_rel ids now c m \<longleftrightarrow> dedup_inv c \<and> fst ` set (dc_entries c) \<subseteq> ids \<and>
     (\<forall>k. case map_of (dc_entries c) k of
        Some t \<Rightarrow> m k = Some t
      | None \<Rightarrow> (case m k of None \<Rightarrow> True | Some s \<Rightarrow> \<not> now - s < dc_ttl c))"

lemma dedup_rel_answer:
  assumes "dedup_rel ids now c m" "now \<le> t"
  shows "fst (observe_at c i t) = spec_observe (dc_ttl c) m i t"
  using assms
  by (auto simp: cache.observe_fresh dedup_rel_def spec_observe_def
      split: option.splits dest!: spec [of _ i])

lemma no_eviction:
  assumes "dedup_inv c" "fst ` set (dc_entries c) \<subseteq> ids" "finite ids" "card ids \<le> dc_capacity c"
    and "i \<in> ids" "fst (observe_at c i t)"
  shows "dc_entries (snd (observe_at c i t)) =
     AList.update i t (prune_entries (dc_ttl c) t (dc_entries c))"
proof -
  let ?es = "prune_entries (dc_ttl c) t (dc_entries c)"
  have d: "distinct (map fst ?es)" using assms(1) by (simp add: dedup_inv_def distinct_prune)
  have "map_of ?es i = None"
    using assms(1,6)
    by (subst map_of_prune)
       (auto simp: cache.observe_fresh dedup_inv_def simp del: map_of_eq_Some_iff split: option.splits)
  then have "i \<notin> fst ` set ?es" by (simp add: map_of_eq_None_iff)
  then have "fst ` set ?es \<subseteq> ids - {i}" using prune_keys assms(2) by fast
  then have "card (fst ` set ?es) \<le> card ids - 1"
    using assms(3,5) by (metis card_Diff_singleton card_mono finite_Diff)
  moreover have "card (fst ` set ?es) = length ?es"
    using d by (metis distinct_card length_map set_map)
  moreover have "card ids > 0" using assms(3,5) by (auto simp: card_gt_0_iff)
  ultimately have "\<not> dc_capacity c \<le> length ?es" using assms(4) by linarith
  then show ?thesis
    using assms(6)
    by (auto simp: observe_at_def dedup_insert_def Let_def split: option.splits if_splits)
qed

lemma dedup_rel_step:
  assumes "dedup_rel ids now c m" "now \<le> t" "finite ids" "card ids \<le> dc_capacity c" "i \<in> ids"
  shows "dedup_rel ids t (snd (observe_at c i t))
     (if spec_observe (dc_ttl c) m i t then m(i \<mapsto> t) else m)"
proof -
  have inv: "dedup_inv c" and sub: "fst ` set (dc_entries c) \<subseteq> ids"
    and R: "\<And>k. case map_of (dc_entries c) k of
        Some t \<Rightarrow> m k = Some t
      | None \<Rightarrow> (case m k of None \<Rightarrow> True | Some s \<Rightarrow> \<not> now - s < dc_ttl c)"
    using assms(1) by (auto simp: dedup_rel_def)
  note ans = dedup_rel_answer [OF assms(1,2), of i]
  have later: "\<not> now - s < dc_ttl c \<Longrightarrow> \<not> t - s < dc_ttl c" for s using assms(2) by linarith
  have Rt: "case map_of (dc_entries c) k of
        Some t \<Rightarrow> m k = Some t
      | None \<Rightarrow> (case m k of None \<Rightarrow> True | Some s \<Rightarrow> \<not> t - s < dc_ttl c)" for k
    using R [of k] later by (simp split: option.splits)
  show ?thesis
  proof (cases "fst (observe_at c i t)")
    case False
    with cache.dropped_same [OF this] ans inv sub Rt show ?thesis
      by (simp add: dedup_rel_def)
  next
    case True
    have es: "dc_entries (snd (observe_at c i t)) =
       AList.update i t (prune_entries (dc_ttl c) t (dc_entries c))"
      by (rule no_eviction) (use inv sub assms True in auto)
    have keys: "fst ` set (AList.update i t (prune_entries (dc_ttl c) t (dc_entries c))) \<subseteq> ids"
      unfolding dom_update using prune_keys sub assms(5) by blast
    have "case map_of (dc_entries (snd (observe_at c i t))) k of
        Some u \<Rightarrow> (m(i \<mapsto> t)) k = Some u
      | None \<Rightarrow> (case (m(i \<mapsto> t)) k of None \<Rightarrow> True | Some s \<Rightarrow> \<not> t - s < dc_ttl c)" for k
      using Rt [of k] inv
      by (auto simp: es update_conv' dedup_inv_def map_of_prune simp del: map_of_eq_Some_iff
          split: option.splits if_splits)
    with True ans es keys observe_at_inv [OF inv] show ?thesis
      unfolding dedup_rel_def cache.observe_ttl by simp
  qed
qed

lemma dedup_run_exact:
  assumes "dedup_run c tr c'" "dedup_rel ids now c m" "finite ids" "card ids \<le> dc_capacity c"
    and "fst ` set tr \<subseteq> ids" "sorted (now # map (fst \<circ> snd) tr)"
  shows "map (snd \<circ> snd) tr = spec_answers (dc_ttl c) m (map (\<lambda>(i, t, _). (i, t)) tr)"
  using assms
proof (induction arbitrary: now m rule: dedup_run.induct)
  case (run_step c c1 i t fresh c2 tr c3)
  have inv: "dedup_inv c" using run_step.prems(1) by (simp add: dedup_rel_def)
  note look = same_map_lookup [OF run_step.hyps(1) inv]
  have f: "dc_ttl c1 = dc_ttl c" "dc_capacity c1 = dc_capacity c"
    "dc_ttl c2 = dc_ttl c" "dc_capacity c2 = dc_capacity c"
    using run_step.hyps(1,2) observe_at_fields [of c1 i t] by (auto simp: same_map_def)
  have "fst ` set (dc_entries c1) = fst ` set (dc_entries c)"
    using look by (metis dom_map_of_conv_image_fst)
  then have rel1: "dedup_rel ids now c1 m"
    using run_step.prems(1) same_map_inv [OF run_step.hyps(1) inv]
    unfolding dedup_rel_def look f by simp
  have le: "now \<le> t" "sorted (t # map (fst \<circ> snd) tr)" and ids: "i \<in> ids" "fst ` set tr \<subseteq> ids"
    using run_step.prems by (auto simp: comp_def)
  have a: "fresh = spec_observe (dc_ttl c) m i t"
    using dedup_rel_answer [OF rel1 le(1), of i] run_step.hyps(2) f by simp
  have rel2: "dedup_rel ids t c2 (if spec_observe (dc_ttl c) m i t then m(i \<mapsto> t) else m)"
    using dedup_rel_step [OF rel1 le(1) run_step.prems(2) _ ids(1)] run_step.prems(3) run_step.hyps(2) f
    by simp
  show ?case
    using run_step.IH [OF rel2 run_step.prems(2) _ ids(2) le(2)] run_step.prems(3) f a by simp
qed simp

text \<open>C8: as long as no more distinct sessions appear than the cache can hold, it answers exactly
  as the specification that remembers every emission for ever: on a clock that does not go
  back, an identity is emitted on its first observation and then once per TTL.\<close>

theorem dedup_refines_spec:
  assumes "dedup_run (dedup_new ttl capacity) tr c"
    and "sorted (map (fst \<circ> snd) tr)"
    and "card (fst ` set tr) \<le> max capacity 1"
  shows "map (snd \<circ> snd) tr = spec_answers ttl Map.empty (map (\<lambda>(i, t, _). (i, t)) tr)"
proof -
  have "dedup_rel (fst ` set tr) 0 (dedup_new ttl capacity) Map.empty"
    by (simp add: dedup_rel_def dedup_new_def dedup_inv_def)
  from dedup_run_exact [OF assms(1) this] assms(2,3) show ?thesis
    by (simp add: dedup_new_def)
qed

lemma dedup_refines_spec_witness:
  "[True, True, False, True] =
     spec_answers 10 Map.empty [(''a'', 0), (''b'', 1), (''a'', 5), (''a'', 12)]"
  using dedup_refines_spec [OF dedup_exec_run [OF exec_example]]
  by (simp add: card_insert_if del: spec_answers.simps)

end
