(* ===== verification/Spool.thy ===== *)
theory Spool
  imports Core_Types
begin

text \<open>
  The disk spool of src/crates/ree0xq-net/src/spool.rs over one file, \<open>None\<close> when
  it does not exist.  The spool never looks into an event, so the model is
  generic in the event type and takes serde's \<open>to_string\<close> and \<open>from_str\<close> as the
  parameters \<open>enc\<close> and \<open>dec\<close>; what it relies on is the predicate \<open>codec_laws\<close>.  The
  callback threads a state of its own.  File operations are the successful ones
  of the source; an I/O error leaves \<open>drain\<close> before it touches the spool file.
\<close>

type_synonym spool_file = "string option"

record drain_stats =
  ds_seen :: nat
  ds_delivered :: nat
  ds_retained :: nat
  ds_corrupt_dropped :: nat

definition drain_stats_default :: drain_stats where
  "drain_stats_default = \<lparr>ds_seen = 0, ds_delivered = 0, ds_retained = 0, ds_corrupt_dropped = 0\<rparr>"

definition NL :: char where
  "NL = CHR 0x0A"

definition spool_append :: "('e \<Rightarrow> string) \<Rightarrow> spool_file \<Rightarrow> 'e \<Rightarrow> spool_file" where
  "spool_append enc f ev = Some ((case f of None \<Rightarrow> [] | Some s \<Rightarrow> s) @ enc ev @ [NL])"

definition spool_len :: "spool_file \<Rightarrow> nat" where
  "spool_len f = (case f of None \<Rightarrow> 0 | Some s \<Rightarrow> length (read_lines s))"

definition spool_is_empty :: "spool_file \<Rightarrow> bool" where
  "spool_is_empty f \<longleftrightarrow> spool_len f = 0"

text \<open>The loop of \<open>drain\<close>: the lines still to read, the callback's state, the statistics and
  what has been written to the temporary file.\<close>

fun drain_lines ::
  "('e \<Rightarrow> string) \<Rightarrow> (string \<Rightarrow> 'e option) \<Rightarrow> ('s \<Rightarrow> 'e \<Rightarrow> bool \<times> 's) \<Rightarrow>
   (unit, string) result list \<Rightarrow> 's \<Rightarrow> drain_stats \<Rightarrow> string \<Rightarrow> 's \<times> drain_stats \<times> string" where
  "drain_lines enc dec emit [] s st out = (s, st, out)"
| "drain_lines enc dec emit (Inl e # ls) s st out = (s, st, out)"
| "drain_lines enc dec emit (Inr line # ls) s st out =
     (if trim line = [] then drain_lines enc dec emit ls s st out
      else
        (let st = st\<lparr>ds_seen := ds_seen st + 1\<rparr> in
         case dec line of
           None \<Rightarrow> drain_lines enc dec emit ls s
                     (st\<lparr>ds_corrupt_dropped := ds_corrupt_dropped st + 1\<rparr>) out
         | Some ev \<Rightarrow>
             (case emit s ev of
                (True, s') \<Rightarrow>
                  drain_lines enc dec emit ls s' (st\<lparr>ds_delivered := ds_delivered st + 1\<rparr>) out
              | (False, s') \<Rightarrow>
                  drain_lines enc dec emit ls s' (st\<lparr>ds_retained := ds_retained st + 1\<rparr>)
                    (out @ enc ev @ [NL]))))"

definition spool_drain ::
  "('e \<Rightarrow> string) \<Rightarrow> (string \<Rightarrow> 'e option) \<Rightarrow> ('s \<Rightarrow> 'e \<Rightarrow> bool \<times> 's) \<Rightarrow>
   spool_file \<Rightarrow> 's \<Rightarrow> drain_stats \<times> spool_file \<times> 's" where
  "spool_drain enc dec emit f s =
     (case f of
        None \<Rightarrow> (drain_stats_default, None, s)
      | Some content \<Rightarrow>
          (case drain_lines enc dec emit (read_lines content) s drain_stats_default [] of
             (s', st, out) \<Rightarrow>
               (st, (if ds_retained st = 0 then None else Some out), s')))"

section \<open>Laws of the serializer\<close>

text \<open>serde\_json's compact form: a single line of UTF-8 that is not blank, does not end in a
  carriage return, and reads back as the event.\<close>

definition codec_laws :: "('e \<Rightarrow> string) \<Rightarrow> (string \<Rightarrow> 'e option) \<Rightarrow> bool" where
  "codec_laws enc dec \<longleftrightarrow>
     (\<forall>e. dec (enc e) = Some e \<and> NL \<notin> set (enc e) \<and> trim (enc e) \<noteq> [] \<and> valid_utf8 (enc e)
          \<and> drop_cr (enc e) = enc e)"

definition spool_encode :: "('e \<Rightarrow> string) \<Rightarrow> 'e list \<Rightarrow> string" where
  "spool_encode enc es = concat (map (\<lambda>e. enc e @ [NL]) es)"

lemma codec_lawsD:
  assumes "codec_laws enc dec"
  shows "dec (enc e) = Some e" "NL \<notin> set (enc e)" "trim (enc e) \<noteq> []" "valid_utf8 (enc e)"
    "drop_cr (enc e) = enc e"
  using assms by (auto simp: codec_laws_def)

lemma raw_lines_nl: "NL \<notin> set x \<Longrightarrow> raw_lines (x @ NL # s) = (x, True) # raw_lines s"
  by (simp add: NL_def Let_def split_on_append_sep)

declare raw_lines.simps [simp del]

lemma read_lines_nl:
  "NL \<notin> set x \<Longrightarrow> read_lines (x @ NL # s) =
     (if valid_utf8 x then Inr (drop_cr x) else Inl ()) # read_lines s"
  by (simp add: read_lines_def raw_lines_nl)

lemma read_lines_Nil [simp]: "read_lines [] = []"
  by (simp add: read_lines_def raw_lines.simps)

lemma read_lines_encode:
  "codec_laws enc dec \<Longrightarrow> read_lines (spool_encode enc es @ r) = map (Inr \<circ> enc) es @ read_lines r"
  by (induction es) (simp_all add: spool_encode_def read_lines_nl codec_lawsD)

lemma spool_append_encode:
  "spool_append enc (Some (spool_encode enc es)) e = Some (spool_encode enc (es @ [e]))"
  by (simp add: spool_append_def spool_encode_def)

lemma spool_append_all:
  "foldl (spool_append enc) (Some (spool_encode enc es)) es' = Some (spool_encode enc (es @ es'))"
  by (induction es' arbitrary: es) (simp_all add: spool_append_encode)

text \<open>What the callback does to a list of events: those it refused, in order, and its state.\<close>

fun refused :: "('s \<Rightarrow> 'e \<Rightarrow> bool \<times> 's) \<Rightarrow> 's \<Rightarrow> 'e list \<Rightarrow> 'e list" where
  "refused emit s [] = []"
| "refused emit s (e # es) =
     (case emit s e of (ok, s') \<Rightarrow> (if ok then [] else [e]) @ refused emit s' es)"

fun emitted_state :: "('s \<Rightarrow> 'e \<Rightarrow> bool \<times> 's) \<Rightarrow> 's \<Rightarrow> 'e list \<Rightarrow> 's" where
  "emitted_state emit s [] = s"
| "emitted_state emit s (e # es) = emitted_state emit (snd (emit s e)) es"

section \<open>What a line of a file means\<close>

text \<open>The events a drain offers to the callback: the readable lines before the first unreadable
  one, those that parse.\<close>

fun offered :: "(string \<Rightarrow> 'e option) \<Rightarrow> (unit, string) result list \<Rightarrow> 'e list" where
  "offered dec [] = []"
| "offered dec (Inl _ # ls) = []"
| "offered dec (Inr l # ls) =
     (if trim l = [] then offered dec ls
      else case dec l of None \<Rightarrow> offered dec ls | Some e \<Rightarrow> e # offered dec ls)"

fun corrupt_count :: "(string \<Rightarrow> 'e option) \<Rightarrow> (unit, string) result list \<Rightarrow> nat" where
  "corrupt_count dec [] = 0"
| "corrupt_count dec (Inl _ # ls) = 0"
| "corrupt_count dec (Inr l # ls) =
     (if trim l \<noteq> [] \<and> dec l = None then 1 else 0) + corrupt_count dec ls"

lemma refused_length: "length (refused emit s es) \<le> length es"
  by (induction es arbitrary: s) (auto split: prod.splits simp: le_SucI)

lemma spool_encode_Cons [simp]: "spool_encode enc (e # es) = enc e @ NL # spool_encode enc es"
  "spool_encode enc [] = []"
  by (simp_all add: spool_encode_def)

lemma drain_lines_result:
  "drain_lines enc dec emit ls s st out =
     (emitted_state emit s (offered dec ls),
      \<lparr>ds_seen = ds_seen st + length (offered dec ls) + corrupt_count dec ls,
       ds_delivered = ds_delivered st + (length (offered dec ls) - length (refused emit s (offered dec ls))),
       ds_retained = ds_retained st + length (refused emit s (offered dec ls)),
       ds_corrupt_dropped = ds_corrupt_dropped st + corrupt_count dec ls\<rparr>,
      out @ spool_encode enc (refused emit s (offered dec ls)))"
proof (induction enc dec emit ls s st out rule: drain_lines.induct)
  case (3 enc dec emit line ls s st out)
  show ?case
  proof (cases "trim line = []")
    case False
    show ?thesis
    proof (cases "dec line")
      case None
      with 3(2) [OF False] False show ?thesis by (simp add: Let_def)
    next
      case (Some ev)
      obtain ok s' where e: "emit s ev = (ok, s')" by fastforce
      with 3(3) [OF False refl Some e [symmetric]] 3(4) [OF False refl Some e [symmetric]]
        False Some refused_length [of emit s' "offered dec ls"]
      show ?thesis by (cases ok) (simp_all add: Let_def)
    qed
  qed (use 3(1) in simp)
qed simp_all

text \<open>Whatever the spool file holds, a drain offers to the callback, in file order, the valid
  events up to the first unreadable line; the new file holds exactly the refused ones, in
  order, and is removed when there are none; and the counters add up.\<close>

theorem drain_exact:
  "spool_drain enc dec emit (Some content) s =
     (let es = offered dec (read_lines content); bad = corrupt_count dec (read_lines content);
          rej = refused emit s es in
      (\<lparr>ds_seen = length es + bad, ds_delivered = length es - length rej,
        ds_retained = length rej, ds_corrupt_dropped = bad\<rparr>,
       (if rej = [] then None else Some (spool_encode enc rej)),
       emitted_state emit s es))"
  by (simp add: spool_drain_def drain_lines_result drain_stats_default_def Let_def)

lemma offered_encode:
  "codec_laws enc dec \<Longrightarrow> offered dec (map (Inr \<circ> enc) es @ ls) = es @ offered dec ls"
  by (induction es) (simp_all add: codec_lawsD)

lemma corrupt_encode:
  "codec_laws enc dec \<Longrightarrow> corrupt_count dec (map (Inr \<circ> enc) es @ ls) = corrupt_count dec ls"
  by (induction es) (simp_all add: codec_lawsD)

text \<open>C11: no event is lost across an outage.  Events appended to a fresh spool and drained against a
  collector are each offered exactly once, in the order of their arrival, and the spool left
  behind is the one obtained by appending only the refused events.\<close>

theorem spool_at_least_once:
  assumes "codec_laws enc dec"
  shows "spool_drain enc dec emit (foldl (spool_append enc) (Some []) es) s =
     (\<lparr>ds_seen = length es, ds_delivered = length es - length (refused emit s es),
       ds_retained = length (refused emit s es), ds_corrupt_dropped = 0\<rparr>,
      (if refused emit s es = [] then None
       else foldl (spool_append enc) (Some []) (refused emit s es)),
      emitted_state emit s es)"
proof -
  have enc: "foldl (spool_append enc) (Some []) xs = Some (spool_encode enc xs)" for xs
    using spool_append_all [of enc "[]" xs] by simp
  have "offered dec (read_lines (spool_encode enc es)) = es"
    "corrupt_count dec (read_lines (spool_encode enc es)) = 0"
    using read_lines_encode [OF assms, of es "[]"] offered_encode [OF assms, of es "[]"]
      corrupt_encode [OF assms, of es "[]"] by simp_all
  then show ?thesis
    by (simp add: enc spool_drain_def drain_lines_result drain_stats_default_def)
qed

text \<open>One unreadable line loses the rest of the spool.  When a line is not UTF-8, the valid
  events after it are never offered, and if the events before it are all accepted the file
  is deleted with them inside.\<close>

theorem drain_unreadable_line_loses_rest:
  assumes "codec_laws enc dec" "\<not> valid_utf8 bad" "NL \<notin> set bad"
    and "refused emit s before = []"
  shows "spool_drain enc dec emit
      (Some (spool_encode enc before @ bad @ NL # spool_encode enc after)) s =
    (\<lparr>ds_seen = length before, ds_delivered = length before, ds_retained = 0, ds_corrupt_dropped = 0\<rparr>,
     None, emitted_state emit s before)"
proof -
  have "read_lines (spool_encode enc before @ bad @ NL # spool_encode enc after) =
     map (Inr \<circ> enc) before @ Inl () # map (Inr \<circ> enc) after"
    using read_lines_encode [OF assms(1), of before] read_lines_nl [OF assms(3)]
      read_lines_encode [OF assms(1), of after "[]"] assms(2)
    by simp
  then show ?thesis
    using offered_encode [OF assms(1)] corrupt_encode [OF assms(1)] assms(4)
    by (simp add: spool_drain_def drain_lines_result drain_stats_default_def)
qed

section \<open>Witnesses\<close>

text \<open>A concrete codec: events are naturals, written in decimal.\<close>

definition dec_nat :: "string \<Rightarrow> nat option" where
  "dec_nat s = (if s \<noteq> [] \<and> list_all is_digit s then Some (digits_value s) else None)"

lemma codec_laws_nat: "codec_laws show_nat dec_nat"
proof -
  have "NL \<notin> set (show_nat n)" for n
    using show_nat_digits [of n] by (auto simp: list_all_iff NL_def is_digit_def)
  moreover have "valid_utf8 (show_nat n)" for n
    using show_nat_digits [of n]
    by (intro valid_utf8_ascii) (auto simp: list_all_iff is_digit_def byte_in_def)
  moreover have "last (show_nat n) \<noteq> CHR 0x0D" for n
  proof -
    have "is_digit (last (show_nat n))"
      using show_nat_digits [of n] last_in_set [OF show_nat_nonempty [of n]]
      by (simp add: list_all_iff)
    then show ?thesis by (auto simp: is_digit_def)
  qed
  ultimately show ?thesis
    using show_nat_digits trim_digits [OF show_nat_nonempty show_nat_digits]
    by (simp add: codec_laws_def dec_nat_def drop_cr_def)
qed

lemma spool_at_least_once_witness:
  "spool_drain show_nat dec_nat (\<lambda>s e. (e \<noteq> 7, e # s)) (foldl (spool_append show_nat) (Some []) [5, 7, 9]) []
    = (\<lparr>ds_seen = 3, ds_delivered = 2, ds_retained = 1, ds_corrupt_dropped = 0\<rparr>,
       spool_append show_nat (Some []) 7, [9, 7, 5])"
  by (subst spool_at_least_once [OF codec_laws_nat]) simp

lemma drain_unreadable_line_loses_rest_witness:
  "spool_drain show_nat dec_nat (\<lambda>s e. (True, e # s))
     (Some (spool_encode show_nat [5] @ [CHR 0xFF] @ NL # spool_encode show_nat [9])) []
   = (\<lparr>ds_seen = 1, ds_delivered = 1, ds_retained = 0, ds_corrupt_dropped = 0\<rparr>, None, [5])"
  by (subst drain_unreadable_line_loses_rest [OF codec_laws_nat])
     (simp_all add: NL_def byte_in_def)

end
