(* ===== verification/Rate_Limit.thy ===== *)
theory Rate_Limit
  imports Core_Types
begin

text \<open>
  The sliding-window limiter of src/crates/ree0xq-server/src/ratelimit.rs and the
  key it is given for a request.  The buckets are an association list; nothing the
  limiter answers depends on its order.  Instants are naturals, \<open>duration_since\<close>
  saturates as subtraction on naturals does.
\<close>

definition DEFAULT_MAX_REQUESTS :: nat where
  "DEFAULT_MAX_REQUESTS = 20"

definition DEFAULT_WINDOW :: nat where
  "DEFAULT_WINDOW = 60 * 1000000000"

definition KEY_SOFT_CAP :: nat where
  "KEY_SOFT_CAP = 65536"

record rate_limiter =
  rl_max_requests :: nat
  rl_window :: nat
  rl_buckets :: "(string \<times> nat list) list"

definition limiter_new :: "nat \<Rightarrow> nat \<Rightarrow> rate_limiter" where
  "limiter_new max_requests window =
     \<lparr>rl_max_requests = max max_requests 1, rl_window = window, rl_buckets = []\<rparr>"

definition limiter_defaults :: rate_limiter where
  "limiter_defaults = limiter_new DEFAULT_MAX_REQUESTS DEFAULT_WINDOW"

definition live_hits :: "nat \<Rightarrow> nat \<Rightarrow> nat list \<Rightarrow> nat list" where
  "live_hits window now hits = filter (\<lambda>t. now - t < window) hits"

definition prune_buckets :: "nat \<Rightarrow> nat \<Rightarrow> (string \<times> nat list) list \<Rightarrow> (string \<times> nat list) list" where
  "prune_buckets window now bs = filter (\<lambda>(_, hits). list_ex (\<lambda>t. now - t < window) hits) bs"

definition check_at :: "rate_limiter \<Rightarrow> string \<Rightarrow> nat \<Rightarrow> bool \<times> rate_limiter" where
  "check_at l key now =
     (let bs = (if KEY_SOFT_CAP \<le> length (rl_buckets l)
                then prune_buckets (rl_window l) now (rl_buckets l) else rl_buckets l);
          hits = (case map_of bs key of None \<Rightarrow> [] | Some h \<Rightarrow> h);
          hits = live_hits (rl_window l) now hits
      in if rl_max_requests l \<le> length hits
         then (False, l\<lparr>rl_buckets := AList.update key hits bs\<rparr>)
         else (True, l\<lparr>rl_buckets := AList.update key (hits @ [now]) bs\<rparr>))"

text \<open>Header values are the strings \<open>to_str\<close> accepts; a header that is absent or not
  visible ASCII is \<open>None\<close>.  The peer is the textual address.\<close>

definition client_key :: "string option \<Rightarrow> string option \<Rightarrow> string option \<Rightarrow> string" where
  "client_key peer xff xri =
     (let fallback =
        (let direct = (case peer of Some addr \<Rightarrow> addr | None \<Rightarrow> ''unknown'') in
         case xri of
           Some v \<Rightarrow> if trim v \<noteq> [] then trim v else direct
         | None \<Rightarrow> direct)
      in case xff of
           Some v \<Rightarrow> (let first = trim (hd (split_on (CHR 0x2C) v)) in
                      if first \<noteq> [] then first else fallback)
         | None \<Rightarrow> fallback)"

text \<open>A sequence of requests with explicit times.\<close>

fun check_all :: "rate_limiter \<Rightarrow> (string \<times> nat) list \<Rightarrow> bool list \<times> rate_limiter" where
  "check_all l [] = ([], l)"
| "check_all l ((key, now) # reqs) =
     (case check_at l key now of (ok, l') \<Rightarrow>
       (case check_all l' reqs of (oks, l'') \<Rightarrow> (ok # oks, l'')))"

section \<open>Specification: one window per key, nothing ever pruned\<close>

text \<open>\<open>spec_limit max window allowed now\<close>: a request at \<open>now\<close> passes iff fewer than \<open>max\<close> of the
  requests that passed before are still inside the window.\<close>

definition spec_limit :: "nat \<Rightarrow> nat \<Rightarrow> nat list \<Rightarrow> nat \<Rightarrow> bool" where
  "spec_limit m window allowed now \<longleftrightarrow> length (live_hits window now allowed) < m"

fun spec_decisions :: "nat \<Rightarrow> nat \<Rightarrow> nat list \<Rightarrow> nat list \<Rightarrow> bool list" where
  "spec_decisions m window allowed [] = []"
| "spec_decisions m window allowed (now # nows) =
     (let ok = spec_limit m window allowed now in
      ok # spec_decisions m window (if ok then allowed @ [now] else allowed) nows)"

definition times_of :: "string \<Rightarrow> (string \<times> nat) list \<Rightarrow> nat list" where
  "times_of k reqs = map snd (filter (\<lambda>r. fst r = k) reqs)"

definition decisions_of :: "string \<Rightarrow> (string \<times> nat) list \<Rightarrow> bool list \<Rightarrow> bool list" where
  "decisions_of k reqs oks = map snd (filter (\<lambda>p. fst (fst p) = k) (zip reqs oks))"

section \<open>Refinement\<close>

text \<open>Up to a point in time only the hits inside the window matter.\<close>

definition bucket :: "rate_limiter \<Rightarrow> string \<Rightarrow> nat list" where
  "bucket l k = (case map_of (rl_buckets l) k of None \<Rightarrow> [] | Some h \<Rightarrow> h)"

definition limiter_inv :: "rate_limiter \<Rightarrow> bool" where
  "limiter_inv l \<longleftrightarrow> distinct (map fst (rl_buckets l))"

definition tracks :: "nat \<Rightarrow> rate_limiter \<Rightarrow> (string \<Rightarrow> nat list) \<Rightarrow> bool" where
  "tracks now l a \<longleftrightarrow> limiter_inv l \<and>
     (\<forall>k. live_hits (rl_window l) now (bucket l k) = live_hits (rl_window l) now (a k))"

lemma live_hits_Nil [simp]: "live_hits w now [] = []"
  by (simp add: live_hits_def)

lemma live_hits_later:
  "now \<le> now' \<Longrightarrow> live_hits w now' (live_hits w now h) = live_hits w now' h"
  by (auto simp: live_hits_def intro!: filter_cong)

lemma live_hits_append [simp]: "live_hits w now (x @ y) = live_hits w now x @ live_hits w now y"
  by (simp add: live_hits_def)

lemma live_hits_later_eq:
  "live_hits w now h = live_hits w now h' \<Longrightarrow> now \<le> now' \<Longrightarrow> live_hits w now' h = live_hits w now' h'"
  by (metis live_hits_later)

lemma map_of_filter_snd:
  "distinct (map fst bs) \<Longrightarrow> map_of (filter (\<lambda>(_, h). P h) bs) k =
     (case map_of bs k of None \<Rightarrow> None | Some h \<Rightarrow> if P h then Some h else None)"
  by (induction bs) (auto simp: map_of_eq_None_iff image_iff split: option.splits)

lemma live_hits_empty_iff: "live_hits w now h = [] \<longleftrightarrow> \<not> list_ex (\<lambda>t. now - t < w) h"
  by (auto simp: live_hits_def filter_empty_conv list_ex_iff)

lemma pruned_live_hits:
  assumes "distinct (map fst bs)"
  shows "live_hits w now (case map_of (prune_buckets w now bs) k of None \<Rightarrow> [] | Some h \<Rightarrow> h)
       = live_hits w now (case map_of bs k of None \<Rightarrow> [] | Some h \<Rightarrow> h)"
proof (cases "map_of bs k")
  case (Some h)
  then show ?thesis
    using live_hits_empty_iff [of w now h]
    by (cases "list_ex (\<lambda>t. now - t < w) h") (simp_all add: prune_buckets_def map_of_filter_snd [OF assms])
qed (simp add: prune_buckets_def map_of_filter_snd [OF assms])

lemma check_at_characterisation:
  assumes "limiter_inv l"
  shows "fst (check_at l k now) \<longleftrightarrow> length (live_hits (rl_window l) now (bucket l k)) < rl_max_requests l"
    and "rl_window (snd (check_at l k now)) = rl_window l"
    and "rl_max_requests (snd (check_at l k now)) = rl_max_requests l"
    and "limiter_inv (snd (check_at l k now))"
    and "live_hits (rl_window l) now (bucket (snd (check_at l k now)) k') =
         live_hits (rl_window l) now
           (bucket l k' @ (if k' = k \<and> fst (check_at l k now) then [now] else []))"
proof -
  let ?w = "rl_window l"
  define bs where "bs = (if KEY_SOFT_CAP \<le> length (rl_buckets l)
    then prune_buckets ?w now (rl_buckets l) else rl_buckets l)"
  let ?h = "\<lambda>k. case map_of bs k of None \<Rightarrow> [] | Some h \<Rightarrow> h"
  have d: "distinct (map fst (rl_buckets l))" using assms by (simp add: limiter_inv_def)
  then have d': "distinct (map fst bs)"
    by (simp add: bs_def prune_buckets_def distinct_map_filter)
  have h: "live_hits ?w now (?h j) = live_hits ?w now (bucket l j)" for j
    using pruned_live_hits [OF d] by (simp add: bucket_def bs_def)
  have eq: "check_at l k now =
     (if rl_max_requests l \<le> length (live_hits ?w now (bucket l k))
      then (False, l\<lparr>rl_buckets := AList.update k (live_hits ?w now (bucket l k)) bs\<rparr>)
      else (True, l\<lparr>rl_buckets := AList.update k (live_hits ?w now (bucket l k) @ [now]) bs\<rparr>))"
    unfolding check_at_def Let_def bs_def [symmetric] h ..
  show "fst (check_at l k now) \<longleftrightarrow> length (live_hits ?w now (bucket l k)) < rl_max_requests l"
    "rl_window (snd (check_at l k now)) = rl_window l"
    "rl_max_requests (snd (check_at l k now)) = rl_max_requests l"
    by (auto simp: eq)
  show "limiter_inv (snd (check_at l k now))"
    using d' by (simp add: eq limiter_inv_def distinct_update)
  have b: "bucket (l\<lparr>rl_buckets := AList.update k v bs\<rparr>) j = (if j = k then v else ?h j)" for v j
    by (simp add: bucket_def update_conv')
  show "live_hits ?w now (bucket (snd (check_at l k now)) k') =
         live_hits ?w now (bucket l k' @ (if k' = k \<and> fst (check_at l k now) then [now] else []))"
    by (simp add: eq b h live_hits_later)
qed

lemma tracks_step:
  assumes "tracks now l a" "now \<le> t"
  shows "fst (check_at l k t) = spec_limit (rl_max_requests l) (rl_window l) (a k) t"
    and "tracks t (snd (check_at l k t)) (if fst (check_at l k t) then a(k := a k @ [t]) else a)"
proof -
  have inv: "limiter_inv l" using assms(1) by (simp add: tracks_def)
  have hits: "live_hits (rl_window l) t (bucket l j) = live_hits (rl_window l) t (a j)" for j
    using assms by (auto simp: tracks_def intro: live_hits_later_eq)
  show "fst (check_at l k t) = spec_limit (rl_max_requests l) (rl_window l) (a k) t"
    by (simp add: check_at_characterisation(1) [OF inv] spec_limit_def hits)
  show "tracks t (snd (check_at l k t)) (if fst (check_at l k t) then a(k := a k @ [t]) else a)"
    unfolding tracks_def check_at_characterisation(2,5) [OF inv]
    using check_at_characterisation(4) [OF inv] by (simp add: hits)
qed

lemma check_all_decisions:
  assumes "tracks now l a" "sorted (now # map snd reqs)"
  shows "decisions_of k reqs (fst (check_all l reqs)) =
     spec_decisions (rl_max_requests l) (rl_window l) (a k) (times_of k reqs)"
  using assms
proof (induction reqs arbitrary: now l a)
  case (Cons r reqs)
  obtain key t where r: "r = (key, t)" by fastforce
  have inv: "limiter_inv l" using Cons.prems(1) by (simp add: tracks_def)
  have le: "now \<le> t" "sorted (t # map snd reqs)" using Cons.prems(2) r by auto
  note st = tracks_step [OF Cons.prems(1) le(1), of key]
  obtain ok l' where c: "check_at l key t = (ok, l')" by fastforce
  obtain oks l'' where c': "check_all l' reqs = (oks, l'')" by fastforce
  have f: "rl_max_requests l' = rl_max_requests l" "rl_window l' = rl_window l"
    using check_at_characterisation(2,3) [OF inv, of key t] c by auto
  have "decisions_of k reqs oks =
     spec_decisions (rl_max_requests l) (rl_window l)
       ((if ok then a(key := a key @ [t]) else a) k) (times_of k reqs)"
    using Cons.IH [OF _ le(2), of l'] st(2) c c' f by simp
  then show ?case
    using st(1) c c' by (auto simp: r decisions_of_def times_of_def Let_def)
qed (simp add: decisions_of_def times_of_def)

lemma tracks_new: "tracks 0 (limiter_new m w) (\<lambda>_. [])"
  by (simp add: tracks_def limiter_inv_def limiter_new_def bucket_def)

text \<open>C18: clients do not influence each other.  On a clock that does not go back, the decisions a
  client receives are those of a limiter that serves this client alone and never forgets
  a request: neither the requests of the other clients nor the pruning at the soft cap
  changes an answer.\<close>

theorem limiter_isolates_keys:
  assumes "sorted (map snd reqs)"
  shows "decisions_of k reqs (fst (check_all (limiter_new m w) reqs)) =
     spec_decisions (max m 1) w [] (times_of k reqs)"
  using check_all_decisions [OF tracks_new, of reqs k m w] assms by (simp add: limiter_new_def)

lemma limiter_isolates_keys_witness:
  "decisions_of ''a'' [(''a'', 0), (''b'', 1), (''a'', 2), (''a'', 3), (''a'', 11)]
     (fst (check_all (limiter_new 2 10) [(''a'', 0), (''b'', 1), (''a'', 2), (''a'', 3), (''a'', 11)]))
   = spec_decisions (max 2 1) 10 []
     (times_of ''a'' [(''a'', 0), (''b'', 1), (''a'', 2), (''a'', 3), (''a'', 11)])"
  by (rule limiter_isolates_keys) simp

section \<open>The bound\<close>

lemma spec_window_bound:
  assumes "sorted nows" "\<forall>t \<in> set allowed. \<forall>u \<in> set nows. t \<le> u"
    and "\<forall>u. length (live_hits w u (filter (\<lambda>t. t \<le> u) allowed)) \<le> m"
  shows "length (live_hits w u (filter (\<lambda>t. t \<le> u)
           (allowed @ map fst (filter snd (zip nows (spec_decisions m w allowed nows)))))) \<le> m"
  using assms
proof (induction nows arbitrary: allowed)
  case (Cons now nows)
  show ?case
  proof (cases "spec_limit m w allowed now")
    case False
    then show ?thesis using Cons by (simp add: Let_def)
  next
    case True
    have le: "filter (\<lambda>t. t \<le> v) allowed = allowed" if "now \<le> v" for v
      using Cons.prems(2) that by (auto simp: filter_id_conv intro: order.trans)
    have "length (live_hits w v (filter (\<lambda>t. t \<le> v) (allowed @ [now]))) \<le> m" for v
    proof (cases "now \<le> v")
      case False
      then show ?thesis using Cons.prems(3) by simp
    next
      case True': True
      have "length (live_hits w v allowed) \<le> length (live_hits w now allowed)"
        using live_hits_later [OF True', of w allowed]
        by (metis length_filter_le live_hits_def)
      also have "\<dots> < m" using True by (simp add: spec_limit_def)
      finally have "Suc (length (live_hits w v allowed)) \<le> m" by simp
      moreover have "length (live_hits w v [now]) \<le> 1" by (simp add: live_hits_def)
      ultimately show ?thesis using True' le by simp
    qed
    then have "length (live_hits w u (filter (\<lambda>t. t \<le> u) ((allowed @ [now]) @
        map fst (filter snd (zip nows (spec_decisions m w (allowed @ [now]) nows)))))) \<le> m"
      using Cons.prems by (intro Cons.IH) auto
    then show ?thesis using True by (simp add: Let_def)
  qed
qed simp

text \<open>The times at which a client was admitted.\<close>

definition admitted_times :: "string \<Rightarrow> (string \<times> nat) list \<Rightarrow> bool list \<Rightarrow> nat list" where
  "admitted_times k reqs oks = map (\<lambda>p. snd (fst p)) (filter (\<lambda>p. fst (fst p) = k \<and> snd p) (zip reqs oks))"

lemma length_check_all [simp]: "length (fst (check_all l reqs)) = length reqs"
proof (induction reqs arbitrary: l)
  case (Cons r reqs)
  obtain ok l' where "check_at l (fst r) (snd r) = (ok, l')" by fastforce
  then show ?case using Cons.IH [of l'] by (cases r; cases "check_all l' reqs") simp
qed simp

lemma admitted_times_zip:
  "length reqs = length oks \<Longrightarrow>
   map fst (filter snd (zip (times_of k reqs) (decisions_of k reqs oks))) = admitted_times k reqs oks"
  by (induction reqs oks rule: list_induct2) (auto simp: times_of_def decisions_of_def admitted_times_def)

lemma admitted_window_bound:
  assumes "sorted (map snd reqs)"
  shows "length (filter (\<lambda>t. t \<le> u \<and> u - t < w)
     (admitted_times k reqs (fst (check_all (limiter_new m w) reqs)))) \<le> max m 1"
proof -
  have "sorted (times_of k reqs)"
    using assms by (simp add: times_of_def sorted_filter)
  then have "length (live_hits w u (filter (\<lambda>t. t \<le> u)
     ([] @ map fst (filter snd (zip (times_of k reqs) (spec_decisions (max m 1) w [] (times_of k reqs)))))))
     \<le> max m 1"
    by (intro spec_window_bound) (simp_all add: live_hits_def)
  moreover have "decisions_of k reqs (fst (check_all (limiter_new m w) reqs)) =
     spec_decisions (max m 1) w [] (times_of k reqs)"
    using check_all_decisions [OF tracks_new, of reqs k m w] assms by (simp add: limiter_new_def)
  ultimately show ?thesis
    by (simp add: live_hits_def conj_commute admitted_times_zip [symmetric])
qed

lemma fresh_keys_pass:
  assumes "tracks now l a" "sorted (now # map snd reqs)" "distinct (map fst reqs)"
    and "\<forall>k\<in>set (map fst reqs). a k = []" "0 < rl_max_requests l"
  shows "fst (check_all l reqs) = replicate (length reqs) True"
  using assms
proof (induction reqs arbitrary: now l a)
  case (Cons r reqs)
  obtain k t where r: "r = (k, t)" by fastforce
  obtain ok l' where c: "check_at l k t = (ok, l')" by fastforce
  have le: "now \<le> t" using Cons.prems(2) r by simp
  have ok: "ok" using tracks_step(1) [OF Cons.prems(1) le, of k] Cons.prems(4,5) c r
    by (simp add: spec_limit_def)
  have tr: "tracks t l' (a(k := a k @ [t]))" using tracks_step(2) [OF Cons.prems(1) le, of k] c ok by simp
  have "rl_max_requests l' = rl_max_requests l"
    using check_at_characterisation(3) [of l k t] Cons.prems(1) c by (simp add: tracks_def)
  then have "fst (check_all l' reqs) = replicate (length reqs) True"
    using Cons.prems r by (intro Cons.IH [OF tr]) auto
  then show ?case using c ok r by (cases "check_all l' reqs") simp
qed simp

text \<open>The ceiling holds in every sliding window, not only at request times: for each client
  and each instant, at most \<open>max_requests\<close> of the requests admitted up to that instant
  lie within the window that ends there.\<close>

theorem limiter_window_bound:
  assumes "sorted (map snd reqs)"
  shows "length (filter (\<lambda>t. t \<le> u \<and> u - t < w)
     (map fst (filter snd (zip (times_of k reqs)
        (decisions_of k reqs (fst (check_all (limiter_new m w) reqs))))))) \<le> max m 1"
  using admitted_window_bound [OF assms] by (simp add: admitted_times_zip)

lemma limiter_window_bound_witness:
  "length (filter (\<lambda>t. t \<le> 5 \<and> 5 - t < 10)
     (map fst (filter snd (zip (times_of ''a'' [(''a'', 0), (''a'', 2), (''a'', 3)])
        (decisions_of ''a'' [(''a'', 0), (''a'', 2), (''a'', 3)]
          (fst (check_all (limiter_new 2 10) [(''a'', 0), (''a'', 2), (''a'', 3)]))))))) \<le> max 2 1"
  by (rule limiter_window_bound) simp

end
