(* ===== verification/Event_Store.thy ===== *)
theory Event_Store
  imports Core_Types
begin

text \<open>
  The event store of src/crates/ree0xq-server/src/store.rs and its Postgres
  implementation src/crates/ree0xq-server/src/store_pg.rs.  The trait \<open>EventStore\<close> is
  the locale \<open>event_store\<close>; both implementations interpret it.  SQL statements
  are modelled by what they do to the two tables of the migration; a
  \<open>TIMESTAMPTZ\<close> holds microseconds, so the stored time of an event is its time
  in nanoseconds divided by 1000.  The body column holds the event.
\<close>

section \<open>The contract\<close>

record dedup_key =
  dk_source_module :: string
  dk_kind :: asset_kind
  dk_identity :: string

definition key_from_event :: "crypto_inventory_event \<Rightarrow> dedup_key" where
  "key_from_event ev =
     \<lparr>dk_source_module = ev_source_module ev, dk_kind = as_kind (ev_asset ev),
      dk_identity = as_identity (ev_asset ev)\<rparr>"

definition key_for :: "asset \<Rightarrow> string \<Rightarrow> dedup_key" where
  "key_for a source_module =
     \<lparr>dk_source_module = source_module, dk_kind = as_kind a, dk_identity = as_identity a\<rparr>"

text \<open>One event replaces the latest one unless it is strictly older.\<close>

definition supersede ::
  "(timestamp \<Rightarrow> int) \<Rightarrow> crypto_inventory_event option \<Rightarrow> crypto_inventory_event \<Rightarrow> crypto_inventory_event" where
  "supersede stamp prev ev =
     (case prev of
        None \<Rightarrow> ev
      | Some p \<Rightarrow> if stamp (ev_observed_at ev) < stamp (ev_observed_at p) then p else ev)"

definition newest_of ::
  "(timestamp \<Rightarrow> int) \<Rightarrow> crypto_inventory_event list \<Rightarrow> crypto_inventory_event option" where
  "newest_of stamp es = foldl (\<lambda>acc ev. Some (supersede stamp acc ev)) None es"

lemma newest_of_snoc: "newest_of stamp (es @ [e]) = Some (supersede stamp (newest_of stamp es) e)"
  by (simp add: newest_of_def)

lemma newest_of_None [simp]: "newest_of stamp es = None \<longleftrightarrow> es = []"
  by (cases es rule: rev_cases) (simp_all add: newest_of_def)

text \<open>\<open>newest_of\<close> is the event with the greatest time, the last to arrive among equals.\<close>

lemma newest_of_split:
  assumes "newest_of stamp es = Some e"
  shows "\<exists>pre post. es = pre @ e # post \<and>
     (\<forall>x \<in> set pre. stamp (ev_observed_at x) \<le> stamp (ev_observed_at e)) \<and>
     (\<forall>x \<in> set post. stamp (ev_observed_at x) < stamp (ev_observed_at e))"
  using assms
proof (induction es arbitrary: e rule: rev_induct)
  case (snoc x es)
  show ?case
  proof (cases "newest_of stamp es")
    case None
    then have "es = []" by simp
    moreover from this have "e = x" using snoc.prems by (simp add: newest_of_def supersede_def)
    ultimately show ?thesis by (intro exI [of _ "[]"]) simp
  next
    case (Some p)
    from snoc.IH [OF this] obtain pre post where es: "es = pre @ p # post"
      "\<forall>x \<in> set pre. stamp (ev_observed_at x) \<le> stamp (ev_observed_at p)"
      "\<forall>x \<in> set post. stamp (ev_observed_at x) < stamp (ev_observed_at p)" by blast
    show ?thesis
    proof (cases "stamp (ev_observed_at x) < stamp (ev_observed_at p)")
      case True
      then have "e = p" using snoc.prems Some by (simp add: newest_of_snoc supersede_def)
      with True es show ?thesis by (intro exI [of _ pre] exI [of _ "post @ [x]"]) auto
    next
      case False
      then have "e = x" using snoc.prems Some by (simp add: newest_of_snoc supersede_def)
      with False es show ?thesis by (intro exI [of _ es] exI [of _ "[]"]) force
    qed
  qed
qed (simp add: newest_of_def)

locale event_store =
  fixes empty :: 's
    and inv :: "'s \<Rightarrow> bool"
    and append :: "'s \<Rightarrow> crypto_inventory_event \<Rightarrow> 's"
    and count :: "'s \<Rightarrow> nat"
    and recent :: "'s \<Rightarrow> nat \<Rightarrow> crypto_inventory_event list"
    and latest_per_asset :: "'s \<Rightarrow> crypto_inventory_event list"
    and latest_for :: "'s \<Rightarrow> asset \<Rightarrow> string \<Rightarrow> crypto_inventory_event option"
    and stamp :: "timestamp \<Rightarrow> int"
  assumes empty_inv: "inv empty"
    and empty_count: "count empty = 0"
    and empty_latest: "latest_for empty a m = None"
    and append_inv: "inv s \<Longrightarrow> inv (append s e)"
    and append_count: "count (append s e) = Suc (count s)"
    and append_latest: "inv s \<Longrightarrow> latest_for (append s e) a m =
          (if key_from_event e = key_for a m then Some (supersede stamp (latest_for s a m) e)
           else latest_for s a m)"
    and latest_per_asset_iff: "inv s \<Longrightarrow>
          e \<in> set (latest_per_asset s) \<longleftrightarrow> (\<exists>a m. key_from_event e = key_for a m \<and> latest_for s a m = Some e)"
    and latest_per_asset_distinct: "inv s \<Longrightarrow> distinct (map key_from_event (latest_per_asset s))"
    and recent_length: "n < 2 ^ 63 \<Longrightarrow> length (recent s n) = min n (count s)"
begin

definition append_all :: "crypto_inventory_event list \<Rightarrow> 's" where
  "append_all es = foldl append empty es"

lemma append_all_snoc: "append_all (es @ [e]) = append (append_all es) e"
  by (simp add: append_all_def)

lemma append_all_inv: "inv (append_all es)"
  by (induction es rule: rev_induct) (simp_all add: append_all_def empty_inv append_inv)

lemma append_all_count: "count (append_all es) = length es"
  by (induction es rule: rev_induct) (simp_all add: append_all_def empty_count append_count)

lemma append_all_latest:
  "latest_for (append_all es) a m = newest_of stamp (filter (\<lambda>e. key_from_event e = key_for a m) es)"
proof (induction es rule: rev_induct)
  case Nil
  then show ?case by (simp add: append_all_def empty_latest newest_of_def)
next
  case (snoc e es)
  then show ?case
    by (simp add: append_all_snoc append_latest [OF append_all_inv] newest_of_snoc)
qed

lemma append_all_latest_per_asset:
  "set (latest_per_asset (append_all es)) =
     {e. newest_of stamp (filter (\<lambda>x. key_from_event x = key_from_event e) es) = Some e}"
proof -
  have "\<exists>a m. k = key_for a m" for k
    by (intro exI [of _ "\<lparr>as_kind = dk_kind k, as_identity = dk_identity k, as_host = None\<rparr>"]
        exI [of _ "dk_source_module k"]) (simp add: key_for_def)
  then show ?thesis
    by (auto simp: latest_per_asset_iff [OF append_all_inv] append_all_latest) metis
qed

lemma recent_bounded: "n < 2 ^ 63 \<Longrightarrow> length (recent (append_all es) n) = min n (length es)"
  by (simp add: recent_length append_all_count)

end

section \<open>The in-memory store\<close>

record memory_store =
  ms_log :: "crypto_inventory_event list"
  ms_latest :: "(dedup_key \<times> crypto_inventory_event) list"

definition memory_new :: memory_store where
  "memory_new = \<lparr>ms_log = [], ms_latest = []\<rparr>"

definition memory_append :: "memory_store \<Rightarrow> crypto_inventory_event \<Rightarrow> memory_store" where
  "memory_append s ev =
     (let key = key_from_event ev in
      case map_of (ms_latest s) key of
        Some prev \<Rightarrow>
          (if ev_observed_at ev < ev_observed_at prev
           then s\<lparr>ms_log := ms_log s @ [ev]\<rparr>
           else s\<lparr>ms_latest := AList.update key ev (ms_latest s), ms_log := ms_log s @ [ev]\<rparr>)
      | None \<Rightarrow> s\<lparr>ms_latest := AList.update key ev (ms_latest s), ms_log := ms_log s @ [ev]\<rparr>)"

definition memory_len :: "memory_store \<Rightarrow> nat" where
  "memory_len s = length (ms_log s)"

definition memory_recent :: "memory_store \<Rightarrow> nat \<Rightarrow> crypto_inventory_event list" where
  "memory_recent s limit = (let start = length (ms_log s) - limit in rev (drop start (ms_log s)))"

definition memory_latest_per_asset :: "memory_store \<Rightarrow> crypto_inventory_event list" where
  "memory_latest_per_asset s = map snd (ms_latest s)"

definition memory_latest_for :: "memory_store \<Rightarrow> asset \<Rightarrow> string \<Rightarrow> crypto_inventory_event option" where
  "memory_latest_for s a source_module = map_of (ms_latest s) (key_for a source_module)"

definition memory_inv :: "memory_store \<Rightarrow> bool" where
  "memory_inv s \<longleftrightarrow> distinct (map fst (ms_latest s)) \<and>
     (\<forall>(k, e) \<in> set (ms_latest s). key_from_event e = k)"

lemma memory_append_latest:
  "map_of (ms_latest (memory_append s e)) k =
     (if k = key_from_event e then Some (supersede id (map_of (ms_latest s) k) e)
      else map_of (ms_latest s) k)"
  by (auto simp: memory_append_def Let_def supersede_def update_conv' split: option.splits)

lemma memory_append_log: "ms_log (memory_append s e) = ms_log s @ [e]"
  by (auto simp: memory_append_def Let_def split: option.splits)

lemma memory_inv_append: "memory_inv s \<Longrightarrow> memory_inv (memory_append s e)"
proof -
  assume inv: "memory_inv s"
  have "distinct (map fst (ms_latest (memory_append s e)))"
    using inv by (auto simp: memory_append_def Let_def memory_inv_def distinct_update split: option.splits)
  moreover have "key_from_event x = k" if "(k, x) \<in> set (ms_latest (memory_append s e))" for k x
  proof -
    have "map_of (ms_latest (memory_append s e)) k = Some x"
      using that calculation by simp
    then show ?thesis
      using inv
      by (auto simp: memory_append_latest memory_inv_def supersede_def
          split: if_splits option.splits dest!: map_of_SomeD)
  qed
  ultimately show ?thesis by (auto simp: memory_inv_def)
qed

interpretation memory: event_store memory_new memory_inv memory_append memory_len memory_recent
  memory_latest_per_asset memory_latest_for id
proof
  fix s e a m n
  show "memory_inv memory_new" "memory_len memory_new = 0" "memory_latest_for memory_new a m = None"
    by (simp_all add: memory_inv_def memory_new_def memory_len_def memory_latest_for_def)
  show "memory_inv s \<Longrightarrow> memory_inv (memory_append s e)" by (rule memory_inv_append)
  show "memory_len (memory_append s e) = Suc (memory_len s)"
    by (simp add: memory_len_def memory_append_log)
  show "memory_latest_for (memory_append s e) a m =
     (if key_from_event e = key_for a m then Some (supersede id (memory_latest_for s a m) e)
      else memory_latest_for s a m)"
    by (auto simp: memory_latest_for_def memory_append_latest)
  show "memory_inv s \<Longrightarrow> e \<in> set (memory_latest_per_asset s) \<longleftrightarrow>
     (\<exists>a m. key_from_event e = key_for a m \<and> memory_latest_for s a m = Some e)"
  proof -
    assume inv: "memory_inv s"
    have key: "\<exists>a m. k = key_for a m" for k
      by (intro exI [of _ "\<lparr>as_kind = dk_kind k, as_identity = dk_identity k, as_host = None\<rparr>"]
          exI [of _ "dk_source_module k"]) (simp add: key_for_def)
    have "e \<in> set (memory_latest_per_asset s) \<longleftrightarrow> map_of (ms_latest s) (key_from_event e) = Some e"
      using inv by (force simp: memory_latest_per_asset_def memory_inv_def image_iff)
    moreover obtain a m where "key_from_event e = key_for a m" using key by blast
    ultimately show ?thesis
      unfolding memory_latest_for_def by metis
  qed
  show "memory_inv s \<Longrightarrow> distinct (map key_from_event (memory_latest_per_asset s))"
  proof -
    assume inv: "memory_inv s"
    then have "map key_from_event (memory_latest_per_asset s) = map fst (ms_latest s)"
      by (auto simp: memory_latest_per_asset_def memory_inv_def)
    with inv show ?thesis by (simp add: memory_inv_def)
  qed
  show "length (memory_recent s n) = min n (memory_len s)"
    by (simp add: memory_recent_def memory_len_def Let_def)
qed

section \<open>The Postgres store\<close>

text \<open>\<open>#[serde(rename_all = "snake_case")]\<close> on \<open>AssetKind\<close>.\<close>

fun asset_kind_text :: "asset_kind \<Rightarrow> string" where
  "asset_kind_text TlsSession = ''tls_session''"
| "asset_kind_text SshSession = ''ssh_session''"
| "asset_kind_text IpsecSa = ''ipsec_sa''"
| "asset_kind_text X509Cert = ''x509_cert''"
| "asset_kind_text BlockchainKey = ''blockchain_key''"
| "asset_kind_text HsmSlot = ''hsm_slot''"
| "asset_kind_text DnsDnssec = ''dns_dnssec''"
| "asset_kind_text QkdLink = ''qkd_link''"
| "asset_kind_text QkdKme = ''qkd_kme''"

lemma asset_kind_text_inj [simp]: "asset_kind_text a = asset_kind_text b \<longleftrightarrow> a = b"
  by (cases a; cases b) simp_all

definition timestamptz :: "timestamp \<Rightarrow> int" where
  "timestamptz t = t div 1000"

type_synonym pg_key = "string \<times> string \<times> string"

record pg_row =
  row_observed_at :: int
  row_key :: pg_key
  row_body :: crypto_inventory_event

record pg_store =
  pg_events :: "pg_row list"
  pg_assets :: "pg_row list"

definition pg_new :: pg_store where
  "pg_new = \<lparr>pg_events = [], pg_assets = []\<rparr>"

definition pg_key_of :: "crypto_inventory_event \<Rightarrow> pg_key" where
  "pg_key_of ev =
     (ev_source_module ev, asset_kind_text (as_kind (ev_asset ev)), as_identity (ev_asset ev))"

text \<open>\<open>INSERT .. ON CONFLICT (key) DO UPDATE SET .. WHERE assets.observed_at <= EXCLUDED.observed_at\<close>\<close>

fun pg_upsert :: "pg_row \<Rightarrow> pg_row list \<Rightarrow> pg_row list" where
  "pg_upsert r [] = [r]"
| "pg_upsert r (a # as) =
     (if row_key a = row_key r
      then (if row_observed_at a \<le> row_observed_at r
            then a\<lparr>row_observed_at := row_observed_at r, row_body := row_body r\<rparr> else a) # as
      else a # pg_upsert r as)"

definition pg_append :: "pg_store \<Rightarrow> crypto_inventory_event \<Rightarrow> pg_store" where
  "pg_append s ev =
     (let r = \<lparr>row_observed_at = timestamptz (ev_observed_at ev), row_key = pg_key_of ev, row_body = ev\<rparr>
      in \<lparr>pg_events = pg_events s @ [r], pg_assets = pg_upsert r (pg_assets s)\<rparr>)"

definition pg_len :: "pg_store \<Rightarrow> nat" where
  "pg_len s = length (pg_events s)"

text \<open>\<open>ORDER BY observed_at DESC LIMIT n\<close>.  SQL leaves the order of equal times open; this is the
  answer that keeps the insertion order among them.  The bind is an \<open>i64\<close>.\<close>

definition pg_recent :: "pg_store \<Rightarrow> nat \<Rightarrow> crypto_inventory_event list" where
  "pg_recent s limit =
     map row_body (take (min limit (2 ^ 63 - 1)) (sort_key (\<lambda>r. - row_observed_at r) (pg_events s)))"

definition pg_latest_per_asset :: "pg_store \<Rightarrow> crypto_inventory_event list" where
  "pg_latest_per_asset s = map row_body (pg_assets s)"

definition pg_latest_for :: "pg_store \<Rightarrow> asset \<Rightarrow> string \<Rightarrow> crypto_inventory_event option" where
  "pg_latest_for s a source_module =
     map_option row_body
       (find (\<lambda>r. row_key r = (source_module, asset_kind_text (as_kind a), as_identity a)) (pg_assets s))"

text \<open>A \<open>Vec\<close> of that many rows cannot exist; the invariant says so.\<close>

definition pg_inv :: "pg_store \<Rightarrow> bool" where
  "pg_inv s \<longleftrightarrow> distinct (map row_key (pg_assets s)) \<and>
     (\<forall>r \<in> set (pg_assets s). row_key r = pg_key_of (row_body r) \<and>
        row_observed_at r = timestamptz (ev_observed_at (row_body r)))"

definition pg_find :: "pg_row list \<Rightarrow> pg_key \<Rightarrow> pg_row option" where
  "pg_find rs k = find (\<lambda>r. row_key r = k) rs"

lemma pg_upsert_keys: "set (map row_key (pg_upsert r as)) = insert (row_key r) (row_key ` set as)"
  by (induction as) auto

lemma pg_upsert_distinct: "distinct (map row_key as) \<Longrightarrow> distinct (map row_key (pg_upsert r as))"
  using pg_upsert_keys by (induction as) (fastforce, auto simp: pg_upsert_keys)

lemma pg_upsert_find:
  "pg_find (pg_upsert r as) k =
     (if k = row_key r
      then (case pg_find as k of
              None \<Rightarrow> Some r
            | Some a \<Rightarrow> Some (if row_observed_at a \<le> row_observed_at r
                then a\<lparr>row_observed_at := row_observed_at r, row_body := row_body r\<rparr> else a))
      else pg_find as k)"
  by (induction as) (auto simp: pg_find_def)

lemma pg_find_Some: "pg_find rs k = Some r \<Longrightarrow> r \<in> set rs \<and> row_key r = k"
  by (auto simp: pg_find_def find_Some_iff)

lemma pg_find_member:
  "distinct (map row_key rs) \<Longrightarrow> r \<in> set rs \<Longrightarrow> pg_find rs (row_key r) = Some r"
  by (induction rs) (auto simp: pg_find_def image_iff)

lemma pg_latest_for_find:
  "pg_latest_for s a m = map_option row_body (pg_find (pg_assets s) (m, asset_kind_text (as_kind a), as_identity a))"
  by (simp add: pg_latest_for_def pg_find_def)

lemma pg_key_iff:
  "pg_key_of e = (m, asset_kind_text (as_kind a), as_identity a) \<longleftrightarrow> key_from_event e = key_for a m"
  "pg_key_of e = pg_key_of e' \<longleftrightarrow> key_from_event e = key_from_event e'"
  by (auto simp: pg_key_of_def key_from_event_def key_for_def)

lemma pg_inv_append:
  assumes "pg_inv s"
  shows "pg_inv (pg_append s e)"
proof -
  let ?r = "\<lparr>row_observed_at = timestamptz (ev_observed_at e), row_key = pg_key_of e, row_body = e\<rparr>"
  have "set (pg_upsert ?r as) \<subseteq>
      insert ?r (set as \<union> (\<lambda>a. a\<lparr>row_observed_at := row_observed_at ?r, row_body := row_body ?r\<rparr>)
        ` {a \<in> set as. row_key a = row_key ?r})" for as
    by (induction as) auto
  then show ?thesis
    using assms by (fastforce simp: pg_append_def Let_def pg_inv_def intro: pg_upsert_distinct)
qed

lemma pg_append_latest:
  assumes "pg_inv s"
  shows "pg_latest_for (pg_append s e) a m =
     (if key_from_event e = key_for a m then Some (supersede timestamptz (pg_latest_for s a m) e)
      else pg_latest_for s a m)"
proof -
  let ?k = "(m, asset_kind_text (as_kind a), as_identity a)"
  have "row_observed_at p = timestamptz (ev_observed_at (row_body p))" if "pg_find (pg_assets s) ?k = Some p" for p
    using assms pg_find_Some [OF that] by (simp add: pg_inv_def)
  then show ?thesis
    using pg_key_iff(1) [of e m a]
    by (auto simp: pg_latest_for_find pg_append_def Let_def pg_upsert_find supersede_def
        split: option.splits)
qed

interpretation pg: event_store pg_new pg_inv pg_append pg_len pg_recent pg_latest_per_asset
  pg_latest_for timestamptz
proof
  fix s e a m and n :: nat
  show "pg_inv pg_new" "pg_len pg_new = 0" "pg_latest_for pg_new a m = None"
    by (simp_all add: pg_inv_def pg_new_def pg_len_def pg_latest_for_def)
  show "pg_inv s \<Longrightarrow> pg_inv (pg_append s e)" by (rule pg_inv_append)
  show "pg_len (pg_append s e) = Suc (pg_len s)" by (simp add: pg_len_def pg_append_def Let_def)
  show "pg_inv s \<Longrightarrow> pg_latest_for (pg_append s e) a m =
     (if key_from_event e = key_for a m then Some (supersede timestamptz (pg_latest_for s a m) e)
      else pg_latest_for s a m)"
    by (rule pg_append_latest)
  show "pg_inv s \<Longrightarrow> e \<in> set (pg_latest_per_asset s) \<longleftrightarrow>
     (\<exists>a m. key_from_event e = key_for a m \<and> pg_latest_for s a m = Some e)"
  proof
    assume inv: "pg_inv s" and "e \<in> set (pg_latest_per_asset s)"
    then obtain r where r: "r \<in> set (pg_assets s)" "e = row_body r"
      by (auto simp: pg_latest_per_asset_def)
    have "pg_find (pg_assets s) (pg_key_of e) = Some r"
      using pg_find_member [of "pg_assets s" r] inv r by (simp add: pg_inv_def)
    with r have "key_from_event e = key_for (ev_asset e) (ev_source_module e) \<and>
        pg_latest_for s (ev_asset e) (ev_source_module e) = Some e"
      by (simp add: pg_latest_for_find pg_key_of_def key_from_event_def key_for_def)
    then show "\<exists>a m. key_from_event e = key_for a m \<and> pg_latest_for s a m = Some e" by blast
  next
    assume "\<exists>a m. key_from_event e = key_for a m \<and> pg_latest_for s a m = Some e"
    then show "e \<in> set (pg_latest_per_asset s)"
      by (auto simp: pg_latest_for_find pg_latest_per_asset_def dest: pg_find_Some)
  qed
  show "pg_inv s \<Longrightarrow> distinct (map key_from_event (pg_latest_per_asset s))"
  proof -
    assume inv: "pg_inv s"
    have "inj_on (\<lambda>r. key_from_event (row_body r)) (set (pg_assets s))"
      using inv by (auto simp: pg_inv_def inj_on_def distinct_map pg_key_iff(2) [symmetric])
    with inv show ?thesis
      by (simp add: pg_latest_per_asset_def pg_inv_def distinct_map comp_def)
  qed
  show "n < 2 ^ 63 \<Longrightarrow> length (pg_recent s n) = min n (pg_len s)"
    by (simp add: pg_recent_def pg_len_def)
qed

section \<open>Properties\<close>

text \<open>Both stores implement one specification.  After any history of appends the event a store
  reports for an asset is the newest one of that asset, the last to arrive among equals: out of
  order arrivals never clobber it.  The in-memory store compares times in nanoseconds, Postgres
  in microseconds.\<close>

theorem stores_report_newest:
  "memory_latest_for (foldl memory_append memory_new es) a m =
     newest_of id (filter (\<lambda>e. key_from_event e = key_for a m) es) \<and>
   pg_latest_for (foldl pg_append pg_new es) a m =
     newest_of timestamptz (filter (\<lambda>e. key_from_event e = key_for a m) es)"
  using memory.append_all_latest [of es a m] pg.append_all_latest [of es a m]
  by (simp add: memory.append_all_def pg.append_all_def)

lemma newest_of_same_stamp:
  assumes "\<forall>x \<in> set es. \<forall>y \<in> set es. (f (ev_observed_at x) < f (ev_observed_at y)) = (g (ev_observed_at x) < g (ev_observed_at y))"
  shows "newest_of f es = newest_of g es"
  using assms
proof (induction es rule: rev_induct)
  case (snoc e es)
  then have IH: "newest_of f es = newest_of g es" by auto
  show ?case
  proof (cases "newest_of g es")
    case (Some p)
    then have "p \<in> set es" using newest_of_split [OF Some] by auto
    with snoc.prems Some IH show ?thesis by (simp add: newest_of_snoc supersede_def)
  next
    case None
    with IH have "newest_of f es = None" by simp
    with None show ?thesis by (simp only: newest_of_snoc supersede_def option.case)
  qed
qed (simp add: newest_of_def)

text \<open>C7: swapping the backend does not change the inventory.  On a history whose times are whole
  microseconds, both stores hold the same set of latest events, one per asset key, and the
  same number of events.\<close>

theorem stores_agree:
  assumes "\<forall>e \<in> set es. 1000 dvd ev_observed_at e"
  shows "set (memory_latest_per_asset (foldl memory_append memory_new es)) =
         set (pg_latest_per_asset (foldl pg_append pg_new es))
     \<and> memory_len (foldl memory_append memory_new es) = pg_len (foldl pg_append pg_new es)"
proof -
  have lt: "timestamptz a < timestamptz b \<longleftrightarrow> a < b" if "1000 dvd a" "1000 dvd b" for a b
    using that by (auto simp: timestamptz_def elim!: dvdE)
  have "newest_of id (filter P es) = newest_of timestamptz (filter P es)" for P
    using assms by (intro newest_of_same_stamp) (auto simp: lt)
  then show ?thesis
    using memory.append_all_latest_per_asset [of es] pg.append_all_latest_per_asset [of es]
      memory.append_all_count [of es] pg.append_all_count [of es]
    by (simp add: memory.append_all_def pg.append_all_def)
qed

definition sample_event :: "string \<Rightarrow> timestamp \<Rightarrow> crypto_inventory_event" where
  "sample_event ident t =
     \<lparr>ev_schema_version = 1, ev_schema_minor = 1, ev_source_module = ''ree0xq-net'',
      ev_observed_at = t, ev_asset = \<lparr>as_kind = TlsSession, as_identity = ident, as_host = None\<rparr>,
      ev_primitives = [], ev_channel_protection = None, ev_agility = None,
      ev_posture = \<lparr>po_score = 0, po_rationale = [], po_replacement = None\<rparr>\<rparr>"

lemma stores_agree_witness:
  "set (memory_latest_per_asset (foldl memory_append memory_new
      [sample_event ''a'' 2000, sample_event ''b'' 1000, sample_event ''a'' 1000])) =
   set (pg_latest_per_asset (foldl pg_append pg_new
      [sample_event ''a'' 2000, sample_event ''b'' 1000, sample_event ''a'' 1000]))"
  by (rule conjunct1 [OF stores_agree]) (simp add: sample_event_def)

lemma take_sort_all: "\<forall>r \<in> set xs. P r \<Longrightarrow> \<forall>r \<in> set (take k (sort_key f xs)). P r"
  by (metis in_set_takeD set_sort)

lemma sorted_take_desc:
  assumes "\<forall>r \<in> set xs. row_observed_at r = timestamptz (ev_observed_at (row_body r))"
  shows "sorted (map (\<lambda>e. - timestamptz (ev_observed_at e))
           (map row_body (take k (sort_key (\<lambda>r. - row_observed_at r) xs))))"
proof -
  have "map (\<lambda>e. - timestamptz (ev_observed_at e)) (map row_body (take k (sort_key (\<lambda>r. - row_observed_at r) xs)))
      = take k (map (\<lambda>r. - row_observed_at r) (sort_key (\<lambda>r. - row_observed_at r) xs))"
    unfolding map_map take_map
    by (intro map_cong refl) (metis comp_apply in_set_takeD set_sort assms)
  then show ?thesis by (metis sorted_sort_key sorted_wrt_take)
qed

lemma recent_orders:
  "memory_recent (foldl memory_append memory_new es) n = take n (rev es) \<and>
   sorted (map (\<lambda>e. - timestamptz (ev_observed_at e)) (pg_recent (foldl pg_append pg_new es) n))"
proof
  have "ms_log (foldl memory_append memory_new es) = es"
    by (induction es rule: rev_induct) (simp_all add: memory_new_def memory_append_log)
  then show "memory_recent (foldl memory_append memory_new es) n = take n (rev es)"
    by (cases "n \<le> length es") (simp_all add: memory_recent_def Let_def rev_drop)
next
  let ?s = "foldl pg_append pg_new es"
  have rows: "\<forall>r \<in> set (pg_events ?s). row_observed_at r = timestamptz (ev_observed_at (row_body r))"
    by (induction es rule: rev_induct) (auto simp: pg_new_def pg_append_def Let_def)
  then show "sorted (map (\<lambda>e. - timestamptz (ev_observed_at e)) (pg_recent ?s n))"
    unfolding pg_recent_def by (rule sorted_take_desc)
qed

text \<open>The two stores do not answer \<open>recent\<close> alike.  When the newer of two observations arrives
  first, the in-memory store, which reverses the order of arrival, returns the older one as the
  most recent event; Postgres, which orders by time, returns the newer one.\<close>

theorem recent_orders_differ:
  assumes "timestamptz (ev_observed_at old) < timestamptz (ev_observed_at new)"
  shows "memory_recent (memory_append (memory_append memory_new new) old) 1 = [old]
     \<and> pg_recent (pg_append (pg_append pg_new new) old) 1 = [new]"
  using assms recent_orders [of "[new, old]" 1]
  by (auto simp: pg_recent_def pg_append_def pg_new_def Let_def)

lemma recent_orders_differ_witness:
  "memory_recent (memory_append (memory_append memory_new (sample_event ''a'' 9000))
       (sample_event ''b'' 1000)) 1 = [sample_event ''b'' 1000]
   \<and> pg_recent (pg_append (pg_append pg_new (sample_event ''a'' 9000))
       (sample_event ''b'' 1000)) 1 = [sample_event ''a'' 9000]"
  by (rule recent_orders_differ) (simp add: sample_event_def timestamptz_def)

section \<open>Concurrent appends in memory\<close>

text \<open>The handler does not hold a lock across \<open>append\<close>: the lookup, the insertion into the latest
  map and the push onto the log are separate steps of each task.\<close>

datatype append_pc = AtLookup | AtInsert | AtPush | Finished

type_synonym appender = "crypto_inventory_event \<times> append_pc"

inductive append_step ::
  "memory_store \<times> appender list \<Rightarrow> memory_store \<times> appender list \<Rightarrow> bool" where
  lookup: "i < length ths \<Longrightarrow> ths ! i = (ev, AtLookup) \<Longrightarrow>
     append_step (s, ths)
       (s, ths[i := (ev, case map_of (ms_latest s) (key_from_event ev) of
                           Some prev \<Rightarrow> if ev_observed_at ev < ev_observed_at prev then AtPush else AtInsert
                         | None \<Rightarrow> AtInsert)])"
| insert: "i < length ths \<Longrightarrow> ths ! i = (ev, AtInsert) \<Longrightarrow>
     append_step (s, ths)
       (s\<lparr>ms_latest := AList.update (key_from_event ev) ev (ms_latest s)\<rparr>, ths[i := (ev, AtPush)])"
| push: "i < length ths \<Longrightarrow> ths ! i = (ev, AtPush) \<Longrightarrow>
     append_step (s, ths) (s\<lparr>ms_log := ms_log s @ [ev]\<rparr>, ths[i := (ev, Finished)])"

inductive_cases append_stepE: "append_step (s, ths) st"

abbreviation append_steps where
  "append_steps \<equiv> append_step\<^sup>*\<^sup>*"

text \<open>A task that runs alone does what \<open>memory_append\<close> says.\<close>

lemma append_alone: "append_steps (s, [(ev, AtLookup)]) (memory_append s ev, [(ev, Finished)])"
proof -
  let ?k = "key_from_event ev"
  note l = lookup [of 0 "[(ev, AtLookup)]" ev s] and i = insert [of 0 "[(ev, AtInsert)]" ev]
    and p = push [of 0 "[(ev, AtPush)]" ev]
  show ?thesis
  proof (cases "case map_of (ms_latest s) ?k of
      Some prev \<Rightarrow> ev_observed_at ev < ev_observed_at prev | None \<Rightarrow> False")
    case True
    then have "append_step (s, [(ev, AtLookup)]) (s, [(ev, AtPush)])"
      using l by (auto split: option.splits)
    moreover have "append_step (s, [(ev, AtPush)]) (memory_append s ev, [(ev, Finished)])"
      using p [of s] True by (auto simp: memory_append_def Let_def split: option.splits)
    ultimately show ?thesis by (meson converse_rtranclp_into_rtranclp rtranclp.rtrancl_refl)
  next
    case False
    then have "append_step (s, [(ev, AtLookup)]) (s, [(ev, AtInsert)])"
      using l by (auto split: option.splits)
    moreover have "append_step (s, [(ev, AtInsert)])
        (s\<lparr>ms_latest := AList.update ?k ev (ms_latest s)\<rparr>, [(ev, AtPush)])"
      using i [of s] by simp
    moreover have "append_step (s\<lparr>ms_latest := AList.update ?k ev (ms_latest s)\<rparr>, [(ev, AtPush)])
        (memory_append s ev, [(ev, Finished)])"
      using p [of "s\<lparr>ms_latest := AList.update ?k ev (ms_latest s)\<rparr>"] False
      by (auto simp: memory_append_def Let_def split: option.splits)
    ultimately show ?thesis by (meson converse_rtranclp_into_rtranclp rtranclp.rtrancl_refl)
  qed
qed

text \<open>The log is safe under every interleaving: it gains exactly the events whose task has finished.\<close>

definition finished_events :: "appender list \<Rightarrow> crypto_inventory_event multiset" where
  "finished_events ths = mset (map fst (filter (\<lambda>(ev, pc). pc = Finished) ths))"

lemma finished_update:
  "i < length ths \<Longrightarrow> ths ! i = (ev, pc) \<Longrightarrow> pc \<noteq> Finished \<Longrightarrow>
     finished_events (ths[i := (ev, pc')]) =
     finished_events ths + (if pc' = Finished then {#ev#} else {#})"
  by (induction ths arbitrary: i) (auto simp: finished_events_def nth_Cons split: nat.splits)

lemma append_step_log:
  "append_step (s, ths) (s', ths') \<Longrightarrow> mset (ms_log s) = finished_events ths + X
     \<Longrightarrow> mset (ms_log s') = finished_events ths' + X"
  by (erule append_stepE) (auto simp: finished_update split: option.splits)

lemma append_steps_log:
  "append_steps st st' \<Longrightarrow> mset (ms_log (fst st)) = finished_events (snd st)
     \<Longrightarrow> mset (ms_log (fst st')) = finished_events (snd st')"
proof (induction rule: rtranclp_induct)
  case (step y z)
  then show ?case
    using append_step_log [of "fst y" "snd y" "fst z" "snd z" "{#}"] by simp
qed simp

text \<open>C39: the latest map is not safe: two concurrent appends for one asset can leave the older
  observation as the latest, although both events are in the log.\<close>

theorem append_race_keeps_older:
  assumes "key_from_event old = key_from_event new" "ev_observed_at old < ev_observed_at new"
  shows "\<exists>s. append_steps (memory_new, [(old, AtLookup), (new, AtLookup)])
                (s, [(old, Finished), (new, Finished)])
     \<and> map_of (ms_latest s) (key_from_event new) = Some old \<and> ms_log s = [new, old]"
proof -
  let ?k = "key_from_event new"
  let ?s1 = "memory_new\<lparr>ms_latest := [(?k, new)]\<rparr>" and ?s2 = "memory_new\<lparr>ms_latest := [(?k, old)]\<rparr>"
  let ?s3 = "?s2\<lparr>ms_log := [new]\<rparr>" and ?s4 = "?s2\<lparr>ms_log := [new, old]\<rparr>"
  have "append_step (memory_new, [(old, AtLookup), (new, AtLookup)]) (memory_new, [(old, AtInsert), (new, AtLookup)])"
    using lookup [of 0 "[(old, AtLookup), (new, AtLookup)]" old memory_new] by (simp add: memory_new_def)
  moreover have "append_step (memory_new, [(old, AtInsert), (new, AtLookup)]) (memory_new, [(old, AtInsert), (new, AtInsert)])"
    using lookup [of 1 "[(old, AtInsert), (new, AtLookup)]" new memory_new] by (simp add: memory_new_def)
  moreover have "append_step (memory_new, [(old, AtInsert), (new, AtInsert)]) (?s1, [(old, AtInsert), (new, AtPush)])"
    using insert [of 1 "[(old, AtInsert), (new, AtInsert)]" new memory_new] by (simp add: memory_new_def)
  moreover have "append_step (?s1, [(old, AtInsert), (new, AtPush)]) (?s2, [(old, AtPush), (new, AtPush)])"
    using insert [of 0 "[(old, AtInsert), (new, AtPush)]" old ?s1] assms(1) by simp
  moreover have "append_step (?s2, [(old, AtPush), (new, AtPush)]) (?s3, [(old, AtPush), (new, Finished)])"
    using push [of 1 "[(old, AtPush), (new, AtPush)]" new ?s2] by (simp add: memory_new_def)
  moreover have "append_step (?s3, [(old, AtPush), (new, Finished)]) (?s4, [(old, Finished), (new, Finished)])"
    using push [of 0 "[(old, AtPush), (new, Finished)]" old ?s3] by (simp add: memory_new_def)
  ultimately have "append_steps (memory_new, [(old, AtLookup), (new, AtLookup)]) (?s4, [(old, Finished), (new, Finished)])"
    by (meson converse_rtranclp_into_rtranclp rtranclp.rtrancl_refl)
  then show ?thesis by (intro exI [of _ ?s4]) simp
qed

lemma append_race_keeps_older_witness:
  "\<exists>s. append_steps (memory_new, [(sample_event ''a'' 1, AtLookup), (sample_event ''a'' 2, AtLookup)])
         (s, [(sample_event ''a'' 1, Finished), (sample_event ''a'' 2, Finished)])
     \<and> map_of (ms_latest s) (key_from_event (sample_event ''a'' 2)) = Some (sample_event ''a'' 1)
     \<and> ms_log s = [sample_event ''a'' 2, sample_event ''a'' 1]"
  by (rule append_race_keeps_older) (simp_all add: sample_event_def key_from_event_def)

end
