(* ===== verification/Http.thy ===== *)
theory Http
  imports Core_Types
begin

text \<open>
  The vocabulary of the HTTP handlers: status codes, the error body \<open>ApiError\<close> of
  src/crates/ree0xq-server/src/routes.rs, and header lookup.  Header names are
  compared in lower case; \<open>to_str\<close> accepts visible ASCII, space and tab.
\<close>

datatype status_code =
    OK | ACCEPTED | BAD_REQUEST | UNAUTHORIZED | NOT_FOUND | METHOD_NOT_ALLOWED | PAYLOAD_TOO_LARGE
  | UNPROCESSABLE_ENTITY | TOO_MANY_REQUESTS | INTERNAL_SERVER_ERROR | SERVICE_UNAVAILABLE

record api_error =
  ae_code :: string
  ae_message :: string

type_synonym 'a response = "(status_code \<times> api_error, 'a) result"

definition api_fail :: "status_code \<Rightarrow> string \<Rightarrow> string \<Rightarrow> 'a response" where
  "api_fail st code msg = Inl (st, \<lparr>ae_code = code, ae_message = msg\<rparr>)"

type_synonym headers = "(string \<times> string) list"

definition visible_ascii :: "char \<Rightarrow> bool" where
  "visible_ascii c \<longleftrightarrow> 32 \<le> (of_char c :: nat) \<and> (of_char c :: nat) < 127 \<or> (of_char c :: nat) = 9"

definition header_str :: "headers \<Rightarrow> string \<Rightarrow> string option" where
  "header_str hs name =
     (case map_of (map (\<lambda>(k, v). (to_lower k, v)) hs) (to_lower name) of
        None \<Rightarrow> None
      | Some v \<Rightarrow> if list_all visible_ascii v then Some v else None)"

definition as_bytes :: "string \<Rightarrow> bytes" where
  "as_bytes s = map of_char s"

lemma of_char_u8_inj: "(of_char a :: u8) = of_char b \<longleftrightarrow> a = b"
proof
  assume "(of_char a :: u8) = of_char b"
  then have "unat (of_char a :: u8) = unat (of_char b :: u8)" by simp
  moreover have "unat (of_char c :: u8) = of_char c" for c
  proof -
    have "(of_char c :: u8) = word_of_nat (of_char c)" by (simp add: of_nat_of_char)
    moreover have "(of_char c :: nat) < 256" by simp
    ultimately show ?thesis by (simp add: unat_of_nat take_bit_eq_mod)
  qed
  ultimately have "(of_char a :: nat) = of_char b" by simp
  then show "a = b" by simp
qed simp

lemma as_bytes_inj [simp]: "as_bytes a = as_bytes b \<longleftrightarrow> a = b"
proof -
  have "inj (of_char :: char \<Rightarrow> u8)" by (auto simp: inj_def of_char_u8_inj)
  then show ?thesis by (auto simp: as_bytes_def inj_map_eq_map)
qed

end
