(* ===== verification/Enrol.thy ===== *)
theory Enrol
  imports Http
begin

unbundle bit_operations_syntax

text \<open>
  Bootstrap tokens and enrolment, src/crates/ree0xq-server/src/enrol.rs.  The token
  store is a partial map; the clock, the fresh UUID and the certificate authority
  are arguments.  Times are nanoseconds, \<open>i64\<close> values are integers in range.  The
  second half of the theory runs \<open>consume\<close> concurrently, one atomic map operation at a time.
\<close>

section \<open>The token store\<close>

definition DEFAULT_AGENT_VALIDITY_DAYS :: int where
  "DEFAULT_AGENT_VALIDITY_DAYS = 365"

definition DEFAULT_TOKEN_TTL_HOURS :: int where
  "DEFAULT_TOKEN_TTL_HOURS = 24"

definition ADMIN_HEADER :: string where
  "ADMIN_HEADER = ''X-Admin-Token''"

definition BOOTSTRAP_HEADER :: string where
  "BOOTSTRAP_HEADER = ''X-Bootstrap-Token''"

record token_entry =
  te_agent_id :: string
  te_expires_at :: timestamp

type_synonym token_store = "string \<Rightarrow> token_entry option"

record issued_token =
  it_token :: string
  it_agent_id :: string
  it_expires_at :: timestamp

datatype consume_error = UnknownToken | Expired | AgentMismatch

definition hours :: "int \<Rightarrow> int" where
  "hours n = n * 3600 * 1000000000"

definition issue :: "token_store \<Rightarrow> string \<Rightarrow> string \<Rightarrow> int \<Rightarrow> timestamp \<Rightarrow> issued_token \<times> token_store" where
  "issue tokens token agent_id ttl_hours now =
     (let expires_at = now + hours ttl_hours in
      (\<lparr>it_token = token, it_agent_id = agent_id, it_expires_at = expires_at\<rparr>,
       tokens(token \<mapsto> \<lparr>te_agent_id = agent_id, te_expires_at = expires_at\<rparr>)))"

definition consume ::
  "token_store \<Rightarrow> string \<Rightarrow> string \<Rightarrow> timestamp \<Rightarrow> (consume_error, token_entry) result \<times> token_store" where
  "consume tokens token agent_id now =
     (case tokens token of
        None \<Rightarrow> (Inl UnknownToken, tokens)
      | Some entry \<Rightarrow>
          (let removed = tokens(token := None) in
           if te_expires_at entry < now then (Inl Expired, removed)
           else if te_agent_id entry \<noteq> agent_id
             then (Inl AgentMismatch, removed(token \<mapsto> entry))
           else (Inr entry, removed)))"

definition prune_expired :: "token_store \<Rightarrow> timestamp \<Rightarrow> token_store" where
  "prune_expired tokens now =
     (\<lambda>t. case tokens t of
            None \<Rightarrow> None
          | Some e \<Rightarrow> if now \<le> te_expires_at e then Some e else None)"

text \<open>\<open>constant_time_eq\<close>: accumulate the differences with \<open>|=\<close>, no early exit.\<close>

definition constant_time_eq :: "bytes \<Rightarrow> bytes \<Rightarrow> bool" where
  "constant_time_eq a b =
     (if length a \<noteq> length b then False
      else foldl (\<lambda>d (x, y). d OR (x XOR y)) 0 (zip a b) = 0)"

section \<open>The handlers\<close>

record issue_token_request =
  ir_agent_id :: string
  ir_ttl_hours :: "int option"

record enrol_request =
  er_agent_id :: string
  er_validity_days :: "int option"

record agent_cert =
  ac_cert_pem :: string
  ac_key_pem :: string
  ac_ca_cert_pem :: string
  ac_agent_id :: string
  ac_expires_at :: timestamp

definition issue_bootstrap_token ::
  "string option \<Rightarrow> headers \<Rightarrow> issue_token_request \<Rightarrow> string \<Rightarrow> timestamp \<Rightarrow> timestamp \<Rightarrow>
   token_store \<Rightarrow> issued_token response \<times> token_store" where
  "issue_bootstrap_token admin_token hs req uuid now_prune now_issue tokens =
     (case admin_token of
        None \<Rightarrow> (api_fail SERVICE_UNAVAILABLE ''admin_disabled''
                  ''no admin token configured; cannot issue bootstrap tokens'', tokens)
      | Some expected \<Rightarrow>
     (let provided = (case header_str hs ADMIN_HEADER of None \<Rightarrow> [] | Some v \<Rightarrow> v) in
      if \<not> constant_time_eq (as_bytes provided) (as_bytes expected)
      then (api_fail UNAUTHORIZED ''admin_auth_failed'' ''missing or wrong admin token'', tokens)
      else if trim (ir_agent_id req) = []
      then (api_fail UNPROCESSABLE_ENTITY ''agent_id_required''
              ''agent_id is mandatory and must be non-empty'', tokens)
      else
        (let ttl = (case ir_ttl_hours req of None \<Rightarrow> DEFAULT_TOKEN_TTL_HOURS | Some t \<Rightarrow> t) in
         if \<not> (1 \<le> ttl \<and> ttl \<le> 24 * 30)
         then (api_fail UNPROCESSABLE_ENTITY ''ttl_out_of_range''
                 ''ttl_hours must be between 1 and 720'', tokens)
         else
           (case issue (prune_expired tokens now_prune) uuid (ir_agent_id req) ttl now_issue of
              (issued, tokens') \<Rightarrow> (Inr issued, tokens')))))"

definition consume_failure :: "consume_error \<Rightarrow> 'a response" where
  "consume_failure e = (case e of
     UnknownToken \<Rightarrow> api_fail UNAUTHORIZED ''bootstrap_token_invalid''
       ''bootstrap token is unknown or has been consumed''
   | Expired \<Rightarrow> api_fail UNAUTHORIZED ''bootstrap_token_expired'' ''bootstrap token has expired''
   | AgentMismatch \<Rightarrow> api_fail UNAUTHORIZED ''agent_id_mismatch''
       ''this token was issued for a different agent_id'')"

definition enrol ::
  "(string \<Rightarrow> int \<Rightarrow> (string, agent_cert) result) \<Rightarrow> headers \<Rightarrow> enrol_request \<Rightarrow> timestamp \<Rightarrow>
   token_store \<Rightarrow> agent_cert response \<times> token_store" where
  "enrol sign_agent_cert hs req now tokens =
     (let token = (case header_str hs BOOTSTRAP_HEADER of None \<Rightarrow> [] | Some v \<Rightarrow> v) in
      if token = []
      then (api_fail UNAUTHORIZED ''missing_bootstrap_token''
              (''missing '' @ BOOTSTRAP_HEADER @ '' header''), tokens)
      else
        (case consume tokens token (er_agent_id req) now of
           (Inl e, tokens') \<Rightarrow> (consume_failure e, tokens')
         | (Inr _, tokens') \<Rightarrow>
             (let validity = (case er_validity_days req of
                                None \<Rightarrow> DEFAULT_AGENT_VALIDITY_DAYS | Some d \<Rightarrow> d) in
              if \<not> (1 \<le> validity \<and> validity \<le> 365 * 5)
              then (api_fail UNPROCESSABLE_ENTITY ''validity_out_of_range''
                      ''validity_days must be between 1 and 1825 (5 years)'', tokens')
              else
                (case sign_agent_cert (er_agent_id req) validity of
                   Inl e \<Rightarrow> (api_fail INTERNAL_SERVER_ERROR ''cert_mint_failed'' e, tokens')
                 | Inr cert \<Rightarrow> (Inr cert, tokens')))))"

section \<open>Constant-time comparison\<close>

lemma or_zero_iff: "(a :: 'a::len word) OR b = 0 \<longleftrightarrow> a = 0 \<and> b = 0"
  by (simp add: bit_eq_iff bit_simps) blast

lemma xor_zero_iff: "(a :: 'a::len word) XOR b = 0 \<longleftrightarrow> a = b"
  by (auto simp: bit_eq_iff bit_simps)

lemma foldl_diff_zero:
  "foldl (\<lambda>d (x, y). d OR (x XOR y)) d ps = (0 :: u8) \<longleftrightarrow> d = 0 \<and> (\<forall>(x, y) \<in> set ps. x = y)"
  by (induction ps arbitrary: d) (auto simp: or_zero_iff xor_zero_iff)

lemma zip_all_eq: "length a = length b \<Longrightarrow> (\<forall>(x, y) \<in> set (zip a b). x = y) \<longleftrightarrow> a = b"
  by (induction a b rule: list_induct2) auto

text \<open>The constant-time comparison decides equality of byte strings.\<close>

theorem constant_time_eq_iff: "constant_time_eq a b \<longleftrightarrow> a = b"
  by (auto simp: constant_time_eq_def foldl_diff_zero zip_all_eq)

section \<open>Sequential behaviour\<close>

lemma consume_ok_iff:
  "fst (consume tokens token agent now) = Inr e \<longleftrightarrow>
     tokens token = Some e \<and> now \<le> te_expires_at e \<and> te_agent_id e = agent"
  by (auto simp: consume_def Let_def split: option.splits)

lemma consume_ok_removes:
  "is_ok (fst (consume tokens token agent now)) \<Longrightarrow> snd (consume tokens token agent now) = tokens(token := None)"
  by (auto simp: consume_def Let_def split: option.splits)

text \<open>A failed redemption leaves the store as it was, unless the token had expired, in which case
  it is dropped; in particular a request with the wrong agent id does not burn the token.\<close>

theorem consume_failure_effect:
  assumes "consume tokens token agent now = (Inl e, tokens')"
  shows "tokens' = (if e = Expired then tokens(token := None) else tokens)"
  using assms by (auto simp: consume_def Let_def split: option.splits if_splits)

lemma consume_failure_effect_witness:
  "Map.empty(''t'' \<mapsto> \<lparr>te_agent_id = ''a'', te_expires_at = 5\<rparr>) =
     (if AgentMismatch = Expired
      then (Map.empty(''t'' \<mapsto> \<lparr>te_agent_id = ''a'', te_expires_at = 5\<rparr>))(''t'' := None)
      else Map.empty(''t'' \<mapsto> \<lparr>te_agent_id = ''a'', te_expires_at = 5\<rparr>))"
  by (rule consume_failure_effect [of _ "''t''" "''b''" 3]) (simp add: consume_def)

lemma consume_store: "snd (consume tokens token agent now) t = Some e \<Longrightarrow> tokens t = Some e"
  by (auto simp: consume_def Let_def split: option.splits if_splits)

lemma enrol_store: "snd (enrol sign hs req now tokens) t = Some e \<Longrightarrow> tokens t = Some e"
proof -
  let ?tok = "case header_str hs BOOTSTRAP_HEADER of None \<Rightarrow> [] | Some v \<Rightarrow> v"
  obtain r t' where c: "consume tokens ?tok (er_agent_id req) now = (r, t')" by fastforce
  then have "snd (enrol sign hs req now tokens) \<in> {tokens, t'}"
    by (auto simp: enrol_def Let_def split: sum.splits)
  moreover assume "snd (enrol sign hs req now tokens) t = Some e"
  ultimately show ?thesis
    using consume_store [of tokens ?tok "er_agent_id req" now t e] c by auto
qed

lemma enrol_ok_token:
  assumes "enrol sign hs req now tokens = (Inr cert, tokens')"
  obtains token e where "header_str hs BOOTSTRAP_HEADER = Some token" "tokens token = Some e"
    "te_agent_id e = er_agent_id req" "now \<le> te_expires_at e" "tokens' = tokens(token := None)"
    "sign (er_agent_id req) (case er_validity_days req of None \<Rightarrow> DEFAULT_AGENT_VALIDITY_DAYS | Some d \<Rightarrow> d) = Inr cert"
proof -
  let ?tok = "case header_str hs BOOTSTRAP_HEADER of None \<Rightarrow> [] | Some v \<Rightarrow> v"
  obtain r t' where c: "consume tokens ?tok (er_agent_id req) now = (r, t')" by fastforce
  have ne: "?tok \<noteq> []" using assms by (auto simp: enrol_def api_fail_def)
  then obtain token where tok: "header_str hs BOOTSTRAP_HEADER = Some token"
    by (auto split: option.splits)
  with c have c': "consume tokens token (er_agent_id req) now = (r, t')" by simp
  from assms ne tok c' obtain e where r: "r = Inr e"
    by (cases r) (auto simp: enrol_def api_fail_def consume_failure_def split: consume_error.splits)
  with c' have ok: "tokens token = Some e \<and> now \<le> te_expires_at e \<and> te_agent_id e = er_agent_id req"
    using consume_ok_iff [of tokens token "er_agent_id req" now e] by simp
  have t': "t' = tokens(token := None)"
    using consume_ok_removes [of tokens token "er_agent_id req" now] c' r by simp
  have "sign (er_agent_id req) (case er_validity_days req of None \<Rightarrow> DEFAULT_AGENT_VALIDITY_DAYS | Some d \<Rightarrow> d) = Inr cert \<and> tokens' = t'"
    using assms ne tok c' r
    by (auto simp: enrol_def Let_def api_fail_def
        split: if_splits sum.splits)
  with tok ok t' that show ?thesis by blast
qed

text \<open>A certificate is minted only for the agent the token was issued to, before the token
  expires, for a validity of one to 1825 days, and the token is gone afterwards.\<close>

theorem enrol_success:
  assumes "enrol sign hs req now tokens = (Inr cert, tokens')"
  shows "\<exists>token e validity. header_str hs BOOTSTRAP_HEADER = Some token \<and> tokens token = Some e
     \<and> te_agent_id e = er_agent_id req \<and> now \<le> te_expires_at e
     \<and> sign (er_agent_id req) validity = Inr cert \<and> 1 \<le> validity \<and> validity \<le> 1825
     \<and> tokens' = tokens(token := None)"
proof -
  from assms obtain token e where *: "header_str hs BOOTSTRAP_HEADER = Some token" "tokens token = Some e"
    "te_agent_id e = er_agent_id req" "now \<le> te_expires_at e" "tokens' = tokens(token := None)"
    "sign (er_agent_id req) (case er_validity_days req of None \<Rightarrow> DEFAULT_AGENT_VALIDITY_DAYS | Some d \<Rightarrow> d) = Inr cert"
    by (rule enrol_ok_token)
  let ?v = "case er_validity_days req of None \<Rightarrow> DEFAULT_AGENT_VALIDITY_DAYS | Some d \<Rightarrow> d"
  have "1 \<le> ?v \<and> ?v \<le> 1825"
    using assms * by (auto simp: enrol_def Let_def consume_def api_fail_def split: if_splits)
  with * show ?thesis by blast
qed

definition test_sign :: "string \<Rightarrow> int \<Rightarrow> (string, agent_cert) result" where
  "test_sign agent days =
     Inr \<lparr>ac_cert_pem = ''c'', ac_key_pem = ''k'', ac_ca_cert_pem = ''ca'', ac_agent_id = agent,
          ac_expires_at = days\<rparr>"

definition test_tokens :: token_store where
  "test_tokens = Map.empty(''t'' \<mapsto> \<lparr>te_agent_id = ''a'', te_expires_at = 5\<rparr>)"

lemma header_str_bootstrap [simp]: "header_str [(BOOTSTRAP_HEADER, ''t'')] BOOTSTRAP_HEADER = Some ''t''"
  by code_simp

lemma enrol_success_witness:
  "\<exists>token e validity. header_str [(BOOTSTRAP_HEADER, ''t'')] BOOTSTRAP_HEADER = Some token
     \<and> test_tokens token = Some e \<and> te_agent_id e = ''a'' \<and> 3 \<le> te_expires_at e
     \<and> test_sign ''a'' validity = test_sign ''a'' 365 \<and> 1 \<le> validity \<and> validity \<le> 1825
     \<and> Map.empty = test_tokens(token := None)"
proof -
  have run: "enrol test_sign [(BOOTSTRAP_HEADER, ''t'')] \<lparr>er_agent_id = ''a'', er_validity_days = None\<rparr> 3 test_tokens
    = (Inr \<lparr>ac_cert_pem = ''c'', ac_key_pem = ''k'', ac_ca_cert_pem = ''ca'', ac_agent_id = ''a'',
          ac_expires_at = 365\<rparr>, Map.empty)"
    by (simp add: enrol_def Let_def consume_def test_tokens_def test_sign_def DEFAULT_AGENT_VALIDITY_DAYS_def)
  show ?thesis using enrol_success [OF run] by (simp add: test_sign_def)
qed

text \<open>An enrolment with a valid token but a validity outside the range is refused with 422, and
  the single-use token is burned by it.\<close>

theorem enrol_bad_validity_burns_token:
  assumes "header_str hs BOOTSTRAP_HEADER = Some token" "token \<noteq> []"
    and "tokens token = Some e" "te_agent_id e = er_agent_id req" "now \<le> te_expires_at e"
    and "er_validity_days req = Some d" "d < 1 \<or> 1825 < d"
  shows "(case enrol sign hs req now tokens of
      (Inl (st, _), tokens') \<Rightarrow> st = UNPROCESSABLE_ENTITY \<and> tokens' token = None
    | _ \<Rightarrow> False)"
  using assms by (auto simp: enrol_def Let_def consume_def api_fail_def)

lemma enrol_bad_validity_burns_token_witness:
  "(case enrol test_sign [(BOOTSTRAP_HEADER, ''t'')] \<lparr>er_agent_id = ''a'', er_validity_days = Some 0\<rparr> 3 test_tokens of
      (Inl (st, _), tokens') \<Rightarrow> st = UNPROCESSABLE_ENTITY \<and> tokens' ''t'' = None
    | _ \<Rightarrow> False)"
  by (rule enrol_bad_validity_burns_token
        [where e = "\<lparr>te_agent_id = ''a'', te_expires_at = 5\<rparr>" and d = 0])
     (simp_all add: test_tokens_def)

text \<open>The admin endpoint issues a token exactly to a caller who presents the configured secret,
  names an agent and asks for a lifetime of one to 720 hours; no secret configured means no
  token for anybody.\<close>

theorem issue_authorised:
  "(\<exists>issued. fst (issue_bootstrap_token admin hs req uuid now now' tokens) = Inr issued) \<longleftrightarrow>
     (\<exists>secret. admin = Some secret \<and>
        (case header_str hs ADMIN_HEADER of None \<Rightarrow> [] | Some v \<Rightarrow> v) = secret) \<and>
     trim (ir_agent_id req) \<noteq> [] \<and>
     (case ir_ttl_hours req of None \<Rightarrow> True | Some t \<Rightarrow> 1 \<le> t \<and> t \<le> 720)"
  by (auto simp: issue_bootstrap_token_def api_fail_def Let_def issue_def constant_time_eq_iff
      DEFAULT_TOKEN_TTL_HOURS_def split: option.splits if_splits)

text \<open>An empty admin secret is no secret: a request without any credential is then issued a
  token for the agent it names.\<close>

theorem empty_admin_secret_admits_anyone:
  assumes "header_str hs ADMIN_HEADER = None" "trim (ir_agent_id req) \<noteq> []" "ir_ttl_hours req = None"
  shows "issue_bootstrap_token (Some []) hs req uuid now now' tokens =
     (Inr \<lparr>it_token = uuid, it_agent_id = ir_agent_id req, it_expires_at = now' + hours 24\<rparr>,
      (prune_expired tokens now)(uuid \<mapsto> \<lparr>te_agent_id = ir_agent_id req, te_expires_at = now' + hours 24\<rparr>))"
  using assms
  by (simp add: issue_bootstrap_token_def Let_def issue_def constant_time_eq_def as_bytes_def
      DEFAULT_TOKEN_TTL_HOURS_def)

lemma empty_admin_secret_admits_anyone_witness:
  "issue_bootstrap_token (Some []) [] \<lparr>ir_agent_id = ''a'', ir_ttl_hours = None\<rparr> ''u'' 0 0 Map.empty =
     (Inr \<lparr>it_token = ''u'', it_agent_id = ''a'', it_expires_at = hours 24\<rparr>,
      (prune_expired Map.empty 0)(''u'' \<mapsto> \<lparr>te_agent_id = ''a'', te_expires_at = hours 24\<rparr>))"
proof -
  have "trim ''a'' \<noteq> []" by code_simp
  then show ?thesis
    using empty_admin_secret_admits_anyone [of "[]" "\<lparr>ir_agent_id = ''a'', ir_ttl_hours = None\<rparr>" "''u''" 0 0 Map.empty]
    by (simp add: header_str_def)
qed

section \<open>A history of requests\<close>

datatype token_op =
    OpIssue "string option" headers issue_token_request string timestamp timestamp
  | OpEnrol headers enrol_request timestamp

datatype token_outcome =
    Issued string
  | Enrolled string
  | Refused

text \<open>What a request did, with the token it concerns.\<close>

definition token_step ::
  "(string \<Rightarrow> int \<Rightarrow> (string, agent_cert) result) \<Rightarrow> token_store \<Rightarrow> token_op \<Rightarrow> token_outcome \<times> token_store" where
  "token_step sign tokens oper = (case oper of
     OpIssue admin hs req uuid now now' \<Rightarrow>
       (case issue_bootstrap_token admin hs req uuid now now' tokens of
          (Inr issued, tokens') \<Rightarrow> (Issued (it_token issued), tokens')
        | (Inl _, tokens') \<Rightarrow> (Refused, tokens'))
   | OpEnrol hs req now \<Rightarrow>
       (case enrol sign hs req now tokens of
          (Inr _, tokens') \<Rightarrow>
            (Enrolled (case header_str hs BOOTSTRAP_HEADER of None \<Rightarrow> [] | Some v \<Rightarrow> v), tokens')
        | (Inl _, tokens') \<Rightarrow> (Refused, tokens')))"

fun token_run ::
  "(string \<Rightarrow> int \<Rightarrow> (string, agent_cert) result) \<Rightarrow> token_store \<Rightarrow> token_op list \<Rightarrow> token_outcome list" where
  "token_run sign tokens [] = []"
| "token_run sign tokens (oper # ops) =
     (case token_step sign tokens oper of (out, tokens') \<Rightarrow> out # token_run sign tokens' ops)"

lemma token_step_absent:
  assumes "tokens t = None" "token_step sign tokens oper = (out, tokens')"
  shows "out \<noteq> Enrolled t" "out \<noteq> Issued t \<Longrightarrow> tokens' t = None"
proof -
  show "out \<noteq> Enrolled t"
    using assms
    by (auto simp: token_step_def split: token_op.splits prod.splits sum.splits elim!: enrol_ok_token)
  show "tokens' t = None" if "out \<noteq> Issued t"
  proof (cases oper)
    case (OpIssue admin hs req uuid now now')
    then show ?thesis
      using assms that
      by (auto simp: token_step_def issue_bootstrap_token_def api_fail_def Let_def issue_def prune_expired_def
          split: option.splits if_splits)
  next
    case (OpEnrol hs req now)
    then have "tokens' = snd (enrol sign hs req now tokens)"
      using assms(2) by (auto simp: token_step_def split: prod.splits sum.splits)
    then show ?thesis using enrol_store [of sign hs req now tokens t] assms(1) by (cases "tokens' t") auto
  qed
qed

lemma absent_until_issued:
  "tokens t = None \<Longrightarrow> token_run sign tokens ops = mid @ Enrolled t # post \<Longrightarrow> Issued t \<in> set mid"
proof (induction ops arbitrary: tokens mid)
  case (Cons oper ops)
  obtain out tokens' where st: "token_step sign tokens oper = (out, tokens')" by fastforce
  note ab = token_step_absent [OF Cons.prems(1) st]
  show ?case
  proof (cases mid)
    case Nil
    with Cons.prems(2) st ab(1) show ?thesis by simp
  next
    case (Cons o' mid')
    with Cons.prems(2) st have "o' = out" "token_run sign tokens' ops = mid' @ Enrolled t # post" by auto
    with Cons.IH [of tokens' mid'] ab(2) Cons show ?thesis by (cases "out = Issued t") auto
  qed
qed simp

text \<open>Tokens are single-use: in any history of admin and enrolment requests, between two
  certificates minted for one token the admin endpoint has issued that token again (which a
  fresh UUID rules out).\<close>

theorem token_single_use:
  assumes "token_run sign tokens ops = pre @ Enrolled t # mid @ Enrolled t # post"
  shows "Issued t \<in> set mid"
  using assms
proof (induction ops arbitrary: tokens pre)
  case (Cons oper ops)
  obtain out tokens' where st: "token_step sign tokens oper = (out, tokens')" by fastforce
  show ?case
  proof (cases pre)
    case Nil
    with Cons.prems st have out: "out = Enrolled t" "token_run sign tokens' ops = mid @ Enrolled t # post"
      by auto
    have "tokens' t = None"
      using st out(1)
      by (auto simp: token_step_def split: token_op.splits prod.splits sum.splits elim!: enrol_ok_token)
    with out(2) absent_until_issued show ?thesis by blast
  next
    case (Cons o' pre')
    with Cons.prems st show ?thesis by (intro Cons.IH [of tokens' pre']) auto
  qed
qed simp

lemma token_single_use_witness:
  "Issued ''t'' \<in> set [Refused, Issued ''t'']"
proof -
  let ?enrol = "OpEnrol [(BOOTSTRAP_HEADER, ''t'')] \<lparr>er_agent_id = ''a'', er_validity_days = None\<rparr> 3"
  let ?issue = "OpIssue (Some ''s'') [(ADMIN_HEADER, ''s'')] \<lparr>ir_agent_id = ''a'', ir_ttl_hours = Some 1\<rparr> ''t'' 3 3"
  have h: "header_str [(ADMIN_HEADER, ''s'')] ADMIN_HEADER = Some ''s''" and tr: "trim ''a'' \<noteq> []"
    by code_simp+
  have "token_run test_sign test_tokens [?enrol, ?enrol, ?issue, ?enrol] =
      [] @ Enrolled ''t'' # [Refused, Issued ''t''] @ Enrolled ''t'' # []"
    using h tr
    by (simp add: token_step_def enrol_def Let_def consume_def test_tokens_def test_sign_def
        DEFAULT_AGENT_VALIDITY_DAYS_def consume_failure_def api_fail_def issue_bootstrap_token_def
        constant_time_eq_iff issue_def prune_expired_def hours_def)
  then show ?thesis by (rule token_single_use)
qed

section \<open>Concurrent redemptions\<close>

text \<open>\<open>consume\<close> is two operations on the concurrent map, \<open>remove\<close> and, after a mismatch, \<open>insert\<close>;
  other requests run between them.  A task holds the entry it has removed.\<close>

datatype redeem_pc =
    Waiting
  | Holding token_entry
  | Succeeded
  | Failed consume_error

record redeemer =
  rd_token :: string
  rd_agent :: string
  rd_pc :: redeem_pc

inductive redeem_step ::
  "token_store \<times> redeemer list \<Rightarrow> token_store \<times> redeemer list \<Rightarrow> bool" where
  remove_hit: "i < length ts \<Longrightarrow> ts ! i = r \<Longrightarrow> rd_pc r = Waiting \<Longrightarrow> s (rd_token r) = Some e \<Longrightarrow>
     redeem_step (s, ts) (s(rd_token r := None), ts[i := r\<lparr>rd_pc := Holding e\<rparr>])"
| remove_miss: "i < length ts \<Longrightarrow> ts ! i = r \<Longrightarrow> rd_pc r = Waiting \<Longrightarrow> s (rd_token r) = None \<Longrightarrow>
     redeem_step (s, ts) (s, ts[i := r\<lparr>rd_pc := Failed UnknownToken\<rparr>])"
| expire: "i < length ts \<Longrightarrow> ts ! i = r \<Longrightarrow> rd_pc r = Holding e \<Longrightarrow> te_expires_at e < now \<Longrightarrow>
     redeem_step (s, ts) (s, ts[i := r\<lparr>rd_pc := Failed Expired\<rparr>])"
| restore: "i < length ts \<Longrightarrow> ts ! i = r \<Longrightarrow> rd_pc r = Holding e \<Longrightarrow> te_agent_id e \<noteq> rd_agent r \<Longrightarrow>
     redeem_step (s, ts) (s(rd_token r \<mapsto> e), ts[i := r\<lparr>rd_pc := Failed AgentMismatch\<rparr>])"
| succeed: "i < length ts \<Longrightarrow> ts ! i = r \<Longrightarrow> rd_pc r = Holding e \<Longrightarrow> te_agent_id e = rd_agent r \<Longrightarrow>
     redeem_step (s, ts) (s, ts[i := r\<lparr>rd_pc := Succeeded\<rparr>])"
| prune: "redeem_step (s, ts) (prune_expired s now, ts)"

inductive_cases redeem_stepE: "redeem_step (s, ts) st"

abbreviation redeem_steps where
  "redeem_steps \<equiv> redeem_step\<^sup>*\<^sup>*"

text \<open>A token is in the store, or held by one task, or spent by one task: never two of these.\<close>

definition claims_token :: "string \<Rightarrow> redeemer \<Rightarrow> bool" where
  "claims_token t r \<longleftrightarrow> rd_token r = t \<and> (case rd_pc r of Holding _ \<Rightarrow> True | Succeeded \<Rightarrow> True | _ \<Rightarrow> False)"

definition token_uses :: "string \<Rightarrow> token_store \<times> redeemer list \<Rightarrow> nat" where
  "token_uses t st = (if fst st t = None then 0 else 1) + length (filter (claims_token t) (snd st))"

lemma filter_update_length:
  "i < length ts \<Longrightarrow>
     length (filter P (ts[i := r])) + (if P (ts ! i) then 1 else 0) =
     length (filter P ts) + (if P r then 1 else 0)"
proof (induction ts arbitrary: i)
  case (Cons a ts)
  show ?case
  proof (cases i)
    case (Suc j)
    with Cons.IH [of j] Cons.prems show ?thesis by simp
  qed simp
qed simp

lemma redeem_step_uses: "redeem_step (s, ts) (s', ts') \<Longrightarrow> token_uses t (s', ts') \<le> token_uses t (s, ts)"
proof (induction rule: redeem_step.induct [split_format (complete)])
  case (remove_hit i ts r s e)
  then show ?case
    using filter_update_length [of i ts "claims_token t" "r\<lparr>rd_pc := Holding e\<rparr>"]
    by (auto simp: token_uses_def claims_token_def split: if_splits)
next
  case (remove_miss i ts r s)
  then show ?case
    using filter_update_length [of i ts "claims_token t" "r\<lparr>rd_pc := Failed UnknownToken\<rparr>"]
    by (auto simp: token_uses_def claims_token_def)
next
  case (expire i ts r e now s)
  then show ?case
    using filter_update_length [of i ts "claims_token t" "r\<lparr>rd_pc := Failed Expired\<rparr>"]
    by (auto simp: token_uses_def claims_token_def split: if_splits)
next
  case (restore i ts r e s)
  then show ?case
    using filter_update_length [of i ts "claims_token t" "r\<lparr>rd_pc := Failed AgentMismatch\<rparr>"]
    by (auto simp: token_uses_def claims_token_def split: if_splits)
next
  case (succeed i ts r e s)
  then show ?case
    using filter_update_length [of i ts "claims_token t" "r\<lparr>rd_pc := Succeeded\<rparr>"]
    by (auto simp: token_uses_def claims_token_def split: if_splits)
next
  case (prune s ts now)
  then show ?case
    by (auto simp: token_uses_def prune_expired_def split: option.splits)
qed

lemma redeem_steps_uses: "redeem_steps st st' \<Longrightarrow> token_uses t st' \<le> token_uses t st"
  by (induction rule: rtranclp_induct) (auto intro: order.trans dest: redeem_step_uses)

text \<open>What is held or spent was in the original store, for the agent that spends it.\<close>

definition entries_from :: "token_store \<Rightarrow> token_store \<times> redeemer list \<Rightarrow> bool" where
  "entries_from s0 st \<longleftrightarrow>
     (\<forall>t e. fst st t = Some e \<longrightarrow> s0 t = Some e) \<and>
     (\<forall>r \<in> set (snd st). case rd_pc r of
        Holding e \<Rightarrow> s0 (rd_token r) = Some e
      | Succeeded \<Rightarrow> (\<exists>e. s0 (rd_token r) = Some e \<and> te_agent_id e = rd_agent r)
      | _ \<Rightarrow> True)"

lemma entries_from_update:
  "entries_from s0 (s, ts) \<Longrightarrow> i < length ts \<Longrightarrow>
   (\<And>t e. s' t = Some e \<Longrightarrow> s0 t = Some e) \<Longrightarrow>
   (case rd_pc r of
        Holding e \<Rightarrow> s0 (rd_token r) = Some e
      | Succeeded \<Rightarrow> (\<exists>e. s0 (rd_token r) = Some e \<and> te_agent_id e = rd_agent r)
      | _ \<Rightarrow> True) \<Longrightarrow> entries_from s0 (s', ts[i := r])"
  unfolding entries_from_def by (auto dest!: set_update_subset_insert [THEN subsetD])

lemma entries_from_nth: "entries_from s0 (s, ts) \<Longrightarrow> i < length ts \<Longrightarrow> rd_pc (ts ! i) = Holding e
   \<Longrightarrow> s0 (rd_token (ts ! i)) = Some e"
  unfolding entries_from_def by (force dest: nth_mem)

lemma redeem_step_entries:
  "redeem_step (s, ts) (s', ts') \<Longrightarrow> entries_from s0 (s, ts) \<Longrightarrow> entries_from s0 (s', ts')"
proof (induction rule: redeem_step.induct [split_format (complete)])
  case (remove_hit i ts r s e)
  then have "s0 (rd_token r) = Some e" by (simp add: entries_from_def)
  with remove_hit show ?case
    by (intro entries_from_update) (auto simp: entries_from_def split: if_splits)
next
  case (remove_miss i ts r s)
  then show ?case by (intro entries_from_update) (auto simp: entries_from_def)
next
  case (expire i ts r e now s)
  then show ?case by (intro entries_from_update) (auto simp: entries_from_def)
next
  case (restore i ts r e s)
  then have "s0 (rd_token r) = Some e" using entries_from_nth [of s0 s ts i e] by simp
  with restore show ?case
    by (intro entries_from_update) (auto simp: entries_from_def split: if_splits)
next
  case (succeed i ts r e s)
  then have "s0 (rd_token r) = Some e" using entries_from_nth [of s0 s ts i e] by simp
  with succeed show ?case
    by (intro entries_from_update) (auto simp: entries_from_def)
next
  case (prune s ts now)
  then show ?case by (auto simp: entries_from_def prune_expired_def split: option.splits if_splits)
qed

lemma redeem_steps_entries:
  "redeem_steps st st' \<Longrightarrow> entries_from s0 st \<Longrightarrow> entries_from s0 st'"
  by (induction rule: rtranclp_induct) (auto dest: redeem_step_entries)

text \<open>C5: however concurrent redemptions interleave with each other and with pruning, a token is
  redeemed at most once, and only by the agent it was issued to.\<close>

theorem concurrent_redeem_at_most_once:
  assumes "redeem_steps (s, ts) (s', ts')" "\<forall>r \<in> set ts. rd_pc r = Waiting"
  shows "length (filter (\<lambda>r. rd_token r = t \<and> rd_pc r = Succeeded) ts') \<le> 1 \<and>
     (\<forall>r \<in> set ts'. rd_pc r = Succeeded \<longrightarrow> (\<exists>e. s (rd_token r) = Some e \<and> te_agent_id e = rd_agent r))"
proof
  have "filter (claims_token t) ts = []"
    using assms(2) by (auto simp: filter_empty_conv claims_token_def)
  then have "token_uses t (s, ts) \<le> 1" by (simp add: token_uses_def)
  with redeem_steps_uses [OF assms(1), of t] have "token_uses t (s', ts') \<le> 1" by linarith
  moreover have "length (filter (\<lambda>r. rd_token r = t \<and> rd_pc r = Succeeded) ts')
      \<le> length (filter (claims_token t) ts')"
    by (induction ts') (auto simp: claims_token_def)
  ultimately show "length (filter (\<lambda>r. rd_token r = t \<and> rd_pc r = Succeeded) ts') \<le> 1"
    by (auto simp: token_uses_def)
next
  have "entries_from s (s, ts)" using assms(2) by (auto simp: entries_from_def)
  from redeem_steps_entries [OF assms(1) this]
  show "\<forall>r \<in> set ts'. rd_pc r = Succeeded \<longrightarrow> (\<exists>e. s (rd_token r) = Some e \<and> te_agent_id e = rd_agent r)"
    by (auto simp: entries_from_def)
qed

text \<open>Restoring a token after a mismatch is not invisible: while a request with the wrong agent
  id holds the token, the rightful agent is told that the token is unknown.\<close>

theorem mismatch_can_refuse_rightful_agent:
  assumes "s t = Some e" "te_agent_id e = good" "bad \<noteq> good"
  shows "redeem_steps (s, [\<lparr>rd_token = t, rd_agent = bad, rd_pc = Waiting\<rparr>, \<lparr>rd_token = t, rd_agent = good, rd_pc = Waiting\<rparr>])
     (s, [\<lparr>rd_token = t, rd_agent = bad, rd_pc = Failed AgentMismatch\<rparr>,
          \<lparr>rd_token = t, rd_agent = good, rd_pc = Failed UnknownToken\<rparr>])"
proof -
  let ?b = "\<lambda>pc. \<lparr>rd_token = t, rd_agent = bad, rd_pc = pc\<rparr>"
  let ?g = "\<lambda>pc. \<lparr>rd_token = t, rd_agent = good, rd_pc = pc\<rparr>"
  have "redeem_step (s, [?b Waiting, ?g Waiting]) (s(t := None), [?b (Holding e), ?g Waiting])"
    using remove_hit [of 0 "[?b Waiting, ?g Waiting]" "?b Waiting" s e] assms by simp
  moreover have "redeem_step (s(t := None), [?b (Holding e), ?g Waiting])
      (s(t := None), [?b (Holding e), ?g (Failed UnknownToken)])"
    using remove_miss [of 1 "[?b (Holding e), ?g Waiting]" "?g Waiting" "s(t := None)"] by simp
  moreover have "redeem_step (s(t := None), [?b (Holding e), ?g (Failed UnknownToken)])
      (s, [?b (Failed AgentMismatch), ?g (Failed UnknownToken)])"
    using restore [of 0 "[?b (Holding e), ?g (Failed UnknownToken)]" "?b (Holding e)" e "s(t := None)"] assms
    by (simp add: fun_upd_idem)
  ultimately show ?thesis
    by (meson converse_rtranclp_into_rtranclp rtranclp.rtrancl_refl)
qed

lemma mismatch_can_refuse_rightful_agent_witness:
  "redeem_steps (test_tokens, [\<lparr>rd_token = ''t'', rd_agent = ''x'', rd_pc = Waiting\<rparr>, \<lparr>rd_token = ''t'', rd_agent = ''a'', rd_pc = Waiting\<rparr>])
     (test_tokens, [\<lparr>rd_token = ''t'', rd_agent = ''x'', rd_pc = Failed AgentMismatch\<rparr>,
          \<lparr>rd_token = ''t'', rd_agent = ''a'', rd_pc = Failed UnknownToken\<rparr>])"
  by (rule mismatch_can_refuse_rightful_agent [where e = "\<lparr>te_agent_id = ''a'', te_expires_at = 5\<rparr>"])
     (simp_all add: test_tokens_def)

lemma test_redeem_run:
  "redeem_steps (test_tokens, [\<lparr>rd_token = ''t'', rd_agent = ''a'', rd_pc = Waiting\<rparr>])
     (test_tokens(''t'' := None), [\<lparr>rd_token = ''t'', rd_agent = ''a'', rd_pc = Succeeded\<rparr>])"
proof -
  let ?a = "\<lambda>pc. \<lparr>rd_token = ''t'', rd_agent = ''a'', rd_pc = pc\<rparr>"
  let ?e = "\<lparr>te_agent_id = ''a'', te_expires_at = 5\<rparr>"
  have "redeem_step (test_tokens, [?a Waiting]) (test_tokens(''t'' := None), [?a (Holding ?e)])"
    using remove_hit [of 0 "[?a Waiting]" "?a Waiting" test_tokens ?e] by (simp add: test_tokens_def)
  moreover have "redeem_step (test_tokens(''t'' := None), [?a (Holding ?e)]) (test_tokens(''t'' := None), [?a Succeeded])"
    using succeed [of 0 "[?a (Holding ?e)]" "?a (Holding ?e)" ?e "test_tokens(''t'' := None)"] by simp
  ultimately show ?thesis
    by (meson converse_rtranclp_into_rtranclp rtranclp.rtrancl_refl)
qed

lemma concurrent_redeem_at_most_once_witness:
  "length (filter (\<lambda>r. rd_token r = ''t'' \<and> rd_pc r = Succeeded)
     [\<lparr>rd_token = ''t'', rd_agent = ''a'', rd_pc = Succeeded\<rparr>]) \<le> 1"
  by (rule conjunct1 [OF concurrent_redeem_at_most_once [OF test_redeem_run]]) simp

end
