(* ===== verification/Binary32.thy ===== *)
theory Binary32
  imports Prelude "HOL-Library.Log_Nat"
begin

text \<open>
  IEEE binary32 arithmetic as the program uses it.  A finite \<open>f32\<close> is a rational;
  every operation is the exact one followed by rounding to nearest, ties to even,
  with 24 significant bits and the subnormal quantum $2^{-149}$.  Infinities, NaN and
  the sign of zero are not modelled (no value of the scoring code comes near
  $2^{128}$).  What the scoring code relies on is the locale \<open>f32_rounding\<close>, and the
  rounding function \<open>rnd32\<close> interprets it.
\<close>

section \<open>The interface\<close>

locale f32_rounding =
  fixes fl :: "rat \<Rightarrow> rat"
  assumes fl_mono: "x \<le> y \<Longrightarrow> fl x \<le> fl y"
    and fl_idem: "fl (fl x) = fl x"
    and fl_0: "fl 0 = 0"
    and fl_1: "fl 1 = 1"
    and fl_neg: "fl (- x) = - fl x"
begin

lemma fl_nonneg: "0 \<le> x \<Longrightarrow> 0 \<le> fl x"
  using fl_mono [of 0 x] by (simp add: fl_0)

lemma fl_le_1: "x \<le> 1 \<Longrightarrow> fl x \<le> 1"
  using fl_mono [of x 1] by (simp add: fl_1)

lemma fl_scale_le: "fl w = w \<Longrightarrow> 0 \<le> w \<Longrightarrow> s \<le> 1 \<Longrightarrow> fl (w * s) \<le> w"
  using fl_mono [of "w * s" w] by (simp add: mult_left_le)

lemma fl_scale_nonneg: "0 \<le> w \<Longrightarrow> 0 \<le> s \<Longrightarrow> 0 \<le> fl (w * s)"
  by (simp add: fl_nonneg)

lemma fl_ratio: "0 \<le> x \<Longrightarrow> x \<le> y \<Longrightarrow> 0 \<le> fl (x / y) \<and> fl (x / y) \<le> 1"
  by (intro conjI fl_nonneg fl_le_1) (auto simp: divide_le_eq_1)

lemma fl_ratio_le: "x \<le> y \<Longrightarrow> 0 \<le> y \<Longrightarrow> fl (x / y) \<le> 1"
  by (intro fl_le_1) (auto simp: divide_le_eq_1)

text \<open>Accumulators of a weighted mean: the rounded weighted sum never exceeds the rounded sum of
  the weights.\<close>

lemma weighted_sum_le:
  assumes "\<forall>(w, s) \<in> set ps. fl w = w \<and> 0 \<le> w \<and> s \<le> 1" "b \<le> a"
  shows "foldl (\<lambda>acc (w, s). fl (acc + fl (w * s))) b ps \<le> foldl (\<lambda>acc (w, s). fl (acc + w)) a ps"
  using assms
proof (induction ps arbitrary: a b)
  case (Cons p ps)
  obtain w s where p: "p = (w, s)" by fastforce
  with Cons.prems(1) have ws: "fl w = w" "0 \<le> w" "s \<le> 1" by auto
  have "fl (b + fl (w * s)) \<le> fl (a + w)"
    using fl_scale_le [OF ws] Cons.prems(2) by (intro fl_mono) simp
  with Cons.IH [of "fl (b + fl (w * s))" "fl (a + w)"] Cons.prems(1) p show ?case by simp
qed simp

lemma weight_sum_nonneg:
  assumes "\<forall>(w, s) \<in> set ps. 0 \<le> w" "0 \<le> a"
  shows "0 \<le> foldl (\<lambda>acc (w, s). fl (acc + w)) a ps"
  using assms by (induction ps arbitrary: a) (auto simp: fl_nonneg)

lemma weighted_sum_nonneg:
  assumes "\<forall>(w, s) \<in> set ps. 0 \<le> w \<and> 0 \<le> s" "0 \<le> a"
  shows "0 \<le> foldl (\<lambda>acc (w, s). fl (acc + fl (w * s))) a ps"
  using assms by (induction ps arbitrary: a) (auto simp: fl_nonneg fl_scale_nonneg)

end

section \<open>Rounding to nearest, ties to even\<close>

definition round_even :: "rat \<Rightarrow> int" where
  "round_even x =
     (let f = \<lfloor>x\<rfloor>; r = x - of_int f in
      if r < 1/2 then f else if 1/2 < r then f + 1 else if even f then f else f + 1)"

lemma round_even_bounds: "\<lfloor>x\<rfloor> \<le> round_even x" "round_even x \<le> \<lfloor>x\<rfloor> + 1"
  by (simp_all add: round_even_def Let_def)

lemma round_even_of_int [simp]: "round_even (of_int n) = n"
  by (simp add: round_even_def)

lemma round_even_mono: "x \<le> y \<Longrightarrow> round_even x \<le> round_even y"
proof -
  assume le: "x \<le> y"
  show ?thesis
  proof (cases "\<lfloor>x\<rfloor> = \<lfloor>y\<rfloor>")
    case True
    with le show ?thesis by (simp add: round_even_def Let_def)
  next
    case False
    with floor_mono [OF le] have "\<lfloor>x\<rfloor> + 1 \<le> \<lfloor>y\<rfloor>" by linarith
    with round_even_bounds(2) [of x] round_even_bounds(1) [of y] show ?thesis by linarith
  qed
qed

section \<open>The exponent of a positive rational\<close>

definition rat_exp :: "rat \<Rightarrow> int" where
  "rat_exp x =
     (case quotient_of x of (n, d) \<Rightarrow>
       (let k = int (floorlog 2 (nat n)) - int (floorlog 2 (nat d)) in
        if 2 powi k \<le> x then k else k - 1))"

lemma powi_less_iff: "(2 :: rat) powi a < 2 powi b \<longleftrightarrow> a < b"
proof -
  have "(2 :: rat) powi a < 2 powi b" if "a < b" for a b
    using that power_int_strict_increasing [of a b "2 :: rat"] by simp
  then show ?thesis by (metis less_asym not_less_iff_gr_or_eq)
qed

lemma powi_le_iff: "(2 :: rat) powi a \<le> 2 powi b \<longleftrightarrow> a \<le> b"
  by (meson linorder_not_less powi_less_iff)

lemma rat_exp_bounds:
  assumes "0 < x"
  shows "2 powi rat_exp x \<le> x" "x < 2 powi (rat_exp x + 1)"
proof -
  obtain n d where q: "quotient_of x = (n, d)" by fastforce
  then have d: "0 < d" and x: "x = of_int n / of_int d"
    by (simp_all add: quotient_of_denom_pos quotient_of_div)
  with assms have n: "0 < n" by (simp add: zero_less_divide_iff)
  define a b where "a = floorlog 2 (nat n)" and "b = floorlog 2 (nat d)"
  have an: "2 ^ (a - 1) \<le> nat n \<and> nat n < 2 ^ a" and bd: "2 ^ (b - 1) \<le> nat d \<and> nat d < 2 ^ b"
    using n d floorlog_bounds [of "nat n" 2] floorlog_bounds [of "nat d" 2] by (auto simp: a_def b_def)
  have pos: "1 \<le> a" "1 \<le> b" using an bd n d by (cases a; simp; fail | cases b; simp)+
  have to_rat: "(2 :: rat) ^ k \<le> of_int m" if "2 ^ k \<le> nat m" "0 < m" for k m
  proof -
    have "int (2 ^ k) \<le> m" using that by linarith
    then have "of_int (2 ^ k) \<le> (of_int m :: rat)" by (simp flip: of_int_le_iff)
    then show ?thesis by simp
  qed
  have to_rat': "of_int m < (2 :: rat) ^ k" if "nat m < 2 ^ k" "0 < m" for k m
  proof -
    have "m < int (2 ^ k)" using that by linarith
    then have "of_int m < (of_int (2 ^ k) :: rat)" by (simp flip: of_int_less_iff)
    then show ?thesis by simp
  qed
  have rn: "(2 :: rat) ^ (a - 1) \<le> of_int n" "of_int n < (2 :: rat) ^ a"
    using to_rat to_rat' an n by blast+
  have rd: "(2 :: rat) ^ (b - 1) \<le> of_int d" "of_int d < (2 :: rat) ^ b"
    using to_rat to_rat' bd d by blast+
  have dpos: "0 < (of_int d :: rat)" using d by simp
  let ?k = "int a - int b"
  have pk: "(2 :: rat) powi (int i - int j) = 2 ^ i / 2 ^ j" for i j
    by (simp add: power_int_diff)
  have up: "x < 2 powi (?k + 1)"
  proof -
    have "x < 2 ^ a / of_int d" using rn(2) dpos by (simp add: x divide_strict_right_mono)
    also have "\<dots> \<le> 2 ^ a / 2 ^ (b - 1)" using rd(1) by (intro divide_left_mono mult_pos_pos) (auto simp: dpos d)
    also have "\<dots> = 2 powi (int a - int (b - 1))" by (simp add: pk)
    also have "int a - int (b - 1) = ?k + 1" using pos by simp
    finally show ?thesis .
  qed
  have low: "2 powi (?k - 1) \<le> x"
  proof -
    have "int (a - 1) - int b = ?k - 1" using pos by simp
    then have "2 powi (?k - 1) = (2 :: rat) ^ (a - 1) / 2 ^ b" by (metis pk)
    also have "\<dots> \<le> 2 ^ (a - 1) / of_int d" using rd(2) by (intro divide_left_mono mult_pos_pos) (auto simp: dpos d)
    also have "\<dots> \<le> x" using rn(1) dpos by (simp add: x divide_right_mono)
    finally show ?thesis .
  qed
  have e: "rat_exp x = (if 2 powi ?k \<le> x then ?k else ?k - 1)"
    by (simp add: rat_exp_def q a_def b_def Let_def)
  show "2 powi rat_exp x \<le> x" "x < 2 powi (rat_exp x + 1)"
    using low up by (auto simp: e)
qed

lemma rat_exp_mono: "0 < x \<Longrightarrow> x \<le> y \<Longrightarrow> rat_exp x \<le> rat_exp y"
proof -
  assume "0 < x" "x \<le> y"
  then have "(2 :: rat) powi rat_exp x < 2 powi (rat_exp y + 1)"
    using rat_exp_bounds(1) [of x] rat_exp_bounds(2) [of y] by linarith
  then show ?thesis by (simp add: powi_less_iff)
qed

lemma rat_exp_unique: "2 powi e \<le> x \<Longrightarrow> x < 2 powi (e + 1) \<Longrightarrow> rat_exp x = e"
proof -
  assume a: "2 powi e \<le> x" "x < 2 powi (e + 1)"
  then have x: "0 < x" by (meson less_le_trans zero_less_numeral zero_less_power_int)
  have "(2 :: rat) powi e < 2 powi (rat_exp x + 1)" "(2 :: rat) powi rat_exp x < 2 powi (e + 1)"
    using a rat_exp_bounds [OF x] by linarith+
  then show ?thesis by (simp add: powi_less_iff)
qed

section \<open>Rounding\<close>

definition quantum_exp :: "int \<Rightarrow> int" where
  "quantum_exp e = max (e - 23) (- 149)"

definition rnd_pos :: "rat \<Rightarrow> rat" where
  "rnd_pos x = (let q = 2 powi quantum_exp (rat_exp x) in of_int (round_even (x / q)) * q)"

definition rnd32 :: "rat \<Rightarrow> rat" where
  "rnd32 x = (if x = 0 then 0 else if 0 < x then rnd_pos x else - rnd_pos (- x))"

lemma rnd_grid_mono:
  assumes "0 < (q :: rat)" "x \<le> y"
  shows "of_int (round_even (x / q)) * q \<le> of_int (round_even (y / q)) * q"
  using assms by (intro mult_right_mono) (auto intro!: round_even_mono divide_right_mono)

lemma rnd_grid_fix:
  assumes "0 < (q :: rat)"
  shows "of_int (round_even ((of_int n * q) / q)) * q = of_int n * q"
  using assms by simp

lemma powi_multiple:
  assumes "k \<le> m"
  shows "(2 :: rat) powi m = of_int (2 ^ nat (m - k)) * 2 powi k"
proof -
  have "(2 :: rat) powi m = 2 powi (m - k) * 2 powi k" by (simp add: power_int_add [symmetric])
  also have "(2 :: rat) powi (m - k) = 2 ^ nat (m - k)" using assms by (simp add: power_int_def)
  finally show ?thesis by simp
qed

text \<open>Rounding stays inside the binade: between its lower end and the next power of two.\<close>

lemma rnd_pos_lower:
  assumes "0 < x" "- 149 \<le> rat_exp x"
  shows "2 powi rat_exp x \<le> rnd_pos x"
proof -
  let ?k = "quantum_exp (rat_exp x)" and ?e = "rat_exp x"
  have "?k \<le> ?e" using assms(2) by (simp add: quantum_exp_def)
  then have m: "(2 :: rat) powi ?e = of_int (2 ^ nat (?e - ?k)) * 2 powi ?k" by (rule powi_multiple)
  have "(2 :: rat) powi ?e = of_int (round_even (2 powi ?e / 2 powi ?k)) * 2 powi ?k"
    unfolding m by (subst rnd_grid_fix) simp_all
  also have "\<dots> \<le> rnd_pos x"
    unfolding rnd_pos_def Let_def using rat_exp_bounds(1) [OF assms(1)] by (intro rnd_grid_mono) simp_all
  finally show ?thesis .
qed

lemma rnd_pos_upper:
  assumes "0 < x"
  shows "rnd_pos x \<le> 2 powi (max (rat_exp x + 1) (- 149))"
proof -
  let ?k = "quantum_exp (rat_exp x)" and ?m = "max (rat_exp x + 1) (- 149)"
  have "?k \<le> ?m" by (simp add: quantum_exp_def)
  then have m: "(2 :: rat) powi ?m = of_int (2 ^ nat (?m - ?k)) * 2 powi ?k" by (rule powi_multiple)
  have "x \<le> 2 powi ?m"
    using rat_exp_bounds(2) [OF assms] powi_le_iff [of "rat_exp x + 1" ?m] by linarith
  then have "rnd_pos x \<le> of_int (round_even (2 powi ?m / 2 powi ?k)) * 2 powi ?k"
    unfolding rnd_pos_def Let_def by (intro rnd_grid_mono) simp_all
  also have "\<dots> = 2 powi ?m" unfolding m by (subst rnd_grid_fix) simp_all
  finally show ?thesis .
qed

lemma rnd_pos_nonneg: "0 < x \<Longrightarrow> 0 \<le> rnd_pos x"
proof -
  assume "0 < x"
  then have "0 \<le> round_even (x / 2 powi quantum_exp (rat_exp x))"
    using round_even_mono [of 0 "x / 2 powi quantum_exp (rat_exp x)"] round_even_of_int [of 0] by simp
  then show ?thesis by (simp add: rnd_pos_def Let_def)
qed

lemma rnd_pos_mono:
  assumes "0 < x" "x \<le> y"
  shows "rnd_pos x \<le> rnd_pos y"
proof (cases "quantum_exp (rat_exp x) = quantum_exp (rat_exp y)")
  case True
  then show ?thesis unfolding rnd_pos_def Let_def using assms by (simp only: rnd_grid_mono zero_less_power_int zero_less_numeral)
next
  case False
  have le: "rat_exp x \<le> rat_exp y" using assms by (rule rat_exp_mono)
  with False have y: "- 126 < rat_exp y" "rat_exp x < rat_exp y"
    by (auto simp: quantum_exp_def max_def split: if_splits)
  have "rnd_pos x \<le> 2 powi (max (rat_exp x + 1) (- 149))" using assms(1) by (rule rnd_pos_upper)
  also have "\<dots> \<le> 2 powi rat_exp y" using y by (simp add: powi_le_iff)
  also have "\<dots> \<le> rnd_pos y" using assms y by (intro rnd_pos_lower) auto
  finally show ?thesis .
qed

text \<open>A rounded value is a fixed point.\<close>

lemma rnd_pos_idem:
  assumes "0 < x" "0 < rnd_pos x"
  shows "rnd_pos (rnd_pos x) = rnd_pos x"
proof -
  let ?k = "quantum_exp (rat_exp x)" and ?r = "rnd_pos x"
  let ?n = "round_even (x / 2 powi ?k)"
  have r: "?r = of_int ?n * 2 powi ?k" by (simp add: rnd_pos_def Let_def)
  have fix_at: "rnd_pos ?r = ?r" if "quantum_exp (rat_exp ?r) \<le> ?k"
  proof -
    let ?k' = "quantum_exp (rat_exp ?r)"
    have "?r = of_int (?n * 2 ^ nat (?k - ?k')) * 2 powi ?k'"
      using powi_multiple [OF that] by (simp add: r)
    then have "of_int (round_even (?r / 2 powi ?k')) * 2 powi ?k' = ?r"
      by (metis rnd_grid_fix zero_less_numeral zero_less_power_int)
    then show ?thesis by (simp add: rnd_pos_def [of ?r] Let_def)
  qed
  show ?thesis
  proof (cases "?r < 2 powi (rat_exp x + 1)")
    case True
    then have "(2 :: rat) powi rat_exp ?r < 2 powi (rat_exp x + 1)"
      using rat_exp_bounds(1) [OF assms(2)] by linarith
    then have "rat_exp ?r \<le> rat_exp x" by (simp add: powi_less_iff)
    then show ?thesis by (intro fix_at) (auto simp: quantum_exp_def)
  next
    case False
    show ?thesis
    proof (cases "rat_exp x + 1 \<le> - 149")
      case True
      then have up: "?r \<le> 2 powi (- 149)" using rnd_pos_upper [OF assms(1)] by (simp add: max_def)
      then have "(2 :: rat) powi rat_exp ?r \<le> 2 powi (- 149)"
        using rat_exp_bounds(1) [OF assms(2)] by linarith
      then have "rat_exp ?r \<le> - 149" by (rule powi_le_iff [THEN iffD1])
      then show ?thesis by (intro fix_at) (auto simp: quantum_exp_def)
    next
      case le: False
      then have e: "?r = 2 powi (rat_exp x + 1)"
        using rnd_pos_upper [OF assms(1)] False by (simp add: max_def)
      have re: "rat_exp ?r = rat_exp x + 1"
        by (rule rat_exp_unique) (simp_all add: e powi_less_iff)
      let ?k' = "quantum_exp (rat_exp ?r)"
      have "?k' \<le> rat_exp x + 1" using le by (simp add: re quantum_exp_def)
      from powi_multiple [OF this] have "?r = of_int (2 ^ nat (rat_exp x + 1 - ?k')) * 2 powi ?k'"
        by (simp add: e)
      then have "of_int (round_even (?r / 2 powi ?k')) * 2 powi ?k' = ?r"
        by (metis rnd_grid_fix zero_less_numeral zero_less_power_int)
      then show ?thesis by (simp add: rnd_pos_def [of ?r] Let_def)
    qed
  qed
qed

lemma rnd32_pos: "0 < x \<Longrightarrow> rnd32 x = rnd_pos x"
  by (simp add: rnd32_def)

lemma rnd32_neg: "rnd32 (- x) = - rnd32 x"
  by (simp add: rnd32_def)

lemma rnd32_0 [simp]: "rnd32 0 = 0"
  by (simp add: rnd32_def)

lemma rnd32_nonneg: "0 \<le> x \<Longrightarrow> 0 \<le> rnd32 x"
  by (cases "x = 0") (simp_all add: rnd32_pos rnd_pos_nonneg)

lemma rnd32_mono: "x \<le> y \<Longrightarrow> rnd32 x \<le> rnd32 y"
proof -
  assume le: "x \<le> y"
  consider "0 < x" | "x \<le> 0" "0 \<le> y" | "y < 0" by linarith
  then show ?thesis
  proof cases
    case 1
    with le show ?thesis by (simp add: rnd32_pos rnd_pos_mono)
  next
    case 2
    then have "0 \<le> rnd32 (- x)" "0 \<le> rnd32 y" by (simp_all add: rnd32_nonneg)
    then show ?thesis by (simp add: rnd32_neg)
  next
    case 3
    with le have "rnd_pos (- y) \<le> rnd_pos (- x)" by (intro rnd_pos_mono) auto
    with 3 le show ?thesis by (simp add: rnd32_def)
  qed
qed

lemma rnd32_idem: "rnd32 (rnd32 x) = rnd32 x"
proof -
  have pos: "rnd32 (rnd32 x) = rnd32 x" if "0 < x" for x
  proof (cases "rnd_pos x = 0")
    case False
    then have "0 < rnd_pos x" using rnd_pos_nonneg [OF that] by simp
    with that show ?thesis by (simp add: rnd32_pos rnd_pos_idem)
  qed (simp add: rnd32_pos that)
  consider "0 < x" | "x = 0" | "0 < - x" by linarith
  then show ?thesis
  proof cases
    case 3
    from pos [OF this] show ?thesis by (simp add: rnd32_neg)
  qed (simp_all add: pos)
qed

lemma rnd32_1: "rnd32 1 = 1"
  by code_simp

interpretation f32: f32_rounding rnd32
  by unfold_locales (simp_all add: rnd32_mono rnd32_idem rnd32_1 rnd32_neg)

section \<open>Operations\<close>

definition f_add :: "rat \<Rightarrow> rat \<Rightarrow> rat" where
  "f_add a b = rnd32 (a + b)"

definition f_sub :: "rat \<Rightarrow> rat \<Rightarrow> rat" where
  "f_sub a b = rnd32 (a - b)"

definition f_mul :: "rat \<Rightarrow> rat \<Rightarrow> rat" where
  "f_mul a b = rnd32 (a * b)"

definition f_div :: "rat \<Rightarrow> rat \<Rightarrow> rat" where
  "f_div a b = rnd32 (a / b)"

lemmas f_ops = f_add_def f_sub_def f_mul_def f_div_def

text \<open>The rounding error is at most half a unit in the last place of the binade.\<close>

lemma round_even_error: "\<bar>of_int (round_even x) - x\<bar> \<le> 1/2"
proof -
  have "of_int \<lfloor>x\<rfloor> \<le> x" "x < of_int \<lfloor>x\<rfloor> + 1" by linarith+
  then show ?thesis
    by (auto simp: round_even_def Let_def abs_le_iff)
qed

lemma rnd32_error:
  assumes "0 \<le> x" "x < 2 powi (e + 1)" "- 126 \<le> e"
  shows "\<bar>rnd32 x - x\<bar> \<le> 2 powi (e - 24)"
proof (cases "x = 0")
  case False
  with assms(1) have x: "0 < x" by simp
  let ?q = "(2 :: rat) powi quantum_exp (rat_exp x)"
  have q: "0 < ?q" by simp
  have "(2 :: rat) powi rat_exp x < 2 powi (e + 1)" using rat_exp_bounds(1) [OF x] assms(2) by linarith
  then have "rat_exp x \<le> e" by (simp add: powi_less_iff)
  then have "?q \<le> 2 powi (e - 23)" using assms(3) by (simp add: powi_le_iff quantum_exp_def)
  moreover have "\<bar>rnd32 x - x\<bar> = \<bar>of_int (round_even (x / ?q)) - x / ?q\<bar> * ?q"
  proof -
    have "of_int (round_even (x / ?q)) * ?q - x = (of_int (round_even (x / ?q)) - x / ?q) * ?q"
      by (simp add: left_diff_distrib)
    then show ?thesis using x by (simp add: rnd32_pos rnd_pos_def Let_def abs_mult)
  qed
  moreover have "\<dots> \<le> 1/2 * ?q" using round_even_error q by (intro mult_right_mono) auto
  moreover have "(2 :: rat) powi (e - 23) = 2 * 2 powi (e - 24)"
    using power_int_add [of "2 :: rat" 1 "e - 24"] by (simp add: algebra_simps)
  ultimately show ?thesis by linarith
qed simp

text \<open>Evaluating the rounding of a concrete rational.\<close>

lemma round_even_near: "\<bar>x - of_int n\<bar> < 1/2 \<Longrightarrow> round_even x = n"
proof -
  assume near: "\<bar>x - of_int n\<bar> < 1/2"
  have f: "of_int \<lfloor>x\<rfloor> \<le> x" "x < of_int \<lfloor>x\<rfloor> + 1" by linarith+
  have "\<lfloor>x\<rfloor> = n \<or> \<lfloor>x\<rfloor> = n - 1" using near by linarith
  then show ?thesis
  proof
    assume n: "\<lfloor>x\<rfloor> = n"
    then have "x - of_int \<lfloor>x\<rfloor> < 1/2" using near by linarith
    with n show ?thesis unfolding round_even_def Let_def by simp
  next
    assume n: "\<lfloor>x\<rfloor> = n - 1"
    then have "1/2 < x - of_int \<lfloor>x\<rfloor>" using near by linarith
    then have "\<not> x - of_int \<lfloor>x\<rfloor> < 1/2" by linarith
    with n \<open>1/2 < x - of_int \<lfloor>x\<rfloor>\<close> show ?thesis unfolding round_even_def Let_def by simp
  qed
qed

lemma round_even_tie: "\<bar>x - of_int n\<bar> = 1/2 \<Longrightarrow> even n \<Longrightarrow> round_even x = n"
proof -
  assume a: "\<bar>x - of_int n\<bar> = 1/2" "even n"
  then have "x = of_int n + 1/2 \<or> x = of_int n - 1/2" by linarith
  then consider "x = of_int n + 1/2" | "x = of_int n - 1/2" by blast
  then show ?thesis
  proof cases
    case 1
    then have "\<lfloor>x\<rfloor> = n" by linarith
    with 1 a show ?thesis unfolding round_even_def Let_def by simp
  next
    case 2
    then have "\<lfloor>x\<rfloor> = n - 1" by linarith
    with 2 a show ?thesis unfolding round_even_def Let_def by simp
  qed
qed

lemma rnd32_eval:
  assumes "2 powi e \<le> x" "x < 2 powi (e + 1)" "- 126 \<le> e"
    and "\<bar>x / 2 powi (e - 23) - of_int n\<bar> < 1/2 \<or> even n \<and> \<bar>x / 2 powi (e - 23) - of_int n\<bar> = 1/2"
  shows "rnd32 x = of_int n * 2 powi (e - 23)"
proof -
  have x: "0 < x" using assms(1) by (meson less_le_trans zero_less_numeral zero_less_power_int)
  have "quantum_exp (rat_exp x) = e - 23"
    using assms(3) by (simp add: rat_exp_unique [OF assms(1,2)] quantum_exp_def)
  moreover have "round_even (x / 2 powi (e - 23)) = n"
    using assms(4) round_even_near round_even_tie by blast
  ultimately show ?thesis by (simp add: rnd32_pos [OF x] rnd_pos_def Let_def)
qed

end
