(* ===== verification/Posture_Score.thy ===== *)
theory Posture_Score
  imports Core_Types Binary32
begin

text \<open>
  The three-axis risk rollup of src/crates/ree0xq-server/src/posture.rs in binary32
  arithmetic.  Times are nanoseconds; \<open>num_days\<close> truncates towards zero.
\<close>

section \<open>The code\<close>

definition W_SIG :: f32 where "W_SIG = rnd32 (40 / 100)"
definition W_KEX :: f32 where "W_KEX = rnd32 (30 / 100)"
definition W_ENC :: f32 where "W_ENC = rnd32 (20 / 100)"
definition W_HASH :: f32 where "W_HASH = rnd32 (10 / 100)"
definition ALPHA :: f32 where "ALPHA = rnd32 (1 / 2)"
definition BETA :: f32 where "BETA = rnd32 (2 / 10)"
definition GAMMA_MAX :: f32 where "GAMMA_MAX = rnd32 (3 / 10)"

definition primitive_a_score :: "primitive \<Rightarrow> f32" where
  "primitive_a_score p = (case pr_pq_resistant p of
     Some True \<Rightarrow> 1 | Some False \<Rightarrow> rnd32 (3 / 10) | None \<Rightarrow> rnd32 (4 / 10))"

fun role_weight :: "primitive_role \<Rightarrow> f32" where
  "role_weight Sig = W_SIG"
| "role_weight Kex = W_KEX"
| "role_weight Encrypt = W_ENC"
| "role_weight Hash = W_HASH"
| "role_weight Auth = W_HASH"

definition axis_a :: "primitive list \<Rightarrow> f32" where
  "axis_a prims =
     (if prims = [] then rnd32 (4 / 10)
      else
        (case foldl (\<lambda>(weight_sum, weighted) p.
                let w = role_weight (pr_role p) in
                (f_add weight_sum w, f_add weighted (f_mul w (primitive_a_score p))))
              (0, 0) prims of
           (weight_sum, weighted) \<Rightarrow>
             if weight_sum = 0 then rnd32 (4 / 10) else f_div weighted weight_sum))"

definition axis_c :: "channel_protection option \<Rightarrow> f32" where
  "axis_c cp = (case cp of
     None \<Rightarrow> 0
   | Some c \<Rightarrow> (case cp_state c of Classical \<Rightarrow> 0 | QkdHybridPsk \<Rightarrow> rnd32 (7 / 10) | QkdOnly \<Rightarrow> 1))"

text \<open>The literals of \<open>AgilityLevel::score\<close> as \<open>f32\<close> values.\<close>

definition level_score :: "agility_level \<Rightarrow> f32" where
  "level_score l = rnd32 (agility_score l)"

definition axis_g :: "agility_block option \<Rightarrow> f32" where
  "axis_g ag = (case ag of None \<Rightarrow> level_score Pinned | Some a \<Rightarrow> ag_level_score a)"

definition trunc_div :: "int \<Rightarrow> int \<Rightarrow> int" where
  "trunc_div a b = (if 0 \<le> a then a div b else - ((- a) div b))"

definition num_days :: "int \<Rightarrow> int" where
  "num_days dur = trunc_div dur (86400 * 1000000000)"

definition clamp01 :: "f32 \<Rightarrow> f32" where
  "clamp01 x = (if x < 0 then 0 else if 1 < x then 1 else x)"

definition deadline_tension :: "timestamp \<Rightarrow> timestamp \<Rightarrow> f32 \<Rightarrow> f32" where
  "deadline_tension now deadline horizon_years =
     (if horizon_years \<le> 0 then 1
      else
        (let days = rnd32 (of_int (num_days (deadline - now)));
             years = f_div days (rnd32 (36525 / 100))
         in clamp01 (f_sub 1 (f_div years horizon_years))))"

definition q_of :: "f32 \<Rightarrow> f32 \<Rightarrow> f32 \<Rightarrow> f32 \<Rightarrow> f32" where
  "q_of tau a c g =
     (let gamma = f_mul GAMMA_MAX (f_sub 1 tau);
          total = f_add (f_add ALPHA BETA) gamma;
          a_w = f_div ALPHA total;
          b_w = f_div BETA total;
          g_w = f_div gamma total
      in f_sub 1 (f_add (f_add (f_mul a_w a) (f_mul b_w c)) (f_mul g_w g)))"

definition q_for_event :: "crypto_inventory_event \<Rightarrow> timestamp \<Rightarrow> timestamp \<Rightarrow> f32 \<Rightarrow> f32" where
  "q_for_event ev now deadline horizon_years =
     q_of (deadline_tension now deadline horizon_years)
       (axis_a (ev_primitives ev)) (axis_c (ev_channel_protection ev)) (axis_g (ev_agility ev))"

definition is_blocked :: "agility_block option \<Rightarrow> bool" where
  "is_blocked ag = (case ag of
     None \<Rightarrow> False | Some a \<Rightarrow> (case ag_level a of Locked \<Rightarrow> True | Frozen \<Rightarrow> True | _ \<Rightarrow> False))"

fun asset_kind_weight :: "asset_kind \<Rightarrow> f32" where
  "asset_kind_weight X509Cert = 1"
| "asset_kind_weight TlsSession = rnd32 (7 / 10)"
| "asset_kind_weight SshSession = rnd32 (7 / 10)"
| "asset_kind_weight IpsecSa = rnd32 (7 / 10)"
| "asset_kind_weight BlockchainKey = rnd32 (15 / 10)"
| "asset_kind_weight HsmSlot = 1"
| "asset_kind_weight DnsDnssec = rnd32 (5 / 10)"
| "asset_kind_weight QkdLink = rnd32 (4 / 10)"
| "asset_kind_weight QkdKme = rnd32 (4 / 10)"

definition org_score :: "crypto_inventory_event list \<Rightarrow> timestamp \<Rightarrow> timestamp \<Rightarrow> f32 \<Rightarrow> f32" where
  "org_score events now deadline horizon_years =
     (if events = [] then 0
      else
        (case foldl (\<lambda>(weight_sum, weighted) ev.
                let w = asset_kind_weight (as_kind (ev_asset ev)) in
                (f_add weight_sum w,
                 f_add weighted (f_mul w (q_for_event ev now deadline horizon_years))))
              (0, 0) events of
           (weight_sum, weighted) \<Rightarrow>
             if weight_sum = 0 then 0 else f_div weighted weight_sum))"

section \<open>Weighted means\<close>

lemma foldl_pair:
  "foldl (\<lambda>(s, t) x. (f s x, g t x)) (s, t) xs = (foldl f s xs, foldl g t xs)"
  by (induction xs arbitrary: s t) auto

definition sum_weights :: "(f32 \<times> f32) list \<Rightarrow> f32" where
  "sum_weights ps = foldl (\<lambda>acc (w, s). rnd32 (acc + w)) 0 ps"

definition sum_weighted :: "(f32 \<times> f32) list \<Rightarrow> f32" where
  "sum_weighted ps = foldl (\<lambda>acc (w, s). rnd32 (acc + rnd32 (w * s))) 0 ps"

definition mean_ok :: "(f32 \<times> f32) list \<Rightarrow> bool" where
  "mean_ok ps \<longleftrightarrow> (\<forall>(w, s) \<in> set ps. rnd32 w = w \<and> 0 \<le> w)"

lemma axis_a_mean:
  "axis_a prims =
     (let ps = map (\<lambda>p. (role_weight (pr_role p), primitive_a_score p)) prims in
      if prims = [] \<or> sum_weights ps = 0 then rnd32 (4 / 10) else rnd32 (sum_weighted ps / sum_weights ps))"
  unfolding axis_a_def Let_def f_ops foldl_pair sum_weights_def sum_weighted_def foldl_map
  by simp

lemma org_score_mean:
  "org_score evs now deadline hz =
     (let ps = map (\<lambda>e. (asset_kind_weight (as_kind (ev_asset e)), q_for_event e now deadline hz)) evs in
      if evs = [] \<or> sum_weights ps = 0 then 0 else rnd32 (sum_weighted ps / sum_weights ps))"
  unfolding org_score_def Let_def f_ops foldl_pair sum_weights_def sum_weighted_def foldl_map
  by simp

lemma sum_weights_nonneg: "mean_ok ps \<Longrightarrow> 0 \<le> sum_weights ps"
  unfolding sum_weights_def by (rule f32.weight_sum_nonneg) (auto simp: mean_ok_def)

lemma sum_weighted_nonneg: "mean_ok ps \<Longrightarrow> \<forall>(w, s) \<in> set ps. 0 \<le> s \<Longrightarrow> 0 \<le> sum_weighted ps"
  unfolding sum_weighted_def by (rule f32.weighted_sum_nonneg) (auto simp: mean_ok_def)

lemma sum_weighted_le: "mean_ok ps \<Longrightarrow> \<forall>(w, s) \<in> set ps. s \<le> 1 \<Longrightarrow> sum_weighted ps \<le> sum_weights ps"
  unfolding sum_weighted_def sum_weights_def by (rule f32.weighted_sum_le) (auto simp: mean_ok_def)

lemma sum_weighted_mono:
  assumes "list_all2 (\<lambda>(w, s) (w', s'). w = w' \<and> s \<le> s') ps ps'" "mean_ok ps"
  shows "sum_weighted ps \<le> sum_weighted ps'"
proof -
  have "foldl (\<lambda>acc (w, s). rnd32 (acc + rnd32 (w * s))) a ps
      \<le> foldl (\<lambda>acc (w, s). rnd32 (acc + rnd32 (w * s))) b ps'" if "a \<le> b" for a b
    using assms that
  proof (induction ps ps' arbitrary: a b rule: list_all2_induct)
    case (Cons p ps p' ps')
    obtain w s s' where p: "p = (w, s)" "p' = (w, s')" "s \<le> s'" using Cons.hyps(1) by (auto split: prod.splits)
    have "0 \<le> w" using Cons.prems(1) p by (simp add: mean_ok_def)
    then have "rnd32 (w * s) \<le> rnd32 (w * s')" using p(3) by (intro rnd32_mono mult_left_mono)
    then have "rnd32 (a + rnd32 (w * s)) \<le> rnd32 (b + rnd32 (w * s'))"
      using Cons.prems(2) by (intro rnd32_mono) simp
    with Cons.IH Cons.prems(1) p show ?case by (simp add: mean_ok_def)
  qed simp
  then show ?thesis by (simp add: sum_weighted_def)
qed

lemma sum_weights_same:
  "list_all2 (\<lambda>(w, s) (w', s'). w = w' \<and> s \<le> s') ps ps' \<Longrightarrow> sum_weights ps = sum_weights ps'"
proof -
  have "foldl (\<lambda>acc (w, s). rnd32 (acc + w)) a ps = foldl (\<lambda>acc (w, s). rnd32 (acc + w)) a ps'"
    if "list_all2 (\<lambda>(w, s) (w', s'). w = w' \<and> s \<le> s') ps ps'" for a
    using that by (induction ps ps' arbitrary: a rule: list_all2_induct) (auto split: prod.splits)
  then show "list_all2 (\<lambda>(w, s) (w', s'). w = w' \<and> s \<le> s') ps ps' \<Longrightarrow> sum_weights ps = sum_weights ps'"
    by (simp add: sum_weights_def)
qed

section \<open>The axes\<close>

lemma role_weight_ok: "rnd32 (role_weight r) = role_weight r" "0 \<le> role_weight r"
  by (cases r; simp add: W_SIG_def W_KEX_def W_ENC_def W_HASH_def rnd32_idem rnd32_nonneg)+

lemma kind_weight_ok: "rnd32 (asset_kind_weight k) = asset_kind_weight k" "0 \<le> asset_kind_weight k"
  by (cases k; simp add: rnd32_idem rnd32_nonneg rnd32_1)+

lemma a_score_range: "0 \<le> primitive_a_score p" "primitive_a_score p \<le> 1"
  using f32.fl_le_1 [of "3/10"] f32.fl_le_1 [of "4/10"]
  by (auto simp: primitive_a_score_def rnd32_nonneg split: option.splits bool.splits)

lemma prims_mean_ok: "mean_ok (map (\<lambda>p. (role_weight (pr_role p), primitive_a_score p)) prims)"
  by (auto simp: mean_ok_def role_weight_ok)

lemma kinds_mean_ok: "mean_ok (map (\<lambda>e. (asset_kind_weight (as_kind (ev_asset e)), f e)) evs)"
  by (auto simp: mean_ok_def kind_weight_ok)

lemma axis_a_range: "0 \<le> axis_a prims" "axis_a prims \<le> 1"
proof -
  let ?ps = "map (\<lambda>p. (role_weight (pr_role p), primitive_a_score p)) prims"
  have r: "0 \<le> sum_weighted ?ps" "sum_weighted ?ps \<le> sum_weights ?ps"
    using sum_weighted_nonneg [OF prims_mean_ok] sum_weighted_le [OF prims_mean_ok] a_score_range
    by auto
  show "0 \<le> axis_a prims" "axis_a prims \<le> 1"
    using f32.fl_ratio [OF r] f32.fl_le_1 [of "4/10"] rnd32_nonneg [of "4/10"]
    by (auto simp: axis_a_mean Let_def)
qed

lemma axis_c_range: "0 \<le> axis_c cp" "axis_c cp \<le> 1"
  using f32.fl_le_1 [of "7/10"] rnd32_nonneg [of "7/10"]
  by (auto simp: axis_c_def split: option.splits channel_state.splits)

lemma clamp01_ge_1: "1 \<le> x \<Longrightarrow> clamp01 x = 1"
  by (simp add: clamp01_def)

lemma clamp01_range: "0 \<le> clamp01 x" "clamp01 x \<le> 1"
  by (auto simp: clamp01_def)

lemma trunc_div_mono: "0 < b \<Longrightarrow> x \<le> y \<Longrightarrow> trunc_div x b \<le> trunc_div y b"
proof -
  assume a: "0 < b" "x \<le> y"
  consider "0 \<le> x" | "x < 0" "0 \<le> y" | "y < 0" by linarith
  then show ?thesis
  proof cases
    case 2
    then have "0 \<le> (- x) div b" "0 \<le> y div b" using a by (simp_all add: pos_imp_zdiv_nonneg_iff)
    with 2 show ?thesis by (simp add: trunc_div_def)
  qed (use a in \<open>auto simp: trunc_div_def intro!: zdiv_mono1\<close>)
qed

lemma num_days_mono: "x \<le> y \<Longrightarrow> num_days x \<le> num_days y"
  by (simp add: num_days_def trunc_div_mono)

lemma year_pos: "0 < rnd32 (36525 / 100)"
  by code_simp

text \<open>The deadline tension lies in the unit interval, does not decrease as time passes, and is one
  from the deadline on; all of it in rounded arithmetic.\<close>

theorem deadline_tension_monotone:
  assumes "now \<le> now'"
  shows "0 \<le> deadline_tension now deadline h \<and>
     deadline_tension now deadline h \<le> deadline_tension now' deadline h \<and>
     deadline_tension now' deadline h \<le> 1 \<and>
     deadline_tension (max now deadline) deadline h = 1"
proof (intro conjI)
  show "0 \<le> deadline_tension now deadline h" "deadline_tension now' deadline h \<le> 1"
    by (simp_all add: deadline_tension_def Let_def clamp01_range)
  have "num_days (deadline - now') \<le> num_days (deadline - now)"
    using assms by (intro num_days_mono) simp
  then have days: "rnd32 (of_int (num_days (deadline - now'))) \<le> rnd32 (of_int (num_days (deadline - now)))"
    by (intro rnd32_mono) simp
  have d: "f_div (rnd32 (of_int (num_days (deadline - now')))) (rnd32 (36525 / 100))
      \<le> f_div (rnd32 (of_int (num_days (deadline - now)))) (rnd32 (36525 / 100))"
    unfolding f_div_def by (rule rnd32_mono, rule divide_right_mono) (use days year_pos in simp_all)
  have c: "clamp01 x \<le> clamp01 y" if "x \<le> y" for x y
    using that by (auto simp: clamp01_def)
  show "deadline_tension now deadline h \<le> deadline_tension now' deadline h"
  proof (cases "h \<le> 0")
    case False
    then show ?thesis
      unfolding deadline_tension_def Let_def f_sub_def f_div_def [of _ h]
      using d by (auto intro!: c rnd32_mono diff_left_mono divide_right_mono)
  qed (simp add: deadline_tension_def)
  have "num_days (deadline - max now deadline) \<le> 0"
    using num_days_mono [of "deadline - max now deadline" 0] by (simp add: num_days_def trunc_div_def)
  then have "rnd32 (of_int (num_days (deadline - max now deadline))) \<le> 0"
    using rnd32_mono [of "of_int (num_days (deadline - max now deadline))" 0] by simp
  then have "rnd32 (of_int (num_days (deadline - max now deadline))) / rnd32 (36525 / 100) \<le> 0"
    using year_pos by (simp add: divide_le_0_iff)
  then have y: "f_div (rnd32 (of_int (num_days (deadline - max now deadline)))) (rnd32 (36525 / 100)) \<le> 0"
    unfolding f_div_def using rnd32_mono [of _ 0] by simp
  have "1 \<le> f_sub 1 (f_div y h)" if "y \<le> 0" "0 < h" for y
  proof -
    have "f_div y h \<le> 0"
      unfolding f_div_def using that rnd32_mono [of "y / h" 0] by (simp add: divide_le_0_iff)
    then show ?thesis unfolding f_sub_def using rnd32_mono [of 1 "1 - f_div y h"] by (simp add: rnd32_1)
  qed
  from this [OF y] show "deadline_tension (max now deadline) deadline h = 1"
    by (simp add: deadline_tension_def Let_def clamp01_ge_1 not_le)
qed

lemma deadline_tension_monotone_witness:
  "deadline_tension 5 (10 ^ 18) 5 \<le> deadline_tension 7 (10 ^ 18) 5"
  using deadline_tension_monotone [of 5 7 "10 ^ 18" 5] by simp

section \<open>The score\<close>

definition q_weights :: "f32 \<Rightarrow> f32 \<times> f32 \<times> f32" where
  "q_weights tau =
     (let gamma = f_mul GAMMA_MAX (f_sub 1 tau); total = f_add (f_add ALPHA BETA) gamma
      in (f_div ALPHA total, f_div BETA total, f_div gamma total))"

lemma q_of_weights:
  "q_of tau a c g = (case q_weights tau of (a_w, b_w, g_w) \<Rightarrow>
     f_sub 1 (f_add (f_add (f_mul a_w a) (f_mul b_w c)) (f_mul g_w g)))"
  by (simp add: q_of_def q_weights_def Let_def)

lemma axis_weights_pos: "0 < ALPHA" "0 < BETA" "0 < GAMMA_MAX"
  by code_simp+

lemma q_weights_nonneg:
  assumes "tau \<le> 1" "q_weights tau = (a_w, b_w, g_w)"
  shows "0 \<le> a_w" "0 \<le> b_w" "0 \<le> g_w"
proof -
  have gamma: "0 \<le> f_mul GAMMA_MAX (f_sub 1 tau)"
    unfolding f_mul_def f_sub_def using assms(1) axis_weights_pos
    by (intro rnd32_nonneg mult_nonneg_nonneg) auto
  have total: "0 \<le> f_add (f_add ALPHA BETA) (f_mul GAMMA_MAX (f_sub 1 tau))"
    unfolding f_add_def using axis_weights_pos gamma by (intro rnd32_nonneg add_nonneg_nonneg) auto
  show "0 \<le> a_w" "0 \<le> b_w" "0 \<le> g_w"
    using assms(2) axis_weights_pos gamma total
    by (auto simp: q_weights_def Let_def f_div_def intro!: rnd32_nonneg divide_nonneg_nonneg)
qed

lemma q_of_mono:
  assumes "tau \<le> 1" "a \<le> a'" "c \<le> c'" "g \<le> g'"
  shows "q_of tau a' c' g' \<le> q_of tau a c g"
proof -
  obtain a_w b_w g_w where w: "q_weights tau = (a_w, b_w, g_w)" by (metis prod_cases3)
  note wnn = q_weights_nonneg [OF assms(1) w]
  have "f_mul a_w a \<le> f_mul a_w a'" "f_mul b_w c \<le> f_mul b_w c'" "f_mul g_w g \<le> f_mul g_w g'"
    unfolding f_mul_def using assms wnn by (auto intro!: rnd32_mono mult_left_mono)
  then have "f_add (f_add (f_mul a_w a) (f_mul b_w c)) (f_mul g_w g)
      \<le> f_add (f_add (f_mul a_w a') (f_mul b_w c')) (f_mul g_w g')"
    unfolding f_add_def by (intro rnd32_mono add_mono)
  then show ?thesis by (simp add: q_of_weights w f_sub_def rnd32_mono)
qed

lemma tension_le_1: "deadline_tension now deadline h \<le> 1"
  by (simp add: deadline_tension_def Let_def clamp01_range)

lemma tension_ge_0: "0 \<le> deadline_tension now deadline h"
  by (simp add: deadline_tension_def Let_def clamp01_range)

text \<open>What it means for an asset to be at least as well protected as another, said without the scores the
  code gives.  Primitive by primitive in the same roles: quantum-resistant is best, not resistant is
  worst, unknown is in between.\<close>

definition better_primitive :: "primitive \<Rightarrow> primitive \<Rightarrow> bool" where
  "better_primitive p p' \<longleftrightarrow> pr_role p = pr_role p' \<and>
     (pr_pq_resistant p' = Some True \<or> pr_pq_resistant p = Some False \<or> pr_pq_resistant p = pr_pq_resistant p')"

text \<open>Channels: a QKD-only channel is best, a classical one worst, and none at all is classical.\<close>

definition channel_of :: "channel_protection option \<Rightarrow> channel_state" where
  "channel_of cp = (case cp of None \<Rightarrow> Classical | Some c \<Rightarrow> cp_state c)"

definition better_channel :: "channel_protection option \<Rightarrow> channel_protection option \<Rightarrow> bool" where
  "better_channel cp cp' \<longleftrightarrow>
     channel_of cp = channel_of cp' \<or> channel_of cp = Classical \<or> channel_of cp' = QkdOnly"

text \<open>Agility: by the paper's ordinal scale when the blocks carry the canonical score of their level, and
  otherwise by the scores they report; an asset that was not scanned counts as pinned, half of the scale.\<close>

fun level_rank :: "agility_level \<Rightarrow> nat" where
  "level_rank Frozen = 0"
| "level_rank Locked = 1"
| "level_rank Pinned = 2"
| "level_rank Configurable = 3"
| "level_rank Negotiated = 4"

definition level_of :: "agility_block option \<Rightarrow> agility_level" where
  "level_of ag = (case ag of None \<Rightarrow> Pinned | Some a \<Rightarrow> ag_level a)"

definition canonical_score :: "agility_block option \<Rightarrow> bool" where
  "canonical_score ag = (case ag of None \<Rightarrow> True | Some a \<Rightarrow> ag_level_score a = level_score (ag_level a))"

definition reported_score :: "agility_block option \<Rightarrow> f32" where
  "reported_score ag = (case ag of None \<Rightarrow> 1 / 2 | Some a \<Rightarrow> ag_level_score a)"

definition more_agile :: "agility_block option \<Rightarrow> agility_block option \<Rightarrow> bool" where
  "more_agile ag ag' \<longleftrightarrow>
     (if canonical_score ag \<and> canonical_score ag' then level_rank (level_of ag) \<le> level_rank (level_of ag')
      else reported_score ag \<le> reported_score ag')"

definition better_protected :: "crypto_inventory_event \<Rightarrow> crypto_inventory_event \<Rightarrow> bool" where
  "better_protected e e' \<longleftrightarrow> list_all2 better_primitive (ev_primitives e) (ev_primitives e')
     \<and> better_channel (ev_channel_protection e) (ev_channel_protection e')
     \<and> more_agile (ev_agility e) (ev_agility e')"

lemma axis_c_mono: "better_channel cp cp' \<Longrightarrow> axis_c cp \<le> axis_c cp'"
  using rnd32_mono [of 0 "7 / 10"] f32.fl_le_1 [of "7 / 10"]
  by (auto simp: better_channel_def channel_of_def axis_c_def split: option.splits channel_state.splits)

lemma level_score_mono: "level_rank l \<le> level_rank l' \<Longrightarrow> level_score l \<le> level_score l'"
  unfolding level_score_def by (rule rnd32_mono) (cases l; cases l'; simp)

lemma axis_g_mono: "more_agile ag ag' \<Longrightarrow> axis_g ag \<le> axis_g ag'"
proof -
  have half: "level_score Pinned = 1 / 2"
    using rnd32_eval [of "-1" "1/2" "2 ^ 23"] by (simp add: level_score_def power_int_def power_divide)
  have "axis_g ag = reported_score ag" for ag
    by (simp add: axis_g_def reported_score_def half split: option.split)
  moreover have "canonical_score ag \<Longrightarrow> axis_g ag = level_score (level_of ag)" for ag
    by (auto simp: canonical_score_def axis_g_def level_of_def split: option.splits)
  ultimately show "more_agile ag ag' \<Longrightarrow> axis_g ag \<le> axis_g ag'"
    by (auto simp: more_agile_def level_score_mono split: if_splits)
qed

lemma axis_a_mono:
  assumes "list_all2 better_primitive ps ps'"
  shows "axis_a ps \<le> axis_a ps'"
proof -
  let ?f = "\<lambda>p. (role_weight (pr_role p), primitive_a_score p)"
  have le: "rnd32 (3/10) \<le> rnd32 (4/10)" "rnd32 (4/10) \<le> 1" "rnd32 (3/10) \<le> 1"
    using rnd32_mono [of "3/10" "4/10"] f32.fl_le_1 [of "4/10"] f32.fl_le_1 [of "3/10"] by simp_all
  have "better_primitive p p' \<Longrightarrow> (case ?f p of (w, s) \<Rightarrow> case ?f p' of (w', s') \<Rightarrow> w = w' \<and> s \<le> s')" for p p'
    using le by (auto simp: better_primitive_def primitive_a_score_def split: option.splits bool.splits)
  with assms have all: "list_all2 (\<lambda>(w, s) (w', s'). w = w' \<and> s \<le> s') (map ?f ps) (map ?f ps')"
    by (simp add: list_all2_conv_all_nth)
  have "ps = [] \<longleftrightarrow> ps' = []" using assms by auto
  then show ?thesis
    using sum_weighted_mono [OF all prims_mean_ok] sum_weights_same [OF all]
      sum_weights_nonneg [OF prims_mean_ok, of ps']
    by (auto simp: axis_a_mean Let_def intro!: rnd32_mono divide_right_mono)
qed

text \<open>C9: migrating never worsens the score.  Take two assets with as many primitives, where each primitive
  of the second has the role of its counterpart and stands as high or higher on the scale not
  quantum-resistant, unknown, quantum-resistant, where the second's channel is as good or better on the scale classical, QKD hybrid,
  QKD only (no channel is classical), and where the second is as agile or more, by level when both carry
  their level's canonical score and by the reported score otherwise (no scan counts as pinned).  Then, in
  binary32 arithmetic, at any moment and for any deadline, the second's risk score is not higher.\<close>

theorem q_antitone:
  assumes "better_protected e e'"
  shows "q_for_event e' now deadline h \<le> q_for_event e now deadline h"
  using assms unfolding better_protected_def q_for_event_def
  by (intro q_of_mono tension_le_1 axis_a_mono axis_c_mono axis_g_mono) auto

section \<open>Bounds under rounding\<close>

abbreviation ulp :: rat where
  "ulp \<equiv> 1 / 16777216"

lemma rnd_err: "0 \<le> x \<Longrightarrow> x < 2 \<Longrightarrow> \<bar>rnd32 x - x\<bar> \<le> ulp"
  using rnd32_error [of x 0] by (simp add: power_int_def field_simps)

lemma rnd_up: "0 \<le> x \<Longrightarrow> x < 2 \<Longrightarrow> rnd32 x \<le> x + ulp"
  using rnd_err [of x] unfolding abs_le_iff by linarith

lemma rnd_down: "0 \<le> x \<Longrightarrow> x < 2 \<Longrightarrow> x \<le> rnd32 x + ulp"
  using rnd_err [of x] unfolding abs_le_iff by linarith

lemma weight_values:
  "ALPHA = 1/2" "BETA = 13421773/67108864" "GAMMA_MAX = 5033165/16777216"
  "rnd32 (46976205/67108864) = 11744051/16777216"
  using rnd32_eval [of "-1" "1/2" "2 ^ 23"] rnd32_eval [of "-3" "2/10" 13421773]
    rnd32_eval [of "-2" "3/10" 10066330] rnd32_eval [of "-1" "46976205/67108864" 11744051]
  by (simp_all add: ALPHA_def BETA_def GAMMA_MAX_def power_int_def power_divide)

lemma weight_consts: "ALPHA = 1/2" "BETA \<le> 21/100" "GAMMA_MAX \<le> 31/100"
  "69/100 \<le> f_add ALPHA BETA" "f_add ALPHA BETA \<le> 71/100" "ALPHA + BETA \<le> f_add ALPHA BETA + ulp"
  by (simp_all add: weight_values f_add_def)

lemma f_mul_le: "rnd32 w = w \<Longrightarrow> 0 \<le> w \<Longrightarrow> s \<le> 1 \<Longrightarrow> f_mul w s \<le> w"
  unfolding f_mul_def by (rule f32.fl_scale_le)

text \<open>The three weights add up to at most one and a few units in the last place.\<close>

lemma q_weights_sum:
  assumes "0 \<le> tau" "tau \<le> 1" "q_weights tau = (a_w, b_w, g_w)"
  shows "a_w + b_w + g_w \<le> 1 + 6 * ulp" "a_w \<le> 8/10" "b_w \<le> 4/10" "g_w \<le> 5/10"
    "rnd32 a_w = a_w" "rnd32 b_w = b_w" "rnd32 g_w = g_w"
proof -
  let ?S = "f_add ALPHA BETA"
  define gam where "gam = f_mul GAMMA_MAX (f_sub 1 tau)"
  define T where "T = f_add ?S gam"
  have w: "a_w = f_div ALPHA T" "b_w = f_div BETA T" "g_w = f_div gam T"
    using assms(3) by (simp_all add: q_weights_def Let_def gam_def T_def)
  have g0: "0 \<le> f_sub 1 tau" "f_sub 1 tau \<le> 1"
    unfolding f_sub_def using assms(1,2) by (auto intro: rnd32_nonneg f32.fl_le_1)
  have gam: "0 \<le> gam" "gam \<le> 31/100"
  proof -
    show "0 \<le> gam" unfolding gam_def f_mul_def
      using g0 axis_weights_pos by (intro rnd32_nonneg mult_nonneg_nonneg) auto
    have "gam \<le> GAMMA_MAX" unfolding gam_def
      using g0 axis_weights_pos by (intro f_mul_le) (auto simp: GAMMA_MAX_def rnd32_idem)
    then show "gam \<le> 31/100" using weight_consts(3) by linarith
  qed
  have T: "69/100 \<le> T" "?S + gam \<le> T + ulp"
  proof -
    have "rnd32 ?S \<le> T" unfolding T_def f_add_def [of ?S] using gam by (intro rnd32_mono) simp
    then show "69/100 \<le> T" using weight_consts(4) by (simp add: f_add_def rnd32_idem)
    show "?S + gam \<le> T + ulp" unfolding T_def f_add_def [of ?S]
      using gam weight_consts(4,5) by (intro rnd_down) auto
  qed
  have div: "0 \<le> x / T \<and> x / T \<le> x / (69/100)" if "0 \<le> x" for x
    using that T(1) by (intro conjI divide_nonneg_nonneg divide_left_mono mult_pos_pos) auto
  have up: "f_div x T \<le> x / T + ulp" "f_div x T \<le> x / (69/100) + ulp" if "0 \<le> x" "x \<le> 1/2" for x
  proof -
    have "x / (69/100) < 2" using that(2) by simp
    then have "x / T < 2" using div [OF that(1)] by linarith
    then show "f_div x T \<le> x / T + ulp" unfolding f_div_def using div [OF that(1)] by (intro rnd_up) auto
    then show "f_div x T \<le> x / (69/100) + ulp" using div [OF that(1)] by linarith
  qed
  have A: "0 \<le> ALPHA" "ALPHA \<le> 1/2" and B: "0 \<le> BETA" "BETA \<le> 1/2" "BETA \<le> 21/100" and G: "gam \<le> 1/2"
    using axis_weights_pos weight_consts gam by auto
  show "a_w \<le> 8/10" "b_w \<le> 4/10" "g_w \<le> 5/10"
    using up(2) [OF A] up(2) [OF B(1,2)] up(2) [OF gam(1) G] A B gam by (auto simp: w)
  have "a_w + b_w + g_w \<le> (ALPHA + BETA + gam) / T + 3 * ulp"
    using up(1) [OF A] up(1) [OF B(1,2)] up(1) [OF gam(1) G] by (simp add: w add_divide_distrib)
  also have "(ALPHA + BETA + gam) / T \<le> (T + 2 * ulp) / T"
    using T weight_consts(6) by (intro divide_right_mono) auto
  also have "(T + 2 * ulp) / T = 1 + 2 * ulp / T" using T(1) by (simp add: add_divide_distrib)
  also have "2 * ulp / T \<le> 2 * ulp / (69/100)" using T(1) by (intro divide_left_mono mult_pos_pos) auto
  finally show "a_w + b_w + g_w \<le> 1 + 6 * ulp" by simp
  show "rnd32 a_w = a_w" "rnd32 b_w = b_w" "rnd32 g_w = g_w"
    by (simp_all add: w f_div_def rnd32_idem)
qed

lemma q_of_range:
  assumes tau: "0 \<le> tau" "tau \<le> 1" and ax: "0 \<le> a" "a \<le> 1" "0 \<le> c" "c \<le> 1" "0 \<le> g" "g \<le> 1"
  shows "- (1 / 2 ^ 21) \<le> q_of tau a c g" "q_of tau a c g \<le> 1"
proof -
  obtain a_w b_w g_w where w: "q_weights tau = (a_w, b_w, g_w)" by (metis prod_cases3)
  note wnn = q_weights_nonneg [OF tau(2) w] and s = q_weights_sum [OF tau w]
  have m: "0 \<le> f_mul a_w a" "f_mul a_w a \<le> a_w" "0 \<le> f_mul b_w c" "f_mul b_w c \<le> b_w"
    "0 \<le> f_mul g_w g" "f_mul g_w g \<le> g_w"
    using f_mul_le [OF s(5) wnn(1) ax(2)] f_mul_le [OF s(6) wnn(2) ax(4)] f_mul_le [OF s(7) wnn(3) ax(6)]
      wnn ax by (auto simp: f_mul_def rnd32_nonneg)
  let ?s1 = "f_add (f_mul a_w a) (f_mul b_w c)"
  have s1: "0 \<le> ?s1" "?s1 \<le> a_w + b_w + ulp"
  proof -
    show "0 \<le> ?s1" using m by (simp add: f_add_def rnd32_nonneg)
    have "?s1 \<le> f_mul a_w a + f_mul b_w c + ulp"
      unfolding f_add_def using m s by (intro rnd_up) auto
    then show "?s1 \<le> a_w + b_w + ulp" using m by linarith
  qed
  let ?s2 = "f_add ?s1 (f_mul g_w g)"
  have s2: "0 \<le> ?s2" "?s2 \<le> 1 + 8 * ulp"
  proof -
    show "0 \<le> ?s2" using m s1 by (simp add: f_add_def rnd32_nonneg)
    have "?s2 \<le> ?s1 + f_mul g_w g + ulp"
      unfolding f_add_def [of ?s1] using m s s1 by (intro rnd_up) auto
    then show "?s2 \<le> 1 + 8 * ulp" using m s s1 by linarith
  qed
  have q: "q_of tau a c g = rnd32 (1 - ?s2)" by (simp add: q_of_weights w f_sub_def)
  have "rnd32 (- (1 / 2 ^ 21)) = - (1 / 2 ^ 21)"
    using rnd32_eval [of "-21" "1 / 2 ^ 21" "2 ^ 23"] by (simp add: rnd32_neg power_int_def power_divide)
  moreover have "rnd32 (- (1 / 2 ^ 21)) \<le> rnd32 (1 - ?s2)" using s2(2) by (intro rnd32_mono) simp
  ultimately show "- (1 / 2 ^ 21) \<le> q_of tau a c g" by (simp add: q)
  show "q_of tau a c g \<le> 1" using s2(1) by (simp add: q f32.fl_le_1)
qed

text \<open>C34: the risk score of an asset lies between zero and one up to the rounding of binary32: it is
  at most one and never below $-2^{-21}$, for every asset whose agility block, if any,
  carries a level score in the unit interval.\<close>

theorem q_bounds:
  assumes "case ev_agility ev of None \<Rightarrow> True | Some b \<Rightarrow> 0 \<le> ag_level_score b \<and> ag_level_score b \<le> 1"
  shows "- (1 / 2 ^ 21) \<le> q_for_event ev now deadline h \<and> q_for_event ev now deadline h \<le> 1"
proof -
  have "0 \<le> axis_g (ev_agility ev)" "axis_g (ev_agility ev) \<le> 1"
    using assms f32.fl_le_1 [of "1/2"] rnd32_nonneg [of "1/2"]
    by (auto simp: axis_g_def level_score_def split: option.splits)
  then show ?thesis
    unfolding q_for_event_def
    by (intro conjI q_of_range axis_a_range axis_c_range tension_ge_0 tension_le_1)
qed

lemma q_bounds_witness:
  "q_for_event (\<lparr>ev_schema_version = 1, ev_schema_minor = 1, ev_source_module = [],
      ev_observed_at = 0, ev_asset = \<lparr>as_kind = TlsSession, as_identity = [], as_host = None\<rparr>,
      ev_primitives = [mk_primitive Kex ''X25519'' (Some False) None], ev_channel_protection = None,
      ev_agility = None, ev_posture = \<lparr>po_score = 0, po_rationale = [], po_replacement = None\<rparr>\<rparr>) 0 9 5 \<le> 1"
  by (rule conjunct2 [OF q_bounds]) simp

text \<open>The organisation's score is bounded: when no asset's score exceeds one, neither does the
  rounded weighted mean, and when no asset's score is negative, neither is the mean.\<close>

theorem org_score_bounds:
  assumes "\<forall>e \<in> set evs. q_for_event e now deadline h \<le> 1"
  shows "org_score evs now deadline h \<le> 1 \<and>
    ((\<forall>e \<in> set evs. 0 \<le> q_for_event e now deadline h) \<longrightarrow> 0 \<le> org_score evs now deadline h)"
proof -
  let ?ps = "map (\<lambda>e. (asset_kind_weight (as_kind (ev_asset e)), q_for_event e now deadline h)) evs"
  have "sum_weighted ?ps \<le> sum_weights ?ps" "0 \<le> sum_weights ?ps"
    using assms by (auto intro!: sum_weighted_le kinds_mean_ok sum_weights_nonneg)
  then have up: "rnd32 (sum_weighted ?ps / sum_weights ?ps) \<le> 1" by (rule f32.fl_ratio_le)
  have "0 \<le> rnd32 (sum_weighted ?ps / sum_weights ?ps)"
    if "\<forall>e \<in> set evs. 0 \<le> q_for_event e now deadline h"
    using that sum_weighted_nonneg [OF kinds_mean_ok, of "\<lambda>e. q_for_event e now deadline h" evs]
      sum_weights_nonneg [OF kinds_mean_ok, of "\<lambda>e. q_for_event e now deadline h" evs]
    by (auto intro!: rnd32_nonneg divide_nonneg_nonneg)
  with up show ?thesis by (auto simp: org_score_mean Let_def)
qed

lemma org_score_bounds_witness:
  "org_score [] 0 9 5 \<le> 1"
  by (rule conjunct1 [OF org_score_bounds]) simp

lemma near_deadline_values:
  "rnd32 (11) = 11"
  "rnd32 (1461 / 4) = 1461 / 4"
  "rnd32 (44 / 1461) = 16168597 / 536870912"
  "rnd32 (16168597 / 2684354560) = 6467439 / 1073741824"
  "rnd32 (1067274385 / 1073741824) = 8338081 / 8388608"
  "rnd32 (50527 / 8388608) = 50527 / 8388608"
  "rnd32 (254310727955 / 140737488355328) = 15521895 / 8589934592"
  "rnd32 (6028476007 / 8589934592) = 11774367 / 16777216"
  "rnd32 (8388608 / 11774367) = 11952871 / 16777216"
  "rnd32 (13421773 / 47097468) = 9562297 / 33554432"
  "rnd32 (74985 / 29123072) = 5529261 / 2147483648"
  "rnd32 (33468039 / 33554432) = 4183505 / 4194304"
  "rnd32 (2147483821 / 2147483648) = 8388609 / 8388608"
  "rnd32 (1 / 8388608) = 1 / 8388608"
  using rnd32_eval [of "3" "11" "11534336"]
    rnd32_eval [of "8" "1461 / 4" "11968512"]
    rnd32_eval [of "-6" "44 / 1461" "16168597"]
    rnd32_eval [of "-8" "16168597 / 2684354560" "12934878"]
    rnd32_eval [of "-1" "1067274385 / 1073741824" "16676162"]
    rnd32_eval [of "-8" "50527 / 8388608" "12934912"]
    rnd32_eval [of "-10" "254310727955 / 140737488355328" "15521895"]
    rnd32_eval [of "-1" "6028476007 / 8589934592" "11774367"]
    rnd32_eval [of "-1" "8388608 / 11774367" "11952871"]
    rnd32_eval [of "-2" "13421773 / 47097468" "9562297"]
    rnd32_eval [of "-9" "74985 / 29123072" "11058522"]
    rnd32_eval [of "-1" "33468039 / 33554432" "16734020"]
    rnd32_eval [of "0" "2147483821 / 2147483648" "8388609"]
    rnd32_eval [of "-23" "1 / 8388608" "8388608"]
  by (simp_all add: power_int_def power_divide)

lemma fixed_weights:
  "rnd32 (11952871 / 16777216) = 11952871 / 16777216"
  "rnd32 (9562297 / 33554432) = 9562297 / 33554432"
  "rnd32 (5529261 / 2147483648) = 5529261 / 2147483648"
  using rnd32_eval [of "-1" "11952871 / 16777216" 11952871] rnd32_eval [of "-2" "9562297 / 33554432" 9562297]
    rnd32_eval [of "-9" "5529261 / 2147483648" 11058522]
  by (simp_all add: power_int_def power_divide)

text \<open>A score can leave the unit interval: eleven days before the deadline, with the default
  horizon of five years, an asset that is perfect on all three axes gets a negative risk score
  (of one unit in the last place).\<close>

theorem perfect_asset_negative_score:
  "\<exists>tau. tau = deadline_tension 0 (11 * 86400 * 1000000000) 5
     \<and> axis_a [mk_primitive Sig a (Some True) n] = 1 \<and> q_of tau 1 1 1 = - (1 / 8388608)"
proof (intro exI conjI)
  have tau: "deadline_tension 0 (11 * 86400 * 1000000000) 5 = 8338081 / 8388608"
    by (simp add: deadline_tension_def num_days_def trunc_div_def Let_def f_div_def f_sub_def
        clamp01_def near_deadline_values)
  show "8338081 / 8388608 = deadline_tension 0 (11 * 86400 * 1000000000) 5" by (rule tau [symmetric])
  have "W_SIG \<noteq> 0" by code_simp
  then show "axis_a [mk_primitive Sig a (Some True) n] = 1"
    by (simp add: axis_a_def Let_def f_ops primitive_a_score_def W_SIG_def rnd32_idem rnd32_1)
  show "q_of (8338081 / 8388608) 1 1 1 = - (1 / 8388608)"
    using rnd32_neg [of "1 / 8388608"]
    by (simp add: q_of_def Let_def f_ops weight_values near_deadline_values fixed_weights)
qed

definition sample_asset :: "bool option \<Rightarrow> crypto_inventory_event" where
  "sample_asset pq =
     \<lparr>ev_schema_version = 1, ev_schema_minor = 1, ev_source_module = [],
      ev_observed_at = 0, ev_asset = \<lparr>as_kind = TlsSession, as_identity = [], as_host = None\<rparr>,
      ev_primitives = [mk_primitive Kex ''K'' pq None], ev_channel_protection = None,
      ev_agility = None, ev_posture = \<lparr>po_score = 0, po_rationale = [], po_replacement = None\<rparr>\<rparr>"

text \<open>A classical session of an asset frozen in hardware, and the same after its migration.\<close>

definition frozen_asset :: crypto_inventory_event where
  "frozen_asset = (sample_asset (Some False))\<lparr>ev_agility := Some \<lparr>ag_level = Frozen, ag_level_score = level_score Frozen,
     ag_evidence = [], ag_scanner_version = [], ag_rubric_version = []\<rparr>\<rparr>"

definition migrated_asset :: crypto_inventory_event where
  "migrated_asset = (sample_asset (Some True))\<lparr>ev_channel_protection := Some \<lparr>cp_state = QkdHybridPsk,
     cp_kme_endpoint = None, cp_key_id_observed = None, cp_psk_age_seconds = None, cp_link_qber = None,
     cp_link_key_rate_bps = None, cp_link_health = HealthOk, cp_degraded_reason = None\<rparr>\<rparr>"

lemma q_antitone_witness:
  "q_for_event migrated_asset 0 9 5 \<le> q_for_event frozen_asset 0 9 5 \<and>
   axis_g (ev_agility frozen_asset) < axis_g (ev_agility migrated_asset) \<and>
   axis_c (ev_channel_protection frozen_asset) < axis_c (ev_channel_protection migrated_asset)"
proof (intro conjI)
  have "better_protected frozen_asset migrated_asset"
    by (simp add: better_protected_def frozen_asset_def migrated_asset_def sample_asset_def better_primitive_def
        better_channel_def channel_of_def more_agile_def canonical_score_def level_of_def)
  then show "q_for_event migrated_asset 0 9 5 \<le> q_for_event frozen_asset 0 9 5" by (rule q_antitone)
  show "axis_g (ev_agility frozen_asset) < axis_g (ev_agility migrated_asset)"
    using rnd32_eval [of "-1" "1/2" "2 ^ 23"]
    by (simp add: frozen_asset_def migrated_asset_def sample_asset_def axis_g_def level_score_def power_int_def power_divide)
  show "axis_c (ev_channel_protection frozen_asset) < axis_c (ev_channel_protection migrated_asset)"
    using rnd32_eval [of "-1" "7/10" 11744051]
    by (simp add: frozen_asset_def migrated_asset_def sample_asset_def axis_c_def power_int_def power_divide)
qed

end
