(* ===== verification/Recommend.thy ===== *)
theory Recommend
  imports Core_Types
begin

text \<open>
  The replacement recommender of src/crates/ree0xq-agility/src/recommend.rs: the two rule
  tables, the choice of a NIST level from the bit length in an algorithm name, and the
  ranking by cost.  A Rust \<open>&mut Vec\<close> that a helper pushes to is the list the helper returns.
\<close>

section \<open>The code\<close>

datatype cost = Trivial | Low | Medium | High

fun cost_rank :: "cost \<Rightarrow> nat" where
  "cost_rank Trivial = 0"
| "cost_rank Low = 1"
| "cost_rank Medium = 2"
| "cost_rank High = 3"

lemma cost_rank_inj: "cost_rank a = cost_rank b \<Longrightarrow> a = b"
  by (cases a; cases b; simp)

text \<open>The derived \<open>Ord\<close> of \<open>Cost\<close> is the order of declaration.\<close>

instantiation cost :: linorder
begin

definition less_eq_cost :: "cost \<Rightarrow> cost \<Rightarrow> bool" where
  "less_eq_cost a b \<longleftrightarrow> cost_rank a \<le> cost_rank b"

definition less_cost :: "cost \<Rightarrow> cost \<Rightarrow> bool" where
  "less_cost a b \<longleftrightarrow> cost_rank a < cost_rank b"

instance
  by standard (auto simp: less_eq_cost_def less_cost_def intro: cost_rank_inj)

end

record recommendation =
  rp_replaces :: string
  rp_replacement :: string
  rp_rationale :: string
  rp_cost :: cost
  rp_caveats :: "string list"

text \<open>UTF-8 of the two non-ASCII characters of the texts: the dash and the arrow.\<close>

definition em_dash :: string where
  "em_dash = [CHR 0xE2, CHR 0x80, CHR 0x94]"

definition right_arrow :: string where
  "right_arrow = [CHR 0xE2, CHR 0x86, CHR 0x92]"

definition parse_trailing_bits :: "string \<Rightarrow> nat option" where
  "parse_trailing_bits s = parse_unsigned (2 ^ 32 - 1) (last (split_on (CHR ''-'') s))"

datatype rsa_level = RL1 | RL3 | RL5

fun level_label :: "rsa_level \<Rightarrow> string" where
  "level_label RL1 = ''1 (AES-128)''"
| "level_label RL3 = ''3 (AES-192)''"
| "level_label RL5 = ''5 (AES-256)''"

fun ml_dsa_id :: "rsa_level \<Rightarrow> string" where
  "ml_dsa_id RL1 = ''44''"
| "ml_dsa_id RL3 = ''65''"
| "ml_dsa_id RL5 = ''87''"

fun slh_dsa_size :: "rsa_level \<Rightarrow> string" where
  "slh_dsa_size RL1 = ''128''"
| "slh_dsa_size RL3 = ''192''"
| "slh_dsa_size RL5 = ''192''"

definition nist_level_for_rsa :: "nat option \<Rightarrow> rsa_level" where
  "nist_level_for_rsa bits = (case bits of
     Some b \<Rightarrow> (if b \<le> 2048 then RL1 else if b \<le> 3072 then RL3 else RL5)
   | None \<Rightarrow> RL3)"

definition recommend_for_sig :: "primitive \<Rightarrow> recommendation list" where
  "recommend_for_sig p =
     (let algo = pr_algorithm p; bits = parse_trailing_bits algo in
      if starts_with algo ''RSA-PKCS1'' \<or> starts_with algo ''RSA-PSS'' then
        (let level = nist_level_for_rsa bits in
         [\<lparr>rp_replaces = algo, rp_replacement = ''ML-DSA-'' @ ml_dsa_id level,
           rp_rationale = ''FIPS 204 ML-DSA at NIST level '' @ level_label level @
             '' matches the classical strength of '' @ algo,
           rp_cost = Medium,
           rp_caveats =
             [''Cert chain depth grows: ML-DSA signatures are 2-4 KB.'',
              ''Client TLS stack must support `mldsa` certificate signature.'']\<rparr>,
          \<lparr>rp_replaces = algo, rp_replacement = ''SLH-DSA-SHA2-'' @ slh_dsa_size level @ ''s'',
           rp_rationale =
             ''FIPS 205 SLH-DSA: hash-based fallback if ML-DSA lattice family proves unstable.'',
           rp_cost = High,
           rp_caveats =
             [''Signatures are 8-50 KB '' @ em_dash @ '' non-trivial for TLS handshake size.'',
              ''Stateless: safe for general-purpose code-signing.'']\<rparr>])
      else if starts_with algo ''ECDSA-'' \<or> algo = ''Ed25519'' \<or> algo = ''Ed448'' then
        [\<lparr>rp_replaces = algo, rp_replacement = ''ML-DSA-65'',
          rp_rationale =
            ''ML-DSA-65 matches the security level of P-256 / Ed25519 with PQ guarantees.'',
          rp_cost = Medium,
          rp_caveats =
            [''Signature ~3.3 KB vs 64 B for Ed25519 '' @ em_dash @
             '' measure cert-chain depth impact.'']\<rparr>]
      else if starts_with algo ''Schnorr-secp256k1'' then
        [\<lparr>rp_replaces = algo, rp_replacement = ''FROST-PQ (research)'',
          rp_rationale = ''Bitcoin Taproot'' @ [CHR 0x27] @
            ''s Schnorr family has no production PQ replacement yet '' @ em_dash @
            '' track BIP / IRTF CFRG work.'',
          rp_cost = High,
          rp_caveats =
            [''Consensus-level chain change required; no operator-side migration path.'']\<rparr>]
      else [])"

definition recommend_for_encrypt :: "primitive \<Rightarrow> recommendation list" where
  "recommend_for_encrypt p =
     (let algo = pr_algorithm p in
      if algo = ''AES-128'' \<or> algo = ''AES-128-GCM'' then
        [\<lparr>rp_replaces = algo, rp_replacement = ''AES-256'',
          rp_rationale = ''Grover halves the effective key length: AES-128 '' @ right_arrow @
            '' 64-bit PQ security; AES-256 '' @ right_arrow @ '' 128-bit.'',
          rp_cost = Low,
          rp_caveats = [''Same cipher family, server-config-only change in most stacks.'']\<rparr>]
      else if algo = ''DES'' \<or> algo = ''3DES'' \<or> starts_with algo ''RC4'' \<or> algo = ''AES-CBC'' then
        [\<lparr>rp_replaces = algo, rp_replacement = ''AES-256-GCM'',
          rp_rationale =
            ''Modern AEAD cipher; the classical algorithm is broken or weak by today'' @
            [CHR 0x27] @ ''s standards.'',
          rp_cost = Low,
          rp_caveats =
            [''Most TLS terminators already support AES-GCM; flip the negotiate-list.'']\<rparr>]
      else [])"

definition recommend_one :: "primitive \<Rightarrow> recommendation list" where
  "recommend_one p = (case pr_role p of
     Sig \<Rightarrow> recommend_for_sig p
   | Encrypt \<Rightarrow> recommend_for_encrypt p
   | _ \<Rightarrow> [])"

definition recommend_for :: "primitive list \<Rightarrow> recommendation list" where
  "recommend_for primitives = sort_key rp_cost (concat (map recommend_one primitives))"

section \<open>Facts shared by the properties\<close>

lemma parse_unsigned_overflow:
  assumes "m < n"
  shows "parse_unsigned m (show_nat n) = None"
proof -
  obtain c cs where c: "show_nat n = c # cs" by (cases "show_nat n") simp_all
  then have "is_digit c" using show_nat_digits [of n] by simp
  then have "c \<noteq> CHR ''+''" by (auto simp: is_digit_def)
  then show ?thesis
    using assms digits_value_show_nat [of n] unfolding parse_unsigned_def c by simp
qed

lemmas recommend_defs = recommend_one_def recommend_for_sig_def recommend_for_encrypt_def

lemma set_recommend_for: "set (recommend_for ps) = (\<Union>p\<in>set ps. set (recommend_one p))"
  by (auto simp: recommend_for_def)

lemma recommend_for_Nil_iff: "recommend_for ps = [] \<longleftrightarrow> (\<forall>p\<in>set ps. recommend_one p = [])"
proof -
  have "recommend_for ps = [] \<longleftrightarrow> set (recommend_for ps) = {}" by simp
  then show ?thesis unfolding set_recommend_for by auto
qed

lemma recommend_one_replaces: "r \<in> set (recommend_one p) \<Longrightarrow> rp_replaces r = pr_algorithm p"
  by (auto simp: recommend_defs Let_def split: primitive_role.splits if_splits)

text \<open>The names the rules can put in \<open>replacement\<close>.\<close>

definition replacement_names :: "string list" where
  "replacement_names =
     [''ML-DSA-44'', ''ML-DSA-65'', ''ML-DSA-87'', ''SLH-DSA-SHA2-128s'', ''SLH-DSA-SHA2-192s'',
      ''FROST-PQ (research)'', ''AES-256'', ''AES-256-GCM'']"

lemma recommend_one_names: "r \<in> set (recommend_one p) \<Longrightarrow> rp_replacement r \<in> set replacement_names"
  by (cases "nist_level_for_rsa (parse_trailing_bits (pr_algorithm p))")
     (auto simp: recommend_defs replacement_names_def Let_def split: primitive_role.splits if_splits)

lemma recommend_one_name_final:
  "pr_algorithm p \<in> set replacement_names \<Longrightarrow> recommend_one p = []"
  by (cases "pr_role p")
     (auto simp: recommend_defs replacement_names_def starts_with_def Let_def)

lemma rsa_replacements:
  "starts_with a ''RSA-PKCS1'' \<Longrightarrow>
   map rp_replacement (recommend_for [mk_primitive Sig a pq n]) =
     (let l = nist_level_for_rsa (parse_trailing_bits a) in
      [''ML-DSA-'' @ ml_dsa_id l, ''SLH-DSA-SHA2-'' @ slh_dsa_size l @ ''s''])"
  by (simp add: recommend_for_def recommend_defs Let_def less_eq_cost_def)

lemma rsa_bits_names:
  "map rp_replacement (recommend_for [mk_primitive Sig (''RSA-PKCS1-'' @ show_nat b) pq n]) =
     (if b \<le> 2048 then [''ML-DSA-44'', ''SLH-DSA-SHA2-128s'']
      else if b \<le> 3072 \<or> 2 ^ 32 \<le> b then [''ML-DSA-65'', ''SLH-DSA-SHA2-192s'']
      else [''ML-DSA-87'', ''SLH-DSA-SHA2-192s''])"
proof -
  have dash: "CHR ''-'' \<notin> set (show_nat b)"
    using show_nat_digits [of b] by (auto simp: list_all_iff is_digit_def)
  have "split_on (CHR ''-'') (''RSA-PKCS1-'' @ show_nat b) = [''RSA'', ''PKCS1'', show_nat b]"
    using dash by (simp add: split_on_no_sep)
  then have bits: "parse_trailing_bits (''RSA-PKCS1-'' @ show_nat b) =
      (if b < 2 ^ 32 then Some b else None)"
    using show_nat_digits [of b] unfolding parse_trailing_bits_def
    by (auto simp: parse_unsigned_overflow)
  have "map rp_replacement (recommend_for [mk_primitive Sig (''RSA-PKCS1-'' @ show_nat b) pq n]) =
      (let l = nist_level_for_rsa (parse_trailing_bits (''RSA-PKCS1-'' @ show_nat b)) in
       [''ML-DSA-'' @ ml_dsa_id l, ''SLH-DSA-SHA2-'' @ slh_dsa_size l @ ''s''])"
    by (rule rsa_replacements) (simp add: starts_with_def)
  then show ?thesis
    unfolding bits by (simp add: nist_level_for_rsa_def)
qed

section \<open>Properties\<close>

text \<open>The recommendations are ranked by cost, cheapest first, and within one cost they keep
  the order in which the primitives of the asset and the rules of a primitive produce them;
  nothing is added or lost.\<close>

theorem recommend_for_ranked:
  "sorted (map rp_cost (recommend_for ps)) \<and>
   filter (\<lambda>r. rp_cost r = c) (recommend_for ps) =
     concat (map (\<lambda>p. filter (\<lambda>r. rp_cost r = c) (recommend_one p)) ps)"
proof -
  have "filter (\<lambda>r. rp_cost r = c) (concat (map recommend_one ps)) =
      concat (map (\<lambda>p. filter (\<lambda>r. rp_cost r = c) (recommend_one p)) ps)"
    by (induction ps) simp_all
  then show ?thesis
    by (simp add: recommend_for_def sort_key_stable)
qed

text \<open>Migrating is final: when every primitive with a recommendation takes the name of any of its
  replacements, the recommender has nothing left to say about the asset.\<close>

theorem migration_is_final:
  assumes "list_all2 (\<lambda>p p'. if recommend_one p = [] then p' = p
      else \<exists>r\<in>set (recommend_one p). p' = p\<lparr>pr_algorithm := rp_replacement r\<rparr>) ps ps'"
  shows "recommend_for ps' = []"
  unfolding recommend_for_Nil_iff
proof
  fix p' assume "p' \<in> set ps'"
  then obtain i where i: "i < length ps'" "p' = ps' ! i"
    by (metis in_set_conv_nth)
  define p where "p = ps ! i"
  have step: "if recommend_one p = [] then p' = p
      else \<exists>r\<in>set (recommend_one p). p' = p\<lparr>pr_algorithm := rp_replacement r\<rparr>"
    using list_all2_nthD2 [OF assms i(1)] unfolding p_def i(2) .
  show "recommend_one p' = []"
  proof (cases "recommend_one p = []")
    case False
    with step obtain r where "r \<in> set (recommend_one p)" "p' = p\<lparr>pr_algorithm := rp_replacement r\<rparr>"
      by auto
    then have "pr_algorithm p' \<in> set replacement_names"
      using recommend_one_names [of r p] by simp
    then show ?thesis by (rule recommend_one_name_final)
  qed (use step in simp)
qed

theorem migration_is_final_witness:
  "recommend_for [mk_primitive Sig ''ML-DSA-65'' (Some False) None,
     mk_primitive Hash ''SHA-256'' (Some True) None] = []"
proof (rule migration_is_final)
  show "list_all2 (\<lambda>p p'. if recommend_one p = [] then p' = p
      else \<exists>r\<in>set (recommend_one p). p' = p\<lparr>pr_algorithm := rp_replacement r\<rparr>)
     [mk_primitive Sig ''Ed25519'' (Some False) None, mk_primitive Hash ''SHA-256'' (Some True) None]
     [mk_primitive Sig ''ML-DSA-65'' (Some False) None, mk_primitive Hash ''SHA-256'' (Some True) None]"
    by (simp add: recommend_defs starts_with_def Let_def mk_primitive_def)
qed

text \<open>An RSA signature named with its modulus length gets the ML-DSA and SLH-DSA parameter sets
  of the thresholds 2048 and 3072, in this order; a length that does not fit \<open>u32\<close> counts as
  unknown and is placed at level 3.\<close>

theorem rsa_bits_recommended:
  "map rp_replacement (recommend_for [mk_primitive Sig (''RSA-PKCS1-'' @ show_nat b) pq n]) =
     (if b \<le> 2048 then [''ML-DSA-44'', ''SLH-DSA-SHA2-128s'']
      else if b \<le> 3072 \<or> 2 ^ 32 \<le> b then [''ML-DSA-65'', ''SLH-DSA-SHA2-192s'']
      else [''ML-DSA-87'', ''SLH-DSA-SHA2-192s''])"
  by (rule rsa_bits_names)

end
