(* ===== verification/Compat.thy ===== *)
theory Compat
  imports Recommend
begin

text \<open>
  The compatibility matrix of src/crates/ree0xq-agility/src/compat.rs.  The hash map is an
  association list; only the order in which \<open>list_stack\<close> lists its entries depends on that
  choice, so the properties speak of the set of entries.
\<close>

section \<open>The code\<close>

datatype support_status = Supported | Experimental | NotImplemented | Unknown

record compat_entry =
  ce_stack :: string
  ce_algorithm :: string
  ce_status :: support_status
  ce_min_version :: "string option"
  ce_source :: "string option"

type_synonym compat_matrix = "((string \<times> string) \<times> compat_entry) list"

definition matrix_add ::
  "string \<times> string \<times> support_status \<times> string option \<times> string option \<Rightarrow> compat_matrix \<Rightarrow> compat_matrix" where
  "matrix_add row m =
     (case row of (stack, algo, status, min_version, source) \<Rightarrow>
        AList.update (to_lower stack, to_lower algo)
          \<lparr>ce_stack = stack, ce_algorithm = algo, ce_status = status,
            ce_min_version = min_version, ce_source = source\<rparr> m)"

definition matrix_rows ::
  "(string \<times> string \<times> support_status \<times> string option \<times> string option) list" where
  "matrix_rows =
     [
      (''openssl-3.x'', ''ML-KEM-768'', Supported,
        (Some ''3.4.0''),
        (Some ''https://github.com/openssl/openssl/blob/master/NEWS.md'')),
      (''openssl-3.x'', ''X25519MLKEM768'', Supported,
        (Some ''3.4.0''),
        (Some ''https://github.com/openssl/openssl/blob/master/NEWS.md'')),
      (''openssl-3.x'', ''ML-DSA-65'', Experimental,
        (Some ''3.5.0''),
        (Some ''https://github.com/open-quantum-safe/oqs-provider'')),
      (''openssl-3.x'', ''SLH-DSA-SHA2-128s'', Experimental,
        (Some ''3.5.0''),
        (Some ''https://github.com/open-quantum-safe/oqs-provider'')),
      (''boringssl'', ''X25519MLKEM768'', Supported,
        None,
        (Some ''https://chromestatus.com/feature/5119878464176128'')),
      (''boringssl'', ''ML-DSA-65'', NotImplemented,
        None,
        (Some ''https://boringssl.googlesource.com/boringssl/+/refs/heads/main/include/openssl/experimental'')),
      (''rustls-post-quantum'', ''X25519MLKEM768'', Supported,
        (Some ''0.2.0''),
        (Some ''https://crates.io/crates/rustls-post-quantum'')),
      (''rustls-post-quantum'', ''ML-DSA-65'', NotImplemented,
        None,
        None),
      (''go-crypto-tls'', ''X25519MLKEM768'', Supported,
        (Some ''1.24''),
        (Some ''https://go.dev/doc/go1.24'')),
      (''go-crypto-tls'', ''ML-DSA-65'', NotImplemented,
        None,
        None),
      (''bouncycastle'', ''ML-DSA-65'', Supported,
        (Some ''1.78''),
        (Some ''https://www.bouncycastle.org/releasenotes.html'')),
      (''bouncycastle'', ''SLH-DSA-SHA2-128s'', Supported,
        (Some ''1.78''),
        (Some ''https://www.bouncycastle.org/releasenotes.html'')),
      (''bouncycastle'', ''ML-KEM-768'', Supported,
        (Some ''1.78''),
        (Some ''https://www.bouncycastle.org/releasenotes.html'')),
      (''nss'', ''X25519MLKEM768'', Supported,
        (Some ''3.95''),
        (Some ''https://firefox-source-docs.mozilla.org/security/nss/releases/index.html'')),
      (''nss'', ''ML-DSA-65'', NotImplemented,
        None,
        None)]"

definition build_matrix :: compat_matrix where
  "build_matrix = fold matrix_add matrix_rows []"

definition compat_key :: "string \<Rightarrow> string \<Rightarrow> string \<times> string" where
  "compat_key stack algorithm = (to_lower stack, to_lower algorithm)"

definition compat_lookup :: "string \<Rightarrow> string \<Rightarrow> compat_entry option" where
  "compat_lookup stack algorithm = map_of build_matrix (compat_key stack algorithm)"

definition stack_supports :: "string \<Rightarrow> string \<Rightarrow> support_status" where
  "stack_supports stack algorithm =
     (case map_of build_matrix (compat_key stack algorithm) of Some e \<Rightarrow> ce_status e | None \<Rightarrow> Unknown)"

definition list_stack :: "string \<Rightarrow> compat_entry list" where
  "list_stack stack =
     (let s = to_lower stack in map snd (filter (\<lambda>((st, _), _). st = s) build_matrix))"

section \<open>Shape of the matrix\<close>

text \<open>Every entry sits under the lower-cased names it carries.\<close>

definition matrix_ok :: "compat_matrix \<Rightarrow> bool" where
  "matrix_ok m \<longleftrightarrow> distinct (map fst m) \<and>
     (\<forall>(k, e) \<in> set m. k = (to_lower (ce_stack e), to_lower (ce_algorithm e)))"

lemma matrix_add_ok: "matrix_ok m \<Longrightarrow> matrix_ok (matrix_add row m)"
  unfolding matrix_ok_def matrix_add_def
  by (auto simp: distinct_update split: prod.splits dest!: subsetD [OF set_alist_update])

lemma fold_matrix_ok: "matrix_ok m \<Longrightarrow> matrix_ok (fold matrix_add rows m)"
  by (induction rows arbitrary: m) (auto intro: matrix_add_ok)

lemma build_matrix_ok: "matrix_ok build_matrix"
  unfolding build_matrix_def by (rule fold_matrix_ok) (simp add: matrix_ok_def)

lemma ascii_lower_idem [simp]: "ascii_lower (ascii_lower c) = ascii_lower c"
  by (auto simp: ascii_lower_def)

lemma to_lower_idem [simp]: "to_lower (to_lower s) = to_lower s"
  by (simp add: to_lower_def)

definition compat_row_entry ::
  "string \<times> string \<times> support_status \<times> string option \<times> string option \<Rightarrow> compat_entry" where
  "compat_row_entry row = (case row of (stack, algo, status, min_version, source) \<Rightarrow>
     \<lparr>ce_stack = stack, ce_algorithm = algo, ce_status = status,
       ce_min_version = min_version, ce_source = source\<rparr>)"

definition compat_row_key ::
  "string \<times> string \<times> support_status \<times> string option \<times> string option \<Rightarrow> string \<times> string" where
  "compat_row_key row = compat_key (fst row) (fst (snd row))"

lemma update_new: "k \<notin> fst ` set m \<Longrightarrow> AList.update k v m = m @ [(k, v)]"
  by (induction m) auto

text \<open>No two rows share a key, so the map is the list of the rows.\<close>

lemma fold_matrix_add:
  "distinct (map fst m @ map compat_row_key rows) \<Longrightarrow>
   fold matrix_add rows m = m @ map (\<lambda>row. (compat_row_key row, compat_row_entry row)) rows"
proof (induction rows arbitrary: m)
  case (Cons row rows)
  have "matrix_add row m = m @ [(compat_row_key row, compat_row_entry row)]"
    using Cons.prems
    by (auto simp: matrix_add_def compat_row_key_def compat_row_entry_def compat_key_def update_new split: prod.splits)
  then show ?case using Cons by simp
qed simp

lemma row_keys:
  "map compat_row_key matrix_rows =
     [(''openssl-3.x'', ''ml-kem-768''), (''openssl-3.x'', ''x25519mlkem768''),
      (''openssl-3.x'', ''ml-dsa-65''), (''openssl-3.x'', ''slh-dsa-sha2-128s''),
      (''boringssl'', ''x25519mlkem768''), (''boringssl'', ''ml-dsa-65''),
      (''rustls-post-quantum'', ''x25519mlkem768''), (''rustls-post-quantum'', ''ml-dsa-65''),
      (''go-crypto-tls'', ''x25519mlkem768''), (''go-crypto-tls'', ''ml-dsa-65''),
      (''bouncycastle'', ''ml-dsa-65''), (''bouncycastle'', ''slh-dsa-sha2-128s''),
      (''bouncycastle'', ''ml-kem-768''), (''nss'', ''x25519mlkem768''), (''nss'', ''ml-dsa-65'')]"
  by (simp add: matrix_rows_def compat_row_key_def compat_key_def to_lower_def ascii_lower_def char_of_eq_iff)

lemma build_matrix_rows:
  "build_matrix = map (\<lambda>row. (compat_row_key row, compat_row_entry row)) matrix_rows"
  unfolding build_matrix_def by (subst fold_matrix_add) (simp_all only: row_keys, simp_all)

lemma matrix_keys: "map fst build_matrix = map compat_row_key matrix_rows"
  by (simp add: build_matrix_rows)

lemma in_matrix_iff:
  "compat_lookup stack algo = Some e \<longleftrightarrow> (compat_key stack algo, e) \<in> set build_matrix"
  using build_matrix_ok by (simp add: compat_lookup_def matrix_ok_def map_of_eq_Some_iff)

lemma stack_supports_lookup:
  "stack_supports stack algo =
     (case compat_lookup stack algo of Some e \<Rightarrow> ce_status e | None \<Rightarrow> Unknown)"
  by (simp add: stack_supports_def compat_lookup_def)

lemma stack_supports_absent:
  "to_lower algo \<notin> snd ` fst ` set build_matrix \<Longrightarrow> stack_supports stack algo = Unknown"
  by (auto simp: stack_supports_def compat_key_def map_of_eq_None_iff image_iff split: option.splits
      dest!: map_of_SomeD)

section \<open>Properties\<close>

text \<open>The listing of a stack holds exactly the entries a lookup on that stack can return, each
  once, whatever the case of the name.\<close>

theorem list_stack_exact:
  "set (list_stack stack) = {e. \<exists>algo. compat_lookup stack algo = Some e} \<and>
   distinct (list_stack stack)"
proof
  show "set (list_stack stack) = {e. \<exists>algo. compat_lookup stack algo = Some e}"
    unfolding in_matrix_iff list_stack_def compat_key_def Let_def
  proof (safe, goal_cases)
    case (1 e)
    then obtain al where "((to_lower stack, al), e) \<in> set build_matrix" by auto
    moreover from this have "al = to_lower (ce_algorithm e)"
      using build_matrix_ok by (auto simp: matrix_ok_def)
    ultimately show ?case by auto
  qed force
next
  have "inj_on snd (set build_matrix)"
    using build_matrix_ok
    by (intro inj_on_inverseI [where g = "\<lambda>e. ((to_lower (ce_stack e), to_lower (ce_algorithm e)), e)"])
      (auto simp: matrix_ok_def)
  moreover have "distinct build_matrix"
    using build_matrix_ok by (simp add: matrix_ok_def distinct_map)
  ultimately have "distinct (map snd build_matrix)" by (simp add: distinct_map)
  then show "distinct (list_stack stack)"
    unfolding list_stack_def Let_def by (rule distinct_map_filter)
qed

text \<open>The lookups agree with the table: every row is found under its names in any case, with
  the status it states, and a pair no row names is unknown.\<close>

theorem stack_supports_rows:
  "stack_supports stack algo =
     (case find (\<lambda>(st, al, _). to_lower st = to_lower stack \<and> to_lower al = to_lower algo) matrix_rows of
        Some (_, _, status, _) \<Rightarrow> status | None \<Rightarrow> Unknown)"
proof -
  have "map_of (map (\<lambda>row. (compat_row_key row, compat_row_entry row)) rows) (to_lower stack, to_lower algo) =
    map_option compat_row_entry
      (find (\<lambda>(st, al, _). to_lower st = to_lower stack \<and> to_lower al = to_lower algo) rows)" for rows
    by (induction rows) (simp_all add: compat_row_key_def compat_key_def split: prod.splits)
  then show ?thesis
    unfolding stack_supports_def build_matrix_rows compat_key_def [of stack algo]
    by (simp add: compat_row_entry_def split: option.splits prod.splits)
qed

text \<open>The recommender does not consult the matrix: for an RSA key above 3072 bits no stack of the
  matrix is known to support any of the replacements it recommends.\<close>

theorem large_rsa_replacements_unknown:
  assumes "3072 < b" "b < 2 ^ 32"
  shows "\<forall>r\<in>set (recommend_for [mk_primitive Sig (''RSA-PKCS1-'' @ show_nat b) pq n]).
     stack_supports stack (rp_replacement r) = Unknown"
proof -
  have names: "rp_replacement ` set (recommend_for [mk_primitive Sig (''RSA-PKCS1-'' @ show_nat b) pq n])
      = {''ML-DSA-87'', ''SLH-DSA-SHA2-192s''}"
    using assms arg_cong [OF rsa_bits_names [of b pq n], of set] by simp
  have "to_lower ''ML-DSA-87'' = ''ml-dsa-87''" "to_lower ''SLH-DSA-SHA2-192s'' = ''slh-dsa-sha2-192s''"
    by (simp_all add: to_lower_def ascii_lower_def char_of_eq_iff)
  moreover have "snd ` set (map compat_row_key matrix_rows) =
      {''ml-kem-768'', ''x25519mlkem768'', ''ml-dsa-65'', ''slh-dsa-sha2-128s''}"
    unfolding row_keys by auto
  ultimately have "\<forall>a\<in>{''ML-DSA-87'', ''SLH-DSA-SHA2-192s''}. stack_supports stack a = Unknown"
    using stack_supports_absent [of "''ML-DSA-87''"] stack_supports_absent [of "''SLH-DSA-SHA2-192s''"]
    by (simp add: matrix_keys [symmetric] image_image)
  then show ?thesis unfolding names [symmetric] by simp
qed

theorem large_rsa_replacements_unknown_witness:
  "\<forall>r\<in>set (recommend_for [mk_primitive Sig (''RSA-PKCS1-'' @ show_nat 4096) None None]).
     stack_supports ''nss'' (rp_replacement r) = Unknown"
  by (rule large_rsa_replacements_unknown) simp_all

end
