(* ===== verification/Deadlines.thy ===== *)
theory Deadlines
  imports Recommend
begin

text \<open>
  The regulator deadline table of src/crates/ree0xq-agility/src/deadlines.rs.  The calendar
  (\<open>chrono\<close>) is a parameter: \<open>d\<close> gives the instant of a UTC midnight, \<open>add_dur\<close> is the checked
  addition of a duration, whose failure makes \<open>now + horizon\<close> panic (\<open>None\<close>).
\<close>

section \<open>The code\<close>

record deadline_entry =
  dl_jurisdiction :: string
  dl_label :: string
  dl_effective :: timestamp
  dl_class :: string
  dl_source :: string

type_synonym calendar = "nat \<Rightarrow> nat \<Rightarrow> nat \<Rightarrow> timestamp"

definition deadline_rows :: "calendar \<Rightarrow> deadline_entry list" where
  "deadline_rows d =
     [
      \<lparr>dl_jurisdiction = ''US-NSA'',
       dl_label = ''CNSA 2.0 '' @ em_dash @ '' software / firmware signing in PQC'',
       dl_effective = d 2025 1 1, dl_class = ''code-signing'',
       dl_source =
         ''https://media.defense.gov/2022/Sep/07/2003071836/-1/-1/0/CSI_CNSA_2.0_FAQ_.PDF''\<rparr>,
      \<lparr>dl_jurisdiction = ''US-NSA'',
       dl_label = ''CNSA 2.0 '' @ em_dash @ '' browsers and servers'',
       dl_effective = d 2030 1 1, dl_class = ''browsers, servers'',
       dl_source =
         ''https://media.defense.gov/2022/Sep/07/2003071836/-1/-1/0/CSI_CNSA_2.0_FAQ_.PDF''\<rparr>,
      \<lparr>dl_jurisdiction = ''US-NSA'',
       dl_label = ''CNSA 2.0 '' @ em_dash @ '' network equipment'',
       dl_effective = d 2030 1 1, dl_class = ''network equipment'',
       dl_source =
         ''https://media.defense.gov/2022/Sep/07/2003071836/-1/-1/0/CSI_CNSA_2.0_FAQ_.PDF''\<rparr>,
      \<lparr>dl_jurisdiction = ''US-NSA'',
       dl_label = ''CNSA 2.0 '' @ em_dash @ '' operating systems and traditional networking'',
       dl_effective = d 2033 1 1, dl_class = ''operating systems'',
       dl_source =
         ''https://media.defense.gov/2022/Sep/07/2003071836/-1/-1/0/CSI_CNSA_2.0_FAQ_.PDF''\<rparr>,
      \<lparr>dl_jurisdiction = ''US-NIST'',
       dl_label = ''NIST IR 8547 '' @ em_dash @ '' deprecation of RSA-2048 / ECDSA-P256 for federal systems'',
       dl_effective = d 2030 12 31, dl_class = ''federal systems'',
       dl_source =
         ''https://csrc.nist.gov/pubs/ir/8547/ipd''\<rparr>,
      \<lparr>dl_jurisdiction = ''US-NIST'',
       dl_label = ''NIST IR 8547 '' @ em_dash @ '' disallowance of RSA / ECDSA / DH'',
       dl_effective = d 2035 12 31, dl_class = ''federal systems'',
       dl_source =
         ''https://csrc.nist.gov/pubs/ir/8547/ipd''\<rparr>,
      \<lparr>dl_jurisdiction = ''EU-ANSSI'',
       dl_label = ''ANSSI Phase 2 '' @ em_dash @ '' hybrid PQ in production for high-assurance'',
       dl_effective = d 2030 1 1, dl_class = ''high-assurance'',
       dl_source =
         ''https://www.ssi.gouv.fr/uploads/2022/01/anssi-technical_position_papers-post_quantum_cryptography_transition.pdf''\<rparr>,
      \<lparr>dl_jurisdiction = ''EU-ANSSI'',
       dl_label = ''ANSSI Phase 3 '' @ em_dash @ '' PQ-only requirement'',
       dl_effective = d 2035 1 1, dl_class = ''high-assurance'',
       dl_source =
         ''https://www.ssi.gouv.fr/uploads/2022/01/anssi-technical_position_papers-post_quantum_cryptography_transition.pdf''\<rparr>,
      \<lparr>dl_jurisdiction = ''DE-BSI'',
       dl_label = ''BSI TR-02102-1 '' @ em_dash @ '' hybrid PQ recommendation'',
       dl_effective = d 2026 1 1, dl_class = ''general'',
       dl_source =
         ''https://www.bsi.bund.de/SharedDocs/Downloads/EN/BSI/Publications/TechGuidelines/TG02102/BSI-TR-02102-1.html''\<rparr>,
      \<lparr>dl_jurisdiction = ''UK-NCSC'',
       dl_label = ''NCSC '' @ em_dash @ '' start of PQ deployment window for CNI operators'',
       dl_effective = d 2028 1 1, dl_class = ''critical national infrastructure'',
       dl_source =
         ''https://www.ncsc.gov.uk/whitepaper/next-steps-preparing-for-post-quantum-cryptography''\<rparr>,
      \<lparr>dl_jurisdiction = ''UK-NCSC'',
       dl_label = ''NCSC '' @ em_dash @ '' PQ-complete migration target for CNI'',
       dl_effective = d 2035 1 1, dl_class = ''critical national infrastructure'',
       dl_source =
         ''https://www.ncsc.gov.uk/whitepaper/next-steps-preparing-for-post-quantum-cryptography''\<rparr>]"

definition deadline_table :: "calendar \<Rightarrow> deadline_entry list" where
  "deadline_table d = sort_key dl_effective (deadline_rows d)"

definition all_deadlines :: "calendar \<Rightarrow> deadline_entry list" where
  "all_deadlines d = deadline_table d"

definition within_horizon ::
  "calendar \<Rightarrow> (timestamp \<Rightarrow> int \<Rightarrow> timestamp option) \<Rightarrow> timestamp \<Rightarrow> int \<Rightarrow> deadline_entry list option" where
  "within_horizon d add_dur now horizon =
     (case add_dur now horizon of
        None \<Rightarrow> None
      | Some e \<Rightarrow> Some (filter (\<lambda>x. now \<le> dl_effective x \<and> dl_effective x \<le> e) (deadline_table d)))"

definition for_jurisdiction :: "calendar \<Rightarrow> string \<Rightarrow> deadline_entry list" where
  "for_jurisdiction d pre =
     (let p = to_upper pre in
      filter (\<lambda>x. starts_with (to_upper (dl_jurisdiction x)) p) (deadline_table d))"

section \<open>Properties\<close>

lemma deadline_table_sorted: "sorted (map dl_effective (deadline_table d))"
  by (simp add: deadline_table_def)

lemma sorted_before_after:
  fixes f :: "'a \<Rightarrow> 'b::linorder"
  assumes "sorted (map f xs)"
  shows "xs = filter (\<lambda>x. f x < a) xs @ filter (\<lambda>x. a \<le> f x) xs"
  using assms
proof (induction xs)
  case (Cons x xs)
  show ?case
  proof (cases "f x < a")
    case True
    then show ?thesis using Cons by simp
  next
    case False
    then have "\<forall>y\<in>set (x # xs). a \<le> f y" using Cons.prems by auto
    then have "filter (\<lambda>x. f x < a) (x # xs) = []" "filter (\<lambda>x. a \<le> f x) (x # xs) = x # xs"
      by (auto simp: filter_empty_conv filter_id_conv)
    then show ?thesis by simp
  qed
qed simp

text \<open>For any calendar the table is in chronological order with every row kept, and the deadlines
  within a horizon are a contiguous run of it, in order: those between the now and the end,
  both ends included.\<close>

theorem within_horizon_exact:
  assumes "add_dur now horizon = Some e"
  shows "\<exists>before r after. within_horizon d add_dur now horizon = Some r \<and>
     all_deadlines d = before @ r @ after \<and> mset (all_deadlines d) = mset (deadline_rows d) \<and>
     sorted (map dl_effective (all_deadlines d)) \<and>
     (\<forall>x. x \<in> set r \<longleftrightarrow> x \<in> set (deadline_rows d) \<and> now \<le> dl_effective x \<and> dl_effective x \<le> e)"
proof -
  let ?t = "deadline_table d" and ?f = dl_effective
  let ?u = "filter (\<lambda>x. now \<le> ?f x) ?t"
  have "sorted (map ?f ?u)"
    by (rule sorted_filter [OF deadline_table_sorted])
  then have "?u = filter (\<lambda>x. ?f x < e + 1) ?u @ filter (\<lambda>x. e + 1 \<le> ?f x) ?u"
    by (rule sorted_before_after)
  moreover have "?t = filter (\<lambda>x. ?f x < now) ?t @ ?u"
    by (rule sorted_before_after [OF deadline_table_sorted])
  moreover have "filter (\<lambda>x. ?f x < e + 1) ?u = filter (\<lambda>x. now \<le> ?f x \<and> ?f x \<le> e) ?t"
    by (auto intro: filter_cong)
  ultimately have "?t = filter (\<lambda>x. ?f x < now) ?t @
      filter (\<lambda>x. now \<le> ?f x \<and> ?f x \<le> e) ?t @ filter (\<lambda>x. e + 1 \<le> ?f x) ?u"
    by metis
  then show ?thesis
    using assms by (intro exI conjI) (auto simp: within_horizon_def all_deadlines_def deadline_table_def)
qed

theorem within_horizon_exact_witness:
  "\<exists>before r after. within_horizon (\<lambda>y m d. int (10000 * y + 100 * m + d)) (\<lambda>a b. Some (a + b)) 20270101 20000
      = Some r \<and>
     all_deadlines (\<lambda>y m d. int (10000 * y + 100 * m + d)) = before @ r @ after \<and>
     mset (all_deadlines (\<lambda>y m d. int (10000 * y + 100 * m + d))) =
       mset (deadline_rows (\<lambda>y m d. int (10000 * y + 100 * m + d))) \<and>
     sorted (map dl_effective (all_deadlines (\<lambda>y m d. int (10000 * y + 100 * m + d)))) \<and>
     (\<forall>x. x \<in> set r \<longleftrightarrow> x \<in> set (deadline_rows (\<lambda>y m d. int (10000 * y + 100 * m + d))) \<and>
        20270101 \<le> dl_effective x \<and> dl_effective x \<le> 20290101)"
  by (rule within_horizon_exact) simp

lemma to_upper_append: "to_upper (a @ b) = to_upper a @ to_upper b"
  by (simp add: to_upper_def)

text \<open>A longer prefix narrows the selection, and the empty prefix selects everything.\<close>

lemma for_jurisdiction_narrows:
  "set (for_jurisdiction d (p @ q)) \<subseteq> set (for_jurisdiction d p)"
  unfolding for_jurisdiction_def Let_def to_upper_append starts_with_iff_prefix
  by (auto dest: append_prefixD)

end
