(* ===== verification/Roadmap.thy ===== *)
theory Roadmap
  imports Core_Types Binary32
begin

text \<open>
  The migration projector of src/crates/ree0xq-agility/src/roadmap.rs.  The working copy of the
  assets is a hash map: an association list with distinct keys in the iteration order of the
  map, which \<open>order\<close> fixes when the map is built and \<open>get_mut\<close> does not change.  The order
  matters to the code because the \<open>f32\<close> sum is rounded at every step.
\<close>

section \<open>The code\<close>

record asset_snapshot =
  sn_identity :: string
  sn_q :: f32
  sn_blocked :: bool
  sn_primitives :: "string list"

record milestone =
  ms_label :: string
  ms_date :: timestamp
  ms_asset_ids :: "string list"
  ms_target :: "string list"

record milestone_projection =
  mp_milestone :: string
  mp_date :: timestamp
  mp_q_before :: f32
  mp_q_after :: f32
  mp_blocked_before :: nat
  mp_blocked_after :: nat
  mp_migrated :: nat
  mp_remaining :: nat

record roadmap_projection =
  rm_today_q :: f32
  rm_today_blocked :: nat
  rm_total :: nat
  rm_projections :: "milestone_projection list"

type_synonym plan_state = "(string \<times> asset_snapshot) list"

definition PQ_CLEAN_Q :: f32 where "PQ_CLEAN_Q = rnd32 (10 / 100)"
definition CLASSICAL_Q :: f32 where "CLASSICAL_Q = rnd32 (30 / 100)"

definition mean_q :: "f32 list \<Rightarrow> f32" where
  "mean_q qs = (if qs = [] then 0 else f_div (foldl f_add 0 qs) (rnd32 (of_nat (length qs))))"

definition avg_q :: "asset_snapshot list \<Rightarrow> f32" where
  "avg_q items = mean_q (map sn_q items)"

definition avg_q_state :: "plan_state \<Rightarrow> f32" where
  "avg_q_state state = mean_q (map (\<lambda>(_, a). sn_q a) state)"

definition count_state :: "(asset_snapshot \<Rightarrow> bool) \<Rightarrow> plan_state \<Rightarrow> nat" where
  "count_state P state = length (filter (\<lambda>(_, a). P a) state)"

definition migrate_asset :: "milestone \<Rightarrow> asset_snapshot \<Rightarrow> asset_snapshot" where
  "migrate_asset m a = a\<lparr>sn_q := PQ_CLEAN_Q, sn_blocked := False, sn_primitives := ms_target m\<rparr>"

definition migrate_id :: "milestone \<Rightarrow> string \<Rightarrow> plan_state \<times> nat \<Rightarrow> plan_state \<times> nat" where
  "migrate_id m i = (\<lambda>(state, n). case map_of state i of
       None \<Rightarrow> (state, n)
     | Some a \<Rightarrow> (AList.update i (migrate_asset m a) state, n + 1))"

definition project_milestone :: "milestone \<Rightarrow> plan_state \<Rightarrow> milestone_projection \<times> plan_state" where
  "project_milestone m state =
     (case fold (migrate_id m) (ms_asset_ids m) (state, 0) of
        (state', migrated) \<Rightarrow>
          (\<lparr>mp_milestone = ms_label m, mp_date = ms_date m,
            mp_q_before = avg_q_state state, mp_q_after = avg_q_state state',
            mp_blocked_before = count_state sn_blocked state,
            mp_blocked_after = count_state sn_blocked state',
            mp_migrated = migrated,
            mp_remaining = count_state (\<lambda>a. CLASSICAL_Q \<le> sn_q a) state'\<rparr>, state'))"

fun project_milestones :: "milestone list \<Rightarrow> plan_state \<Rightarrow> milestone_projection list" where
  "project_milestones [] state = []"
| "project_milestones (m # ms) state =
     (case project_milestone m state of (p, state') \<Rightarrow> p # project_milestones ms state')"

definition initial_state :: "asset_snapshot list \<Rightarrow> plan_state" where
  "initial_state inventory = fold (\<lambda>a. AList.update (sn_identity a) a) inventory []"

definition project_roadmap ::
  "(plan_state \<Rightarrow> plan_state) \<Rightarrow> asset_snapshot list \<Rightarrow> milestone list \<Rightarrow> roadmap_projection" where
  "project_roadmap order inventory plan =
     \<lparr>rm_today_q = avg_q inventory,
      rm_today_blocked = length (filter sn_blocked inventory),
      rm_total = length inventory,
      rm_projections = project_milestones (sort_key ms_date plan) (order (initial_state inventory))\<rparr>"

section \<open>The effect of a milestone\<close>

definition keys_ok :: "plan_state \<Rightarrow> bool" where
  "keys_ok state \<longleftrightarrow> distinct (map fst state)"

definition migrate_all :: "milestone \<Rightarrow> string set \<Rightarrow> plan_state \<Rightarrow> plan_state" where
  "migrate_all m I state = map (\<lambda>(k, a). (k, if k \<in> I then migrate_asset m a else a)) state"

lemma migrate_asset_idem [simp]: "migrate_asset m (migrate_asset m a) = migrate_asset m a"
  by (simp add: migrate_asset_def)

lemma migrate_all_keys [simp]: "map fst (migrate_all m I state) = map fst state"
  by (simp add: migrate_all_def split_def comp_def)

lemma migrate_all_empty [simp]: "migrate_all m {} state = state"
  by (simp add: migrate_all_def)

lemma migrate_all_Un: "migrate_all m J (migrate_all m I state) = migrate_all m (I \<union> J) state"
  by (auto simp: migrate_all_def)

lemma update_migrate:
  "keys_ok state \<Longrightarrow> map_of state i = Some a \<Longrightarrow>
   AList.update i (migrate_asset m a) state = migrate_all m {i} state"
proof (induction state)
  case (Cons ka state)
  show ?case
  proof (cases "fst ka = i")
    case True
    then have "i \<notin> fst ` set state" using Cons.prems by (auto simp: keys_ok_def)
    then have "migrate_all m {i} state = state"
      by (induction state) (auto simp: migrate_all_def)
    then show ?thesis using True Cons.prems by (cases ka) (simp add: migrate_all_def)
  next
    case False
    then show ?thesis using Cons by (cases ka) (simp add: migrate_all_def keys_ok_def)
  qed
qed simp

lemma migrate_all_absent:
  "I \<inter> fst ` set state = {} \<Longrightarrow> migrate_all m I state = state"
  by (induction state) (auto simp: migrate_all_def)

lemma fold_migrate:
  "keys_ok state \<Longrightarrow>
   fold (migrate_id m) ids (state, n) =
     (migrate_all m (set ids) state, n + length (filter (\<lambda>i. i \<in> fst ` set state) ids))"
proof (induction ids arbitrary: state n)
  case (Cons i ids)
  show ?case
  proof (cases "map_of state i")
    case None
    then have "i \<notin> fst ` set state" by (simp add: map_of_eq_None_iff)
    then show ?thesis
      using Cons None migrate_all_absent [of "{i}" state m] migrate_all_Un [of m "set ids" "{i}" state]
      by (simp add: migrate_id_def)
  next
    case (Some a)
    then have "i \<in> fst ` set state" by (metis map_of_eq_None_iff option.distinct(1))
    moreover have "fst ` set (migrate_all m {i} state) = fst ` set state"
      by (metis migrate_all_keys set_map)
    ultimately show ?thesis
      using Cons Some update_migrate [OF Cons.prems Some, of m]
      by (simp add: migrate_id_def keys_ok_def migrate_all_Un)
  qed
qed simp

lemma initial_keys: "keys_ok (fold (\<lambda>a. AList.update (sn_identity a) a) xs st)" if "keys_ok st"
  using that by (induction xs arbitrary: st) (simp_all add: keys_ok_def distinct_update)

lemma initial_state_ok: "keys_ok (initial_state xs)"
  unfolding initial_state_def by (rule initial_keys) (simp add: keys_ok_def)

lemma project_milestone_eq:
  assumes "keys_ok state"
  shows "project_milestone m state =
     (let state' = migrate_all m (set (ms_asset_ids m)) state in
      (\<lparr>mp_milestone = ms_label m, mp_date = ms_date m,
        mp_q_before = avg_q_state state, mp_q_after = avg_q_state state',
        mp_blocked_before = count_state sn_blocked state,
        mp_blocked_after = count_state sn_blocked state',
        mp_migrated = length (filter (\<lambda>i. i \<in> fst ` set state) (ms_asset_ids m)),
        mp_remaining = count_state (\<lambda>a. CLASSICAL_Q \<le> sn_q a) state'\<rparr>, state'))"
  unfolding project_milestone_def fold_migrate [OF assms] by (simp add: Let_def)

section \<open>Rounded means\<close>

lemma sum_mono:
  "list_all2 (\<le>) xs ys \<Longrightarrow> a \<le> b \<Longrightarrow> foldl f_add a xs \<le> foldl f_add b ys"
proof (induction xs ys arbitrary: a b rule: list_all2_induct)
  case (Cons x xs y ys)
  have "f_add a x \<le> f_add b y"
    unfolding f_add_def by (rule rnd32_mono) (use Cons in simp)
  then show ?case using Cons.IH by simp
qed simp

lemma mean_q_mono:
  assumes "list_all2 (\<le>) xs ys"
  shows "mean_q xs \<le> mean_q ys"
proof -
  have "foldl f_add 0 xs \<le> foldl f_add 0 ys" by (rule sum_mono [OF assms]) simp
  then have "f_div (foldl f_add 0 xs) (rnd32 (of_nat (length xs)))
      \<le> f_div (foldl f_add 0 ys) (rnd32 (of_nat (length xs)))"
    unfolding f_div_def by (intro rnd32_mono divide_right_mono rnd32_nonneg) simp_all
  then show ?thesis
    using list_all2_lengthD [OF assms] by (auto simp: mean_q_def)
qed

lemma migrate_all_mean:
  assumes "\<forall>(k, a)\<in>set state. PQ_CLEAN_Q \<le> sn_q a"
  shows "avg_q_state (migrate_all m I state) \<le> avg_q_state state"
  unfolding avg_q_state_def
  by (rule mean_q_mono)
     (use assms in \<open>auto simp: migrate_all_def migrate_asset_def list_all2_conv_all_nth split: prod.splits
        dest: nth_mem\<close>)

lemma migrate_all_count:
  assumes "\<And>a. P (migrate_asset m a) \<Longrightarrow> P a"
  shows "count_state P (migrate_all m I state) \<le> count_state P state"
  unfolding count_state_def migrate_all_def
proof (induction state)
  case (Cons ka state)
  then show ?case using assms [of "snd ka"] by (cases ka) (auto split: if_splits)
qed simp

lemma migrate_all_floor:
  "\<forall>(k, a)\<in>set state. PQ_CLEAN_Q \<le> sn_q a \<Longrightarrow>
   \<forall>(k, a)\<in>set (migrate_all m I state). PQ_CLEAN_Q \<le> sn_q a"
  by (auto simp: migrate_all_def migrate_asset_def split: if_splits)

lemma project_milestones_keys:
  "keys_ok state \<Longrightarrow> keys_ok (snd (project_milestone m state))"
  by (simp add: project_milestone_eq Let_def keys_ok_def)

lemma project_milestones_monotone:
  assumes "keys_ok state" "\<forall>(k, a)\<in>set state. PQ_CLEAN_Q \<le> sn_q a"
    "p \<in> set (project_milestones ms state)"
  shows "mp_q_after p \<le> mp_q_before p \<and> mp_blocked_after p \<le> mp_blocked_before p"
  using assms
proof (induction ms arbitrary: state)
  case (Cons m ms)
  let ?s = "migrate_all m (set (ms_asset_ids m)) state"
  have "keys_ok ?s" using Cons.prems(1) by (simp add: keys_ok_def)
  moreover have "\<forall>(k, a)\<in>set ?s. PQ_CLEAN_Q \<le> sn_q a"
    by (rule migrate_all_floor [OF Cons.prems(2)])
  ultimately have IH: "p \<in> set (project_milestones ms ?s) \<Longrightarrow> ?case" by (rule Cons.IH)
  have "count_state sn_blocked ?s \<le> count_state sn_blocked state"
    by (rule migrate_all_count) (simp add: migrate_asset_def)
  then show ?case
    using Cons.prems(3) IH migrate_all_mean [OF Cons.prems(2), of m "set (ms_asset_ids m)"]
    by (auto simp: project_milestone_eq [OF Cons.prems(1)] Let_def)
qed simp

lemma initial_assets:
  "snd ` set (fold (\<lambda>a. AList.update (sn_identity a) a) xs st) \<subseteq> set xs \<union> snd ` set st"
proof (induction xs arbitrary: st)
  case (Cons x xs)
  have "snd ` set (AList.update (sn_identity x) x st) \<subseteq> insert x (snd ` set st)"
    by (induction st) auto
  with Cons [of "AList.update (sn_identity x) x st"] show ?case by auto
qed simp

lemma set_order: "mset (order s) = mset s \<Longrightarrow> set (order s) = set s"
  by (metis set_mset_mset)

section \<open>Properties\<close>

text \<open>One milestone turns exactly the assets it names, if they are known, into PQ-clean assets and
  leaves every other asset alone; it counts a known identity once per occurrence in its list.\<close>

theorem milestone_effect:
  assumes "distinct (map fst state)" "project_milestone m state = (p, state')"
  shows "(\<forall>k. map_of state' k =
       (if k \<in> set (ms_asset_ids m) then map_option (migrate_asset m) (map_of state k) else map_of state k)) \<and>
     map fst state' = map fst state \<and>
     mp_migrated p = length (filter (\<lambda>i. map_of state i \<noteq> None) (ms_asset_ids m))"
proof -
  have eq: "state' = migrate_all m (set (ms_asset_ids m)) state"
    "mp_migrated p = length (filter (\<lambda>i. i \<in> fst ` set state) (ms_asset_ids m))"
    using assms by (auto simp: project_milestone_eq keys_ok_def Let_def)
  have "map_of (migrate_all m I state) k =
       (if k \<in> I then map_option (migrate_asset m) (map_of state k) else map_of state k)" for I k
    by (induction state) (auto simp: migrate_all_def)
  then show ?thesis
    unfolding eq by (simp add: map_of_eq_None_iff)
qed

definition sample_snapshot :: "string \<Rightarrow> f32 \<Rightarrow> bool \<Rightarrow> asset_snapshot" where
  "sample_snapshot i q b = \<lparr>sn_identity = i, sn_q = q, sn_blocked = b, sn_primitives = []\<rparr>"

definition sample_milestone :: "string list \<Rightarrow> milestone" where
  "sample_milestone ids =
     \<lparr>ms_label = ''Q1'', ms_date = 0, ms_asset_ids = ids, ms_target = [''ML-DSA-65'']\<rparr>"

theorem milestone_effect_witness:
  "\<exists>p st. project_milestone (sample_milestone [''a'', ''a'', ''b'']) [(''a'', sample_snapshot ''a'' 1 True)] =
     (p, st) \<and> mp_migrated p = 2"
proof -
  obtain p st where p: "project_milestone (sample_milestone [''a'', ''a'', ''b''])
      [(''a'', sample_snapshot ''a'' 1 True)] = (p, st)" by fastforce
  then show ?thesis
    using milestone_effect [OF _ p] by (simp add: sample_milestone_def)
qed

text \<open>C30: the trajectory is coherent: one row per milestone, in the order of the dates whatever the
  order of the plan, and each row starts from the averages and counts where the one before ended.\<close>

theorem roadmap_trajectory:
  "let rows = rm_projections (project_roadmap order inventory plan) in
     map mp_milestone rows = map ms_label (sort_key ms_date plan) \<and>
     sorted (map mp_date rows) \<and>
     map mp_q_before (tl rows) = map mp_q_after (butlast rows) \<and>
     map mp_blocked_before (tl rows) = map mp_blocked_after (butlast rows)"
proof -
  have 1: "map mp_milestone (project_milestones ms s) = map ms_label ms"
    "map mp_date (project_milestones ms s) = map ms_date ms" for ms s
    by (induction ms arbitrary: s) (auto simp: project_milestone_def split: prod.splits)
  have 2: "map mp_q_before (tl (project_milestones ms s)) = map mp_q_after (butlast (project_milestones ms s)) \<and>
     map mp_blocked_before (tl (project_milestones ms s)) =
       map mp_blocked_after (butlast (project_milestones ms s))" for ms s
  proof (induction ms arbitrary: s)
    case (Cons m ms)
    obtain p s' where p: "project_milestone m s = (p, s')" by fastforce
    show ?case
    proof (cases ms)
      case (Cons m2 ms2)
      obtain p2 s2 where p2: "project_milestone m2 s' = (p2, s2)" by fastforce
      have "mp_q_before p2 = mp_q_after p" "mp_blocked_before p2 = mp_blocked_after p"
        using p p2 by (auto simp: project_milestone_def split: prod.splits)
      with Cons.IH [of s'] p p2 Cons show ?thesis by simp
    qed (simp add: p)
  qed simp
  show ?thesis
    unfolding project_roadmap_def Let_def by (simp add: 1 2)
qed

text \<open>As long as no asset starts below the PQ-clean baseline, no milestone raises the organisation's
  average or the number of blocked assets, rounding included and whatever the iteration order.\<close>

theorem roadmap_monotone:
  assumes "\<forall>s. mset (order s) = mset s"
    and "\<forall>a\<in>set inventory. PQ_CLEAN_Q \<le> sn_q a"
    and "p \<in> set (rm_projections (project_roadmap order inventory plan))"
  shows "mp_q_after p \<le> mp_q_before p \<and> mp_blocked_after p \<le> mp_blocked_before p"
proof -
  let ?s = "order (initial_state inventory)"
  have "mset (map fst ?s) = mset (map fst (initial_state inventory))"
    using assms(1) by simp
  then have "keys_ok ?s"
    using initial_state_ok [of inventory] unfolding keys_ok_def by (metis mset_eq_imp_distinct_iff)
  moreover have "\<forall>(k, a)\<in>set ?s. PQ_CLEAN_Q \<le> sn_q a"
    using assms(2) initial_assets [of inventory "[]"] set_order [of order "initial_state inventory"] assms(1)
    unfolding initial_state_def by fastforce
  ultimately show ?thesis
    using assms(3) project_milestones_monotone [of ?s p "sort_key ms_date plan"]
    by (simp add: project_roadmap_def)
qed

lemma PQ_CLEAN_Q_value: "PQ_CLEAN_Q = 13421773 / 134217728"
  using rnd32_eval [of "-4" "10 / 100" 13421773]
  by (simp add: PQ_CLEAN_Q_def power_int_def power_divide)

lemma sample_roadmap_row:
  "\<exists>p. p \<in> set (rm_projections (project_roadmap (\<lambda>s. s) [sample_snapshot ''a'' 1 True]
     [sample_milestone [''a'']]))"
  by (cases "project_milestone (sample_milestone [''a'']) (initial_state [sample_snapshot ''a'' 1 True])")
     (auto simp: project_roadmap_def)

theorem roadmap_monotone_witness:
  "\<exists>p. p \<in> set (rm_projections (project_roadmap (\<lambda>s. s) [sample_snapshot ''a'' 1 True]
     [sample_milestone [''a'']])) \<and> mp_q_after p \<le> mp_q_before p \<and> mp_blocked_after p \<le> mp_blocked_before p"
proof -
  obtain p where p: "p \<in> set (rm_projections (project_roadmap (\<lambda>s. s) [sample_snapshot ''a'' 1 True]
     [sample_milestone [''a'']]))" using sample_roadmap_row by blast
  have "mp_q_after p \<le> mp_q_before p \<and> mp_blocked_after p \<le> mp_blocked_before p"
    by (rule roadmap_monotone [OF _ _ p]) (simp_all add: sample_snapshot_def PQ_CLEAN_Q_value)
  with p show ?thesis by blast
qed

text \<open>An asset already below the baseline is made worse by migrating it: the projection replaces its
  value by the baseline, so the average rises.\<close>

theorem clean_asset_raised:
  assumes "rnd32 (sn_q a) = sn_q a" "sn_q a < PQ_CLEAN_Q" "sn_identity a \<in> set (ms_asset_ids m)"
  shows "\<exists>p. rm_projections (project_roadmap (\<lambda>s. s) [a] [m]) = [p] \<and>
     mp_q_before p = sn_q a \<and> mp_q_after p = PQ_CLEAN_Q \<and> mp_q_before p < mp_q_after p"
proof -
  have one: "mean_q [q] = q" if "rnd32 q = q" for q
    using that by (simp add: mean_q_def f_add_def f_div_def rnd32_1)
  have "rnd32 PQ_CLEAN_Q = PQ_CLEAN_Q" by (simp add: PQ_CLEAN_Q_def rnd32_idem)
  then show ?thesis
    using assms
    by (simp add: project_roadmap_def project_milestone_eq keys_ok_def initial_state_def Let_def
        avg_q_state_def one migrate_all_def migrate_asset_def)
qed

theorem clean_asset_raised_witness:
  "\<exists>p. rm_projections (project_roadmap (\<lambda>s. s) [sample_snapshot ''a'' 0 False] [sample_milestone [''a'']]) = [p] \<and>
     mp_q_before p = 0 \<and> mp_q_after p = PQ_CLEAN_Q \<and> mp_q_before p < mp_q_after p"
  using clean_asset_raised [of "sample_snapshot ''a'' 0 False" "sample_milestone [''a'']"]
  by (simp add: sample_snapshot_def sample_milestone_def PQ_CLEAN_Q_value)

end
