(* ===== verification/Scanner.thy ===== *)
theory Scanner
  imports Posture_Score
begin

text \<open>
  The agility scanner: rule loading (src/crates/ree0xq-agility/src/rules.rs) and the walk, the
  rule scopes, the glob translation and the two aggregation policies
  (src/crates/ree0xq-agility/src/scanner.rs).  The file system, the YAML reader and the regex
  engine are parameters; paths are UTF-8 strings.
\<close>

section \<open>Rules\<close>

datatype evidence_kind = EvConfig | EvCode | EvFirmware

datatype scope_kind = ScConfig | ScCode | ScBinary

record rule_scope =
  rs_kind :: scope_kind
  rs_glob :: "string option"

record rule =
  ru_id :: string
  ru_description :: string
  ru_applies_to :: "rule_scope list"
  ru_pattern :: string
  ru_emit_level :: agility_level
  ru_evidence_kind :: evidence_kind
  ru_capture :: "nat option"

datatype rule_error = RuleParse string | BadRegex string | RuleIo string

text \<open>The directory listing: each entry is unreadable or a path with the outcome of reading it.\<close>

type_synonym dir_entry = "(unit, string \<times> (unit, string) result) result"

record rule_env =
  re_read_dir :: "string \<Rightarrow> (unit, dir_entry list) result"
  re_yaml :: "string \<Rightarrow> rule option"
  re_regex_ok :: "string \<Rightarrow> bool"

definition load_entry :: "rule_env \<Rightarrow> string \<Rightarrow> dir_entry \<Rightarrow> (rule_error, rule option) result" where
  "load_entry env dir entry = (case entry of
     Inl _ \<Rightarrow> Inl (RuleIo dir)
   | Inr (path, content) \<Rightarrow>
       (if path_extension path \<noteq> Some ''yaml'' then Inr None
        else case content of
          Inl _ \<Rightarrow> Inl (RuleIo path)
        | Inr raw \<Rightarrow>
            (case re_yaml env raw of
               None \<Rightarrow> Inl (RuleParse path)
             | Some rule \<Rightarrow>
                 (if re_regex_ok env (ru_pattern rule) then Inr (Some rule)
                  else Inl (BadRegex (ru_id rule))))))"

fun load_entries :: "rule_env \<Rightarrow> string \<Rightarrow> dir_entry list \<Rightarrow> rule list \<Rightarrow> (rule_error, rule list) result" where
  "load_entries env dir [] out = Inr out"
| "load_entries env dir (e # es) out =
     rbind (load_entry env dir e) (\<lambda>r.
       load_entries env dir es (case r of None \<Rightarrow> out | Some rule \<Rightarrow> out @ [rule]))"

definition load_ruleset :: "rule_env \<Rightarrow> string \<Rightarrow> (rule_error, rule list) result" where
  "load_ruleset env dir =
     (case re_read_dir env dir of
        Inl _ \<Rightarrow> Inl (RuleIo dir)
      | Inr read \<Rightarrow> load_entries env dir read [])"

section \<open>Globs\<close>

definition regex_meta :: "char \<Rightarrow> bool" where
  "regex_meta c \<longleftrightarrow> c \<in> set [CHR 0x5C, CHR ''.'', CHR ''+'', CHR ''?'', CHR ''('', CHR '')'',
     CHR ''|'', CHR ''['', CHR '']'', CHR ''{'', CHR ''}'', CHR ''^'', CHR ''$'']"

text \<open>\<open>bytes[i] as char\<close> reads one byte as a Latin-1 character, which is then pushed as UTF-8.\<close>

definition push_latin1 :: "char \<Rightarrow> string" where
  "push_latin1 c =
     (let n = (of_char c :: nat) in
      if n < 128 then [c] else [char_of (192 + n div 64), char_of (128 + n mod 64)])"

fun glob_translate :: "string \<Rightarrow> string" where
  "glob_translate [] = []"
| "glob_translate (c # cs) =
     (if c = CHR ''*'' then
        (case cs of
           c2 # cs2 \<Rightarrow>
             (if c2 = CHR ''*'' then
                (case cs2 of
                   c3 # cs3 \<Rightarrow>
                     (if c3 = CHR ''/'' then ''(?:.*/)?'' @ glob_translate cs3
                      else ''.*'' @ glob_translate cs2)
                 | [] \<Rightarrow> ''.*'' @ glob_translate cs2)
              else ''[^/]*'' @ glob_translate cs)
         | [] \<Rightarrow> ''[^/]*'' @ glob_translate cs)
      else (if regex_meta c then [CHR 0x5C] else []) @ push_latin1 c @ glob_translate cs)"

definition glob_regex :: "string \<Rightarrow> string" where
  "glob_regex pattern = ''^'' @ glob_translate pattern @ ''$''"

text \<open>The engine: \<open>None\<close> when the expression does not compile.\<close>

type_synonym regex_engine = "string \<Rightarrow> (string \<Rightarrow> bool) option"

definition glob_match :: "regex_engine \<Rightarrow> string \<Rightarrow> string \<Rightarrow> bool" where
  "glob_match engine pattern path =
     (case engine (glob_regex pattern) of Some is_match \<Rightarrow> is_match path | None \<Rightarrow> False)"

section \<open>Scanning\<close>

definition config_exts :: "string list" where
  "config_exts = [''conf'', ''cnf'', ''ini'', ''yaml'', ''yml'', ''toml'', ''json'']"

definition config_filenames :: "string list" where
  "config_filenames =
     [''nginx.conf'', ''httpd.conf'', ''sshd_config'', ''ssh_config'', ''openssl.cnf'',
      ''strongswan.conf'', ''haproxy.cfg'', ''postfix'', ''main.cf'', ''smb.conf'']"

definition classify_file :: "string \<Rightarrow> scope_kind" where
  "classify_file path =
     (let name = (case path_file_name path of Some n \<Rightarrow> n | None \<Rightarrow> []);
          ext = (case path_extension path of Some e \<Rightarrow> e | None \<Rightarrow> []) in
      if list_ex (\<lambda>n. to_lower name = to_lower n) config_filenames \<or> ext \<in> set config_exts
      then ScConfig else ScCode)"

definition rule_applies :: "regex_engine \<Rightarrow> rule_scope list \<Rightarrow> scope_kind \<Rightarrow> string \<Rightarrow> bool" where
  "rule_applies engine scopes kind path =
     list_ex (\<lambda>s. rs_kind s = kind \<and>
       (case rs_glob s of None \<Rightarrow> True | Some g \<Rightarrow> glob_match engine g path)) scopes"

record scan_target =
  st_root :: string
  st_max_file_bytes :: u64
  st_max_lines :: nat

definition default_target :: scan_target where
  "default_target = \<lparr>st_root = ''.'', st_max_file_bytes = 5 * 1024 * 1024, st_max_lines = 50000\<rparr>"

text \<open>One entry of the walk, errors already filtered out: its path, whether it is a regular file, the
  length its metadata gives (or a failure), and what reading it as a UTF-8 string gives.\<close>

record walk_entry =
  we_path :: string
  we_is_file :: bool
  we_len :: "u64 option"
  we_content :: "string option"

record tagged_evidence =
  te_rule_id :: string
  te_emit_level :: agility_level
  te_evidence :: agility_evidence

record scan_env =
  se_engine :: regex_engine
  se_walk :: "string \<Rightarrow> walk_entry list"
  se_captures :: "string \<Rightarrow> string \<Rightarrow> (nat \<Rightarrow> string option) option"

definition unspecified :: string where
  "unspecified = ''<unspecified>''"

definition or_unspecified :: "string option \<Rightarrow> string" where
  "or_unspecified a = (case a of Some x \<Rightarrow> x | None \<Rightarrow> unspecified)"

definition line_evidence :: "rule \<Rightarrow> string \<Rightarrow> nat \<Rightarrow> string \<Rightarrow> (nat \<Rightarrow> string option) \<Rightarrow> tagged_evidence" where
  "line_evidence rule path idx line caps =
     (let algorithm = Option.bind (ru_capture rule) caps;
          snippet = take_chars 160 line;
          ev = (case ru_evidence_kind rule of
                  EvConfig \<Rightarrow> ConfigPattern path (of_nat idx + 1) snippet
                | EvCode \<Rightarrow> CodePattern path (of_nat idx + 1) snippet (or_unspecified algorithm)
                | EvFirmware \<Rightarrow> FirmwareString path (or_unspecified algorithm)) in
      \<lparr>te_rule_id = ru_id rule, te_emit_level = ru_emit_level rule, te_evidence = ev\<rparr>)"

definition scan_lines :: "scan_env \<Rightarrow> nat \<Rightarrow> rule \<Rightarrow> string \<Rightarrow> string \<Rightarrow> tagged_evidence list" where
  "scan_lines env max_lines rule path content =
     List.map_filter
       (\<lambda>(idx, line). map_option (line_evidence rule path idx line) (se_captures env (ru_pattern rule) line))
       (take max_lines (List.enumerate 0 (str_lines content)))"

definition scan_file :: "scan_env \<Rightarrow> scan_target \<Rightarrow> rule list \<Rightarrow> walk_entry \<Rightarrow> tagged_evidence list" where
  "scan_file env target rules entry =
     (let path = we_path entry in
      if \<not> we_is_file entry then []
      else case we_len entry of
        None \<Rightarrow> []
      | Some len \<Rightarrow>
          (if st_max_file_bytes target < len then []
           else case we_content entry of
             None \<Rightarrow> []
           | Some content \<Rightarrow>
               concat (map (\<lambda>rule.
                 if rule_applies (se_engine env) (ru_applies_to rule) (classify_file path) path
                 then scan_lines env (st_max_lines target) rule path content else []) rules)))"

definition UNKNOWN_LEVEL_FALLBACK :: agility_level where
  "UNKNOWN_LEVEL_FALLBACK = Pinned"

fun level_order :: "agility_level \<Rightarrow> nat" where
  "level_order Negotiated = 4"
| "level_order Configurable = 3"
| "level_order Pinned = 2"
| "level_order Locked = 1"
| "level_order Frozen = 0"

definition ord_max :: "agility_level \<Rightarrow> agility_level \<Rightarrow> agility_level" where
  "ord_max a b = (if level_order b \<le> level_order a then a else b)"

definition ord_min :: "agility_level \<Rightarrow> agility_level \<Rightarrow> agility_level" where
  "ord_min a b = (if level_order a \<le> level_order b then a else b)"

definition aggregate_tagged_level :: "tagged_evidence list \<Rightarrow> agility_level" where
  "aggregate_tagged_level tagged =
     (if tagged = [] then UNKNOWN_LEVEL_FALLBACK
      else
        (case fold (\<lambda>t best. Some (case best of
                 None \<Rightarrow> te_emit_level t | Some prev \<Rightarrow> ord_max prev (te_emit_level t))) tagged None of
           Some l \<Rightarrow> l | None \<Rightarrow> UNKNOWN_LEVEL_FALLBACK))"

definition scan_target_block :: "scan_env \<Rightarrow> string \<Rightarrow> scan_target \<Rightarrow> rule list \<Rightarrow> agility_block" where
  "scan_target_block env version target rules =
     (let tagged = concat (map (scan_file env target rules) (se_walk env (st_root target)));
          level = aggregate_tagged_level tagged in
      \<lparr>ag_level = level, ag_level_score = level_score level,
       ag_evidence = map te_evidence tagged,
       ag_scanner_version = ''ree0xq-agility/'' @ version,
       ag_rubric_version = ''qra-rubric/v1.0''\<rparr>)"

text \<open>The retained alternative policy.\<close>

definition matches_rule_evidence_kind :: "agility_evidence \<Rightarrow> rule \<Rightarrow> bool" where
  "matches_rule_evidence_kind ev rule =
     (case (ev, ru_evidence_kind rule) of
        (ConfigPattern _ _ _, EvConfig) \<Rightarrow> True
      | (CodePattern _ _ _ _, EvCode) \<Rightarrow> True
      | (FirmwareString _ _, EvFirmware) \<Rightarrow> True
      | _ \<Rightarrow> False)"

definition aggregate_level :: "agility_evidence list \<Rightarrow> rule list \<Rightarrow> agility_level" where
  "aggregate_level evidence rules =
     (if evidence = [] then UNKNOWN_LEVEL_FALLBACK
      else
        (case fold (\<lambda>rule m. if list_ex (\<lambda>e. matches_rule_evidence_kind e rule) evidence
                 then Some (case m of None \<Rightarrow> ru_emit_level rule
                              | Some prev \<Rightarrow> ord_min prev (ru_emit_level rule))
                 else m) rules None of
           Some l \<Rightarrow> l | None \<Rightarrow> UNKNOWN_LEVEL_FALLBACK))"

section \<open>What a scan reports\<close>

lemma in_scan_file:
  "t \<in> set (scan_file env target rules entry) \<longleftrightarrow>
     we_is_file entry \<and>
     (\<exists>len content. we_len entry = Some len \<and> len \<le> st_max_file_bytes target \<and>
        we_content entry = Some content \<and>
        (\<exists>rule\<in>set rules.
           rule_applies (se_engine env) (ru_applies_to rule) (classify_file (we_path entry)) (we_path entry) \<and>
           t \<in> set (scan_lines env (st_max_lines target) rule (we_path entry) content)))"
proof (cases "we_len entry")
  case (Some len)
  then show ?thesis
    by (cases "we_content entry"; cases "len \<le> st_max_file_bytes target"; cases "we_is_file entry")
       (auto simp: scan_file_def Let_def)
qed (simp add: scan_file_def Let_def)

definition scan_tagged :: "scan_env \<Rightarrow> scan_target \<Rightarrow> rule list \<Rightarrow> tagged_evidence list" where
  "scan_tagged env target rules = concat (map (scan_file env target rules) (se_walk env (st_root target)))"

lemma in_scan_tagged:
  "t \<in> set (scan_tagged env target rules) \<longleftrightarrow>
     (\<exists>entry\<in>set (se_walk env (st_root target)). we_is_file entry \<and>
       (\<exists>len content. we_len entry = Some len \<and> len \<le> st_max_file_bytes target \<and>
          we_content entry = Some content \<and>
          (\<exists>rule\<in>set rules.
             rule_applies (se_engine env) (ru_applies_to rule) (classify_file (we_path entry)) (we_path entry) \<and>
             t \<in> set (scan_lines env (st_max_lines target) rule (we_path entry) content))))"
  by (simp add: scan_tagged_def in_scan_file)

lemma scan_tagged_mono:
  "set (scan_tagged env target rules) \<subseteq> set (scan_tagged env target (rules @ extra))"
  unfolding subset_iff in_scan_tagged set_append by (meson UnI1)

lemma scan_block_tagged:
  "ag_level (scan_target_block env v target rules) = aggregate_tagged_level (scan_tagged env target rules)"
  "ag_evidence (scan_target_block env v target rules) = map te_evidence (scan_tagged env target rules)"
  by (simp_all add: scan_target_block_def scan_tagged_def Let_def)

lemma level_order_inj: "level_order a = level_order b \<Longrightarrow> a = b"
  by (cases a; cases b; simp)

lemma aggregate_fold:
  "\<exists>l. fold (\<lambda>t best. Some (case best of None \<Rightarrow> te_emit_level t | Some prev \<Rightarrow> ord_max prev (te_emit_level t)))
      ts (Some a) = Some l \<and> l \<in> insert a (te_emit_level ` set ts) \<and>
      (\<forall>x\<in>insert a (te_emit_level ` set ts). level_order x \<le> level_order l)"
proof (induction ts arbitrary: a)
  case (Cons t ts)
  from Cons [of "ord_max a (te_emit_level t)"] show ?case
    by (auto simp: ord_max_def split: if_splits)
qed simp

lemma aggregate_max:
  assumes "ts \<noteq> []"
  shows "aggregate_tagged_level ts \<in> te_emit_level ` set ts"
    and "t \<in> set ts \<Longrightarrow> level_order (te_emit_level t) \<le> level_order (aggregate_tagged_level ts)"
proof -
  obtain u us where ts: "ts = u # us" using assms by (cases ts) auto
  show "aggregate_tagged_level ts \<in> te_emit_level ` set ts"
    "t \<in> set ts \<Longrightarrow> level_order (te_emit_level t) \<le> level_order (aggregate_tagged_level ts)"
    using aggregate_fold [of us "te_emit_level u"] unfolding ts aggregate_tagged_level_def by auto
qed

section \<open>The glob language\<close>

text \<open>The fragment of regular expressions the translation emits, and its language on UTF-8 bytes: a
  class that excludes an ASCII character consumes whole characters, and every other byte is
  allowed, so reading the class byte by byte gives the same language.\<close>

datatype rx = RLit char | RSeg | RAny | RDirs

fun rx_print :: "rx \<Rightarrow> string" where
  "rx_print (RLit c) = (if regex_meta c then [CHR 0x5C] else []) @ push_latin1 c"
| "rx_print RSeg = ''[^/]*''"
| "rx_print RAny = ''.*''"
| "rx_print RDirs = ''(?:.*/)?''"

fun rx_matches :: "rx list \<Rightarrow> string \<Rightarrow> bool" where
  "rx_matches [] s = (s = [])"
| "rx_matches (RLit c # rs) s =
     (starts_with s (push_latin1 c) \<and> rx_matches rs (drop (length (push_latin1 c)) s))"
| "rx_matches (RSeg # rs) s =
     (\<exists>n\<in>{0..length s}. CHR ''/'' \<notin> set (take n s) \<and> rx_matches rs (drop n s))"
| "rx_matches (RAny # rs) s =
     (\<exists>n\<in>{0..length s}. CHR 0x0A \<notin> set (take n s) \<and> rx_matches rs (drop n s))"
| "rx_matches (RDirs # rs) s =
     (rx_matches rs s \<or>
      (\<exists>n\<in>{0..<length s}. CHR 0x0A \<notin> set (take n s) \<and> s ! n = CHR ''/'' \<and> rx_matches rs (drop (Suc n) s)))"

fun glob_parse :: "string \<Rightarrow> rx list" where
  "glob_parse [] = []"
| "glob_parse (c # cs) =
     (if c = CHR ''*'' then
        (case cs of
           c2 # cs2 \<Rightarrow>
             (if c2 = CHR ''*'' then
                (case cs2 of
                   c3 # cs3 \<Rightarrow> (if c3 = CHR ''/'' then RDirs # glob_parse cs3 else RAny # glob_parse cs2)
                 | [] \<Rightarrow> RAny # glob_parse cs2)
              else RSeg # glob_parse cs)
         | [] \<Rightarrow> RSeg # glob_parse cs)
      else RLit c # glob_parse cs)"

declare glob_parse.simps(2) [simp del] glob_translate.simps(2) [simp del]

definition heads :: "char \<Rightarrow> string \<Rightarrow> bool" where
  "heads c s \<longleftrightarrow> s \<noteq> [] \<and> hd s = c"

lemma heads_iff: "heads c s \<longleftrightarrow> (\<exists>r. s = c # r)"
  by (cases s) (auto simp: heads_def)

lemma glob_induct [case_names Nil Dirs Any Seg Lit]:
  assumes "P []"
    and "\<And>cs. P cs \<Longrightarrow> P (CHR ''*'' # CHR ''*'' # CHR ''/'' # cs)"
    and "\<And>cs. P cs \<Longrightarrow> \<not> heads (CHR ''/'') cs \<Longrightarrow> P (CHR ''*'' # CHR ''*'' # cs)"
    and "\<And>cs. P cs \<Longrightarrow> \<not> heads (CHR ''*'') cs \<Longrightarrow> P (CHR ''*'' # cs)"
    and "\<And>c cs. P cs \<Longrightarrow> c \<noteq> CHR ''*'' \<Longrightarrow> P (c # cs)"
  shows "P p"
proof (induction p rule: length_induct)
  case (1 p)
  then have IH: "length q < length p \<Longrightarrow> P q" for q by blast
  show ?case
  proof (cases p)
    case p: (Cons c cs)
    show ?thesis
    proof (cases "c = CHR ''*'' \<and> heads (CHR ''*'') cs")
      case True
      then obtain cs2 where cs: "cs = CHR ''*'' # cs2" by (auto simp: heads_iff)
      show ?thesis
        using assms(2,3) IH True p cs by (cases "heads (CHR ''/'') cs2") (auto simp: heads_iff)
    next
      case False
      then show ?thesis using assms(4,5) IH p by (cases "c = CHR ''*''") auto
    qed
  qed (simp add: assms(1))
qed

lemma glob_parse_eqs [simp]:
  "glob_parse (CHR ''*'' # CHR ''*'' # CHR ''/'' # cs) = RDirs # glob_parse cs"
  "\<not> heads (CHR ''/'') cs \<Longrightarrow> glob_parse (CHR ''*'' # CHR ''*'' # cs) = RAny # glob_parse cs"
  "\<not> heads (CHR ''*'') cs \<Longrightarrow> glob_parse (CHR ''*'' # cs) = RSeg # glob_parse cs"
  "c \<noteq> CHR ''*'' \<Longrightarrow> glob_parse (c # cs) = RLit c # glob_parse cs"
  by (auto simp: glob_parse.simps(2) heads_def split: list.splits)

lemma glob_translate_eqs [simp]:
  "glob_translate (CHR ''*'' # CHR ''*'' # CHR ''/'' # cs) = ''(?:.*/)?'' @ glob_translate cs"
  "\<not> heads (CHR ''/'') cs \<Longrightarrow> glob_translate (CHR ''*'' # CHR ''*'' # cs) = ''.*'' @ glob_translate cs"
  "\<not> heads (CHR ''*'') cs \<Longrightarrow> glob_translate (CHR ''*'' # cs) = ''[^/]*'' @ glob_translate cs"
  "c \<noteq> CHR ''*'' \<Longrightarrow> glob_translate (c # cs) =
     (if regex_meta c then [CHR 0x5C] else []) @ push_latin1 c @ glob_translate cs"
  by (auto simp: glob_translate.simps(2) heads_def split: list.splits)

lemma glob_translate_parse: "glob_translate p = concat (map rx_print (glob_parse p))"
  by (induction p rule: glob_induct) simp_all

lemma glob_parse_no_star: "RLit (CHR ''*'') \<notin> set (glob_parse p)"
  by (induction p rule: glob_induct) simp_all

lemma glob_parse_length: "length (glob_parse p) \<le> length p"
  by (induction p rule: glob_induct) simp_all

text \<open>The documented behaviour of the engine on that fragment, for expressions far below its size
  limit: they compile, and an anchored expression matches the strings of its language.\<close>

definition engine_law :: "regex_engine \<Rightarrow> bool" where
  "engine_law engine \<longleftrightarrow>
     (\<forall>rs s. length rs \<le> 1000 \<longrightarrow> RLit (CHR ''*'') \<notin> set rs \<longrightarrow> valid_utf8 s \<longrightarrow>
        (\<exists>f. engine (''^'' @ concat (map rx_print rs) @ ''$'') = Some f \<and> f s = rx_matches rs s))"

lemma glob_match_parse:
  assumes "engine_law engine" "length p \<le> 1000" "valid_utf8 path"
  shows "glob_match engine p path = rx_matches (glob_parse p) path"
proof -
  have "length (glob_parse p) \<le> 1000" using glob_parse_length [of p] assms(2) by linarith
  then obtain f where "engine (''^'' @ concat (map rx_print (glob_parse p)) @ ''$'') = Some f"
    "f path = rx_matches (glob_parse p) path"
    using assms glob_parse_no_star unfolding engine_law_def by blast
  then show ?thesis
    by (simp add: glob_match_def glob_regex_def glob_translate_parse)
qed

lemma push_latin1_slash: "CHR ''/'' \<in> set (push_latin1 c) \<longleftrightarrow> c = CHR ''/''"
proof -
  have "(192 + n div 64) mod 256 \<noteq> 47" if "n < 256" for n :: nat
  proof -
    have "n div 64 < 4" using that by (simp add: less_mult_imp_div_less)
    then show ?thesis by simp
  qed
  from this [of "of_char c"] have "(192 + of_char c div 64) mod 256 \<noteq> (47 :: nat)" by simp
  moreover have "(128 + n mod 64) mod 256 \<noteq> 47" for n :: nat
  proof -
    have "n mod 64 < 64" by simp
    then have "128 + n mod 64 < 256" by linarith
    then show ?thesis by simp
  qed
  ultimately show ?thesis
    by (auto simp: push_latin1_def Let_def dest!: arg_cong [where f = "of_char :: char \<Rightarrow> nat"])
qed

definition slashes :: "string \<Rightarrow> nat" where
  "slashes s = length (filter (\<lambda>c. c = CHR ''/'') s)"

lemma slashes_append [simp]: "slashes (a @ b) = slashes a + slashes b"
  by (simp add: slashes_def)

lemma slashes_Cons [simp]: "slashes (c # s) = (if c = CHR ''/'' then 1 else 0) + slashes s"
  by (simp add: slashes_def)

lemma slashes_zero: "CHR ''/'' \<notin> set s \<Longrightarrow> slashes s = 0"
  by (induction s) (auto simp: slashes_def)

lemma slashes_push_latin1: "slashes (push_latin1 c) = (if c = CHR ''/'' then 1 else 0)"
proof (cases "c = CHR ''/''")
  case True
  then show ?thesis by (simp add: push_latin1_def slashes_def)
qed (simp add: slashes_zero push_latin1_slash)

fun double_star :: "string \<Rightarrow> bool" where
  "double_star (a # b # s) = (a = CHR ''*'' \<and> b = CHR ''*'' \<or> double_star (b # s))"
| "double_star _ = False"

lemma rx_matches_slashes:
  "\<not> double_star p \<Longrightarrow> rx_matches (glob_parse p) s \<Longrightarrow> slashes s = slashes p"
proof (induction p arbitrary: s rule: glob_induct)
  case (Seg cs)
  then obtain n where n: "n \<le> length s" "CHR ''/'' \<notin> set (take n s)" "rx_matches (glob_parse cs) (drop n s)"
    by auto
  have "\<not> double_star cs" using Seg.prems(1) by (cases cs) auto
  then have "slashes (drop n s) = slashes cs" using Seg.IH n(3) by blast
  moreover have "slashes s = slashes (take n s) + slashes (drop n s)"
    by (metis append_take_drop_id slashes_append)
  ultimately show ?case
    using slashes_zero [OF n(2)] by simp
next
  case (Lit c cs)
  then have m: "starts_with s (push_latin1 c)" "rx_matches (glob_parse cs) (drop (length (push_latin1 c)) s)"
    by auto
  have "\<not> double_star cs" using Lit.prems(1) by (cases cs) auto
  then have "slashes (drop (length (push_latin1 c)) s) = slashes cs" using Lit.IH m(2) by blast
  moreover have "s = push_latin1 c @ drop (length (push_latin1 c)) s"
    using m(1) unfolding starts_with_def by (metis append_take_drop_id)
  then have "slashes s = slashes (push_latin1 c) + slashes (drop (length (push_latin1 c)) s)"
    by (metis slashes_append)
  ultimately show ?case by (simp add: slashes_push_latin1)
qed (simp_all add: slashes_def)

section \<open>Properties\<close>





text \<open>The level of a block is the most agile level any matching rule contributes, and the fallback
  when nothing matched; so it is not the weakest link: adding rules never lowers the level of an
  asset that already has evidence.\<close>

theorem scan_level_most_agile:
  "let ts = scan_tagged env target rules; l = ag_level (scan_target_block env v target rules) in
   if ts = [] then l = UNKNOWN_LEVEL_FALLBACK
   else level_order l = Max (set (map (\<lambda>t. level_order (te_emit_level t)) ts)) \<and>
        level_order l \<le> level_order (ag_level (scan_target_block env v target (rules @ extra)))"
proof (cases "scan_tagged env target rules = []")
  case True
  then show ?thesis by (simp add: scan_block_tagged aggregate_tagged_level_def Let_def)
next
  case False
  let ?ts = "scan_tagged env target rules" and ?us = "scan_tagged env target (rules @ extra)"
  obtain t where t: "t \<in> set ?ts" "aggregate_tagged_level ?ts = te_emit_level t"
    using aggregate_max(1) [OF False] by (rule imageE) simp
  from t(1) have u: "t \<in> set ?us" by (rule subsetD [OF scan_tagged_mono])
  then have "?us \<noteq> []" by (metis list.set(1) empty_iff)
  then have "level_order (aggregate_tagged_level ?ts) \<le> level_order (aggregate_tagged_level ?us)"
    unfolding t(2) by (rule aggregate_max(2)) (rule u)
  moreover have "Max (set (map (\<lambda>t. level_order (te_emit_level t)) ?ts)) = level_order (aggregate_tagged_level ?ts)"
    unfolding set_map
  proof (rule Max_eqI)
    show "level_order (aggregate_tagged_level ?ts) \<in> (\<lambda>t. level_order (te_emit_level t)) ` set ?ts"
      using t by (simp add: image_iff) blast
  qed (use aggregate_max(2) [OF False] in auto)
  ultimately show ?thesis using False by (simp add: scan_block_tagged Let_def)
qed

text \<open>A rule set loads completely or not at all: it loads exactly when the directory and every YAML
  file in it read, parse and compile, and then holds the rule of every such file in order.\<close>

theorem load_ruleset_complete:
  "load_ruleset env dir = Inr rules \<longleftrightarrow>
     (\<exists>es. re_read_dir env dir = Inr es \<and> list_all (\<lambda>e. is_ok (load_entry env dir e)) es \<and>
        rules = List.map_filter (\<lambda>e. case load_entry env dir e of Inr r \<Rightarrow> r | Inl _ \<Rightarrow> None) es)"
proof -
  have "load_entries env dir es out = Inr rules \<longleftrightarrow>
      list_all (\<lambda>e. is_ok (load_entry env dir e)) es \<and>
      rules = out @ List.map_filter (\<lambda>e. case load_entry env dir e of Inr r \<Rightarrow> r | Inl _ \<Rightarrow> None) es"
    for es out
  proof (induction es arbitrary: out)
    case (Cons e es)
    then show ?case
      by (cases "load_entry env dir e") (auto simp: map_filter_simps split: option.splits)
  qed (auto simp: map_filter_simps)
  then show ?thesis
    by (auto simp: load_ruleset_def split: sum.splits)
qed

text \<open>A glob without a double star never crosses a directory boundary: every path it matches
  has as many slashes as the pattern.\<close>

theorem glob_star_stays_in_directory:
  assumes "engine_law engine" "length p \<le> 1000" "valid_utf8 path"
    and "\<not> double_star p" "glob_match engine p path"
  shows "slashes path = slashes p"
  using rx_matches_slashes assms glob_match_parse by metis

text \<open>A pattern with a non-ASCII character does not match the file it names: each byte of the
  pattern is taken for a character of its own.\<close>

theorem glob_non_ascii_literal_fails:
  assumes "engine_law engine"
  shows "\<not> glob_match engine [CHR 0xC3, CHR 0xA9] [CHR 0xC3, CHR 0xA9]"
proof -
  have "valid_utf8 [CHR 0xC3, CHR 0xA9]" by (simp add: byte_in_def utf8_tail_def)
  moreover have "\<not> rx_matches (glob_parse [CHR 0xC3, CHR 0xA9]) [CHR 0xC3, CHR 0xA9]"
    by (simp add: push_latin1_def starts_with_def)
  ultimately show ?thesis using glob_match_parse [OF assms] by simp
qed

section \<open>An engine for the fragment\<close>

fun rx_parse :: "string \<Rightarrow> rx list" where
  "rx_parse [] = []"
| "rx_parse (c # cs) =
     (if c = CHR 0x5C then (case cs of d # ds \<Rightarrow> RLit d # rx_parse ds | [] \<Rightarrow> [])
      else if c = CHR ''['' then RSeg # rx_parse (drop 4 cs)
      else if c = CHR ''.'' then RAny # rx_parse (drop 1 cs)
      else if c = CHR ''('' then RDirs # rx_parse (drop 7 cs)
      else if of_char c < (128 :: nat) then RLit c # rx_parse cs
      else (case cs of
          d # ds \<Rightarrow> RLit (char_of ((of_char c - 192) * 64 + (of_char d - 128 :: nat))) # rx_parse ds
        | [] \<Rightarrow> []))"

lemma rx_parse_lit:
  "rx_parse (rx_print (RLit c) @ s) = RLit c # rx_parse s"
proof (cases "of_char c < (128 :: nat)")
  case True
  then have "push_latin1 c = [c]" by (simp add: push_latin1_def)
  then show ?thesis using True by (auto simp: regex_meta_def)
next
  case False
  let ?n = "of_char c :: nat"
  have n: "?n < 256" "128 \<le> ?n" using False by simp_all
  then have d: "2 \<le> ?n div 64" "?n div 64 < 4"
    by (simp_all add: less_mult_imp_div_less less_eq_div_iff_mult_less_eq)
  have b1: "of_char (char_of (192 + ?n div 64) :: char) = 192 + ?n div 64"
    using d by simp
  have "?n mod 64 < 64" by simp
  then have b2: "of_char (char_of (128 + ?n mod 64) :: char) = 128 + ?n mod 64"
    by simp
  have "\<not> regex_meta c"
    using False by (auto simp: regex_meta_def)
  then have "rx_print (RLit c) = [char_of (192 + ?n div 64), char_of (128 + ?n mod 64)]"
    using False by (simp add: push_latin1_def Let_def)
  moreover have "(char_of (192 + ?n div 64) :: char) \<notin> {CHR 0x5C, CHR ''['', CHR ''.'', CHR ''(''}"
    using b1 by (auto dest!: arg_cong [where f = "of_char :: char \<Rightarrow> nat"])
  moreover have "?n div 64 * 64 + ?n mod 64 = ?n" by simp
  ultimately show ?thesis
    using b1 b2 by simp
qed

lemma rx_parse_print: "rx_parse (concat (map rx_print rs)) = rs"
proof (induction rs)
  case (Cons r rs)
  show ?case
  proof (cases r)
    case (RLit c)
    then show ?thesis using Cons rx_parse_lit by simp
  qed (use Cons in simp_all)
qed simp

definition fragment_engine :: regex_engine where
  "fragment_engine r = Some (rx_matches (rx_parse (butlast (tl r))))"

lemma fragment_engine_law: "engine_law fragment_engine"
  by (simp add: engine_law_def fragment_engine_def rx_parse_print)

theorem glob_star_stays_in_directory_witness:
  "slashes ''etc/nginx.conf'' = slashes ''etc/*.conf''"
proof (rule glob_star_stays_in_directory [OF fragment_engine_law])
  show "valid_utf8 ''etc/nginx.conf''"
    by (intro valid_utf8_ascii) (simp add: byte_in_def)
  moreover have "rx_matches (glob_parse ''etc/*.conf'') ''etc/nginx.conf''"
  proof -
    have "rx_matches (glob_parse ''*.conf'') ''nginx.conf''"
      by (simp add: heads_def push_latin1_def starts_with_def) (rule bexI [of _ 5], simp_all)
    then show ?thesis by (simp add: push_latin1_def starts_with_def)
  qed
  ultimately show "glob_match fragment_engine ''etc/*.conf'' ''etc/nginx.conf''"
    using glob_match_parse [OF fragment_engine_law] by simp
qed simp_all

theorem glob_non_ascii_literal_fails_witness:
  "\<not> glob_match fragment_engine [CHR 0xC3, CHR 0xA9] [CHR 0xC3, CHR 0xA9]"
  by (rule glob_non_ascii_literal_fails [OF fragment_engine_law])

end
