(* ===== verification/Routes.thy ===== *)
theory Routes
  imports Http Event_Store Posture_Score Recommend Compat Deadlines Roadmap
begin

text \<open>
  The request handlers of src/crates/ree0xq-server/src/routes.rs.  The store is a record of the
  trait's operations over a state type, each of which may fail; the clock is an argument
  (one argument per reading).
\<close>

section \<open>State and response shapes\<close>

record 's store_ops =
  so_append :: "crypto_inventory_event \<Rightarrow> 's \<Rightarrow> (string, unit) result \<times> 's"
  so_recent :: "nat \<Rightarrow> 's \<Rightarrow> (string, crypto_inventory_event list) result"
  so_latest :: "'s \<Rightarrow> (string, crypto_inventory_event list) result"

record rollup_config =
  rc_deadline :: timestamp
  rc_horizon_years :: f32

record events_response =
  er_count :: nat
  er_events :: "crypto_inventory_event list"

record inventory_item =
  ii_source_module :: string
  ii_asset_kind :: asset_kind
  ii_identity :: string
  ii_host :: "string option"
  ii_q :: f32
  ii_blocked :: bool
  ii_primitives :: "string list"
  ii_observed_at :: timestamp

record inventory_response =
  iv_count :: nat
  iv_items :: "inventory_item list"

record org_posture =
  op_org_q :: f32
  op_deadline :: timestamp
  op_horizon_years :: f32
  op_assets :: nat
  op_blocked_count :: nat

record qkd_link_summary =
  ql_identity :: string
  ql_kme_endpoint :: "string option"
  ql_link_health :: string
  ql_link_qber :: "f32 option"
  ql_link_key_rate_bps :: "u64 option"
  ql_observed_at :: timestamp

record recommendation_item =
  ri_source_module :: string
  ri_asset_kind :: asset_kind
  ri_identity :: string
  ri_host :: "string option"
  ri_current :: "string list"
  ri_recommendations :: "recommendation list"

record deadlines_query =
  dq_jurisdiction :: "string option"
  dq_horizon_days :: "u32 option"

record compat_query =
  cq_stack :: "string option"
  cq_algorithm :: "string option"

section \<open>Handlers\<close>

definition healthz :: string where
  "healthz = ''ok''"

definition store_err :: "string \<Rightarrow> 'a response" where
  "store_err e = api_fail INTERNAL_SERVER_ERROR ''store_failure'' e"

definition lift_store :: "(string, 'a) result \<Rightarrow> 'a response" where
  "lift_store r = (case r of Inl e \<Rightarrow> store_err e | Inr a \<Rightarrow> Inr a)"

definition version_mismatch :: "crypto_inventory_event \<Rightarrow> 'a response" where
  "version_mismatch ev =
     api_fail UNPROCESSABLE_ENTITY ''schema_version_mismatch''
       (''schema_version '' @ show_nat (unat (ev_schema_version ev)) @ '' not supported; expected '' @
        show_nat (unat SCHEMA_VERSION))"

fun append_events :: "'s store_ops \<Rightarrow> crypto_inventory_event list \<Rightarrow> 's \<Rightarrow> unit response \<times> 's" where
  "append_events ops [] st = (Inr (), st)"
| "append_events ops (ev # evs) st =
     (case so_append ops ev st of
        (Inl e, st') \<Rightarrow> (store_err e, st')
      | (Inr _, st') \<Rightarrow> append_events ops evs st')"

definition ingest :: "'s store_ops \<Rightarrow> crypto_inventory_event list \<Rightarrow> 's \<Rightarrow> unit response \<times> 's" where
  "ingest ops evs st =
     (case find (\<lambda>ev. ev_schema_version ev \<noteq> SCHEMA_VERSION) evs of
        Some ev \<Rightarrow> (version_mismatch ev, st)
      | None \<Rightarrow> append_events ops evs st)"

definition ingest_one :: "'s store_ops \<Rightarrow> crypto_inventory_event \<Rightarrow> 's \<Rightarrow> status_code response \<times> 's" where
  "ingest_one ops ev st =
     (case ingest ops [ev] st of (r, st') \<Rightarrow> (rbind r (\<lambda>_. Inr ACCEPTED), st'))"

definition ingest_batch :: "'s store_ops \<Rightarrow> crypto_inventory_event list \<Rightarrow> 's \<Rightarrow> nat response \<times> 's" where
  "ingest_batch ops evs st =
     (case ingest ops evs st of (r, st') \<Rightarrow> (rbind r (\<lambda>_. Inr (length evs)), st'))"

definition default_limit :: nat where
  "default_limit = 100"

definition list_events :: "'s store_ops \<Rightarrow> nat option \<Rightarrow> 's \<Rightarrow> events_response response" where
  "list_events ops limit st =
     rbind (lift_store (so_recent ops (case limit of None \<Rightarrow> default_limit | Some n \<Rightarrow> n) st)) (\<lambda>events.
       Inr \<lparr>er_count = length events, er_events = events\<rparr>)"

definition inventory_item_of ::
  "rollup_config \<Rightarrow> timestamp \<Rightarrow> bool \<Rightarrow> crypto_inventory_event \<Rightarrow> inventory_item" where
  "inventory_item_of cfg now blocked ev =
     \<lparr>ii_source_module = ev_source_module ev, ii_asset_kind = as_kind (ev_asset ev),
      ii_identity = as_identity (ev_asset ev), ii_host = as_host (ev_asset ev),
      ii_q = q_for_event ev now (rc_deadline cfg) (rc_horizon_years cfg),
      ii_blocked = blocked, ii_primitives = map pr_algorithm (ev_primitives ev),
      ii_observed_at = ev_observed_at ev\<rparr>"

text \<open>\<open>sort_by\<close> with the comparison reversed: stable, largest \<open>q\<close> first.\<close>

definition by_q_desc :: "inventory_item list \<Rightarrow> inventory_item list" where
  "by_q_desc items = sort_key (\<lambda>i. - ii_q i) items"

definition inventory :: "'s store_ops \<Rightarrow> rollup_config \<Rightarrow> timestamp \<Rightarrow> 's \<Rightarrow> inventory_response response" where
  "inventory ops cfg now st =
     rbind (lift_store (so_latest ops st)) (\<lambda>evs.
       (let items = by_q_desc (map (\<lambda>ev. inventory_item_of cfg now (is_blocked (ev_agility ev)) ev) evs) in
        Inr \<lparr>iv_count = length items, iv_items = items\<rparr>))"

definition org_posture_handler ::
  "'s store_ops \<Rightarrow> rollup_config \<Rightarrow> timestamp \<Rightarrow> 's \<Rightarrow> org_posture response" where
  "org_posture_handler ops cfg now st =
     rbind (lift_store (so_latest ops st)) (\<lambda>events.
       Inr \<lparr>op_org_q = org_score events now (rc_deadline cfg) (rc_horizon_years cfg),
            op_deadline = rc_deadline cfg, op_horizon_years = rc_horizon_years cfg,
            op_assets = length events,
            op_blocked_count = length (filter (\<lambda>e. is_blocked (ev_agility e)) events)\<rparr>)"

fun link_health_text :: "link_health \<Rightarrow> string" where
  "link_health_text HealthOk = ''ok''"
| "link_health_text HealthDegraded = ''degraded''"
| "link_health_text HealthFailed = ''failed''"

definition qkd_link_summary_of :: "crypto_inventory_event \<Rightarrow> qkd_link_summary" where
  "qkd_link_summary_of ev =
     (let cp = ev_channel_protection ev in
      \<lparr>ql_identity = as_identity (ev_asset ev),
       ql_kme_endpoint = Option.bind cp cp_kme_endpoint,
       ql_link_health = (case cp of Some c \<Rightarrow> link_health_text (cp_link_health c) | None \<Rightarrow> ''unknown''),
       ql_link_qber = Option.bind cp cp_link_qber,
       ql_link_key_rate_bps = Option.bind cp cp_link_key_rate_bps,
       ql_observed_at = ev_observed_at ev\<rparr>)"

definition qkd_links :: "'s store_ops \<Rightarrow> 's \<Rightarrow> (nat \<times> qkd_link_summary list) response" where
  "qkd_links ops st =
     rbind (lift_store (so_latest ops st)) (\<lambda>evs.
       (let links = map qkd_link_summary_of
          (filter (\<lambda>ev. as_kind (ev_asset ev) = QkdLink \<or> as_kind (ev_asset ev) = QkdKme) evs) in
        Inr (length links, links)))"

fun blocked_items ::
  "rollup_config \<Rightarrow> timestamp \<Rightarrow> crypto_inventory_event list \<Rightarrow> inventory_item list" where
  "blocked_items cfg now [] = []"
| "blocked_items cfg now (ev # evs) =
     (if \<not> is_blocked (ev_agility ev) then blocked_items cfg now evs
      else inventory_item_of cfg now True ev # blocked_items cfg now evs)"

definition blocked_assets ::
  "'s store_ops \<Rightarrow> rollup_config \<Rightarrow> timestamp \<Rightarrow> 's \<Rightarrow> inventory_response response" where
  "blocked_assets ops cfg now st =
     rbind (lift_store (so_latest ops st)) (\<lambda>evs.
       (let items = by_q_desc (blocked_items cfg now evs) in
        Inr \<lparr>iv_count = length items, iv_items = items\<rparr>))"

fun recommendation_items :: "crypto_inventory_event list \<Rightarrow> recommendation_item list" where
  "recommendation_items [] = []"
| "recommendation_items (ev # evs) =
     (let recs = recommend_for (ev_primitives ev) in
      if recs = [] then recommendation_items evs
      else \<lparr>ri_source_module = ev_source_module ev, ri_asset_kind = as_kind (ev_asset ev),
            ri_identity = as_identity (ev_asset ev), ri_host = as_host (ev_asset ev),
            ri_current = map pr_algorithm (ev_primitives ev), ri_recommendations = recs\<rparr>
           # recommendation_items evs)"

definition recommendations :: "'s store_ops \<Rightarrow> 's \<Rightarrow> (nat \<times> recommendation_item list) response" where
  "recommendations ops st =
     rbind (lift_store (so_latest ops st)) (\<lambda>evs.
       (let items = recommendation_items evs in Inr (length items, items)))"

text \<open>\<open>now + Duration::days(n)\<close> panics when it overflows: \<open>None\<close>.\<close>

definition days_ns :: "u32 \<Rightarrow> int" where
  "days_ns d = int (unat d) * 86400 * 1000000000"

definition agility_deadlines ::
  "calendar \<Rightarrow> (timestamp \<Rightarrow> int \<Rightarrow> timestamp option) \<Rightarrow> timestamp \<Rightarrow> deadlines_query \<Rightarrow>
   (nat \<times> deadline_entry list) option" where
  "agility_deadlines d add_dur now q =
     (let items = (case dq_jurisdiction q of
          Some p \<Rightarrow> for_jurisdiction d p | None \<Rightarrow> all_deadlines d) in
      case dq_horizon_days q of
        None \<Rightarrow> Some (length items, items)
      | Some days \<Rightarrow>
          (case add_dur now (days_ns days) of
             None \<Rightarrow> None
           | Some e \<Rightarrow>
               (let kept = filter (\<lambda>x. now \<le> dl_effective x \<and> dl_effective x \<le> e) items in
                Some (length kept, kept))))"

definition compat_stacks :: "string list" where
  "compat_stacks =
     [''openssl-3.x'', ''boringssl'', ''rustls-post-quantum'', ''go-crypto-tls'', ''bouncycastle'', ''nss'']"

definition agility_compat :: "compat_query \<Rightarrow> (nat \<times> compat_entry list) response" where
  "agility_compat q =
     (case (cq_stack q, cq_algorithm q) of
        (Some stack, Some algo) \<Rightarrow>
          (case compat_lookup stack algo of
             Some e \<Rightarrow> Inr (1, [e])
           | None \<Rightarrow> api_fail NOT_FOUND ''compat_unknown''
               (''no entry for stack='' @ stack @ '' algorithm='' @ algo))
      | (Some stack, None) \<Rightarrow> (let items = list_stack stack in Inr (length items, items))
      | (None, _) \<Rightarrow>
          (let items = concat (map list_stack compat_stacks) in Inr (length items, items)))"

definition snapshot_of :: "rollup_config \<Rightarrow> timestamp \<Rightarrow> crypto_inventory_event \<Rightarrow> asset_snapshot" where
  "snapshot_of cfg now ev =
     \<lparr>sn_identity = as_identity (ev_asset ev),
      sn_q = q_for_event ev now (rc_deadline cfg) (rc_horizon_years cfg),
      sn_blocked = is_blocked (ev_agility ev),
      sn_primitives = map pr_algorithm (ev_primitives ev)\<rparr>"

definition agility_roadmap ::
  "(plan_state \<Rightarrow> plan_state) \<Rightarrow> 's store_ops \<Rightarrow> rollup_config \<Rightarrow> timestamp \<Rightarrow> milestone list \<Rightarrow> 's \<Rightarrow>
   roadmap_projection response" where
  "agility_roadmap order ops cfg now plan st =
     rbind (lift_store (so_latest ops st)) (\<lambda>events.
       Inr (project_roadmap order (map (snapshot_of cfg now) events) plan))"

section \<open>The in-memory store behind the handlers\<close>

definition memory_ops :: "memory_store store_ops" where
  "memory_ops =
     \<lparr>so_append = (\<lambda>ev s. (Inr (), memory_append s ev)),
      so_recent = (\<lambda>n s. Inr (memory_recent s n)),
      so_latest = (\<lambda>s. Inr (memory_latest_per_asset s))\<rparr>"

definition supported_version :: "crypto_inventory_event \<Rightarrow> bool" where
  "supported_version ev \<longleftrightarrow> ev_schema_version ev = SCHEMA_VERSION"

lemma find_version_None:
  "find (\<lambda>ev. ev_schema_version ev \<noteq> SCHEMA_VERSION) evs = None \<longleftrightarrow> list_all supported_version evs"
  by (auto simp: find_None_iff list_all_iff supported_version_def)

lemma append_events_memory: "append_events memory_ops evs st = (Inr (), foldl memory_append st evs)"
  by (induction evs arbitrary: st) (simp_all add: memory_ops_def)

lemma blocked_items_filter:
  "blocked_items cfg now evs =
     filter ii_blocked (map (\<lambda>ev. inventory_item_of cfg now (is_blocked (ev_agility ev)) ev) evs)"
  by (induction evs) (auto simp: inventory_item_of_def)

lemma filter_by_q_desc: "filter P (by_q_desc items) = by_q_desc (filter P items)"
  by (simp add: by_q_desc_def filter_sort)

lemma sorted_by_q_desc: "sorted_wrt (\<lambda>a b. ii_q b \<le> ii_q a) (by_q_desc items)"
proof -
  have "sorted (map (\<lambda>i. - ii_q i) (by_q_desc items))" by (simp add: by_q_desc_def)
  then show ?thesis by (simp add: sorted_wrt_map)
qed

lemma append_events_split:
  "append_events ops (pre @ post) st =
     (case append_events ops pre st of
        (Inl e, st') \<Rightarrow> (Inl e, st') | (Inr _, st') \<Rightarrow> append_events ops post st')"
  by (induction pre arbitrary: st) (auto simp: store_err_def api_fail_def split: prod.splits sum.splits)

lemma newest_of_in: "newest_of stamp es = Some e \<Longrightarrow> e \<in> set es"
  by (drule newest_of_split) auto

lemma mset_partition:
  "distinct ss \<Longrightarrow>
   mset (concat (map (\<lambda>s. filter (\<lambda>x. f x = s) xs) ss)) = mset (filter (\<lambda>x. f x \<in> set ss) xs)"
proof (induction ss)
  case (Cons s ss)
  have "s \<notin> set ss \<Longrightarrow> mset (filter (\<lambda>x. f x \<in> set (s # ss)) xs) =
      mset (filter (\<lambda>x. f x = s) xs) + mset (filter (\<lambda>x. f x \<in> set ss) xs)"
    by (induction xs) auto
  then show ?case using Cons by simp
qed simp

section \<open>Properties\<close>

text \<open>An event of an unsupported schema version anywhere in a batch rejects the whole batch with
  422 before anything is stored, whatever the store.\<close>

theorem ingest_rejects_whole_batch:
  assumes "ev \<in> set evs" "ev_schema_version ev \<noteq> SCHEMA_VERSION"
  shows "\<exists>bad\<in>set evs. ingest_batch ops evs st = (version_mismatch bad, st)"
proof -
  obtain bad where bad: "find (\<lambda>ev. ev_schema_version ev \<noteq> SCHEMA_VERSION) evs = Some bad"
    using assms find_version_None [of evs]
    by (cases "find (\<lambda>ev. ev_schema_version ev \<noteq> SCHEMA_VERSION) evs")
       (auto simp: list_all_iff supported_version_def)
  then have "bad \<in> set evs" by (auto simp: find_Some_iff)
  with bad show ?thesis
    by (auto simp: ingest_batch_def ingest_def version_mismatch_def api_fail_def)
qed

theorem ingest_rejects_whole_batch_witness:
  "\<exists>bad\<in>set [sample_event ''a'' 1, (sample_event ''b'' 2)\<lparr>ev_schema_version := 2\<rparr>].
     ingest_batch memory_ops [sample_event ''a'' 1, (sample_event ''b'' 2)\<lparr>ev_schema_version := 2\<rparr>] memory_new =
       (version_mismatch bad, memory_new)"
  by (rule ingest_rejects_whole_batch [of "(sample_event ''b'' 2)\<lparr>ev_schema_version := 2\<rparr>"])
     (simp_all add: SCHEMA_VERSION_def)

lemma inventory_of_appended:
  "\<exists>items. inventory memory_ops cfg now (memory.append_all evs) =
       Inr \<lparr>iv_count = card (key_from_event ` set evs), iv_items = items\<rparr> \<and>
     sorted_wrt (\<lambda>a b. ii_q b \<le> ii_q a) items \<and>
     set items = {inventory_item_of cfg now (is_blocked (ev_agility e)) e | e.
       newest_of id (filter (\<lambda>x. key_from_event x = key_from_event e) evs) = Some e}"
proof -
  let ?st = "memory.append_all evs"
  let ?l = "memory_latest_per_asset ?st"
  have set: "set ?l = {e. newest_of id (filter (\<lambda>x. key_from_event x = key_from_event e) evs) = Some e}"
    by (rule memory.append_all_latest_per_asset)
  have "distinct (map key_from_event ?l)"
    by (rule memory.latest_per_asset_distinct [OF memory.append_all_inv])
  then have "length ?l = card (key_from_event ` set ?l)"
    by (metis distinct_card length_map set_map)
  moreover have "key_from_event ` set ?l = key_from_event ` set evs"
  proof
    show "key_from_event ` set ?l \<subseteq> key_from_event ` set evs"
      unfolding set by (auto dest!: newest_of_in)
    show "key_from_event ` set evs \<subseteq> key_from_event ` set ?l"
    proof
      fix k assume "k \<in> key_from_event ` set evs"
      then obtain x where x: "x \<in> set evs" "k = key_from_event x" by blast
      then obtain e where e: "newest_of id (filter (\<lambda>y. key_from_event y = k) evs) = Some e"
        by (cases "newest_of id (filter (\<lambda>y. key_from_event y = k) evs)") (auto simp: filter_empty_conv)
      then have "e \<in> set (filter (\<lambda>y. key_from_event y = k) evs)"
        by (rule newest_of_in)
      then show "k \<in> key_from_event ` set ?l" using e unfolding set by force
    qed
  qed
  ultimately have card: "length ?l = card (key_from_event ` set evs)" by simp
  let ?items = "by_q_desc (map (\<lambda>ev. inventory_item_of cfg now (is_blocked (ev_agility ev)) ev) ?l)"
  have "length ?items = length ?l" by (simp add: by_q_desc_def)
  then have "inventory memory_ops cfg now ?st =
      Inr \<lparr>iv_count = card (key_from_event ` set evs), iv_items = ?items\<rparr>"
    using card by (simp add: inventory_def memory_ops_def lift_store_def Let_def)
  moreover have "set ?items = {inventory_item_of cfg now (is_blocked (ev_agility e)) e | e.
          newest_of id (filter (\<lambda>x. key_from_event x = key_from_event e) evs) = Some e}"
    unfolding by_q_desc_def set_sort set_map set by blast
  ultimately show ?thesis using sorted_by_q_desc by blast
qed

text \<open>What was ingested is what the inventory shows: after a batch into the empty in-memory store the
  inventory has one row per asset key, the newest event of that key with its score and its blocked
  flag, ordered by decreasing risk.\<close>

theorem ingest_then_inventory:
  assumes "list_all supported_version evs" "ingest_batch memory_ops evs memory_new = (r, st)"
  shows "r = Inr (length evs) \<and>
     (\<exists>items. inventory memory_ops cfg now st = Inr \<lparr>iv_count = card (key_from_event ` set evs), iv_items = items\<rparr> \<and>
        sorted_wrt (\<lambda>a b. ii_q b \<le> ii_q a) items \<and>
        set items = {inventory_item_of cfg now (is_blocked (ev_agility e)) e | e.
          newest_of id (filter (\<lambda>x. key_from_event x = key_from_event e) evs) = Some e})"
proof -
  have find: "find (\<lambda>ev. ev_schema_version ev \<noteq> SCHEMA_VERSION) evs = None"
    using assms(1) by (simp add: find_version_None)
  then have st: "st = memory.append_all evs" and r: "r = Inr (length evs)"
    using assms(2) unfolding ingest_batch_def ingest_def memory.append_all_def
    by (auto simp: append_events_memory)
  show ?thesis using inventory_of_appended [of cfg now evs] r unfolding st by simp
qed

theorem ingest_then_inventory_witness:
  "\<exists>r st items. ingest_batch memory_ops [sample_event ''a'' 1, sample_event ''a'' 2] memory_new = (r, st) \<and>
     inventory memory_ops \<lparr>rc_deadline = 0, rc_horizon_years = 5\<rparr> 0 st = Inr \<lparr>iv_count = 1, iv_items = items\<rparr>"
proof -
  obtain r st where run:
    "ingest_batch memory_ops [sample_event ''a'' 1, sample_event ''a'' 2] memory_new = (r, st)" by fastforce
  have "list_all supported_version [sample_event ''a'' 1, sample_event ''a'' 2]"
    by (simp add: supported_version_def sample_event_def SCHEMA_VERSION_def)
  from ingest_then_inventory [OF this run, of "\<lparr>rc_deadline = 0, rc_horizon_years = 5\<rparr>" 0] run
  show ?thesis by (auto simp: key_from_event_def sample_event_def)
qed

text \<open>The blocked list is the inventory restricted to its blocked rows, in the same order, whenever
  both are computed at the same time over the same store.\<close>

theorem blocked_is_filtered_inventory:
  "blocked_assets ops cfg now st =
     rbind (inventory ops cfg now st) (\<lambda>iv.
       Inr \<lparr>iv_count = length (filter ii_blocked (iv_items iv)), iv_items = filter ii_blocked (iv_items iv)\<rparr>)"
  by (cases "lift_store (so_latest ops st)")
     (simp_all add: blocked_assets_def inventory_def Let_def blocked_items_filter filter_by_q_desc)

text \<open>A store failure in the middle of a batch answers 500 although the events before it stay
  stored and the ones after it are dropped: the batch is not atomic.\<close>

theorem ingest_failure_keeps_prefix:
  assumes "list_all supported_version (pre @ e # post)"
    and "append_events ops pre st = (Inr (), st1)" "so_append ops e st1 = (Inl msg, st2)"
  shows "ingest_batch ops (pre @ e # post) st = (store_err msg, st2)"
proof -
  have "find (\<lambda>ev. ev_schema_version ev \<noteq> SCHEMA_VERSION) (pre @ e # post) = None"
    using assms(1) by (simp only: find_version_None)
  then show ?thesis
    unfolding ingest_batch_def ingest_def
    by (simp add: append_events_split assms(2,3) store_err_def api_fail_def)
qed

text \<open>A store that holds at most one event.\<close>

definition tiny_ops :: "crypto_inventory_event list store_ops" where
  "tiny_ops =
     \<lparr>so_append = (\<lambda>ev s. if s = [] then (Inr (), [ev]) else (Inl ''full'', s)),
      so_recent = (\<lambda>n s. Inr s), so_latest = (\<lambda>s. Inr s)\<rparr>"

theorem ingest_failure_keeps_prefix_witness:
  "ingest_batch tiny_ops [sample_event ''a'' 1, sample_event ''b'' 2, sample_event ''c'' 3] [] =
     (store_err ''full'', [sample_event ''a'' 1])"
  using ingest_failure_keeps_prefix [of "[sample_event ''a'' 1]" "sample_event ''b'' 2"
      "[sample_event ''c'' 3]" tiny_ops "[]" "[sample_event ''a'' 1]" "''full''" "[sample_event ''a'' 1]"]
  by (simp add: tiny_ops_def supported_version_def sample_event_def SCHEMA_VERSION_def)

text \<open>The compatibility endpoint without a stack returns the whole matrix, every entry once, even
  though it goes through a list of stack names of its own.\<close>

theorem compat_dump_complete:
  "\<exists>items. agility_compat \<lparr>cq_stack = None, cq_algorithm = algo\<rparr> = Inr (length matrix_rows, items) \<and>
     mset items = mset (map compat_row_entry matrix_rows)"
proof -
  let ?f = "\<lambda>((st, _), _). st" and ?items = "concat (map list_stack compat_stacks)"
  have lower: "map to_lower compat_stacks = compat_stacks"
    by (simp add: compat_stacks_def to_lower_def ascii_lower_def)
  have "list_stack = (\<lambda>s. map snd (filter (\<lambda>x. ?f x = to_lower s) build_matrix))"
    by (auto simp: list_stack_def Let_def fun_eq_iff split_def)
  then have "?items = concat (map (\<lambda>s. map snd (filter (\<lambda>x. ?f x = s) build_matrix)) (map to_lower compat_stacks))"
    by (simp add: comp_def)
  then have items: "?items = map snd (concat (map (\<lambda>s. filter (\<lambda>x. ?f x = s) build_matrix) compat_stacks))"
    unfolding lower by (simp add: map_concat comp_def)
  have "distinct compat_stacks" by (simp add: compat_stacks_def)
  then have "mset ?items = image_mset snd (mset (filter (\<lambda>x. ?f x \<in> set compat_stacks) build_matrix))"
    unfolding items by (simp add: mset_partition del: mset_filter)
  moreover have "list_all (\<lambda>k. fst k \<in> set compat_stacks) (map fst build_matrix)"
    unfolding matrix_keys row_keys by (simp add: compat_stacks_def)
  then have "filter (\<lambda>x. ?f x \<in> set compat_stacks) build_matrix = build_matrix"
    by (auto simp: filter_id_conv list_all_iff)
  ultimately have "mset ?items = mset (map snd build_matrix)" by simp
  then have m: "mset ?items = mset (map compat_row_entry matrix_rows)"
    by (simp add: build_matrix_rows comp_def)
  then have "length ?items = length matrix_rows" by (metis length_map size_mset)
  with m show ?thesis by (simp add: agility_compat_def Let_def)
qed

text \<open>The roadmap keys assets by identity alone, the store by module, kind and identity: two blocked
  assets that share an identity count as two today and as one from the first milestone on.\<close>

theorem roadmap_merges_shared_identity:
  assumes "so_latest ops st = Inr [e1, e2]"
    and "as_identity (ev_asset e1) = as_identity (ev_asset e2)"
    and "is_blocked (ev_agility e1)" "is_blocked (ev_agility e2)"
  shows "\<exists>r row. agility_roadmap (\<lambda>s. s) ops cfg now [m] st = Inr r \<and> rm_projections r = [row] \<and>
     rm_total r = 2 \<and> rm_today_blocked r = 2 \<and> mp_blocked_before row = 1"
proof -
  have "initial_state (map (snapshot_of cfg now) [e1, e2]) =
      [(as_identity (ev_asset e2), snapshot_of cfg now e2)]"
    using assms(2) by (simp add: initial_state_def snapshot_of_def)
  then show ?thesis
    using assms
    by (simp add: agility_roadmap_def lift_store_def project_roadmap_def project_milestone_eq keys_ok_def
        Let_def count_state_def) (simp add: snapshot_of_def)
qed

definition frozen_event :: "string \<Rightarrow> crypto_inventory_event" where
  "frozen_event source =
     (sample_event ''a'' 1)\<lparr>ev_source_module := source,
        ev_agility := Some \<lparr>ag_level = Frozen, ag_level_score = 0, ag_evidence = [],
          ag_scanner_version = [], ag_rubric_version = []\<rparr>\<rparr>"

theorem roadmap_merges_shared_identity_witness:
  "\<exists>r row. agility_roadmap (\<lambda>s. s) tiny_ops \<lparr>rc_deadline = 0, rc_horizon_years = 5\<rparr> 0 [sample_milestone []]
       [frozen_event ''ree0xq-net'', frozen_event ''ree0xq-cert''] = Inr r \<and> rm_projections r = [row] \<and>
     rm_total r = 2 \<and> rm_today_blocked r = 2 \<and> mp_blocked_before row = 1"
  by (rule roadmap_merges_shared_identity [of _ _ "frozen_event ''ree0xq-net''" "frozen_event ''ree0xq-cert''"])
     (simp_all add: tiny_ops_def frozen_event_def sample_event_def is_blocked_def)

end
