(* ===== verification/Ca.thy ===== *)
theory Ca
  imports Enrol
begin

text \<open>
  The internal certificate authority of src/crates/ree0xq-server/src/ca.rs.  The cryptographic
  library (\<open>rcgen\<close>) and the file system are parameters; certificates and keys are abstract
  types \<open>'c\<close> and \<open>'k\<close>.  A \<open>None\<close> is a panic.
\<close>

section \<open>Parameters\<close>

datatype key_usage = DigitalSignature | KeyEncipherment | KeyCertSign | CrlSign

datatype ext_key_usage = ClientAuth | ServerAuth

datatype san = SanIp string | SanDns string

record cert_params =
  cr_common_name :: string
  cr_organization :: string
  cr_is_ca :: bool
  cr_key_usages :: "key_usage list"
  cr_ext_key_usages :: "ext_key_usage list"
  cr_sans :: "san list"
  cr_not_before :: timestamp
  cr_not_after :: timestamp

record ('k, 'c) pki =
  pk_generate :: "(string, 'k) result"
  pk_key_pem :: "'k \<Rightarrow> string"
  pk_parse_key :: "string \<Rightarrow> (string, 'k) result"
  pk_parse_ca :: "string \<Rightarrow> (string, cert_params) result"
  pk_self_signed :: "cert_params \<Rightarrow> 'k \<Rightarrow> (string, 'c) result"
  pk_signed_by :: "cert_params \<Rightarrow> 'k \<Rightarrow> 'c \<Rightarrow> 'k \<Rightarrow> (string, 'c) result"
  pk_cert_pem :: "'c \<Rightarrow> string"

record disk_file =
  fl_content :: string
  fl_mode :: nat

type_synonym files = "string \<Rightarrow> disk_file option"

text \<open>\<open>io_write\<close> and \<open>io_chmod\<close> are \<open>fs::write\<close> and \<open>fs::set_permissions\<close>: an outcome and the files afterwards.\<close>

record file_io =
  io_create_dir :: "string \<Rightarrow> (string, unit) result"
  io_write :: "string \<Rightarrow> string \<Rightarrow> files \<Rightarrow> (string, unit) result \<times> files"
  io_chmod :: "string \<Rightarrow> nat \<Rightarrow> files \<Rightarrow> (string, unit) result \<times> files"

definition default_mode :: nat where
  "default_mode = 420"

text \<open>What the standard library documents: a write that succeeds sets the content, keeping the mode of
  an existing file and giving a new one the default mode; a write that fails, and a change of
  mode, touch no other file; a failed change of mode changes nothing.\<close>

definition file_io_law :: "file_io \<Rightarrow> bool" where
  "file_io_law io \<longleftrightarrow>
     (\<forall>p c fs r fs'. io_write io p c fs = (r, fs') \<longrightarrow> (\<forall>q. q \<noteq> p \<longrightarrow> fs' q = fs q) \<and>
        (is_ok r \<longrightarrow> fs' p = Some \<lparr>fl_content = c,
            fl_mode = (case fs p of Some f \<Rightarrow> fl_mode f | None \<Rightarrow> default_mode)\<rparr>)) \<and>
     (\<forall>p m fs r fs'. io_chmod io p m fs = (r, fs') \<longrightarrow>
        (is_ok r \<longrightarrow> fs' = fs(p := map_option (\<lambda>f. f\<lparr>fl_mode := m\<rparr>) (fs p))) \<and> (\<not> is_ok r \<longrightarrow> fs' = fs))"

section \<open>The code\<close>

definition CA_CERT_FILE :: string where "CA_CERT_FILE = ''ca.crt''"
definition CA_KEY_FILE :: string where "CA_KEY_FILE = ''ca.key''"

record ('k, 'c) ca =
  ca_pem :: string
  ca_issuer_cert :: 'c
  ca_issuer_key :: 'k

definition ca_path :: "string \<Rightarrow> string \<Rightarrow> string" where
  "ca_path dir name = dir @ ''/'' @ name"

definition days :: "int \<Rightarrow> int" where
  "days n = n * 86400 * 1000000000"

definition ca_params :: "timestamp \<Rightarrow> cert_params" where
  "ca_params now =
     \<lparr>cr_common_name = ''ree0xQ Root CA'', cr_organization = ''e2e Solutions'', cr_is_ca = True,
      cr_key_usages = [KeyCertSign, CrlSign, DigitalSignature], cr_ext_key_usages = [], cr_sans = [],
      cr_not_before = now, cr_not_after = now + days (365 * 10)\<rparr>"

definition write_private_key :: "file_io \<Rightarrow> string \<Rightarrow> string \<Rightarrow> files \<Rightarrow> (string, unit) result \<times> files" where
  "write_private_key io path contents fs =
     (case io_write io path contents fs of
        (Inl e, fs1) \<Rightarrow> (Inl e, fs1)
      | (Inr _, fs1) \<Rightarrow> io_chmod io path 384 fs1)"

definition partial_state_error :: "string \<Rightarrow> string" where
  "partial_state_error dir =
     ''CA dir '' @ dir @ '' contains exactly one of (ca.crt, ca.key); refusing to overwrite '' @
     [CHR 0xE2, CHR 0x80, CHR 0x94] @ '' remove the partial state and retry''"

definition generate_ca ::
  "('k, 'c) pki \<Rightarrow> file_io \<Rightarrow> timestamp \<Rightarrow> string \<Rightarrow> files \<Rightarrow> (string, string \<times> string) result \<times> files" where
  "generate_ca pki io now dir fs =
     (case rbind (pk_generate pki) (\<lambda>k. rbind (pk_self_signed pki (ca_params now) k) (\<lambda>c. Inr (k, c))) of
        Inl e \<Rightarrow> (Inl e, fs)
      | Inr (k, c) \<Rightarrow>
          (let cert_pem = pk_cert_pem pki c; key_pem = pk_key_pem pki k in
           case io_write io (ca_path dir CA_CERT_FILE) cert_pem fs of
             (Inl e, fs1) \<Rightarrow> (Inl e, fs1)
           | (Inr _, fs1) \<Rightarrow>
               (case write_private_key io (ca_path dir CA_KEY_FILE) key_pem fs1 of
                  (Inl e, fs2) \<Rightarrow> (Inl e, fs2)
                | (Inr _, fs2) \<Rightarrow> (Inr (cert_pem, key_pem), fs2))))"

definition read_text :: "string \<Rightarrow> disk_file \<Rightarrow> (string, string) result" where
  "read_text path f = (if valid_utf8 (fl_content f) then Inr (fl_content f) else Inl (''read '' @ path))"

definition read_or_generate ::
  "('k, 'c) pki \<Rightarrow> file_io \<Rightarrow> timestamp \<Rightarrow> string \<Rightarrow> files \<Rightarrow> (string, string \<times> string) result \<times> files" where
  "read_or_generate pki io now dir fs =
     (case (fs (ca_path dir CA_CERT_FILE), fs (ca_path dir CA_KEY_FILE)) of
        (Some c, Some k) \<Rightarrow>
          (rbind (read_text (ca_path dir CA_CERT_FILE) c) (\<lambda>cert_pem.
           rbind (read_text (ca_path dir CA_KEY_FILE) k) (\<lambda>key_pem. Inr (cert_pem, key_pem))), fs)
      | (None, None) \<Rightarrow> generate_ca pki io now dir fs
      | _ \<Rightarrow> (Inl (partial_state_error dir), fs))"

definition open_ca :: "('k, 'c) pki \<Rightarrow> string \<times> string \<Rightarrow> (string, ('k, 'c) ca) result" where
  "open_ca pki pems =
     (case pems of (cert_pem, key_pem) \<Rightarrow>
        rbind (pk_parse_key pki key_pem) (\<lambda>keypair.
        rbind (pk_parse_ca pki cert_pem) (\<lambda>params.
        rbind (pk_self_signed pki params keypair) (\<lambda>issuer_cert.
        Inr \<lparr>ca_pem = cert_pem, ca_issuer_cert = issuer_cert, ca_issuer_key = keypair\<rparr>))))"

definition load_or_init ::
  "('k, 'c) pki \<Rightarrow> file_io \<Rightarrow> timestamp \<Rightarrow> string \<Rightarrow> files \<Rightarrow> (string, ('k, 'c) ca) result \<times> files" where
  "load_or_init pki io now dir fs =
     (case io_create_dir io dir of
        Inl e \<Rightarrow> (Inl e, fs)
      | Inr _ \<Rightarrow>
          (case read_or_generate pki io now dir fs of
             (Inl e, fs') \<Rightarrow> (Inl e, fs')
           | (Inr pems, fs') \<Rightarrow> (open_ca pki pems, fs')))"

definition agent_params :: "string \<Rightarrow> int \<Rightarrow> timestamp \<Rightarrow> cert_params" where
  "agent_params agent_id validity_days now =
     \<lparr>cr_common_name = agent_id, cr_organization = ''ree0xQ Agent'', cr_is_ca = False,
      cr_key_usages = [DigitalSignature], cr_ext_key_usages = [ClientAuth], cr_sans = [],
      cr_not_before = now, cr_not_after = now + days validity_days\<rparr>"

definition sign_agent_cert ::
  "('k, 'c) pki \<Rightarrow> ('k, 'c) ca \<Rightarrow> timestamp \<Rightarrow> string \<Rightarrow> int \<Rightarrow> (string, agent_cert) result" where
  "sign_agent_cert pki ca now agent_id validity_days =
     rbind (pk_generate pki) (\<lambda>agent_kp.
     rbind (pk_signed_by pki (agent_params agent_id validity_days now) agent_kp
              (ca_issuer_cert ca) (ca_issuer_key ca)) (\<lambda>cert.
     Inr \<lparr>ac_cert_pem = pk_cert_pem pki cert, ac_key_pem = pk_key_pem pki agent_kp,
          ac_ca_cert_pem = ca_pem ca, ac_agent_id = agent_id,
          ac_expires_at = now + days validity_days\<rparr>))"

text \<open>\<open>parse::<IpAddr>()\<close> is a parameter; a name that is not ASCII is not an \<open>Ia5String\<close>, and the
  conversion is \<open>expect\<close>ed to succeed.\<close>

definition to_san :: "(string \<Rightarrow> bool) \<Rightarrow> string \<Rightarrow> san option" where
  "to_san is_ip s =
     (if is_ip s then Some (SanIp s)
      else if list_all (byte_in 0 0x7F) s then Some (SanDns s) else None)"

fun to_sans :: "(string \<Rightarrow> bool) \<Rightarrow> string list \<Rightarrow> san list option" where
  "to_sans is_ip [] = Some []"
| "to_sans is_ip (s # ss) =
     (case to_san is_ip s of
        None \<Rightarrow> None
      | Some x \<Rightarrow> map_option ((#) x) (to_sans is_ip ss))"

definition server_params :: "string \<Rightarrow> san list \<Rightarrow> int \<Rightarrow> timestamp \<Rightarrow> cert_params" where
  "server_params common_name sans validity_days now =
     \<lparr>cr_common_name = common_name, cr_organization = ''ree0xQ Server'', cr_is_ca = False,
      cr_key_usages = [DigitalSignature, KeyEncipherment], cr_ext_key_usages = [ServerAuth],
      cr_sans = sans, cr_not_before = now, cr_not_after = now + days validity_days\<rparr>"

record server_cert =
  sc_cert_pem :: string
  sc_key_pem :: string
  sc_ca_cert_pem :: string

definition sign_server_cert ::
  "('k, 'c) pki \<Rightarrow> ('k, 'c) ca \<Rightarrow> (string \<Rightarrow> bool) \<Rightarrow> timestamp \<Rightarrow> string \<Rightarrow> string list \<Rightarrow> int \<Rightarrow>
   (string, server_cert) result option" where
  "sign_server_cert pki ca is_ip now common_name sans validity_days =
     (case pk_generate pki of
        Inl e \<Rightarrow> Some (Inl e)
      | Inr server_kp \<Rightarrow>
          (case to_sans is_ip sans of
             None \<Rightarrow> None
           | Some ss \<Rightarrow>
               Some (rbind (pk_signed_by pki (server_params common_name ss validity_days now) server_kp
                        (ca_issuer_cert ca) (ca_issuer_key ca)) (\<lambda>cert.
                 Inr \<lparr>sc_cert_pem = pk_cert_pem pki cert, sc_key_pem = pk_key_pem pki server_kp,
                      sc_ca_cert_pem = ca_pem ca\<rparr>))))"

section \<open>Properties\<close>

lemma ca_paths_differ: "ca_path dir CA_CERT_FILE \<noteq> ca_path dir CA_KEY_FILE"
  by (simp add: ca_path_def CA_CERT_FILE_def CA_KEY_FILE_def)

lemma write_law:
  assumes "file_io_law io" "io_write io p c fs = (r, fs')"
  shows "q \<noteq> p \<Longrightarrow> fs' q = fs q"
    and "is_ok r \<Longrightarrow> fs' p = Some \<lparr>fl_content = c,
      fl_mode = (case fs p of Some f \<Rightarrow> fl_mode f | None \<Rightarrow> default_mode)\<rparr>"
  using assms unfolding file_io_law_def by blast+

lemma chmod_law:
  assumes "file_io_law io" "io_chmod io p m fs = (r, fs')"
  shows "is_ok r \<Longrightarrow> fs' = fs(p := map_option (\<lambda>f. f\<lparr>fl_mode := m\<rparr>) (fs p))"
    and "\<not> is_ok r \<Longrightarrow> fs' = fs"
  using assms unfolding file_io_law_def by blast+

lemma generate_ca_files:
  assumes "file_io_law io" "fs (ca_path dir CA_KEY_FILE) = None"
    "generate_ca pki io now dir fs = (Inr (cert, key), fs')"
  shows "map_option fl_content (fs' (ca_path dir CA_CERT_FILE)) = Some cert"
    and "fs' (ca_path dir CA_KEY_FILE) = Some \<lparr>fl_content = key, fl_mode = 384\<rparr>"
proof -
  let ?cp = "ca_path dir CA_CERT_FILE" and ?kp = "ca_path dir CA_KEY_FILE"
  obtain r1 fs1 where w1: "io_write io ?cp cert fs = (r1, fs1)" by fastforce
  obtain r2 fs2 where w2: "io_write io ?kp key fs1 = (r2, fs2)" by fastforce
  have "is_ok r1" "is_ok r2" "\<exists>r3. io_chmod io ?kp 384 fs2 = (r3, fs') \<and> is_ok r3"
    using assms(3) w1 w2
    by (auto simp: generate_ca_def write_private_key_def Let_def split: sum.splits prod.splits)
  then obtain r3 where ok: "is_ok r1" "is_ok r2" "io_chmod io ?kp 384 fs2 = (r3, fs')" "is_ok r3" by blast
  have 1: "fs1 ?cp = Some \<lparr>fl_content = cert, fl_mode = (case fs ?cp of Some f \<Rightarrow> fl_mode f | None \<Rightarrow> default_mode)\<rparr>"
    by (rule write_law(2) [OF assms(1) w1 ok(1)])
  have "fs1 ?kp = None" using write_law(1) [OF assms(1) w1, of ?kp] assms(2) ca_paths_differ by metis
  then have 2: "fs2 ?kp = Some \<lparr>fl_content = key, fl_mode = default_mode\<rparr>"
    using write_law(2) [OF assms(1) w2 ok(2)] by simp
  have 3: "fs2 ?cp = fs1 ?cp" using write_law(1) [OF assms(1) w2, of ?cp] ca_paths_differ by metis
  have 4: "fs' = fs2(?kp := map_option (\<lambda>f. f\<lparr>fl_mode := 384\<rparr>) (fs2 ?kp))"
    by (rule chmod_law(1) [OF assms(1) ok(3,4)])
  show "map_option fl_content (fs' ?cp) = Some cert"
    using 1 3 4 ca_paths_differ by simp
  show "fs' ?kp = Some \<lparr>fl_content = key, fl_mode = 384\<rparr>"
    using 2 4 by simp
qed

text \<open>The files of an authority: its certificate and some key.\<close>

definition ca_settled :: "string \<Rightarrow> string \<Rightarrow> files \<Rightarrow> bool" where
  "ca_settled dir pem fs \<longleftrightarrow>
     map_option fl_content (fs (ca_path dir CA_CERT_FILE)) = Some pem \<and> fs (ca_path dir CA_KEY_FILE) \<noteq> None"

lemma load_settles:
  assumes "file_io_law io" "load_or_init pki io now dir fs = (Inr ca1, fs1)"
  shows "ca_settled dir (ca_pem ca1) fs1"
proof -
  obtain key where pems: "read_or_generate pki io now dir fs = (Inr (ca_pem ca1, key), fs1)"
    using assms(2)
    by (auto simp: load_or_init_def open_ca_def rbind_eq_Inr split: sum.splits prod.splits)
  show ?thesis
  proof (cases "fs (ca_path dir CA_KEY_FILE)")
    case None
    then have "generate_ca pki io now dir fs = (Inr (ca_pem ca1, key), fs1)"
      using pems by (auto simp: read_or_generate_def split: option.splits)
    from generate_ca_files [OF assms(1) None this] show ?thesis by (simp add: ca_settled_def)
  next
    case (Some k)
    then show ?thesis
      using pems
      by (auto simp: read_or_generate_def rbind_eq_Inr read_text_def ca_settled_def split: option.splits if_splits)
  qed
qed

lemma settled_load:
  assumes "ca_settled dir pem fs" "load_or_init pki io now dir fs = (r, fs')"
  shows "fs' = fs \<and> (\<forall>ca. r = Inr ca \<longrightarrow> ca_pem ca = pem)"
  using assms
  by (auto simp: ca_settled_def load_or_init_def read_or_generate_def open_ca_def rbind_eq_Inr read_text_def
      split: sum.splits prod.splits if_splits)

text \<open>The certificate authority is stable across restarts: once a start has succeeded, the files
  hold its certificate and its key, every later start that succeeds hands out the same
  certificate, and later starts never change the files.\<close>

theorem ca_stable_across_restarts:
  assumes "file_io_law io" "load_or_init pki io now dir fs = (Inr ca1, fs1)"
    and "load_or_init pki2 io2 now2 dir fs1 = (r, fs2)"
  shows "fs2 = fs1 \<and> (\<forall>ca2. r = Inr ca2 \<longrightarrow> ca_pem ca2 = ca_pem ca1)"
  by (rule settled_load [OF load_settles [OF assms(1,2)] assms(3)])

text \<open>A start that fails after writing the certificate leaves a directory no later start accepts:
  it is refused as partial state, with the files untouched, until someone removes the file.\<close>

theorem ca_interrupted_init_refused:
  assumes "file_io_law io" "io_create_dir io dir = Inr ()"
    and "fs (ca_path dir CA_CERT_FILE) = None" "fs (ca_path dir CA_KEY_FILE) = None"
    and "pk_generate pki = Inr k" "pk_self_signed pki (ca_params now) k = Inr c"
    and "io_write io (ca_path dir CA_CERT_FILE) (pk_cert_pem pki c) fs = (Inr (), fs1)"
    and "io_write io (ca_path dir CA_KEY_FILE) (pk_key_pem pki k) fs1 = (Inl e, fs1)"
  shows "load_or_init pki io now dir fs = (Inl e, fs1) \<and>
     load_or_init pki io now2 dir fs1 = (Inl (partial_state_error dir), fs1)"
proof -
  have "fs1 (ca_path dir CA_CERT_FILE) \<noteq> None"
    using write_law(2) [OF assms(1,7)] by simp
  moreover have "fs1 (ca_path dir CA_KEY_FILE) = None"
    using write_law(1) [OF assms(1,7)] assms(4) ca_paths_differ by metis
  ultimately show ?thesis
    using assms(2-8)
    by (auto simp: load_or_init_def read_or_generate_def generate_ca_def write_private_key_def Let_def)
qed

text \<open>The private key is not created with mode 0600, it is given that mode afterwards: when the
  change of mode fails, the first start reports the error but the key stays on disk with the
  default mode, and the next start uses it without looking at its mode.\<close>

theorem ca_key_left_readable:
  assumes "file_io_law io" "io_create_dir io dir = Inr ()"
    and "fs (ca_path dir CA_CERT_FILE) = None" "fs (ca_path dir CA_KEY_FILE) = None"
    and "pk_generate pki = Inr k" "pk_self_signed pki (ca_params now) k = Inr c"
    and "io_write io (ca_path dir CA_CERT_FILE) (pk_cert_pem pki c) fs = (Inr (), fs1)"
    and "io_write io (ca_path dir CA_KEY_FILE) (pk_key_pem pki k) fs1 = (Inr (), fs2)"
    and "io_chmod io (ca_path dir CA_KEY_FILE) 384 fs2 = (Inl e, fs2)"
    and "valid_utf8 (pk_cert_pem pki c)" "valid_utf8 (pk_key_pem pki k)"
  shows "load_or_init pki io now dir fs = (Inl e, fs2) \<and>
     fs2 (ca_path dir CA_KEY_FILE) = Some \<lparr>fl_content = pk_key_pem pki k, fl_mode = default_mode\<rparr> \<and>
     load_or_init pki io now2 dir fs2 = (open_ca pki (pk_cert_pem pki c, pk_key_pem pki k), fs2)"
proof -
  let ?cp = "ca_path dir CA_CERT_FILE" and ?kp = "ca_path dir CA_KEY_FILE"
  have "fs1 ?kp = None" using write_law(1) [OF assms(1,7)] assms(4) ca_paths_differ by metis
  then have k: "fs2 ?kp = Some \<lparr>fl_content = pk_key_pem pki k, fl_mode = default_mode\<rparr>"
    using write_law(2) [OF assms(1,8)] by simp
  have "fs2 ?cp = fs1 ?cp" using write_law(1) [OF assms(1,8)] ca_paths_differ by metis
  then have c: "fs2 ?cp = Some \<lparr>fl_content = pk_cert_pem pki c, fl_mode = default_mode\<rparr>"
    using write_law(2) [OF assms(1,7)] assms(3) by simp
  show ?thesis
    using assms(2-11) k c
    by (simp add: load_or_init_def read_or_generate_def generate_ca_def write_private_key_def Let_def read_text_def)
qed

text \<open>C17: an enrolment that succeeds has redeemed the token its \<open>X-Bootstrap-Token\<close> header names, a live
  one of the agent it names, and returns a certificate the authority signed over a fresh key that is returned
  with it.  Its subject is the agent, as common name in the organization \<open>ree0xQ Agent\<close>; it is no
  CA, has the key usage digitalSignature, the extended key usage clientAuth and no other, and no alternative
  names.  It is valid from the signing for the number of days the request asks for, by default 365 and at
  least 1 and at most 1825, and that is the expiry the reply reports.\<close>

theorem enrolled_certificate:
  assumes "enrol (sign_agent_cert pki ca now_sign) hs req now tokens = (Inr cert, tokens')"
  shows "\<exists>token e validity k params c.
     header_str hs ''X-Bootstrap-Token'' = Some token \<and>
     tokens token = Some e \<and> te_agent_id e = er_agent_id req \<and> now \<le> te_expires_at e \<and>
     tokens' = tokens(token := None) \<and>
     validity = (case er_validity_days req of None \<Rightarrow> 365 | Some d \<Rightarrow> d) \<and> 1 \<le> validity \<and> validity \<le> 1825 \<and>
     pk_generate pki = Inr k \<and>
     pk_signed_by pki params k (ca_issuer_cert ca) (ca_issuer_key ca) = Inr c \<and>
     cr_common_name params = er_agent_id req \<and> cr_organization params = ''ree0xQ Agent'' \<and>
     \<not> cr_is_ca params \<and> cr_key_usages params = [DigitalSignature] \<and> cr_ext_key_usages params = [ClientAuth] \<and>
     cr_sans params = [] \<and> cr_not_before params = now_sign \<and>
     cr_not_after params = now_sign + validity * (24 * 60 * 60 * 1000000000) \<and>
     ac_cert_pem cert = pk_cert_pem pki c \<and> ac_key_pem cert = pk_key_pem pki k \<and>
     ac_agent_id cert = er_agent_id req \<and> ac_ca_cert_pem cert = ca_pem ca \<and>
     ac_expires_at cert = cr_not_after params"
proof -
  define validity where "validity = (case er_validity_days req of None \<Rightarrow> 365 | Some d \<Rightarrow> d)"
  obtain token e where h: "header_str hs ''X-Bootstrap-Token'' = Some token"
    and e: "consume tokens token (er_agent_id req) now = (Inr e, tokens')"
    and v: "1 \<le> validity" "validity \<le> 1825"
    and s: "sign_agent_cert pki ca now_sign (er_agent_id req) validity = Inr cert"
    using assms
    unfolding enrol_def Let_def validity_def [symmetric] BOOTSTRAP_HEADER_def DEFAULT_AGENT_VALIDITY_DAYS_def
    by (auto simp: api_fail_def consume_failure_def
        split: if_splits prod.splits sum.splits consume_error.splits option.splits)
  have "tokens token = Some e" "now \<le> te_expires_at e" "te_agent_id e = er_agent_id req"
    using consume_ok_iff [of tokens token "er_agent_id req" now e] e by simp_all
  moreover have "tokens' = tokens(token := None)"
    using consume_ok_removes [of tokens token "er_agent_id req" now] e by simp
  moreover obtain k c where "pk_generate pki = Inr k" "pk_signed_by pki (agent_params (er_agent_id req) validity now_sign) k
      (ca_issuer_cert ca) (ca_issuer_key ca) = Inr c" "ac_cert_pem cert = pk_cert_pem pki c"
    "ac_key_pem cert = pk_key_pem pki k" "ac_agent_id cert = er_agent_id req" "ac_ca_cert_pem cert = ca_pem ca"
    "ac_expires_at cert = now_sign + days validity"
    using s by (auto simp: sign_agent_cert_def rbind_eq_Inr)
  ultimately show ?thesis
    using v h validity_def
    by (intro exI [of _ token] exI [of _ e] exI [of _ validity] exI [of _ k]
        exI [of _ "agent_params (er_agent_id req) validity now_sign"] exI [of _ c])
      (simp add: agent_params_def days_def)
qed

section \<open>Concrete instances\<close>

text \<open>A toy authority, whose certificates are their parameters, and a file system in which writes to
  the paths in \<open>bad\<close> fail and changes of mode succeed if \<open>ch\<close> holds.\<close>

definition toy_pki :: "(string, cert_params) pki" where
  "toy_pki =
     \<lparr>pk_generate = Inr ''key'', pk_key_pem = id, pk_parse_key = Inr, pk_parse_ca = (\<lambda>_. Inr (ca_params 0)),
      pk_self_signed = (\<lambda>p k. Inr p), pk_signed_by = (\<lambda>p k c ck. Inr p), pk_cert_pem = (\<lambda>_. ''cert'')\<rparr>"

definition toy_io :: "string list \<Rightarrow> bool \<Rightarrow> file_io" where
  "toy_io bad ch =
     \<lparr>io_create_dir = (\<lambda>_. Inr ()),
      io_write = (\<lambda>p c fs. if p \<in> set bad then (Inl ''disk full'', fs)
        else (Inr (), fs(p \<mapsto> \<lparr>fl_content = c,
            fl_mode = (case fs p of Some f \<Rightarrow> fl_mode f | None \<Rightarrow> default_mode)\<rparr>))),
      io_chmod = (\<lambda>p m fs. if ch then (Inr (), fs(p := map_option (\<lambda>f. f\<lparr>fl_mode := m\<rparr>) (fs p)))
        else (Inl ''not permitted'', fs))\<rparr>"

lemma toy_io_law: "file_io_law (toy_io bad ch)"
  by (auto simp: file_io_law_def toy_io_def split: if_splits)

definition toy_dir :: string where "toy_dir = ''ca''"

definition toy_ca :: "(string, cert_params) ca" where
  "toy_ca = \<lparr>ca_pem = ''cert'', ca_issuer_cert = ca_params 0, ca_issuer_key = ''key''\<rparr>"

lemmas toy_defs = toy_pki_def toy_io_def toy_dir_def ca_path_def CA_CERT_FILE_def CA_KEY_FILE_def

lemma toy_root_utf8: "valid_utf8 ''cert''" "valid_utf8 ''key''"
  by (auto intro!: valid_utf8_ascii simp: byte_in_def)

lemma toy_first_start:
  "\<exists>fs1. load_or_init toy_pki (toy_io [] True) 0 toy_dir Map.empty = (Inr toy_ca, fs1)"
  by (simp add: load_or_init_def read_or_generate_def generate_ca_def write_private_key_def open_ca_def
      toy_defs ca_params_def toy_ca_def Let_def)

theorem ca_stable_across_restarts_witness:
  "\<exists>fs1 r. load_or_init toy_pki (toy_io [] True) 0 toy_dir Map.empty = (Inr toy_ca, fs1) \<and>
     load_or_init toy_pki (toy_io [] False) 9 toy_dir fs1 = (r, fs1) \<and>
     (\<forall>ca2. r = Inr ca2 \<longrightarrow> ca_pem ca2 = ca_pem toy_ca)"
proof -
  obtain fs1 where 1: "load_or_init toy_pki (toy_io [] True) 0 toy_dir Map.empty = (Inr toy_ca, fs1)"
    using toy_first_start by blast
  obtain r fs2 where 2: "load_or_init toy_pki (toy_io [] False) 9 toy_dir fs1 = (r, fs2)" by fastforce
  from ca_stable_across_restarts [OF toy_io_law 1 2] 1 2 show ?thesis by blast
qed

theorem ca_interrupted_init_refused_witness:
  "\<exists>fs1. load_or_init toy_pki (toy_io [ca_path toy_dir CA_KEY_FILE] True) 0 toy_dir Map.empty
       = (Inl ''disk full'', fs1) \<and>
     load_or_init toy_pki (toy_io [ca_path toy_dir CA_KEY_FILE] True) 1 toy_dir fs1
       = (Inl (partial_state_error toy_dir), fs1)"
proof (intro exI)
  show "load_or_init toy_pki (toy_io [ca_path toy_dir CA_KEY_FILE] True) 0 toy_dir Map.empty
       = (Inl ''disk full'', [ca_path toy_dir CA_CERT_FILE \<mapsto> \<lparr>fl_content = ''cert'', fl_mode = default_mode\<rparr>]) \<and>
     load_or_init toy_pki (toy_io [ca_path toy_dir CA_KEY_FILE] True) 1 toy_dir
       [ca_path toy_dir CA_CERT_FILE \<mapsto> \<lparr>fl_content = ''cert'', fl_mode = default_mode\<rparr>]
       = (Inl (partial_state_error toy_dir),
          [ca_path toy_dir CA_CERT_FILE \<mapsto> \<lparr>fl_content = ''cert'', fl_mode = default_mode\<rparr>])"
    by (rule ca_interrupted_init_refused [OF toy_io_law]) (simp_all add: toy_defs ca_params_def)
qed

theorem ca_key_left_readable_witness:
  "\<exists>fs2. load_or_init toy_pki (toy_io [] False) 0 toy_dir Map.empty = (Inl ''not permitted'', fs2) \<and>
     fs2 (ca_path toy_dir CA_KEY_FILE) = Some \<lparr>fl_content = ''key'', fl_mode = default_mode\<rparr>"
proof -
  define fs1 where "fs1 = [ca_path toy_dir CA_CERT_FILE \<mapsto> \<lparr>fl_content = ''cert'', fl_mode = default_mode\<rparr>]"
  define fs2 where "fs2 = fs1(ca_path toy_dir CA_KEY_FILE \<mapsto> \<lparr>fl_content = ''key'', fl_mode = default_mode\<rparr>)"
  have "load_or_init toy_pki (toy_io [] False) 0 toy_dir Map.empty = (Inl ''not permitted'', fs2) \<and>
     fs2 (ca_path toy_dir CA_KEY_FILE) = Some \<lparr>fl_content = pk_key_pem toy_pki ''key'', fl_mode = default_mode\<rparr> \<and>
     load_or_init toy_pki (toy_io [] False) 1 toy_dir fs2 =
       (open_ca toy_pki (pk_cert_pem toy_pki (ca_params 0), pk_key_pem toy_pki ''key''), fs2)"
    by (rule ca_key_left_readable [OF toy_io_law, where ?fs1.0 = fs1 and k = "''key''" and c = "ca_params 0"
          and e = "''not permitted''" and ?now2.0 = 1])
       (simp_all add: toy_defs ca_params_def fs1_def fs2_def toy_root_utf8 del: valid_utf8.simps)
  then show ?thesis by (auto simp: toy_pki_def)
qed

theorem enrolled_certificate_witness:
  "\<exists>cert tokens'. enrol (sign_agent_cert toy_pki toy_ca 0) [(''X-Bootstrap-Token'', ''t'')]
       \<lparr>er_agent_id = ''a'', er_validity_days = None\<rparr> 5
       [''t'' \<mapsto> \<lparr>te_agent_id = ''a'', te_expires_at = 9\<rparr>] = (Inr cert, tokens') \<and>
     ac_agent_id cert = ''a'' \<and> ac_ca_cert_pem cert = ca_pem toy_ca"
proof -
  have "\<exists>cert tokens'. enrol (sign_agent_cert toy_pki toy_ca 0) [(''X-Bootstrap-Token'', ''t'')]
       \<lparr>er_agent_id = ''a'', er_validity_days = None\<rparr> 5
       [''t'' \<mapsto> \<lparr>te_agent_id = ''a'', te_expires_at = 9\<rparr>] = (Inr cert, tokens')"
    by (simp add: enrol_def header_str_def BOOTSTRAP_HEADER_def visible_ascii_def consume_def
        DEFAULT_AGENT_VALIDITY_DAYS_def sign_agent_cert_def toy_pki_def)
  then obtain cert tokens' where run: "enrol (sign_agent_cert toy_pki toy_ca 0) [(''X-Bootstrap-Token'', ''t'')]
       \<lparr>er_agent_id = ''a'', er_validity_days = None\<rparr> 5
       [''t'' \<mapsto> \<lparr>te_agent_id = ''a'', te_expires_at = 9\<rparr>] = (Inr cert, tokens')" by blast
  from enrolled_certificate [OF this] run show ?thesis by auto
qed

end
