(* ===== verification/Server.thy ===== *)
theory Server
  imports Ca Rate_Limit Routes
begin

text \<open>
  Assembly of the collector: the routers and the rate-limit middleware of
  src/crates/ree0xq-server/src/lib.rs, the TLS configurations of tls.rs and the start-up of
  main.rs.  The HTTP framework, \<open>rustls\<close> and the PEM reader are parameters or are represented
  by the data they are given: a router is its route table, a TLS configuration the arguments it
  was built from.
\<close>

section \<open>Routers\<close>

datatype http_method = GET | HEAD | POST | OtherMethod string

datatype handler =
    Healthz | EnrolAgent | IssueBootstrapToken
  | IngestOne | ListEvents | IngestBatch | Inventory | OrgPosture | QkdLinks | BlockedAssets
  | Recommendations | AgilityDeadlines | AgilityCompat | AgilityRoadmap

definition MAX_BODY_BYTES :: nat where
  "MAX_BODY_BYTES = 8 * 1024 * 1024"

record route =
  rt_method :: http_method
  rt_path :: string
  rt_handler :: handler
  rt_limited :: bool

definition route_of :: "bool \<Rightarrow> http_method \<times> string \<times> handler \<Rightarrow> route" where
  "route_of limited r = (case r of (m, p, h) \<Rightarrow>
     \<lparr>rt_method = m, rt_path = p, rt_handler = h, rt_limited = limited\<rparr>)"

definition router_bootstrap :: "route list" where
  "router_bootstrap =
     map (route_of False) [(GET, ''/healthz'', Healthz)] @
     map (route_of True)
       [(POST, ''/v1/enrol'', EnrolAgent), (POST, ''/v1/admin/bootstrap-tokens'', IssueBootstrapToken)]"

definition router_main :: "route list" where
  "router_main =
     map (route_of False)
       [(POST, ''/v1/events'', IngestOne), (GET, ''/v1/events'', ListEvents),
        (POST, ''/v1/events/batch'', IngestBatch), (GET, ''/v1/inventory'', Inventory),
        (GET, ''/v1/posture'', OrgPosture), (GET, ''/v1/qkd/links'', QkdLinks),
        (GET, ''/v1/blocked'', BlockedAssets), (GET, ''/v1/recommendations'', Recommendations),
        (GET, ''/v1/agility/deadlines'', AgilityDeadlines), (GET, ''/v1/agility/compat'', AgilityCompat),
        (POST, ''/v1/agility/roadmap'', AgilityRoadmap)]"

definition router :: "route list" where
  "router = router_bootstrap @ router_main"

text \<open>A request that reaches a handler, and the ways it can fail to.\<close>

record http_request =
  rq_method :: http_method
  rq_path :: string
  rq_peer :: "string option"
  rq_headers :: headers
  rq_body :: string

text \<open>The path is matched before the method; \<open>get\<close> answers \<open>HEAD\<close> as well.\<close>

definition find_path :: "route list \<Rightarrow> http_request \<Rightarrow> route option" where
  "find_path rs rq = find (\<lambda>r. rt_path r = rq_path rq) rs"

definition find_route :: "route list \<Rightarrow> http_request \<Rightarrow> route option" where
  "find_route rs rq =
     find (\<lambda>r. rt_path r = rq_path rq \<and> rt_method r = (if rq_method rq = HEAD then GET else rq_method rq)) rs"

definition request_key :: "http_request \<Rightarrow> string" where
  "request_key rq =
     client_key (rq_peer rq) (header_str (rq_headers rq) ''x-forwarded-for'')
       (header_str (rq_headers rq) ''x-real-ip'')"

text \<open>\<open>rate_limit_mw\<close>: \<open>next\<close> runs only when the limiter admits the client.\<close>

definition rate_limit_mw ::
  "nat \<Rightarrow> http_request \<Rightarrow> rate_limiter \<Rightarrow> (status_code, unit) result \<times> rate_limiter" where
  "rate_limit_mw now rq l =
     (case check_at l (request_key rq) now of
        (False, l') \<Rightarrow> (Inl TOO_MANY_REQUESTS, l')
      | (True, l') \<Rightarrow> (Inr (), l'))"

text \<open>One request to a router: the middleware of the matching path runs first, then the method is
  looked up; the body limit applies when the handler extracts the body.\<close>

definition serve ::
  "route list \<Rightarrow> nat \<Rightarrow> http_request \<Rightarrow> rate_limiter \<Rightarrow> (status_code, handler) result \<times> rate_limiter" where
  "serve rs now rq l =
     (case find_path rs rq of
        None \<Rightarrow> (Inl NOT_FOUND, l)
      | Some p \<Rightarrow>
          (case (if rt_limited p then rate_limit_mw now rq l else (Inr (), l)) of
             (Inl e, l') \<Rightarrow> (Inl e, l')
           | (Inr _, l') \<Rightarrow>
               (case find_route rs rq of
                  None \<Rightarrow> (Inl METHOD_NOT_ALLOWED, l')
                | Some r \<Rightarrow>
                    (if rt_method r = POST \<and> MAX_BODY_BYTES < length (rq_body rq)
                     then (Inl PAYLOAD_TOO_LARGE, l') else (Inr (rt_handler r), l')))))"

fun serve_all ::
  "route list \<Rightarrow> (nat \<times> http_request) list \<Rightarrow> rate_limiter \<Rightarrow> (status_code, handler) result list" where
  "serve_all rs [] l = []"
| "serve_all rs ((now, rq) # rqs) l =
     (case serve rs now rq l of (out, l') \<Rightarrow> out # serve_all rs rqs l')"

section \<open>TLS configurations\<close>

record ('c, 'k) tls_env =
  tl_certs :: "string \<Rightarrow> (string, 'c) result list"
  tl_private_key :: "string \<Rightarrow> (string, 'k option) result"
  tl_add_root :: "'c \<Rightarrow> (string, unit) result"
  tl_build_verifier :: "'c list \<Rightarrow> (string, unit) result"
  tl_single_cert :: "'c list \<Rightarrow> 'k \<Rightarrow> (string, unit) result"

record ('c, 'k) server_config =
  sg_chain :: "'c list"
  sg_key :: 'k
  sg_client_roots :: "'c list option"

fun sequence :: "(string, 'a) result list \<Rightarrow> (string, 'a list) result" where
  "sequence [] = Inr []"
| "sequence (r # rs) = rbind r (\<lambda>a. rbind (sequence rs) (\<lambda>as. Inr (a # as)))"

definition load_pem :: "('c, 'k) tls_env \<Rightarrow> string \<Rightarrow> string \<Rightarrow> (string, 'c list \<times> 'k) result" where
  "load_pem env cert_pem key_pem =
     rbind (sequence (tl_certs env cert_pem)) (\<lambda>chain.
     if chain = [] then Inl ''server cert PEM contained no certificates''
     else rbind (tl_private_key env key_pem) (\<lambda>key.
       rbind (ok_or ''server key PEM contained no private key'' key) (\<lambda>k. Inr (chain, k))))"

definition build_bootstrap_config ::
  "('c, 'k) tls_env \<Rightarrow> string \<Rightarrow> string \<Rightarrow> (string, ('c, 'k) server_config) result" where
  "build_bootstrap_config env cert_pem key_pem =
     rbind (load_pem env cert_pem key_pem) (\<lambda>(chain, key).
     rbind (tl_single_cert env chain key) (\<lambda>_.
     Inr \<lparr>sg_chain = chain, sg_key = key, sg_client_roots = None\<rparr>))"

fun add_roots :: "('c, 'k) tls_env \<Rightarrow> (string, 'c) result list \<Rightarrow> 'c list \<Rightarrow> (string, 'c list) result" where
  "add_roots env [] roots = Inr roots"
| "add_roots env (r # rs) roots =
     rbind r (\<lambda>cert. rbind (tl_add_root env cert) (\<lambda>_. add_roots env rs (roots @ [cert])))"

definition build_mtls_config ::
  "('c, 'k) tls_env \<Rightarrow> string \<Rightarrow> string \<Rightarrow> string \<Rightarrow> (string, ('c, 'k) server_config) result" where
  "build_mtls_config env cert_pem key_pem ca_cert_pem =
     rbind (load_pem env cert_pem key_pem) (\<lambda>(chain, key).
     rbind (add_roots env (tl_certs env ca_cert_pem) []) (\<lambda>roots.
     if roots = [] then Inl ''no CA certs found in ca_cert_pem''
     else rbind (tl_build_verifier env roots) (\<lambda>_.
     rbind (tl_single_cert env chain key) (\<lambda>_.
     Inr \<lparr>sg_chain = chain, sg_key = key, sg_client_roots = Some roots\<rparr>))))"

section \<open>Start-up\<close>

record args =
  ar_listen :: string
  ar_tls :: bool
  ar_tls_bootstrap_listen :: string
  ar_tls_sans :: "string list"
  ar_admin_token :: "string option"
  ar_ca_dir :: string
  ar_database_url :: "string option"
  ar_deadline :: "string option"
  ar_horizon_years :: f32

text \<open>A listener: its address, its TLS configuration if any, and its routes.\<close>

record ('c, 'k) listener =
  ln_addr :: string
  ln_config :: "('c, 'k) server_config option"
  ln_routes :: "route list"

definition san_list :: "string list \<Rightarrow> string list" where
  "san_list extras =
     fold (\<lambda>extra sans. if extra \<in> set sans then sans else sans @ [extra]) extras
       [''localhost'', ''127.0.0.1'', ''::1'']"

definition server_common_name :: "(string \<Rightarrow> bool) \<Rightarrow> string list \<Rightarrow> string" where
  "server_common_name is_ip sans =
     (case find (\<lambda>s. \<not> is_ip s) sans of Some s \<Rightarrow> s | None \<Rightarrow> ''ree0xq-server'')"

definition short_admin_token :: "args \<Rightarrow> bool" where
  "short_admin_token a = (case ar_admin_token a of Some t \<Rightarrow> length t < 32 | None \<Rightarrow> False)"

text \<open>\<open>parse::<SocketAddr>()\<close> is the parameter \<open>is_addr\<close>.  \<open>None\<close> is the panic of \<open>sign_server_cert\<close>.\<close>

definition run_tls ::
  "('kp, 'crt) pki \<Rightarrow> ('c, 'k) tls_env \<Rightarrow> (string \<Rightarrow> bool) \<Rightarrow> (string \<Rightarrow> bool) \<Rightarrow> ('kp, 'crt) ca \<Rightarrow>
   timestamp \<Rightarrow> args \<Rightarrow> (string, ('c, 'k) listener list) result option" where
  "run_tls pki env is_ip is_addr ca now a =
     (let sans = san_list (ar_tls_sans a) in
      case sign_server_cert pki ca is_ip now (server_common_name is_ip sans) sans 365 of
        None \<Rightarrow> None
      | Some r \<Rightarrow> Some
          (rbind r (\<lambda>server_cert.
           if \<not> is_addr (ar_listen a) then Inl (''parse --listen as SocketAddr: '' @ ar_listen a)
           else if \<not> is_addr (ar_tls_bootstrap_listen a)
           then Inl (''parse --tls-bootstrap-listen as SocketAddr: '' @ ar_tls_bootstrap_listen a)
           else
             rbind (build_mtls_config env (sc_cert_pem server_cert) (sc_key_pem server_cert)
                      (sc_ca_cert_pem server_cert)) (\<lambda>mtls.
             rbind (build_bootstrap_config env (sc_cert_pem server_cert) (sc_key_pem server_cert)) (\<lambda>boot.
             Inr [\<lparr>ln_addr = ar_listen a, ln_config = Some mtls, ln_routes = router_main\<rparr>,
                  \<lparr>ln_addr = ar_tls_bootstrap_listen a, ln_config = Some boot, ln_routes = router_bootstrap\<rparr>])))))"

definition run_plain :: "args \<Rightarrow> ('c, 'k) listener list" where
  "run_plain a = [\<lparr>ln_addr = ar_listen a, ln_config = None, ln_routes = router\<rparr>]"

definition start_listeners ::
  "('kp, 'crt) pki \<Rightarrow> ('c, 'k) tls_env \<Rightarrow> (string \<Rightarrow> bool) \<Rightarrow> (string \<Rightarrow> bool) \<Rightarrow> ('kp, 'crt) ca \<Rightarrow>
   timestamp \<Rightarrow> args \<Rightarrow> (string, ('c, 'k) listener list) result option" where
  "start_listeners pki env is_ip is_addr ca now a =
     (if ar_tls a then run_tls pki env is_ip is_addr ca now a else Some (Inr (run_plain a)))"

section \<open>Properties\<close>

definition token_handler :: "handler \<Rightarrow> bool" where
  "token_handler h \<longleftrightarrow> h = EnrolAgent \<or> h = IssueBootstrapToken"

lemma route_of_sel [simp]:
  "rt_method (route_of b (m, p, h)) = m" "rt_path (route_of b (m, p, h)) = p"
  "rt_handler (route_of b (m, p, h)) = h" "rt_limited (route_of b (m, p, h)) = b"
  by (simp_all add: route_of_def)

lemma token_routes_limited:
  "r \<in> set router \<Longrightarrow> token_handler (rt_handler r) \<longleftrightarrow> rt_limited r"
  by (auto simp: router_def router_bootstrap_def router_main_def token_handler_def)

lemma path_limited:
  "r \<in> set router \<Longrightarrow> p \<in> set router \<Longrightarrow> rt_path r = rt_path p \<Longrightarrow> rt_limited r = rt_limited p"
  by (auto simp: router_def router_bootstrap_def router_main_def)

lemma find_route_in: "find_route rs rq = Some r \<Longrightarrow> r \<in> set rs \<and> rt_path r = rq_path rq"
  by (auto simp: find_route_def find_Some_iff)

lemma find_path_in: "find_path rs rq = Some r \<Longrightarrow> r \<in> set rs \<and> rt_path r = rq_path rq"
  by (auto simp: find_path_def find_Some_iff)

lemma serve_handler:
  "serve rs now rq l = (Inr h, l') \<Longrightarrow> \<exists>r\<in>set rs. h = rt_handler r \<and> rt_path r = rq_path rq"
  by (auto simp: serve_def split: option.splits sum.splits prod.splits if_splits dest!: find_route_in)

lemma bootstrap_handlers:
  "r \<in> set router_bootstrap \<Longrightarrow> rt_handler r = Healthz \<or> token_handler (rt_handler r)"
  by (auto simp: router_bootstrap_def token_handler_def)

definition limited_requests :: "route list \<Rightarrow> (nat \<times> http_request) list \<Rightarrow> (string \<times> nat) list" where
  "limited_requests rs rqs =
     map (\<lambda>(now, rq). (request_key rq, now))
       (filter (\<lambda>(now, rq). case find_path rs rq of Some r \<Rightarrow> rt_limited r | None \<Rightarrow> False) rqs)"

text \<open>The times at which requests of a client reached a handler that deals in tokens.\<close>

definition token_times ::
  "string \<Rightarrow> (nat \<times> http_request) list \<Rightarrow> (status_code, handler) result list \<Rightarrow> nat list" where
  "token_times k rqs outs =
     map (\<lambda>p. fst (fst p))
       (filter (\<lambda>p. request_key (snd (fst p)) = k \<and>
          (case snd p of Inr h \<Rightarrow> token_handler h | Inl _ \<Rightarrow> False)) (zip rqs outs))"

lemma token_times_subseq:
  assumes "set rs \<subseteq> set router"
  shows "subseq (token_times k rqs (serve_all rs rqs l))
     (admitted_times k (limited_requests rs rqs) (fst (check_all l (limited_requests rs rqs))))"
proof (induction rqs arbitrary: l)
  case Nil
  then show ?case by (simp add: token_times_def)
next
  case (Cons x rqs)
  obtain now rq where x: "x = (now, rq)" by fastforce
  show ?case
  proof (cases "find_path rs rq")
    case None
    then show ?thesis using Cons x by (simp add: serve_def token_times_def limited_requests_def)
  next
    case (Some p)
    have route: "token_handler (rt_handler r) \<longleftrightarrow> rt_limited p" if "find_route rs rq = Some r" for r
      using find_route_in [OF that] find_path_in [OF Some] assms path_limited [of r p] token_routes_limited [of r]
      by auto
    show ?thesis
    proof (cases "rt_limited p")
      case False
      then have "\<not> token_handler (rt_handler r)" if "find_route rs rq = Some r" for r
        using route [OF that] by simp
      then show ?thesis
        using Cons x Some False by (simp add: serve_def token_times_def limited_requests_def split: option.split)
    next
      case True
      obtain ok l' where c: "check_at l (request_key rq) now = (ok, l')" by fastforce
      obtain oks l'' where cs: "check_all l' (limited_requests rs rqs) = (oks, l'')" by fastforce
      define out where "out = (if \<not> ok then Inl TOO_MANY_REQUESTS
        else case find_route rs rq of None \<Rightarrow> Inl METHOD_NOT_ALLOWED
        | Some r \<Rightarrow> if rt_method r = POST \<and> MAX_BODY_BYTES < length (rq_body rq) then Inl PAYLOAD_TOO_LARGE
        else Inr (rt_handler r))"
      have s: "serve rs now rq l = (out, l')" "\<not> ok \<Longrightarrow> out = Inl TOO_MANY_REQUESTS"
        using Some True c by (auto simp: serve_def rate_limit_mw_def out_def split: option.split)
      have lim: "limited_requests rs (x # rqs) = (request_key rq, now) # limited_requests rs rqs"
        using x Some True by (simp add: limited_requests_def)
      have adm: "admitted_times k (limited_requests rs (x # rqs))
            (fst (check_all l (limited_requests rs (x # rqs)))) =
          (if request_key rq = k \<and> ok then [now] else []) @ admitted_times k (limited_requests rs rqs) oks"
        unfolding lim by (simp add: c cs admitted_times_def)
      have tok: "token_times k (x # rqs) (serve_all rs (x # rqs) l) =
          (if request_key rq = k \<and> (case out of Inr h \<Rightarrow> token_handler h | Inl _ \<Rightarrow> False) then [now] else [])
          @ token_times k rqs (serve_all rs rqs l')"
        unfolding x by (simp add: s(1) token_times_def)
      have "subseq (token_times k rqs (serve_all rs rqs l')) (admitted_times k (limited_requests rs rqs) oks)"
        using Cons [of l'] cs by simp
      then show ?thesis
        unfolding adm tok using s(2) by (cases ok) (auto split: sum.splits)
    qed
  qed
qed

lemma subseq_filter_length: "subseq xs ys \<Longrightarrow> length (filter P xs) \<le> length (filter P ys)"
  by (induction rule: list_emb.induct) auto

text \<open>C6: the token endpoints are reachable only through the limiter, on either router and for any mix of
  requests: in every window at most the configured number of requests of one client reach them.\<close>

theorem token_endpoints_limited:
  assumes "rs = router_bootstrap \<or> rs = router" "sorted (map fst rqs)"
  shows "length (filter (\<lambda>t. t \<le> u \<and> u - t < w)
     (token_times k rqs (serve_all rs rqs (limiter_new m w)))) \<le> max m 1"
proof -
  have "set rs \<subseteq> set router" using assms(1) by (auto simp: router_def)
  from subseq_filter_length [OF token_times_subseq [OF this]]
  have "length (filter (\<lambda>t. t \<le> u \<and> u - t < w) (token_times k rqs (serve_all rs rqs (limiter_new m w)))) \<le>
      length (filter (\<lambda>t. t \<le> u \<and> u - t < w) (admitted_times k (limited_requests rs rqs)
        (fst (check_all (limiter_new m w) (limited_requests rs rqs)))))" .
  also have "\<dots> \<le> max m 1"
  proof (rule admitted_window_bound)
    show "sorted (map snd (limited_requests rs rqs))"
      using sorted_filter [OF assms(2), of "\<lambda>(now, rq). case find_path rs rq of Some r \<Rightarrow> rt_limited r | None \<Rightarrow> False"]
      by (simp add: limited_requests_def split_def comp_def)
  qed
  finally show ?thesis .
qed

definition enrol_request_from :: "string option \<Rightarrow> headers \<Rightarrow> http_request" where
  "enrol_request_from peer hs =
     \<lparr>rq_method = POST, rq_path = ''/v1/enrol'', rq_peer = peer, rq_headers = hs, rq_body = []\<rparr>"

theorem token_endpoints_limited_witness:
  "length (filter (\<lambda>t. t \<le> 9 \<and> 9 - t < 60)
     (token_times ''10.0.0.1''
       [(1, enrol_request_from (Some ''10.0.0.1'') []), (2, enrol_request_from (Some ''10.0.0.1'') [])]
       (serve_all router_bootstrap
         [(1, enrol_request_from (Some ''10.0.0.1'') []), (2, enrol_request_from (Some ''10.0.0.1'') [])]
         (limiter_new 1 60)))) \<le> max 1 1"
  by (rule token_endpoints_limited) simp_all

lemma enrol_route:
  "find_path router_bootstrap (enrol_request_from peer hs) = Some (route_of True (POST, ''/v1/enrol'', EnrolAgent))"
  "find_route router_bootstrap (enrol_request_from peer hs) = Some (route_of True (POST, ''/v1/enrol'', EnrolAgent))"
  by (simp_all add: find_path_def find_route_def router_bootstrap_def enrol_request_from_def)

lemma forwarded_header_lower:
  "to_lower ''X-Forwarded-For'' = ''x-forwarded-for''"
  "to_lower ''x-forwarded-for'' = ''x-forwarded-for''"
  by (simp_all add: to_lower_def ascii_lower_def char_of_eq_iff)

lemma forwarded_key:
  "request_key (enrol_request_from peer [(''X-Forwarded-For'', show_nat i)]) = show_nat i"
proof -
  have d: "list_all is_digit (show_nat i)" by (rule show_nat_digits)
  have "trim (show_nat i) = show_nat i"
    by (rule trim_digits) (use d in simp_all)
  moreover have "CHR 0x2C \<notin> set (show_nat i)" using d by (auto simp: list_all_iff is_digit_def)
  moreover have "list_all visible_ascii (show_nat i)"
    using d by (auto simp: list_all_iff is_digit_def visible_ascii_def)
  ultimately show ?thesis
    by (simp add: request_key_def enrol_request_from_def header_str_def client_key_def split_on_no_sep
        forwarded_header_lower)
qed

lemma serve_all_admitted:
  assumes "fst (check_all l (map (\<lambda>(now, rq). (request_key rq, now)) rqs)) = replicate (length rqs) True"
    and "\<forall>(now, rq)\<in>set rqs. \<exists>peer hs. rq = enrol_request_from peer hs"
  shows "serve_all router_bootstrap rqs l = replicate (length rqs) (Inr EnrolAgent)"
  using assms
proof (induction rqs arbitrary: l)
  case (Cons x rqs)
  obtain now rq where x: "x = (now, rq)" by fastforce
  then obtain peer hs where rq: "rq = enrol_request_from peer hs" using Cons.prems(2) by auto
  obtain ok l' where c: "check_at l (request_key rq) now = (ok, l')" by fastforce
  have ok: "ok" "fst (check_all l' (map (\<lambda>(now, rq). (request_key rq, now)) rqs)) = replicate (length rqs) True"
    using Cons.prems(1) c x by (auto split: prod.splits)
  have "serve router_bootstrap now rq l = (Inr EnrolAgent, l')"
    using c ok(1) unfolding serve_def rq enrol_route
    by (simp add: rate_limit_mw_def) (simp add: enrol_request_from_def)
  then show ?case using Cons.IH [OF ok(2)] Cons.prems(2) x by simp
qed simp

text \<open>The limiter believes the client about its address: one peer that puts a new number into
  \<open>X-Forwarded-For\<close> each time is never limited, however many requests it sends at one instant.\<close>

theorem forwarded_for_defeats_limiter:
  "serve_all router_bootstrap
     (map (\<lambda>i. (t, enrol_request_from (Some peer) [(''X-Forwarded-For'', show_nat i)])) [0..<n])
     (limiter_new m w) = replicate n (Inr EnrolAgent)"
proof -
  let ?rqs = "map (\<lambda>i. (t, enrol_request_from (Some peer) [(''X-Forwarded-For'', show_nat i)])) [0..<n]"
  have keys: "map (\<lambda>(now, rq). (request_key rq, now)) ?rqs = map (\<lambda>i. (show_nat i, t)) [0..<n]"
    by (simp add: forwarded_key)
  have "fst (check_all (limiter_new m w) (map (\<lambda>i. (show_nat i, t)) [0..<n])) =
      replicate (length (map (\<lambda>i. (show_nat i, t)) [0..<n])) True"
  proof (rule fresh_keys_pass [OF tracks_new])
    show "sorted (0 # map snd (map (\<lambda>i. (show_nat i, t)) [0..<n]))"
      by (simp add: comp_def sorted_replicate map_replicate_const)
    show "distinct (map fst (map (\<lambda>i. (show_nat i, t)) [0..<n]))"
      by (simp add: comp_def distinct_map inj_on_def show_nat_inj)
  qed (simp_all add: limiter_new_def)
  then have "fst (check_all (limiter_new m w) (map (\<lambda>(now, rq). (request_key rq, now)) ?rqs)) =
      replicate (length ?rqs) True"
    unfolding keys by simp
  then have "serve_all router_bootstrap ?rqs (limiter_new m w) = replicate (length ?rqs) (Inr EnrolAgent)"
    by (rule serve_all_admitted) auto
  then show ?thesis by simp
qed

lemma add_roots_spec:
  "add_roots env rs roots = Inr out \<Longrightarrow> \<exists>cs. out = roots @ cs \<and> map Inr cs = rs"
proof (induction rs arbitrary: roots)
  case (Cons r rs)
  then obtain c where "r = Inr c" "add_roots env rs (roots @ [c]) = Inr out"
    by (auto simp: rbind_eq_Inr)
  with Cons.IH [of "roots @ [c]"] show ?case by (metis append.assoc append_Cons append_Nil list.simps(9))
qed simp

lemma mtls_config_roots:
  "build_mtls_config env c k ca = Inr cfg \<Longrightarrow>
   \<exists>roots. sg_client_roots cfg = Some roots \<and> roots \<noteq> [] \<and> map Inr roots = tl_certs env ca"
  by (auto simp: build_mtls_config_def rbind_eq_Inr split: prod.splits if_splits dest!: add_roots_spec)

lemma sign_server_cert_ca:
  "sign_server_cert pki ca is_ip now cn sans d = Some (Inr sc) \<Longrightarrow> sc_ca_cert_pem sc = ca_pem ca"
  by (auto simp: sign_server_cert_def rbind_eq_Inr split: sum.splits option.splits)

text \<open>The two listeners of a start with TLS.\<close>

lemma tls_listeners:
  assumes "ar_tls a" "start_listeners pki env is_ip is_addr ca now a = Some (Inr lns)"
  obtains mtls boot roots where
    "lns = [\<lparr>ln_addr = ar_listen a, ln_config = Some mtls, ln_routes = router_main\<rparr>,
        \<lparr>ln_addr = ar_tls_bootstrap_listen a, ln_config = Some boot, ln_routes = router_bootstrap\<rparr>]"
    "sg_client_roots mtls = Some roots" "roots \<noteq> []" "map Inr roots = tl_certs env (ca_pem ca)"
    "sg_client_roots boot = None"
proof -
  obtain sc mtls boot where sc: "sign_server_cert pki ca is_ip now
        (server_common_name is_ip (san_list (ar_tls_sans a))) (san_list (ar_tls_sans a)) 365 = Some (Inr sc)"
    and m: "build_mtls_config env (sc_cert_pem sc) (sc_key_pem sc) (sc_ca_cert_pem sc) = Inr mtls"
    and b: "build_bootstrap_config env (sc_cert_pem sc) (sc_key_pem sc) = Inr boot"
    and lns: "lns = [\<lparr>ln_addr = ar_listen a, ln_config = Some mtls, ln_routes = router_main\<rparr>,
        \<lparr>ln_addr = ar_tls_bootstrap_listen a, ln_config = Some boot, ln_routes = router_bootstrap\<rparr>]"
    using assms
    by (auto simp: start_listeners_def run_tls_def Let_def rbind_eq_Inr split: option.splits if_splits)
  have "sg_client_roots boot = None" using b by (auto simp: build_bootstrap_config_def rbind_eq_Inr)
  then show ?thesis using that lns mtls_config_roots [OF m] sign_server_cert_ca [OF sc] by auto
qed

lemma not_bootstrap_routes:
  assumes "serve rs t rq l = (Inr h, l')" "h \<noteq> Healthz" "\<not> token_handler h"
  shows "rs \<noteq> router_bootstrap"
proof
  assume boot: "rs = router_bootstrap"
  then obtain r where "r \<in> set router_bootstrap" "h = rt_handler r" using serve_handler [OF assms(1)] by auto
  then show False using bootstrap_handlers [of r] assms(2,3) by blast
qed

text \<open>C28: with TLS on, a request that reaches any handler other than the liveness probe and the two token
  endpoints came over a listener that demands a client certificate, and the only roots that
  listener trusts are the certificates of the internal authority, of which there is at least one.\<close>

theorem tls_trust_split:
  assumes "ar_tls a" "start_listeners pki env is_ip is_addr ca now a = Some (Inr lns)"
    and "lst \<in> set lns" "serve (ln_routes lst) t rq l = (Inr h, l')" "h \<noteq> Healthz" "\<not> token_handler h"
  shows "\<exists>cfg roots. ln_config lst = Some cfg \<and> sg_client_roots cfg = Some roots \<and> roots \<noteq> [] \<and>
     map Inr roots = tl_certs env (ca_pem ca)"
proof -
  obtain mtls boot roots where l: "lns = [\<lparr>ln_addr = ar_listen a, ln_config = Some mtls, ln_routes = router_main\<rparr>,
        \<lparr>ln_addr = ar_tls_bootstrap_listen a, ln_config = Some boot, ln_routes = router_bootstrap\<rparr>]"
    "sg_client_roots mtls = Some roots" "roots \<noteq> []" "map Inr roots = tl_certs env (ca_pem ca)"
    by (rule tls_listeners [OF assms(1,2)])
  then have "ln_config lst = Some mtls" using assms(3) not_bootstrap_routes [OF assms(4-6)] by auto
  then show ?thesis using l by blast
qed

definition toy_tls :: "(string, string) tls_env" where
  "toy_tls =
     \<lparr>tl_certs = (\<lambda>s. [Inr s]), tl_private_key = (\<lambda>s. Inr (Some s)), tl_add_root = (\<lambda>_. Inr ()),
      tl_build_verifier = (\<lambda>_. Inr ()), tl_single_cert = (\<lambda>_ _. Inr ())\<rparr>"

definition toy_args :: args where
  "toy_args =
     \<lparr>ar_listen = ''a:1'', ar_tls = True, ar_tls_bootstrap_listen = ''a:2'', ar_tls_sans = [],
      ar_admin_token = None, ar_ca_dir = toy_dir, ar_database_url = None, ar_deadline = None,
      ar_horizon_years = 5\<rparr>"

definition inventory_request :: http_request where
  "inventory_request =
     \<lparr>rq_method = GET, rq_path = ''/v1/inventory'', rq_peer = None, rq_headers = [], rq_body = []\<rparr>"

theorem tls_trust_split_witness:
  "\<exists>lns cfg roots. start_listeners toy_pki toy_tls (\<lambda>_. False) (\<lambda>_. True) toy_ca 0 toy_args = Some (Inr lns) \<and>
     ln_config (hd lns) = Some cfg \<and> sg_client_roots cfg = Some roots \<and> roots = [ca_pem toy_ca]"
proof -
  obtain lns where lns: "start_listeners toy_pki toy_tls (\<lambda>_. False) (\<lambda>_. True) toy_ca 0 toy_args = Some (Inr lns)"
    "hd lns \<in> set lns" "ln_routes (hd lns) = router_main"
    by (simp add: start_listeners_def run_tls_def toy_args_def sign_server_cert_def toy_pki_def san_list_def
        to_san_def byte_in_def Let_def build_mtls_config_def build_bootstrap_config_def load_pem_def toy_tls_def)
  have "serve router_main 0 inventory_request limiter_defaults = (Inr Inventory, limiter_defaults)"
    by (simp add: serve_def find_path_def find_route_def router_main_def inventory_request_def)
  then have "\<exists>cfg roots. ln_config (hd lns) = Some cfg \<and> sg_client_roots cfg = Some roots \<and> roots \<noteq> [] \<and>
     map Inr roots = tl_certs toy_tls (ca_pem toy_ca)"
    using lns by (intro tls_trust_split [where a = toy_args and h = Inventory])
      (simp_all add: toy_args_def token_handler_def)
  then show ?thesis using lns(1) by (auto simp: toy_tls_def)
qed

lemma san_list_distinct: "distinct (san_list extras) \<and> set (san_list extras) =
    {''localhost'', ''127.0.0.1'', ''::1''} \<union> set extras \<and> hd (san_list extras) = ''localhost''"
proof -
  have "distinct ss \<Longrightarrow> ss \<noteq> [] \<Longrightarrow>
      distinct (fold (\<lambda>e sans. if e \<in> set sans then sans else sans @ [e]) es ss) \<and>
      set (fold (\<lambda>e sans. if e \<in> set sans then sans else sans @ [e]) es ss) = set ss \<union> set es \<and>
      hd (fold (\<lambda>e sans. if e \<in> set sans then sans else sans @ [e]) es ss) = hd ss" for es ss :: "string list"
    by (induction es arbitrary: ss) auto
  from this [of "[''localhost'', ''127.0.0.1'', ''::1'']" extras] show ?thesis
    unfolding san_list_def by simp
qed

lemma to_sans_None: "to_sans is_ip ss = None \<longleftrightarrow> (\<exists>s\<in>set ss. to_san is_ip s = None)"
  by (induction ss) (auto split: option.splits)

text \<open>The names of the server certificate: the loopback names always come first, the operator's names are
  added once each, the common name is \<open>localhost\<close> whatever they are, and a name that is neither an
  address nor ASCII makes the start-up panic instead of returning an error.\<close>

theorem server_names:
  assumes "\<not> is_ip ''localhost''" "pk_generate pki = Inr k"
  shows "server_common_name is_ip (san_list extras) = ''localhost'' \<and>
     (sign_server_cert pki ca is_ip now (server_common_name is_ip (san_list extras)) (san_list extras) 365 = None
        \<longleftrightarrow> list_ex (\<lambda>s. \<not> is_ip s \<and> \<not> list_all (byte_in 0 0x7F) s) extras)"
proof -
  have s: "hd (san_list extras) = ''localhost''" "set (san_list extras) =
      {''localhost'', ''127.0.0.1'', ''::1''} \<union> set extras" using san_list_distinct by blast+
  then obtain ss where "san_list extras = ''localhost'' # ss" by (cases "san_list extras") auto
  then have "server_common_name is_ip (san_list extras) = ''localhost''"
    using assms(1) by (simp add: server_common_name_def)
  moreover have "to_sans is_ip (san_list extras) = None \<longleftrightarrow>
      list_ex (\<lambda>s. \<not> is_ip s \<and> \<not> list_all (byte_in 0 0x7F) s) extras"
  proof -
    let ?bad = "\<lambda>s. \<not> is_ip s \<and> \<not> list_all (byte_in 0 0x7F) s"
    have "to_san is_ip x = None \<longleftrightarrow> ?bad x" for x by (simp add: to_san_def)
    moreover have "\<not> ?bad ''localhost''" "\<not> ?bad ''127.0.0.1''" "\<not> ?bad ''::1''"
      by (simp_all add: byte_in_def)
    ultimately show ?thesis unfolding to_sans_None s(2) list_ex_iff by (simp only: bex_Un bex_simps) simp
  qed
  moreover have "sign_server_cert pki ca is_ip now cn ss d = None \<longleftrightarrow> to_sans is_ip ss = None" for cn ss d
    using assms(2) by (simp add: sign_server_cert_def split: option.splits)
  ultimately show ?thesis by simp
qed

theorem server_names_witness:
  "server_common_name (\<lambda>_. False) (san_list [''q.example'']) = ''localhost'' \<and>
     (sign_server_cert toy_pki toy_ca (\<lambda>_. False) 0 (server_common_name (\<lambda>_. False) (san_list [''q.example'']))
        (san_list [''q.example'']) 365 = None
        \<longleftrightarrow> list_ex (\<lambda>s. \<not> False \<and> \<not> list_all (byte_in 0 0x7F) s) [''q.example''])"
  by (rule server_names) (simp_all add: toy_pki_def)

end
