(* ===== verification/Live.thy ===== *)
theory Live
  imports Algo_Tables Dedup
begin

unbundle bit_operations_syntax

text \<open>
  Live TLS observation: the packet path shared by pcap files and libpcap
  (src/crates/ree0xq-net/src/live.rs), the kernel-side classifier
  (src/crates/ree0xq-net-ebpf/src/main.rs) and its userspace loader
  (src/crates/ree0xq-net/src/live_iface.rs), with the event builders.  The frame slicer
  (\<open>etherparse\<close>) is a parameter; every frame comes with the instant the dedup cache reads and the
  wall-clock time of the event.
\<close>

section \<open>Events\<close>

definition MODULE_NAME :: string where
  "MODULE_NAME = ''ree0xq-net''"

definition tls_event :: "string \<Rightarrow> string \<Rightarrow> primitive list \<Rightarrow> string \<Rightarrow> timestamp \<Rightarrow> crypto_inventory_event" where
  "tls_event host ident prims rationale now =
     \<lparr>ev_schema_version = SCHEMA_VERSION, ev_schema_minor = SCHEMA_MINOR,
      ev_source_module = MODULE_NAME, ev_observed_at = now,
      ev_asset = \<lparr>as_kind = TlsSession, as_identity = ident, as_host = Some host\<rparr>,
      ev_primitives = prims, ev_channel_protection = None, ev_agility = None,
      ev_posture = \<lparr>po_score = 50, po_rationale = rationale, po_replacement = None\<rparr>\<rparr>"

definition algorithms_text :: "primitive list \<Rightarrow> string" where
  "algorithms_text prims = intercalate '', '' (map pr_algorithm prims)"

definition build_tls_event :: "string \<Rightarrow> string \<Rightarrow> primitive list \<Rightarrow> timestamp \<Rightarrow> crypto_inventory_event" where
  "build_tls_event host ident prims now =
     tls_event host ident prims
       (if prims = [] then ''TLS handshake observed but no primitives extracted''
        else show_nat (length prims) @ '' primitive(s) observed: '' @ algorithms_text prims) now"

fun kind_text :: "handshake_kind \<Rightarrow> string" where
  "kind_text ClientHello = ''ClientHello''"
| "kind_text ServerHello = ''ServerHello''"

definition build_live_event ::
  "string \<Rightarrow> string \<Rightarrow> handshake_kind \<Rightarrow> primitive list \<Rightarrow> timestamp \<Rightarrow> crypto_inventory_event" where
  "build_live_event host ident kind prims now =
     tls_event host ident prims
       (if prims = [] then kind_text kind @ '' observed but no primitives extracted''
        else kind_text kind @ '': '' @ show_nat (length prims) @ '' primitive(s) ['' @
          algorithms_text prims @ '']'') now"

definition session_identity :: "string option \<Rightarrow> u16 \<Rightarrow> string option \<Rightarrow> u16 \<Rightarrow> string" where
  "session_identity src_ip src_port dst_ip dst_port =
     (let or_unknown = (\<lambda>x. case x of Some s \<Rightarrow> s | None \<Rightarrow> ''?'');
          h = FNV_OFFSET;
          h = fnv_push h (or_unknown src_ip);
          h = fnv_push h '':'';
          h = fnv_push h (show_nat (unat src_port));
          h = fnv_push h ''|'';
          h = fnv_push h (or_unknown dst_ip);
          h = fnv_push h '':'';
          h = fnv_push h (show_nat (unat dst_port))
      in ''live-'' @ hex16 h)"

section \<open>The packet path\<close>

text \<open>What the slicer gives: the network layer, and the TCP layer when there is one.\<close>

datatype net_slice = NetIpv4 bytes bytes | NetIpv6 bytes bytes | NetOther

record sliced_packet =
  sl_net :: net_slice
  sl_tcp :: "(u16 \<times> u16 \<times> bytes) option"

record frame_env =
  fe_slice :: "bytes \<Rightarrow> sliced_packet option"
  fe_show_ipv6 :: "bytes \<Rightarrow> string"

definition dotted :: "bytes \<Rightarrow> string" where
  "dotted bs = intercalate ''.'' (map (\<lambda>b. show_nat (unat b)) bs)"

definition ips_from_parsed :: "frame_env \<Rightarrow> sliced_packet \<Rightarrow> string option \<times> string option" where
  "ips_from_parsed env p = (case sl_net p of
     NetIpv4 s d \<Rightarrow> (Some (dotted s), Some (dotted d))
   | NetIpv6 s d \<Rightarrow> (Some (fe_show_ipv6 env s), Some (fe_show_ipv6 env d))
   | NetOther \<Rightarrow> (None, None))"

record observation_stats =
  os_packets_seen :: nat
  os_skipped_unparseable :: nat
  os_skipped_empty :: nat
  os_handshake_packets :: nat
  os_parsed :: nat
  os_parse_failed :: nat
  os_deduplicated :: nat
  os_emitted :: nat

definition stats_zero :: observation_stats where
  "stats_zero =
     \<lparr>os_packets_seen = 0, os_skipped_unparseable = 0, os_skipped_empty = 0, os_handshake_packets = 0,
      os_parsed = 0, os_parse_failed = 0, os_deduplicated = 0, os_emitted = 0\<rparr>"

record live_state =
  lv_stats :: observation_stats
  lv_dedup :: "dedup_cache option"
  lv_events :: "crypto_inventory_event list"

definition bump :: "(observation_stats \<Rightarrow> observation_stats) \<Rightarrow> live_state \<Rightarrow> live_state" where
  "bump f s = s\<lparr>lv_stats := f (lv_stats s)\<rparr>"

definition host_text :: "string option \<Rightarrow> u16 \<Rightarrow> string" where
  "host_text dst_ip dst_port = (case dst_ip of
     Some ip \<Rightarrow> ip @ '':'' @ show_nat (unat dst_port)
   | None \<Rightarrow> ''port:'' @ show_nat (unat dst_port))"

text \<open>The tail of \<open>handle_frame\<close>, from a parsed handshake on.\<close>

definition emit_handshake ::
  "string option \<Rightarrow> u16 \<Rightarrow> string option \<Rightarrow> u16 \<Rightarrow> handshake_summary \<Rightarrow> nat \<Rightarrow> timestamp \<Rightarrow> live_state \<Rightarrow> live_state" where
  "emit_handshake src_ip src_port dst_ip dst_port summary instant now s =
     (let prims = primitives_from_summary summary;
          ident = session_identity src_ip src_port dst_ip dst_port;
          (fresh, s) = (case lv_dedup s of
             None \<Rightarrow> (True, s)
           | Some cache \<Rightarrow> (case observe_at cache ident instant of
               (fresh, cache') \<Rightarrow> (fresh, s\<lparr>lv_dedup := Some cache'\<rparr>)))
      in if \<not> fresh then bump (os_deduplicated_update Suc) s
         else bump (os_emitted_update Suc)
           (s\<lparr>lv_events := lv_events s @
              [build_live_event (host_text dst_ip dst_port) ident (msg_kind summary) prims now]\<rparr>))"

text \<open>The flag is \<open>False\<close> for \<open>Err(())\<close>.\<close>

definition handle_frame :: "frame_env \<Rightarrow> bytes \<Rightarrow> nat \<Rightarrow> timestamp \<Rightarrow> live_state \<Rightarrow> bool \<times> live_state" where
  "handle_frame env frame instant now s =
     (case fe_slice env frame of
        None \<Rightarrow> (False, s)
      | Some parsed \<Rightarrow>
     (case sl_tcp parsed of
        None \<Rightarrow> (True, s)
      | Some (src_port, dst_port, payload) \<Rightarrow>
     if payload = [] then (True, bump (os_skipped_empty_update Suc) s)
     else
       (case ips_from_parsed env parsed of (src_ip, dst_ip) \<Rightarrow>
        if length payload < 6 \<or> payload ! 0 \<noteq> 0x16 then (True, s)
        else if payload ! 5 \<noteq> 0x01 \<and> payload ! 5 \<noteq> 0x02 then (True, s)
        else
          (let s = bump (os_handshake_packets_update Suc) s in
           case parse_handshake (drop 5 payload) of
             Inl _ \<Rightarrow> (True, bump (os_parse_failed_update Suc) s)
           | Inr summary \<Rightarrow>
               (True, emit_handshake src_ip src_port dst_ip dst_port summary instant now
                        (bump (os_parsed_update Suc) s))))))"

text \<open>One packet of a capture: unreadable, or its data; with its instant and time.\<close>

type_synonym packet = "(unit, bytes) result \<times> nat \<times> timestamp"

definition observe_packet :: "frame_env \<Rightarrow> packet \<Rightarrow> live_state \<Rightarrow> live_state" where
  "observe_packet env pkt s =
     (case pkt of (data, instant, now) \<Rightarrow>
        (let s = bump (os_packets_seen_update Suc) s in
         case data of
           Inl _ \<Rightarrow> bump (os_skipped_unparseable_update Suc) s
         | Inr frame \<Rightarrow>
             (case handle_frame env frame instant now s of
                (True, s') \<Rightarrow> s'
              | (False, s') \<Rightarrow> bump (os_skipped_unparseable_update Suc) s')))"

definition observe_pcap_with_dedup ::
  "frame_env \<Rightarrow> dedup_cache option \<Rightarrow> packet list \<Rightarrow> live_state" where
  "observe_pcap_with_dedup env dedup pkts =
     foldl (\<lambda>s p. observe_packet env p s)
       \<lparr>lv_stats = stats_zero, lv_dedup = dedup, lv_events = []\<rparr> pkts"

definition observe_pcap :: "frame_env \<Rightarrow> packet list \<Rightarrow> live_state" where
  "observe_pcap env pkts = observe_pcap_with_dedup env None pkts"

text \<open>The libpcap loop: each turn first reads the stop flag, then asks for a packet.\<close>

datatype pcap_poll = PollStop | PollTimeout | PollEnd | PollError string | PollPacket bytes nat timestamp

fun observe_interface ::
  "frame_env \<Rightarrow> pcap_poll list \<Rightarrow> live_state \<Rightarrow> (string, observation_stats) result \<times> live_state" where
  "observe_interface env [] s = (Inr (lv_stats s), s)"
| "observe_interface env (p # ps) s = (case p of
     PollStop \<Rightarrow> (Inr (lv_stats s), s)
   | PollTimeout \<Rightarrow> observe_interface env ps s
   | PollEnd \<Rightarrow> (Inr (lv_stats s), s)
   | PollError e \<Rightarrow> (Inl (''next_packet: '' @ e), s)
   | PollPacket data instant now \<Rightarrow>
       observe_interface env ps (observe_packet env (Inr data, instant, now) s))"

record interface_config =
  ic_iface :: string
  ic_snaplen :: int
  ic_read_timeout_ms :: int
  ic_filter :: "string option"
  ic_promiscuous :: bool

text \<open>libpcap: looking up the device, opening it, compiling the filter, and what the turns of the loop then
  find.\<close>

record pcap_lib =
  pl_from_device :: "string \<Rightarrow> (string, unit) result"
  pl_open :: "interface_config \<Rightarrow> (string, unit) result"
  pl_filter :: "string \<Rightarrow> (string, unit) result"
  pl_polls :: "interface_config \<Rightarrow> pcap_poll list"

definition open_interface :: "pcap_lib \<Rightarrow> interface_config \<Rightarrow> (string, pcap_poll list) result" where
  "open_interface lib cfg =
     (case pl_from_device lib (ic_iface cfg) of
        Inl e \<Rightarrow> Inl (''from_device('' @ ic_iface cfg @ ''): '' @ e)
      | Inr _ \<Rightarrow>
     (case pl_open lib cfg of
        Inl e \<Rightarrow> Inl (''open('' @ ic_iface cfg @ ''): '' @ e)
      | Inr _ \<Rightarrow>
     (case ic_filter cfg of
        None \<Rightarrow> Inr (pl_polls lib cfg)
      | Some f \<Rightarrow>
          (case pl_filter lib f of
             Inl e \<Rightarrow> Inl (''filter('' @ f @ ''): '' @ e)
           | Inr _ \<Rightarrow> Inr (pl_polls lib cfg)))))"

definition observe_interface_with_dedup ::
  "frame_env \<Rightarrow> pcap_lib \<Rightarrow> interface_config \<Rightarrow> dedup_cache option \<Rightarrow> (string, observation_stats) result \<times> live_state" where
  "observe_interface_with_dedup env lib cfg dedup =
     (let s = \<lparr>lv_stats = stats_zero, lv_dedup = dedup, lv_events = []\<rparr> in
      case open_interface lib cfg of
        Inl e \<Rightarrow> (Inl e, s)
      | Inr polls \<Rightarrow> observe_interface env polls s)"

text \<open>The default interface, and the observation that reports every handshake.\<close>

definition interface_config_default :: interface_config where
  "interface_config_default =
     \<lparr>ic_iface = ''lo'', ic_snaplen = 1500, ic_read_timeout_ms = 100, ic_filter = Some ''tcp port 443'',
      ic_promiscuous = False\<rparr>"

definition observe_every ::
  "frame_env \<Rightarrow> pcap_lib \<Rightarrow> interface_config \<Rightarrow> (string, observation_stats) result \<times> live_state" where
  "observe_every env lib cfg = observe_interface_with_dedup env lib cfg None"

section \<open>The kernel-side classifier\<close>

definition MAX_HANDSHAKE_BYTES :: nat where
  "MAX_HANDSHAKE_BYTES = 1024"

record handshake_event =
  hv_src_ip :: u32
  hv_dst_ip :: u32
  hv_src_port :: u16
  hv_dst_port :: u16
  hv_len :: u16
  hv_bytes :: bytes

definition read_byte :: "bytes \<Rightarrow> nat \<Rightarrow> (unit, u8) result" where
  "read_byte ctx off = (if off < length ctx then Inr (ctx ! off) else Inl ())"

fun read_bytes :: "bytes \<Rightarrow> nat \<Rightarrow> nat \<Rightarrow> (unit, bytes) result" where
  "read_bytes ctx 0 off = Inr []"
| "read_bytes ctx (Suc n) off =
     rbind (read_byte ctx off) (\<lambda>b. rbind (read_bytes ctx n (off + 1)) (\<lambda>bs. Inr (b # bs)))"

definition u16_be :: "bytes \<Rightarrow> u16" where
  "u16_be bs = push_bit 8 (ucast (bs ! 0)) OR ucast (bs ! 1)"

definition u32_be :: "bytes \<Rightarrow> u32" where
  "u32_be bs = ((push_bit 24 (ucast (bs ! 0)) OR push_bit 16 (ucast (bs ! 1))) OR
     push_bit 8 (ucast (bs ! 2))) OR ucast (bs ! 3)"

text \<open>The copy loop into the ring-buffer entry: byte by byte until the frame or the cap ends.  The
  entry's array keeps what it held beyond the copied bytes.\<close>

fun copy_bytes :: "bytes \<Rightarrow> nat \<Rightarrow> nat \<Rightarrow> nat \<Rightarrow> bytes \<times> u16 \<Rightarrow> bytes \<times> u16" where
  "copy_bytes ctx off i 0 (bs, n) = (bs, n)"
| "copy_bytes ctx off i (Suc k) (bs, n) =
     (case read_byte ctx (off + i) of
        Inr b \<Rightarrow> copy_bytes ctx off (i + 1) k (bs[i := b], of_nat i + 1)
      | Inl _ \<Rightarrow> (bs, n))"

text \<open>\<open>room\<close> is the array of the reserved entry, or \<open>None\<close> when the ring buffer is full.\<close>

definition try_observe :: "bytes option \<Rightarrow> bytes \<Rightarrow> (unit, handshake_event option) result" where
  "try_observe room ctx =
     rbind (read_bytes ctx 2 12) (\<lambda>proto.
     if u16_be proto \<noteq> 0x0800 then Inr None else
     rbind (read_byte ctx 14) (\<lambda>ip_first.
     let ip_ihl = unat (ip_first AND 0x0f) * 4 in
     if ip_ihl < 20 then Inr None else
     rbind (read_byte ctx (14 + 9)) (\<lambda>ip_proto.
     if ip_proto \<noteq> 6 then Inr None else
     rbind (read_bytes ctx 4 (14 + 12)) (\<lambda>src_ip.
     rbind (read_bytes ctx 4 (14 + 16)) (\<lambda>dst_ip.
     let tcp_off = 14 + ip_ihl in
     rbind (read_bytes ctx 2 tcp_off) (\<lambda>src_port.
     rbind (read_bytes ctx 2 (tcp_off + 2)) (\<lambda>dst_port.
     rbind (read_byte ctx (tcp_off + 12)) (\<lambda>data_off_byte.
     let tcp_hdr_len = unat (drop_bit 4 data_off_byte) * 4 in
     if tcp_hdr_len < 20 then Inr None else
     let payload_off = tcp_off + tcp_hdr_len in
     rbind (read_byte ctx payload_off) (\<lambda>rec_type.
     if rec_type \<noteq> 0x16 then Inr None else
     rbind (read_byte ctx (payload_off + 1)) (\<lambda>major.
     if major \<noteq> 0x03 then Inr None else
     rbind (read_byte ctx (payload_off + 5)) (\<lambda>msg_type.
     if msg_type \<noteq> 0x01 \<and> msg_type \<noteq> 0x02 then Inr None else
     (case room of
        None \<Rightarrow> Inr None
      | Some old \<Rightarrow>
          (case copy_bytes ctx (payload_off + 5) 0 MAX_HANDSHAKE_BYTES (old, 0) of
             (bs, n) \<Rightarrow>
               Inr (Some \<lparr>hv_src_ip = u32_be src_ip, hv_dst_ip = u32_be dst_ip,
                 hv_src_port = u16_be src_port, hv_dst_port = u16_be dst_port,
                 hv_len = n, hv_bytes = bs\<rparr>))))))))))))))"

text \<open>The classifier lets every packet through: \<open>TC_ACT_PIPE\<close> is 3.\<close>

definition ree0xq_net_tc :: "bytes option \<Rightarrow> bytes \<Rightarrow> int \<times> handshake_event option" where
  "ree0xq_net_tc room ctx = (case try_observe room ctx of Inr e \<Rightarrow> (3, e) | Inl _ \<Rightarrow> (3, None))"

section \<open>The loader\<close>

definition octets :: "u32 \<Rightarrow> bytes" where
  "octets ip =
     [ucast (drop_bit 24 ip AND 0xff), ucast (drop_bit 16 ip AND 0xff), ucast (drop_bit 8 ip AND 0xff),
      ucast (ip AND 0xff)]"

definition session_identity_for_loader :: "u32 \<Rightarrow> u16 \<Rightarrow> u32 \<Rightarrow> u16 \<Rightarrow> string" where
  "session_identity_for_loader src_ip src_port dst_ip dst_port =
     session_identity (Some (dotted (octets src_ip))) src_port (Some (dotted (octets dst_ip))) dst_port"

definition build_loader_event ::
  "string \<Rightarrow> string \<Rightarrow> handshake_kind \<Rightarrow> primitive list \<Rightarrow> timestamp \<Rightarrow> crypto_inventory_event" where
  "build_loader_event host ident kind prims now = build_live_event host ident kind prims now"

text \<open>One ring-buffer item: shorter than the struct, or the struct.  The classifier writes no length above
  1024, where the slice would panic.\<close>

definition loader_item ::
  "handshake_event option \<Rightarrow> timestamp \<Rightarrow> observation_stats \<times> crypto_inventory_event list \<Rightarrow>
   observation_stats \<times> crypto_inventory_event list" where
  "loader_item item now = (\<lambda>(st, out).
     (let st = os_handshake_packets_update Suc (os_packets_seen_update Suc st) in
      case item of
        None \<Rightarrow> (os_skipped_unparseable_update Suc st, out)
      | Some ev \<Rightarrow>
          (case parse_handshake (take (unat (hv_len ev)) (hv_bytes ev)) of
             Inr summary \<Rightarrow>
               (let prims = primitives_from_summary summary;
                    host = dotted (octets (hv_dst_ip ev)) @ '':'' @ show_nat (unat (hv_dst_port ev));
                    ident = session_identity_for_loader (hv_src_ip ev) (hv_src_port ev)
                              (hv_dst_ip ev) (hv_dst_port ev)
                in (os_emitted_update Suc (os_parsed_update Suc st),
                    out @ [build_loader_event host ident (msg_kind summary) prims now]))
           | Inl _ \<Rightarrow> (os_parse_failed_update Suc st, out))))"

fun loader_run ::
  "(handshake_event option \<times> timestamp) list \<Rightarrow> observation_stats \<times> crypto_inventory_event list \<Rightarrow>
   observation_stats \<times> crypto_inventory_event list" where
  "loader_run [] s = s"
| "loader_run ((item, now) # items) s = loader_run items (loader_item item now s)"

text \<open>aya: the steps that attach the classifier of an object file to an interface and open its ring buffer,
  the items the buffer then yields, and the error that ends the wait for more, which is the only way out
  of the loop.\<close>

record ebpf_host =
  eh_load_file :: "string \<Rightarrow> (string, unit) result"
  eh_has_program :: "string \<Rightarrow> bool"
  eh_load_program :: "(string, unit) result"
  eh_attach :: "string \<Rightarrow> (string, unit) result"
  eh_has_map :: "string \<Rightarrow> bool"
  eh_ring :: "(string, unit) result"
  eh_items :: "(handshake_event option \<times> timestamp) list"
  eh_wait_error :: string

definition live_iface_run ::
  "ebpf_host \<Rightarrow> string \<Rightarrow> string \<Rightarrow> (string, observation_stats) result \<times> crypto_inventory_event list" where
  "live_iface_run host iface ebpf_object =
     (case rbind (eh_load_file host ebpf_object) (\<lambda>_.
           rbind (if eh_has_program host ''ree0xq_net_tc'' then Inr ()
                  else Inl ''eBPF program `ree0xq_net_tc` not in object'') (\<lambda>_.
           rbind (eh_load_program host) (\<lambda>_.
           rbind (eh_attach host iface) (\<lambda>_.
           rbind (if eh_has_map host ''EVENTS'' then Inr () else Inl ''ring buffer `EVENTS` not in object'') (\<lambda>_.
           eh_ring host))))) of
        Inl e \<Rightarrow> (Inl e, [])
      | Inr _ \<Rightarrow> (Inl (eh_wait_error host), snd (loader_run (eh_items host) (stats_zero, []))))"

section \<open>Accounting\<close>

definition stats_ok :: "live_state \<Rightarrow> bool" where
  "stats_ok s \<longleftrightarrow> (let t = lv_stats s in
     os_handshake_packets t = os_parsed t + os_parse_failed t \<and>
     os_parsed t = os_deduplicated t + os_emitted t \<and>
     os_emitted t = length (lv_events s) \<and>
     os_skipped_unparseable t + os_skipped_empty t + os_handshake_packets t \<le> os_packets_seen t)"

lemma emit_handshake_stats:
  "\<exists>d. (lv_stats (emit_handshake a b c d' sm i n s) = os_deduplicated_update Suc (lv_stats s) \<and>
        lv_events (emit_handshake a b c d' sm i n s) = lv_events s) \<or>
       (lv_stats (emit_handshake a b c d' sm i n s) = os_emitted_update Suc (lv_stats s) \<and>
        lv_events (emit_handshake a b c d' sm i n s) = lv_events s @ [d])"
  by (cases "lv_dedup s") (auto simp: emit_handshake_def bump_def Let_def split: prod.splits)

definition stats_core :: "live_state \<Rightarrow> bool" where
  "stats_core s \<longleftrightarrow> (let t = lv_stats s in
     os_handshake_packets t = os_parsed t + os_parse_failed t \<and>
     os_parsed t = os_deduplicated t + os_emitted t \<and> os_emitted t = length (lv_events s))"

definition stats_skipped :: "live_state \<Rightarrow> nat" where
  "stats_skipped s = (let t = lv_stats s in
     os_skipped_unparseable t + os_skipped_empty t + os_handshake_packets t)"

lemma emit_handshake_core:
  assumes "stats_core s"
  shows "stats_core (emit_handshake a b c d sm i n
       (bump (os_parsed_update Suc) (bump (os_handshake_packets_update Suc) s)))"
    and "stats_skipped (emit_handshake a b c d sm i n
       (bump (os_parsed_update Suc) (bump (os_handshake_packets_update Suc) s))) = Suc (stats_skipped s)"
  using assms emit_handshake_stats [of a b c d sm i n
      "bump (os_parsed_update Suc) (bump (os_handshake_packets_update Suc) s)"]
  by (auto simp: stats_core_def stats_skipped_def bump_def Let_def)

lemma handle_frame_core:
  assumes "stats_core s" "handle_frame env frame i n s = (ok, s')"
  shows "stats_core s' \<and> stats_skipped s' \<le> stats_skipped s + (if ok then 1 else 0)"
proof -
  have "stats_core (bump (os_skipped_empty_update Suc) s)"
    "stats_core (bump (os_parse_failed_update Suc) (bump (os_handshake_packets_update Suc) s))"
    "stats_skipped (bump (os_skipped_empty_update Suc) s) = Suc (stats_skipped s)"
    "stats_skipped (bump (os_parse_failed_update Suc) (bump (os_handshake_packets_update Suc) s)) =
      Suc (stats_skipped s)"
    using assms(1) by (simp_all add: stats_core_def stats_skipped_def bump_def Let_def)
  then show ?thesis
    using assms(2) emit_handshake_core [OF assms(1)] assms(1) unfolding handle_frame_def Let_def
    by (auto split: option.splits prod.splits sum.splits if_splits)
qed

lemma stats_ok_core: "stats_ok s \<longleftrightarrow> stats_core s \<and> stats_skipped s \<le> os_packets_seen (lv_stats s)"
  by (auto simp: stats_ok_def stats_core_def stats_skipped_def Let_def)

lemma handle_frame_seen:
  assumes "handle_frame env frame i n s = (ok, s')"
  shows "os_packets_seen (lv_stats s') = os_packets_seen (lv_stats s)"
proof -
  have e: "os_packets_seen (lv_stats (emit_handshake a b c d sm i n s)) = os_packets_seen (lv_stats s)"
    for a b c d sm i n s
    using emit_handshake_stats [of a b c d sm i n s] by auto
  show ?thesis
    using assms unfolding handle_frame_def Let_def
    by (auto simp: e bump_def split: option.splits prod.splits sum.splits if_splits)
qed

lemma observe_packet_seen:
  "os_packets_seen (lv_stats (observe_packet env p s)) = Suc (os_packets_seen (lv_stats s))"
proof (cases p)
  case (fields data i n)
  show ?thesis
  proof (cases data)
    case (Inr frame)
    obtain ok s' where h: "handle_frame env frame i n (bump (os_packets_seen_update Suc) s) = (ok, s')" by fastforce
    then show ?thesis
      using handle_frame_seen [OF h] fields Inr
      by (cases ok) (simp_all add: observe_packet_def bump_def Let_def)
  qed (simp add: fields observe_packet_def bump_def Let_def)
qed

lemma observe_packet_ok:
  assumes "stats_ok s"
  shows "stats_ok (observe_packet env p s)"
proof (cases p)
  case (fields data i n)
  let ?s = "bump (os_packets_seen_update Suc) s"
  have s: "stats_core ?s" "stats_skipped ?s = stats_skipped s"
    using assms by (simp_all add: stats_ok_def stats_core_def stats_skipped_def bump_def Let_def)
  have "stats_core (observe_packet env p s) \<and>
      stats_skipped (observe_packet env p s) \<le> Suc (stats_skipped s)"
  proof (cases data)
    case (Inl u)
    then show ?thesis
      using s by (simp add: fields observe_packet_def stats_core_def stats_skipped_def bump_def Let_def)
  next
    case (Inr frame)
    obtain ok s' where h: "handle_frame env frame i n ?s = (ok, s')" by fastforce
    from handle_frame_core [OF s(1) h] h show ?thesis
      using s(2) unfolding fields Inr
      by (cases ok) (simp_all add: observe_packet_def stats_core_def stats_skipped_def bump_def Let_def)
  qed
  then show ?thesis
    using assms observe_packet_seen [of env p s] by (simp add: stats_ok_core)
qed

lemma foldl_invariant: "I s \<Longrightarrow> (\<And>s p. I s \<Longrightarrow> I (f s p)) \<Longrightarrow> I (foldl f s ps)"
  by (induction ps arbitrary: s) auto

text \<open>C33: the counters of an observation account for every packet: handshake packets are parsed or fail
  to parse, parsed handshakes are dropped as duplicates or emitted, one event per emission, and no
  packet is counted under two headings.\<close>

theorem observation_accounting:
  "let s = observe_pcap_with_dedup env dedup pkts; t = lv_stats s in
   os_packets_seen t = length pkts \<and>
   os_handshake_packets t = os_parsed t + os_parse_failed t \<and>
   os_parsed t = os_deduplicated t + os_emitted t \<and>
   os_emitted t = length (lv_events s) \<and>
   os_skipped_unparseable t + os_skipped_empty t + os_handshake_packets t \<le> length pkts"
proof -
  let ?init = "\<lparr>lv_stats = stats_zero, lv_dedup = dedup, lv_events = []\<rparr>"
  have "stats_ok ?init" by (simp add: stats_ok_def stats_zero_def)
  then have ok: "stats_ok (foldl (\<lambda>s p. observe_packet env p s) ?init pkts)"
    by (rule foldl_invariant) (rule observe_packet_ok)
  have "os_packets_seen (lv_stats (observe_packet env p s)) = Suc (os_packets_seen (lv_stats s))" for p s
    by (rule observe_packet_seen)
  then have "os_packets_seen (lv_stats (foldl (\<lambda>s p. observe_packet env p s) s pkts)) =
      os_packets_seen (lv_stats s) + length pkts" for s
    by (induction pkts arbitrary: s) simp_all
  from this [of ?init] show ?thesis
    using ok by (simp add: observe_pcap_with_dedup_def stats_ok_def Let_def stats_zero_def)
qed

end
