(* ===== verification/Capture.thy ===== *)
theory Capture
  imports Live
begin

text \<open>
  What live capture promises: every handshake that parses is reported, unless its session was
  reported less than one TTL before; and the kernel-side path of
  src/crates/ree0xq-net-ebpf/src/main.rs with its loader reports what the pcap path reports, as long
  as the handshake fits the classifier's buffer.
\<close>

section \<open>The event of a frame\<close>

definition frame_event :: "frame_env \<Rightarrow> bytes \<Rightarrow> timestamp \<Rightarrow> crypto_inventory_event option" where
  "frame_event env frame now = (case fe_slice env frame of
     Some parsed \<Rightarrow> (case (sl_tcp parsed, ips_from_parsed env parsed) of
       (Some (sp, dp, payload), (src, dst)) \<Rightarrow>
         (if 6 \<le> length payload \<and> payload ! 0 = 0x16 \<and> (payload ! 5 = 1 \<or> payload ! 5 = 2)
          then (case parse_handshake (drop 5 payload) of
              Inr sm \<Rightarrow> Some (build_live_event (host_text dst dp) (session_identity src sp dst dp)
                (msg_kind sm) (primitives_from_summary sm) now)
            | Inl _ \<Rightarrow> None)
          else None)
     | _ \<Rightarrow> None)
   | None \<Rightarrow> None)"

abbreviation ev_session :: "crypto_inventory_event \<Rightarrow> string" where
  "ev_session e \<equiv> as_identity (ev_asset e)"

lemma ev_session_live [simp]: "ev_session (build_live_event h i k ps now) = i"
  by (simp add: build_live_event_def tls_event_def)

text \<open>The packet path, seen through the event of the frame.\<close>

lemma bump_dedup_events [simp]:
  "lv_dedup (bump f s) = lv_dedup s" "lv_events (bump f s) = lv_events s"
  by (simp_all add: bump_def)

lemma emit_handshake_effect:
  assumes "lv_dedup s = Some c" "observe_at c (session_identity a p b q) i = (fresh, c')"
  shows "lv_dedup (emit_handshake a p b q sm i n s) = Some c'"
    and "lv_events (emit_handshake a p b q sm i n s) = lv_events s @
      (if fresh then [build_live_event (host_text b q) (session_identity a p b q) (msg_kind sm)
         (primitives_from_summary sm) n] else [])"
  using assms by (simp_all add: emit_handshake_def Let_def)

lemma observe_packet_none:
  assumes "case fst p of Inl _ \<Rightarrow> True | Inr f \<Rightarrow> frame_event env f (snd (snd p)) = None"
  shows "lv_dedup (observe_packet env p s) = lv_dedup s \<and> lv_events (observe_packet env p s) = lv_events s"
proof (cases "fst p")
  case (Inr frame)
  obtain i n where p: "p = (Inr frame, i, n)" using Inr by (cases p) auto
  have n: "frame_event env frame n = None" using assms p by simp
  have "lv_dedup (snd (handle_frame env frame i n s)) = lv_dedup s \<and>
      lv_events (snd (handle_frame env frame i n s)) = lv_events s" for s
    using n unfolding handle_frame_def frame_event_def Let_def
    by (auto split: option.splits prod.splits sum.splits if_splits)
  from this [of "bump (os_packets_seen_update Suc) s"] show ?thesis
    unfolding p observe_packet_def Let_def by (auto split: prod.splits bool.splits)
qed (auto simp: observe_packet_def Let_def split: prod.splits)

lemma observe_packet_event:
  assumes "frame_event env f n = Some e" "lv_dedup s = Some c" "observe_at c (ev_session e) i = (fresh, c')"
  shows "lv_dedup (observe_packet env (Inr f, i, n) s) = Some c' \<and>
    lv_events (observe_packet env (Inr f, i, n) s) = lv_events s @ (if fresh then [e] else [])"
proof -
  from assms(1) obtain parsed sp dp payload src dst sm where
    x: "fe_slice env f = Some parsed" "sl_tcp parsed = Some (sp, dp, payload)"
      "ips_from_parsed env parsed = (src, dst)" "6 \<le> length payload" "payload ! 0 = 0x16"
      "payload ! 5 = 1 \<or> payload ! 5 = 2" "parse_handshake (drop 5 payload) = Inr sm"
    and e: "e = build_live_event (host_text dst dp) (session_identity src sp dst dp)
                (msg_kind sm) (primitives_from_summary sm) n"
    by (auto simp: frame_event_def split: option.splits prod.splits if_splits sum.splits)
  have pl: "payload \<noteq> []" using x(4) by auto
  let ?s = "bump (os_parsed_update Suc) (bump (os_handshake_packets_update Suc) (bump (os_packets_seen_update Suc) s))"
  have "observe_packet env (Inr f, i, n) s = emit_handshake src sp dst dp sm i n ?s"
    using x pl by (auto simp: observe_packet_def handle_frame_def Let_def)
  moreover have "lv_dedup ?s = Some c" "lv_events ?s = lv_events s" using assms(2) by simp_all
  moreover have "observe_at c (session_identity src sp dst dp) i = (fresh, c')"
    using assms(3) by (simp add: e)
  ultimately show ?thesis
    using emit_handshake_effect [of ?s c src sp dst dp i fresh c' sm n] by (simp add: e)
qed

section \<open>No session is lost\<close>

definition reported :: "frame_env \<Rightarrow> nat \<Rightarrow> packet list \<Rightarrow> crypto_inventory_event list \<Rightarrow>
    crypto_inventory_event \<Rightarrow> nat \<Rightarrow> bool" where
  "reported env ttl pkts out e t \<longleftrightarrow>
     (\<exists>f t' n' e'. (Inr f, t', n') \<in> set pkts \<and> frame_event env f n' = Some e' \<and> e' \<in> set out \<and>
        ev_session e' = ev_session e \<and> (e' = e \<or> t - t' < ttl))"

definition capture_inv :: "frame_env \<Rightarrow> nat \<Rightarrow> packet list \<Rightarrow> live_state \<Rightarrow> bool" where
  "capture_inv env ttl pkts s \<longleftrightarrow>
     (\<exists>c. lv_dedup s = Some c \<and> dc_ttl c = ttl \<and>
        (\<forall>(i, t) \<in> set (dc_entries c). \<exists>f n e. (Inr f, t, n) \<in> set pkts \<and>
           frame_event env f n = Some e \<and> e \<in> set (lv_events s) \<and> ev_session e = i)) \<and>
     (\<forall>f t n e. (Inr f, t, n) \<in> set pkts \<longrightarrow> frame_event env f n = Some e \<longrightarrow>
        reported env ttl pkts (lv_events s) e t)"

lemma dedup_insert_entries:
  "set (dc_entries (dedup_insert c i t)) \<subseteq> insert (i, t) (set (dc_entries c))"
  using set_alist_update [of i t]
  by (fastforce simp: dedup_insert_def Let_def prune_entries_def AList.delete_eq
      split: prod.splits if_splits option.splits)

lemma reported_mono:
  "reported env ttl pkts out e t \<Longrightarrow> set pkts \<subseteq> set pkts' \<Longrightarrow> set out \<subseteq> set out' \<Longrightarrow>
   reported env ttl pkts' out' e t"
  unfolding reported_def by blast

lemma capture_inv_keep:
  assumes "capture_inv env ttl pkts s" "lv_dedup s' = lv_dedup s" "lv_events s' = lv_events s"
    and "\<forall>f t n e. p = (Inr f, t, n) \<longrightarrow> frame_event env f n = Some e \<longrightarrow> reported env ttl (p # pkts) (lv_events s') e t"
  shows "capture_inv env ttl (p # pkts) s'"
proof -
  have "reported env ttl pkts (lv_events s) e t \<Longrightarrow> reported env ttl (p # pkts) (lv_events s') e t" for e t
    using assms(3) by (elim reported_mono) auto
  then show ?thesis
    using assms unfolding capture_inv_def by (fastforce split: prod.splits)
qed

lemma capture_inv_fresh:
  assumes "capture_inv env ttl pkts s" "lv_dedup s = Some c" "dc_ttl c' = ttl"
    and "set (dc_entries c') \<subseteq> insert (ev_session e, t) (set (dc_entries c))"
    and "frame_event env f n = Some e" "p = (Inr f, t, n)"
    and "lv_dedup s' = Some c'" "lv_events s' = lv_events s @ [e]"
  shows "capture_inv env ttl (p # pkts) s'"
proof -
  have mono: "reported env ttl pkts (lv_events s) e t \<Longrightarrow> reported env ttl (p # pkts) (lv_events s') e t" for e t
    by (elim reported_mono) (auto simp: assms(8))
  have new: "reported env ttl (p # pkts) (lv_events s') e t"
    unfolding reported_def using assms(5,6,8) by auto
  have "\<exists>f n e. (Inr f, t', n) \<in> set (p # pkts) \<and> frame_event env f n = Some e \<and>
      e \<in> set (lv_events s') \<and> ev_session e = i" if "(i, t') \<in> set (dc_entries c')" for i t'
  proof (cases "(i, t') = (ev_session e, t)")
    case True
    then show ?thesis using assms(5,6,8) by auto
  next
    case False
    then have "(i, t') \<in> set (dc_entries c)" using that assms(4) by auto
    then show ?thesis using assms(1,2,8) unfolding capture_inv_def by fastforce
  qed
  moreover have "reported env ttl (p # pkts) (lv_events s') e' t'"
    if "(Inr f', t', n') \<in> set (p # pkts)" "frame_event env f' n' = Some e'" for f' t' n' e'
    using that mono new assms(1,5,6) unfolding capture_inv_def by auto
  ultimately show ?thesis
    unfolding capture_inv_def using assms(3,7) by blast
qed

lemma capture_inv_step:
  assumes inv: "capture_inv env ttl pkts s"
  shows "capture_inv env ttl (p # pkts) (observe_packet env p s)"
proof (cases "case fst p of Inl _ \<Rightarrow> True | Inr f \<Rightarrow> frame_event env f (snd (snd p)) = None")
  case True
  then show ?thesis
    by (intro capture_inv_keep [OF inv]) (use observe_packet_none [OF True, of s] in \<open>auto split: sum.splits\<close>)
next
  case False
  then obtain f i n e where p: "p = (Inr f, i, n)" and e: "frame_event env f n = Some e"
    by (cases p; cases "fst p") auto
  obtain c where c: "lv_dedup s = Some c" "dc_ttl c = ttl"
    using inv by (auto simp: capture_inv_def)
  obtain fresh c' where o: "observe_at c (ev_session e) i = (fresh, c')" by fastforce
  note eff = observe_packet_event [OF e c(1) o]
  show ?thesis
  proof (cases fresh)
    case False
    from o False obtain t' where t': "map_of (dc_entries c) (ev_session e) = Some t'" "i - t' < ttl" "c' = c"
      using c(2) by (auto simp: observe_at_def split: option.splits if_splits)
    from map_of_SomeD [OF t'(1)] obtain f' n' e' where
      "(Inr f', t', n') \<in> set pkts" "frame_event env f' n' = Some e'" "e' \<in> set (lv_events s)"
      "ev_session e' = ev_session e"
      using inv c(1) unfolding capture_inv_def by fastforce
    then have "reported env ttl (p # pkts) (lv_events (observe_packet env p s)) e i"
      unfolding reported_def using eff False p t'(2) by auto
    then show ?thesis
      using capture_inv_keep [OF inv, of "observe_packet env p s" p] eff c t' False p e by auto
  next
    case True
    then have c': "c' = dedup_insert c (ev_session e) i"
      using o by (auto simp: observe_at_def split: option.splits if_splits)
    show ?thesis
      by (rule capture_inv_fresh [OF inv c(1) _ _ e p, where c' = c'])
         (use eff True c' c(2) p dedup_insert_entries [of c "ev_session e" i] in simp_all)
  qed
qed

lemma capture_inv_set: "set a = set b \<Longrightarrow> capture_inv env ttl a s \<Longrightarrow> capture_inv env ttl b s"
  by (simp add: capture_inv_def reported_def)

lemma capture_inv_foldl:
  "capture_inv env ttl done s \<Longrightarrow> capture_inv env ttl (rev pkts @ done) (foldl (\<lambda>s p. observe_packet env p s) s pkts)"
proof (induction pkts arbitrary: s "done")
  case (Cons p pkts)
  from Cons.IH [OF capture_inv_step [OF Cons.prems]] show ?case by simp
qed simp

lemma observe_packet_events_grow: "set (lv_events s) \<subseteq> set (lv_events (observe_packet env p s))"
proof -
  have e: "set (lv_events s) \<subseteq> set (lv_events (emit_handshake a b c d sm i n s))" for a b c d sm i n s
    using emit_handshake_stats [of a b c d sm i n s] by auto
  have "set (lv_events s) \<subseteq> set (lv_events (snd (handle_frame env f i n s)))" for f i n s
    using e [of "bump (os_parsed_update Suc) (bump (os_handshake_packets_update Suc) s)"]
    by (auto simp: handle_frame_def Let_def split: option.splits prod.splits sum.splits)
  note h = this [of "bump (os_packets_seen_update Suc) s"]
  obtain d i n where p: "p = (d, i, n)" by (cases p) auto
  show ?thesis
  proof (cases d)
    case (Inr f)
    obtain ok s' where "handle_frame env f i n (bump (os_packets_seen_update Suc) s) = (ok, s')" by fastforce
    then show ?thesis using h [of f i n] by (cases ok) (simp_all add: observe_packet_def p Inr Let_def)
  qed (simp add: observe_packet_def p Let_def)
qed

lemma foldl_events_grow: "set (lv_events s) \<subseteq> set (lv_events (foldl (\<lambda>s p. observe_packet env p s) s ps))"
proof (induction ps arbitrary: s)
  case (Cons p ps)
  show ?case using observe_packet_events_grow [of s env p] Cons [of "observe_packet env p s"] by auto
qed simp

lemma session_reported:
  assumes "pkts = pre @ (Inr frame, t, now) # post" "frame_event env frame now = Some e"
    and "out = lv_events (observe_pcap_with_dedup env (Some (dedup_new ttl capacity)) pkts)"
  shows "e \<in> set out \<or>
     (\<exists>frame' t' now' e'. (Inr frame', t', now') \<in> set pre \<and> frame_event env frame' now' = Some e' \<and>
        e' \<in> set out \<and> ev_session e' = ev_session e \<and> t - t' < ttl)"
proof -
  let ?init = "\<lparr>lv_stats = stats_zero, lv_dedup = Some (dedup_new ttl capacity), lv_events = []\<rparr>"
  let ?s = "foldl (\<lambda>s p. observe_packet env p s) ?init (pre @ [(Inr frame, t, now)])"
  have "capture_inv env ttl [] ?init"
    by (simp add: capture_inv_def dedup_new_def)
  from capture_inv_foldl [OF this, of "pre @ [(Inr frame, t, now)]"]
  have "reported env ttl ((Inr frame, t, now) # rev pre) (lv_events ?s) e t"
    using assms(2) unfolding capture_inv_def by auto
  moreover have "set (lv_events ?s) \<subseteq> set out"
    using foldl_events_grow [of ?s env post] by (simp add: assms(1,3) observe_pcap_with_dedup_def)
  ultimately show ?thesis
    using assms(2) unfolding reported_def by fastforce
qed

text \<open>C19: with deduplication on, every packet of a capture that carries a handshake that parses has
  its session reported: by its own event, or by the event of an earlier packet of the same session
  observed less than one TTL before it.  A parsed handshake is never dropped for lack of room in the
  cache or because of another session.\<close>

theorem no_session_lost:
  assumes "pkts = pre @ (Inr frame, t, now) # post" "frame_event env frame now = Some e"
    and "out = lv_events (observe_pcap_with_dedup env (Some (dedup_new ttl capacity)) pkts)"
  shows "e \<in> set out \<or>
     (\<exists>frame' t' now' e'. (Inr frame', t', now') \<in> set pre \<and> frame_event env frame' now' = Some e' \<and>
        e' \<in> set out \<and> ev_session e' = ev_session e \<and> t - t' < ttl)"
  by (rule session_reported [OF assms])

section \<open>Frames\<close>

text \<open>An Ethernet frame with an unfragmented IPv4 packet that carries one TCP segment: what the two
  packet paths are compared on.\<close>

record tcp_frame =
  tf_macs :: bytes
  tf_ip :: bytes
  tf_tcp :: bytes
  tf_payload :: bytes

definition frame_bytes :: "tcp_frame \<Rightarrow> bytes" where
  "frame_bytes f = tf_macs f @ [8, 0] @ tf_ip f @ tf_tcp f @ tf_payload f"

definition frame_wf :: "tcp_frame \<Rightarrow> bool" where
  "frame_wf f \<longleftrightarrow> length (tf_macs f) = 12 \<and>
     20 \<le> length (tf_ip f) \<and> drop_bit 4 (tf_ip f ! 0) = 4 \<and>
     length (tf_ip f) = unat (tf_ip f ! 0 AND 0x0f) * 4 \<and> tf_ip f ! 9 = 6 \<and>
     unat (u16_be (take 2 (drop 2 (tf_ip f)))) = length (tf_ip f) + length (tf_tcp f) + length (tf_payload f) \<and>
     u16_be (take 2 (drop 6 (tf_ip f))) AND 0x3fff = 0 \<and>
     20 \<le> length (tf_tcp f) \<and> length (tf_tcp f) = unat (drop_bit 4 (tf_tcp f ! 12)) * 4"

text \<open>etherparse's documented behaviour on such a frame.\<close>

definition sliced_frame :: "tcp_frame \<Rightarrow> sliced_packet" where
  "sliced_frame f =
     \<lparr>sl_net = NetIpv4 (take 4 (drop 12 (tf_ip f))) (take 4 (drop 16 (tf_ip f))),
      sl_tcp = Some (u16_be (take 2 (tf_tcp f)), u16_be (take 2 (drop 2 (tf_tcp f))), tf_payload f)\<rparr>"

definition slicer_law :: "frame_env \<Rightarrow> bool" where
  "slicer_law env \<longleftrightarrow> (\<forall>f. frame_wf f \<longrightarrow> fe_slice env (frame_bytes f) = Some (sliced_frame f))"

lemma read_byte_app:
  "read_byte (a @ b) (length a + k) = read_byte b k"
  by (simp add: read_byte_def nth_append)

lemma read_byte_head: "k < length a \<Longrightarrow> read_byte (a @ b) k = Inr (a ! k)"
  by (simp add: read_byte_def nth_append)

lemma read_bytes_ok: "off + n \<le> length ctx \<Longrightarrow> read_bytes ctx n off = Inr (take n (drop off ctx))"
proof (induction n arbitrary: off)
  case (Suc n)
  then have "drop off ctx = ctx ! off # drop (Suc off) ctx" by (simp add: Cons_nth_drop_Suc)
  with Suc show ?case by (simp add: read_byte_def)
qed simp

lemma copy_bytes_result:
  assumes "i + k \<le> length bs" "off + i \<le> length ctx" "n = of_nat i"
  shows "copy_bytes ctx off i k (bs, n) =
     (take i bs @ take k (drop (off + i) ctx) @ drop (i + min k (length ctx - (off + i))) bs,
      of_nat (i + min k (length ctx - (off + i))))"
  using assms
proof (induction k arbitrary: i bs n)
  case 0
  then show ?case by simp
next
  case (Suc k)
  show ?case
  proof (cases "off + i < length ctx")
    case False
    then show ?thesis using Suc.prems by (simp add: read_byte_def)
  next
    case True
    have d: "drop (off + i) ctx = ctx ! (off + i) # drop (Suc (off + i)) ctx"
      using True by (simp add: Cons_nth_drop_Suc)
    have m: "min (Suc k) (length ctx - (off + i)) = Suc (min k (length ctx - (off + Suc i)))"
      using True by simp
    have t: "take (Suc i) (bs[i := b]) = take i bs @ [b]" for b
      using Suc.prems(1) by (simp add: take_Suc_conv_app_nth)
    have "copy_bytes ctx off i (Suc k) (bs, n) = copy_bytes ctx off (Suc i) k (bs[i := ctx ! (off + i)], of_nat (Suc i))"
      using True by (simp add: read_byte_def add.commute)
    also have "\<dots> = (take (Suc i) (bs[i := ctx ! (off + i)]) @ take k (drop (off + Suc i) ctx) @
        drop (Suc i + min k (length ctx - (off + Suc i))) (bs[i := ctx ! (off + i)]),
        of_nat (Suc i + min k (length ctx - (off + Suc i))))"
      by (rule Suc.IH) (use Suc.prems(1) True in auto)
    finally show ?thesis
      unfolding d m t by simp
  qed
qed

lemma length_frame [simp]:
  "frame_wf f \<Longrightarrow> length (frame_bytes f) = 14 + length (tf_ip f) + length (tf_tcp f) + length (tf_payload f)"
  by (simp add: frame_bytes_def frame_wf_def)

lemma frame_split:
  assumes "frame_wf f"
  obtains eth where "frame_bytes f = eth @ tf_ip f @ tf_tcp f @ tf_payload f" "length eth = 14"
    "take 2 (drop 12 eth) = [8, 0]"
  using assms that [of "tf_macs f @ [8, 0]"] by (simp add: frame_bytes_def frame_wf_def)

lemma frame_reads:
  assumes "frame_wf f"
  shows "read_bytes (frame_bytes f) 2 12 = Inr [8, 0]"
    and "k < length (tf_ip f) \<Longrightarrow> read_byte (frame_bytes f) (14 + k) = Inr (tf_ip f ! k)"
    and "k + n \<le> length (tf_ip f) \<Longrightarrow> read_bytes (frame_bytes f) n (14 + k) = Inr (take n (drop k (tf_ip f)))"
    and "k < length (tf_tcp f) \<Longrightarrow> read_byte (frame_bytes f) (14 + length (tf_ip f) + k) = Inr (tf_tcp f ! k)"
    and "k + n \<le> length (tf_tcp f) \<Longrightarrow>
      read_bytes (frame_bytes f) n (14 + length (tf_ip f) + k) = Inr (take n (drop k (tf_tcp f)))"
    and "read_byte (frame_bytes f) (14 + length (tf_ip f) + length (tf_tcp f) + k) = read_byte (tf_payload f) k"
    and "drop (14 + length (tf_ip f) + length (tf_tcp f) + k) (frame_bytes f) = drop k (tf_payload f)"
proof -
  obtain eth where e: "frame_bytes f = eth @ tf_ip f @ tf_tcp f @ tf_payload f" "length eth = 14"
    "take 2 (drop 12 eth) = [8, 0]" by (rule frame_split [OF assms])
  show "read_bytes (frame_bytes f) 2 12 = Inr [8, 0]"
    using e by (simp add: read_bytes_ok)
  show "read_byte (frame_bytes f) (14 + k) = Inr (tf_ip f ! k)" if "k < length (tf_ip f)"
    using that e by (simp add: read_byte_def nth_append)
  show "read_bytes (frame_bytes f) n (14 + k) = Inr (take n (drop k (tf_ip f)))" if "k + n \<le> length (tf_ip f)"
    using that e by (simp add: read_bytes_ok)
  show "read_byte (frame_bytes f) (14 + length (tf_ip f) + k) = Inr (tf_tcp f ! k)" if "k < length (tf_tcp f)"
    using that e by (simp add: read_byte_def nth_append)
  show "read_bytes (frame_bytes f) n (14 + length (tf_ip f) + k) = Inr (take n (drop k (tf_tcp f)))"
    if "k + n \<le> length (tf_tcp f)"
    using that e by (simp add: read_bytes_ok)
  show "read_byte (frame_bytes f) (14 + length (tf_ip f) + length (tf_tcp f) + k) = read_byte (tf_payload f) k"
    using e by (simp add: read_byte_def nth_append)
  show "drop (14 + length (tf_ip f) + length (tf_tcp f) + k) (frame_bytes f) = drop k (tf_payload f)"
    using e by simp
qed

section \<open>What the kernel hands to the loader\<close>

definition hello_shaped :: "bytes \<Rightarrow> bool" where
  "hello_shaped payload \<longleftrightarrow>
     6 \<le> length payload \<and> payload ! 0 = 0x16 \<and> payload ! 1 = 3 \<and> (payload ! 5 = 1 \<or> payload ! 5 = 2)"

definition kernel_event :: "tcp_frame \<Rightarrow> bytes \<Rightarrow> handshake_event" where
  "kernel_event f old =
     \<lparr>hv_src_ip = u32_be (take 4 (drop 12 (tf_ip f))), hv_dst_ip = u32_be (take 4 (drop 16 (tf_ip f))),
      hv_src_port = u16_be (take 2 (tf_tcp f)), hv_dst_port = u16_be (take 2 (drop 2 (tf_tcp f))),
      hv_len = of_nat (min 1024 (length (tf_payload f) - 5)),
      hv_bytes = take 1024 (drop 5 (tf_payload f)) @ drop (min 1024 (length (tf_payload f) - 5)) old\<rparr>"

lemma u16_be_0800 [simp]: "u16_be [8, 0] = 0x0800"
  by (simp add: u16_be_def)

lemma tc_frame:
  assumes wf: "frame_wf f" and old: "length old = 1024"
  shows "ree0xq_net_tc (Some old) (frame_bytes f) =
     (3, if hello_shaped (tf_payload f) then Some (kernel_event f old) else None)"
proof -
  note r = frame_reads [OF wf]
  have ip: "20 \<le> length (tf_ip f)" "length (tf_ip f) = unat (tf_ip f ! 0 AND 0x0f) * 4" "tf_ip f ! 9 = 6"
    and tcp: "20 \<le> length (tf_tcp f)" "length (tf_tcp f) = unat (drop_bit 4 (tf_tcp f ! 12)) * 4"
    using wf by (simp_all add: frame_wf_def)
  let ?p = "tf_payload f" and ?off = "14 + length (tf_ip f) + length (tf_tcp f)"
  have a: "read_byte (frame_bytes f) 14 = Inr (tf_ip f ! 0)" using r(2) [of 0] ip by simp
  have b: "read_byte (frame_bytes f) (14 + 9) = Inr 6" using r(2) [of 9] ip by simp
  have c: "read_bytes (frame_bytes f) 4 (14 + 12) = Inr (take 4 (drop 12 (tf_ip f)))"
    and d: "read_bytes (frame_bytes f) 4 (14 + 16) = Inr (take 4 (drop 16 (tf_ip f)))"
    using r(3) [of 12 4] r(3) [of 16 4] ip(1) by simp_all
  have e: "read_bytes (frame_bytes f) 2 (14 + length (tf_ip f)) = Inr (take 2 (tf_tcp f))"
    and g: "read_bytes (frame_bytes f) 2 (14 + length (tf_ip f) + 2) = Inr (take 2 (drop 2 (tf_tcp f)))"
    and h: "read_byte (frame_bytes f) (14 + length (tf_ip f) + 12) = Inr (tf_tcp f ! 12)"
    using r(5) [of 0 2] r(5) [of 2 2] r(4) [of 12] tcp(1) by simp_all
  have p: "read_byte (frame_bytes f) ?off = read_byte ?p 0"
    "read_byte (frame_bytes f) (?off + 1) = read_byte ?p 1"
    "read_byte (frame_bytes f) (?off + 5) = read_byte ?p 5"
    using r(6) [of 0] r(6) [of 1] r(6) [of 5] by simp_all
  have cp: "copy_bytes (frame_bytes f) (?off + 5) 0 1024 (old, 0) =
      (take 1024 (drop 5 ?p) @ drop (min 1024 (length ?p - 5)) old, of_nat (min 1024 (length ?p - 5)))"
    if "6 \<le> length ?p"
    using copy_bytes_result [of 0 1024 old "?off + 5" "frame_bytes f" 0] that old wf r(7) [of 5] by simp
  have off: "?off + 5 = 19 + (length (tf_ip f) + length (tf_tcp f))" by simp
  note cp = cp [unfolded off]
  show ?thesis
    unfolding ree0xq_net_tc_def try_observe_def MAX_HANDSHAKE_BYTES_def
    apply (simp only: r(1) a b c d Let_def rbind_simps ip(2) [symmetric] e g h tcp(2) [symmetric] p)
    apply (use ip(1) tcp(1) in \<open>auto simp: read_byte_def hello_shaped_def kernel_event_def cp\<close>)
    done
qed

definition loader_events :: "tcp_frame \<Rightarrow> bytes \<Rightarrow> timestamp \<Rightarrow> crypto_inventory_event list" where
  "loader_events f old now =
     snd (loader_run (case snd (ree0xq_net_tc (Some old) (frame_bytes f)) of
            None \<Rightarrow> [] | Some ev \<Rightarrow> [(Some ev, now)]) (stats_zero, []))"

lemma bit_u8_high: "8 \<le> k \<Longrightarrow> \<not> bit (x :: u8) k"
  using bit_imp_le_length [of x k] by auto

lemma ff_mask: "(0xff :: u32) = mask 8"
  by (simp add: mask_eq_exp_minus_1)

lemma octets_u32_be: "length bs = 4 \<Longrightarrow> octets (u32_be bs) = bs"
proof -
  assume "length bs = 4"
  then obtain a b c d where bs: "bs = [a, b, c, d]"
    by (auto simp: length_Suc_conv numeral_eq_Suc)
  have "ucast (drop_bit 24 (u32_be bs) AND 0xff) = a" "ucast (drop_bit 16 (u32_be bs) AND 0xff) = b"
    "ucast (drop_bit 8 (u32_be bs) AND 0xff) = c" "ucast (u32_be bs AND 0xff) = d"
    unfolding bs u32_be_def ff_mask
    by (auto intro!: bit_word_eqI simp: bit_simps bit_u8_high)
  then show ?thesis by (simp add: octets_def bs)
qed

lemma loader_events_frame:
  assumes "frame_wf f" "length old = 1024"
  shows "loader_events f old now =
     (if hello_shaped (tf_payload f)
      then (case parse_handshake (take 1024 (drop 5 (tf_payload f))) of
          Inr sm \<Rightarrow> [build_live_event (host_text (Some (dotted (take 4 (drop 16 (tf_ip f)))))
                       (u16_be (take 2 (drop 2 (tf_tcp f)))))
               (session_identity (Some (dotted (take 4 (drop 12 (tf_ip f))))) (u16_be (take 2 (tf_tcp f)))
                  (Some (dotted (take 4 (drop 16 (tf_ip f))))) (u16_be (take 2 (drop 2 (tf_tcp f)))))
               (msg_kind sm) (primitives_from_summary sm) now]
        | Inl _ \<Rightarrow> []) else [])"
proof -
  let ?n = "min 1024 (length (tf_payload f) - 5)"
  have n: "unat (of_nat ?n :: u16) = ?n"
    by (simp add: unat_of_nat take_bit_eq_mod)
  have b: "take ?n (take 1024 (drop 5 (tf_payload f)) @ drop ?n old) = take 1024 (drop 5 (tf_payload f))"
    by (simp add: min_def)
  have ip20: "20 \<le> length (tf_ip f)" using assms(1) by (simp add: frame_wf_def)
  have o: "octets (u32_be (take 4 (drop 12 (tf_ip f)))) = take 4 (drop 12 (tf_ip f))"
    "octets (u32_be (take 4 (drop 16 (tf_ip f)))) = take 4 (drop 16 (tf_ip f))"
    using ip20 by (intro octets_u32_be; simp)+
  have len: "take (unat (hv_len (kernel_event f old))) (hv_bytes (kernel_event f old)) =
      take 1024 (drop 5 (tf_payload f))"
    by (simp only: kernel_event_def handshake_event.simps n b)
  have fields: "hv_src_ip (kernel_event f old) = u32_be (take 4 (drop 12 (tf_ip f)))"
    "hv_dst_ip (kernel_event f old) = u32_be (take 4 (drop 16 (tf_ip f)))"
    "hv_src_port (kernel_event f old) = u16_be (take 2 (tf_tcp f))"
    "hv_dst_port (kernel_event f old) = u16_be (take 2 (drop 2 (tf_tcp f)))"
    by (simp_all add: kernel_event_def)
  show ?thesis
    by (simp add: loader_events_def tc_frame [OF assms] loader_item_def len fields Let_def
      session_identity_for_loader_def build_loader_event_def host_text_def o split: sum.splits)
qed

lemma frame_event_sliced:
  assumes "slicer_law env" "frame_wf f"
  shows "frame_event env (frame_bytes f) now =
     (if 6 \<le> length (tf_payload f) \<and> tf_payload f ! 0 = 0x16 \<and> (tf_payload f ! 5 = 1 \<or> tf_payload f ! 5 = 2)
      then (case parse_handshake (drop 5 (tf_payload f)) of
          Inr sm \<Rightarrow> Some (build_live_event (host_text (Some (dotted (take 4 (drop 16 (tf_ip f)))))
                       (u16_be (take 2 (drop 2 (tf_tcp f)))))
               (session_identity (Some (dotted (take 4 (drop 12 (tf_ip f))))) (u16_be (take 2 (tf_tcp f)))
                  (Some (dotted (take 4 (drop 16 (tf_ip f))))) (u16_be (take 2 (drop 2 (tf_tcp f)))))
               (msg_kind sm) (primitives_from_summary sm) now)
        | Inl _ \<Rightarrow> None) else None)"
proof -
  have "fe_slice env (frame_bytes f) = Some (sliced_frame f)"
    using assms by (simp add: slicer_law_def)
  then show ?thesis
    by (simp add: frame_event_def sliced_frame_def ips_from_parsed_def)
qed

section \<open>The two packet paths\<close>

lemma u16_be_ipv4: "length bs = 2 \<Longrightarrow> u16_be bs = 0x0800 \<Longrightarrow> bs = [8, 0]"
proof -
  assume "length bs = 2" and be: "u16_be bs = 0x0800"
  then obtain a b where bs: "bs = [a, b]" by (auto simp: length_Suc_conv numeral_eq_Suc)
  have "a = ucast (drop_bit 8 (u16_be bs))" "b = ucast (u16_be bs)"
    unfolding bs u16_be_def by (auto intro!: bit_word_eqI simp: bit_simps bit_u8_high)
  then have "a = 8" "b = 0" unfolding be by simp_all
  then show ?thesis by (simp add: bs)
qed

lemma tc_other_ethertype:
  assumes "take 2 (drop 12 frame) \<noteq> [8, 0]"
  shows "ree0xq_net_tc room frame = (3, None)"
proof (cases "14 \<le> length frame")
  case True
  then have "read_bytes frame 2 12 = Inr (take 2 (drop 12 frame))" by (simp add: read_bytes_ok)
  moreover have "u16_be (take 2 (drop 12 frame)) \<noteq> 0x0800" using u16_be_ipv4 True assms by auto
  ultimately show ?thesis by (simp add: ree0xq_net_tc_def try_observe_def)
next
  case False
  then have "\<exists>e. read_bytes frame 2 12 = Inl e"
    by (auto simp: numeral_eq_Suc read_byte_def)
  then show ?thesis by (auto simp: ree0xq_net_tc_def try_observe_def)
qed

text \<open>C20: the two packet paths agree on plain IPv4 traffic, and only there.  Take a well-formed frame: Ethernet II
  with no VLAN tag, an unfragmented IPv4 packet whose total length is that of the frame, no trailing
  padding, and one TCP segment.  When its payload fits the classifier's buffer (at most 1024 bytes after the record
  header) and its record, if it is a handshake record, has major version 3, the eBPF classifier with
  its ring-buffer loader emits the event the pcap path builds, or like it emits nothing.  On any frame with another
  EtherType, IPv6 and tagged frames among them, the classifier emits nothing.\<close>

theorem ebpf_matches_pcap:
  assumes "slicer_law env" "frame_wf f" "length old = 1024" "length (tf_payload f) \<le> 1029"
    and "6 \<le> length (tf_payload f) \<Longrightarrow> tf_payload f ! 0 = 0x16 \<Longrightarrow> tf_payload f ! 1 = 3"
  shows "loader_events f old now =
      (case frame_event env (frame_bytes f) now of Some e \<Rightarrow> [e] | None \<Rightarrow> []) \<and>
    (\<forall>frame. take 2 (drop 12 frame) \<noteq> [8, 0] \<longrightarrow> snd (ree0xq_net_tc (Some old) frame) = None)"
proof -
  have "take 1024 (drop 5 (tf_payload f)) = drop 5 (tf_payload f)" using assms(4) by simp
  moreover have "hello_shaped (tf_payload f) \<longleftrightarrow> 6 \<le> length (tf_payload f) \<and> tf_payload f ! 0 = 0x16 \<and>
      (tf_payload f ! 5 = 1 \<or> tf_payload f ! 5 = 2)"
    using assms(5) by (auto simp: hello_shaped_def)
  ultimately show ?thesis
    by (simp add: loader_events_frame [OF assms(2,3)] frame_event_sliced [OF assms(1,2)] tc_other_ethertype
        split: sum.splits)
qed

text \<open>A hello longer than 1024 bytes, as every ClientHello with an ML-KEM key share is, is missed by
  the kernel-side path although the pcap path reports it: the classifier cuts the message, and the
  parser refuses the cut one.\<close>

theorem ebpf_misses_long_hello:
  assumes "slicer_law env" "frame_wf f" "length old = 1024"
    and "tf_payload f = [0x16, 3, v, x, y] @ encode_hello h" "hello_wf h"
    and "1024 < length (encode_hello h)" "length (encode_hello_body h) < 2 ^ 24"
  shows "loader_events f old now = [] \<and>
     (\<exists>e. frame_event env (frame_bytes f) now = Some e \<and>
        ev_primitives e = primitives_from_summary (report_hello h))"
proof -
  have len: "6 \<le> length (tf_payload f)" and d: "drop 5 (tf_payload f) = encode_hello h"
    using assms(4,6) by simp_all
  have k: "tf_payload f ! 5 = 1 \<or> tf_payload f ! 5 = 2" "tf_payload f ! 0 = 0x16"
    using assms(4) by (cases "he_kind h"; simp add: encode_hello_def kind_code_def)+
  have "parse_handshake (take 1024 (encode_hello h)) =
      Inl (LengthMismatch (length (encode_hello_body h)) (1024 - 4))"
    using assms(6,7) by (intro parse_hello_truncated) simp_all
  moreover have "parse_handshake (encode_hello h) = Inr (report_hello h)"
    using parse_hello_encoded [OF assms(5,7), of "[]"] by simp
  ultimately show ?thesis
    using len k d by (simp add: loader_events_frame [OF assms(2,3)] frame_event_sliced [OF assms(1,2)]
      build_live_event_def tls_event_def)
qed

section \<open>A concrete slicer and frames\<close>

definition toy_slice :: "bytes \<Rightarrow> sliced_packet option" where
  "toy_slice frame =
     (let tcp = drop (14 + unat (frame ! 14 AND 0x0f) * 4) frame in
      Some \<lparr>sl_net = NetIpv4 (take 4 (drop 26 frame)) (take 4 (drop 30 frame)),
        sl_tcp = Some (u16_be (take 2 tcp), u16_be (take 2 (drop 2 tcp)),
          drop (unat (drop_bit 4 (tcp ! 12)) * 4) tcp)\<rparr>)"

definition toy_env :: frame_env where
  "toy_env = \<lparr>fe_slice = toy_slice, fe_show_ipv6 = (\<lambda>_. ''::'')\<rparr>"

lemma toy_slicer_law: "slicer_law toy_env"
proof -
  have "toy_slice (frame_bytes f) = Some (sliced_frame f)" if wf: "frame_wf f" for f
  proof -
    obtain eth where e: "frame_bytes f = eth @ tf_ip f @ tf_tcp f @ tf_payload f" "length eth = 14"
      "take 2 (drop 12 eth) = [8, 0]" by (rule frame_split [OF wf])
    have ip: "20 \<le> length (tf_ip f)" "unat (tf_ip f ! 0 AND 0x0f) * 4 = length (tf_ip f)"
      and tcp: "20 \<le> length (tf_tcp f)" "unat (drop_bit 4 (tf_tcp f ! 12)) * 4 = length (tf_tcp f)"
      using wf by (simp_all add: frame_wf_def)
    have n: "frame_bytes f ! 14 = tf_ip f ! 0" using e ip(1) by (auto simp: nth_append)
    have d: "drop (14 + length (tf_ip f)) (frame_bytes f) = tf_tcp f @ tf_payload f"
      "take 4 (drop 26 (frame_bytes f)) = take 4 (drop 12 (tf_ip f))"
      "take 4 (drop 30 (frame_bytes f)) = take 4 (drop 16 (tf_ip f))"
      using e ip(1) by simp_all
    have t: "(tf_tcp f @ tf_payload f) ! 12 = tf_tcp f ! 12" "take 2 (tf_tcp f @ tf_payload f) = take 2 (tf_tcp f)"
      "take 2 (drop 2 (tf_tcp f @ tf_payload f)) = take 2 (drop 2 (tf_tcp f))"
      using tcp(1) by (simp_all add: nth_append)
    show ?thesis
      unfolding toy_slice_def Let_def n ip(2) d t tcp(2) by (simp add: sliced_frame_def)
  qed
  then show ?thesis by (simp add: slicer_law_def toy_env_def)
qed

definition toy_frame :: "bytes \<Rightarrow> tcp_frame" where
  "toy_frame payload =
     \<lparr>tf_macs = replicate 12 2,
      tf_ip = [0x45, 0] @ u16_to_be (of_nat (40 + length payload)) @
              [0, 1, 0x40, 0, 64, 6, 0, 0, 10, 0, 0, 1, 10, 0, 0, 2],
      tf_tcp = [0x01, 0xbb, 0xc0, 0x00, 0, 0, 0, 1, 0, 0, 0, 1, 0x50, 0x18, 1, 0, 0, 0, 0, 0],
      tf_payload = payload\<rparr>"

lemma length_field: "n < 65536 \<Longrightarrow> unat (u16_be (u16_to_be (of_nat n))) = n"
  by (simp add: u16_be_def u16_to_be_def u16_be_roundtrip [unfolded u16_from_be_def] unat_of_nat take_bit_eq_mod)

lemma toy_frame_wf [simp]:
  assumes "length payload < 65000"
  shows "frame_wf (toy_frame payload)"
proof -
  have ip: "tf_ip (toy_frame payload) ! 0 = 0x45" "tf_ip (toy_frame payload) ! 9 = 6"
    "take 2 (drop 2 (tf_ip (toy_frame payload))) = u16_to_be (of_nat (40 + length payload))"
    "take 2 (drop 6 (tf_ip (toy_frame payload))) = [0x40, 0]"
    "length (tf_ip (toy_frame payload)) = 20"
    by (simp_all add: toy_frame_def u16_to_be_def)
  have tcp: "tf_tcp (toy_frame payload) ! 12 = 0x50" "length (tf_tcp (toy_frame payload)) = 20"
    by (simp_all add: toy_frame_def)
  have w: "drop_bit 4 (0x45 :: u8) = 4" "unat (0x45 AND 0x0f :: u8) = 5" "u16_be [0x40, 0] AND 0x3fff = 0"
    "unat (drop_bit 4 (0x50 :: u8)) = 5"
    by (simp_all add: u16_be_def)
  have l: "unat (u16_be (u16_to_be (of_nat (40 + length payload)))) = 40 + length payload"
    using assms by (intro length_field) simp
  show ?thesis
    unfolding frame_wf_def ip tcp w l by (simp add: toy_frame_def)
qed

definition small_hello :: hello where
  "small_hello = \<lparr>he_kind = ServerHello, he_version = 0x0303, he_random = replicate 32 7, he_session = [],
     he_suites = [0x1301], he_compression = [0], he_exts = None\<rparr>"

definition large_hello :: hello where
  "large_hello = \<lparr>he_kind = ClientHello, he_version = 0x0303, he_random = replicate 32 7, he_session = [],
     he_suites = [0x1301], he_compression = [0],
     he_exts = Some [ExtGroups [0x11ec] [], ExtOther 0x0033 (replicate 1220 9)]\<rparr>"

lemma small_hello_wf: "hello_wf small_hello" "length (encode_hello_body small_hello) = 38" "he_exts small_hello = None"
  by (simp_all add: hello_wf_def small_hello_def encode_hello_body_def)

lemma large_hello_wf: "hello_wf large_hello" "length (encode_hello_body large_hello) = 1275"
  by (simp_all add: hello_wf_def large_hello_def encode_hello_body_def ext_wf_def encode_exts_def encode_ext_def
      ext_body_def)

abbreviation hello_frame :: "hello \<Rightarrow> tcp_frame" where
  "hello_frame h \<equiv> toy_frame ([0x16, 3, 3, 0, 42] @ encode_hello h)"

lemma small_frame_event: "\<exists>e. frame_event toy_env (frame_bytes (hello_frame small_hello)) now = Some e"
proof -
  have "encode_hello small_hello ! 0 = 2" "length (encode_hello small_hello) = 42"
    by (simp_all add: encode_hello_def small_hello_wf kind_code_def) (simp add: small_hello_def)
  moreover have "parse_handshake (encode_hello small_hello) = Inr (report_hello small_hello)"
    using parse_hello_encoded [of small_hello "[]"] small_hello_wf by simp
  moreover have "tf_payload (toy_frame p) = p" for p by (simp add: toy_frame_def)
  ultimately show ?thesis
    by (simp add: frame_event_sliced [OF toy_slicer_law])
qed

lemma no_session_lost_witness:
  "\<exists>e. frame_event toy_env (frame_bytes (hello_frame small_hello)) 9 = Some e \<and>
    (\<exists>e'. ev_session e' = ev_session e \<and> e' \<in> set (lv_events (observe_pcap_with_dedup toy_env
       (Some (dedup_new 300 2)) [(Inr (frame_bytes (hello_frame small_hello)), 0, 0),
                                 (Inr (frame_bytes (hello_frame small_hello)), 5, 9)])))"
proof -
  obtain e where "frame_event toy_env (frame_bytes (hello_frame small_hello)) 9 = Some e"
    using small_frame_event by blast
  with no_session_lost [OF append_Cons [of _ "[]", unfolded append_Nil, symmetric] this refl]
  show ?thesis by blast
qed

lemma ebpf_matches_pcap_witness:
  "loader_events (hello_frame small_hello) (replicate 1024 0) 0 =
     (case frame_event toy_env (frame_bytes (hello_frame small_hello)) 0 of Some e \<Rightarrow> [e] | None \<Rightarrow> []) \<and>
   snd (ree0xq_net_tc (Some (replicate 1024 0)) (replicate 12 0 @ [0x86, 0xdd] @ replicate 60 0)) = None"
proof -
  have "length (encode_hello small_hello) = 42" by (simp add: encode_hello_def small_hello_wf)
  then have short: "length (tf_payload (hello_frame small_hello)) \<le> 1029" by (simp add: toy_frame_def)
  have wf: "frame_wf (hello_frame small_hello)"
    using short by (intro toy_frame_wf) (simp add: toy_frame_def)
  have v: "tf_payload (hello_frame small_hello) ! 1 = 3" by (simp add: toy_frame_def)
  from ebpf_matches_pcap [OF toy_slicer_law wf _ short v, of "replicate 1024 0" 0] show ?thesis by simp
qed

lemma ebpf_misses_long_hello_witness:
  "loader_events (hello_frame large_hello) (replicate 1024 0) 0 = [] \<and>
     (\<exists>e. frame_event toy_env (frame_bytes (hello_frame large_hello)) 0 = Some e \<and>
        ev_primitives e = primitives_from_summary (report_hello large_hello))"
proof -
  have "length (encode_hello large_hello) = 1279" by (simp add: encode_hello_def large_hello_wf)
  then show ?thesis
    by (intro ebpf_misses_long_hello toy_slicer_law toy_frame_wf)
      (simp_all add: toy_frame_def large_hello_wf)
qed

end
