(* ===== verification/Zgrab.thy ===== *)
theory Zgrab
  imports Live
begin

text \<open>
  The adapter from zgrab2 records (src/crates/ree0xq-net/src/zgrab/mod.rs).  The record types are
  what serde's derived reader produces; reading JSON into them is derived code and a parameter of
  the command line in \<open>Net_Cli\<close>.
\<close>

section \<open>Records\<close>

record named_value =
  nv_name :: "string option"
  nv_value :: "u32 option"
  nv_hex :: "string option"

record server_hello =
  sh_version :: "named_value option"
  sh_cipher_suite :: "named_value option"
  sh_selected_group :: "json option"

record cert_parsed =
  cx_signature_algorithm :: "named_value option"

record certificate =
  ce_parsed :: "cert_parsed option"

record server_certificates =
  sc_certificate :: "certificate option"

record handshake_log =
  hl_server_hello :: "server_hello option"
  hl_server_certificates :: "server_certificates option"

record tls_result =
  tr_handshake_log :: "handshake_log option"

record tls_section =
  tl_result :: "tls_result option"

record zgrab_record =
  zg_domain :: "string option"
  zg_ip :: "string option"
  zg_tls :: "tls_section option"

section \<open>JSON access and case\<close>

fun json_str :: "json \<Rightarrow> string option" where
  "json_str (JStr s) = Some s"
| "json_str _ = None"

fun json_get :: "string \<Rightarrow> json \<Rightarrow> json option" where
  "json_get k (JObj kvs) = map_of kvs k"
| "json_get k _ = None"

text \<open>\<open>str::to_uppercase\<close> as far as a comparison with ASCII text can tell: the characters outside
  ASCII whose upper case is ASCII, and the ASCII letters; any other character keeps a
  non-ASCII upper case.\<close>

definition ascii_expansions :: "(string \<times> string) list" where
  "ascii_expansions =
     [([CHR 0xC4, CHR 0xB1], ''I''), ([CHR 0xC5, CHR 0xBF], ''S''), ([CHR 0xC3, CHR 0x9F], ''SS''),
      ([CHR 0xEF, CHR 0xAC, CHR 0x80], ''FF''), ([CHR 0xEF, CHR 0xAC, CHR 0x81], ''FI''),
      ([CHR 0xEF, CHR 0xAC, CHR 0x82], ''FL''), ([CHR 0xEF, CHR 0xAC, CHR 0x83], ''FFI''),
      ([CHR 0xEF, CHR 0xAC, CHR 0x84], ''FFL''), ([CHR 0xEF, CHR 0xAC, CHR 0x85], ''ST''),
      ([CHR 0xEF, CHR 0xAC, CHR 0x86], ''ST'')]"

definition to_uppercase :: "string \<Rightarrow> string" where
  "to_uppercase s = concat (map (\<lambda>ch. case map_of ascii_expansions ch of
     Some r \<Rightarrow> r | None \<Rightarrow> map ascii_upper ch) (utf8_chars s))"

section \<open>The adapter\<close>

definition or_else :: "'a option \<Rightarrow> 'a option \<Rightarrow> 'a option" where
  "or_else a b = (case a of None \<Rightarrow> b | Some _ \<Rightarrow> a)"

definition synthetic_identity :: "zgrab_record \<Rightarrow> string" where
  "synthetic_identity r =
     (let h = FNV_OFFSET;
          h = (case zg_domain r of Some d \<Rightarrow> fnv_push h d | None \<Rightarrow> h);
          h = fnv_push h ''|'';
          h = (case zg_ip r of Some ip \<Rightarrow> fnv_push h ip | None \<Rightarrow> h)
      in ''zgrab-'' @ hex16 h)"

definition cert_sig_table :: "(string \<times> string \<times> bool option) list" where
  "cert_sig_table =
     [(''SHA256-RSA'', ''RSA-PKCS1-SHA256'', Some False), (''SHA-256-RSA'', ''RSA-PKCS1-SHA256'', Some False),
      (''SHA384-RSA'', ''RSA-PKCS1-SHA384'', Some False), (''SHA512-RSA'', ''RSA-PKCS1-SHA512'', Some False),
      (''SHA256-RSA-PSS'', ''RSA-PSS-SHA256'', Some False), (''SHA384-RSA-PSS'', ''RSA-PSS-SHA384'', Some False),
      (''SHA512-RSA-PSS'', ''RSA-PSS-SHA512'', Some False), (''ECDSA-SHA256'', ''ECDSA-P256'', Some False),
      (''ECDSA-SHA384'', ''ECDSA-P384'', Some False), (''ECDSA-SHA512'', ''ECDSA-P521'', Some False),
      (''SHA1-RSA'', ''RSA-PKCS1-SHA1'', Some False), (''SHA-1-RSA'', ''RSA-PKCS1-SHA1'', Some False),
      (''MD5-RSA'', ''RSA-MD5'', Some False), (''ED25519'', ''Ed25519'', Some False),
      (''ML-DSA-44'', ''ML-DSA-44'', Some True), (''MLDSA44'', ''ML-DSA-44'', Some True),
      (''DILITHIUM2'', ''ML-DSA-44'', Some True), (''ML-DSA-65'', ''ML-DSA-65'', Some True),
      (''MLDSA65'', ''ML-DSA-65'', Some True), (''DILITHIUM3'', ''ML-DSA-65'', Some True),
      (''ML-DSA-87'', ''ML-DSA-87'', Some True), (''MLDSA87'', ''ML-DSA-87'', Some True),
      (''DILITHIUM5'', ''ML-DSA-87'', Some True)]"

definition replace_char :: "char \<Rightarrow> char \<Rightarrow> string \<Rightarrow> string" where
  "replace_char a b s = map (\<lambda>c. if c = a then b else c) s"

definition parse_cert_sig_algorithm :: "string \<Rightarrow> primitive option" where
  "parse_cert_sig_algorithm name =
     (case map_of cert_sig_table (to_uppercase (replace_char (CHR ''_'') (CHR ''-'') name)) of
        None \<Rightarrow> None
      | Some (algo, pq) \<Rightarrow> Some (mk_primitive Sig algo pq None))"

definition hello_primitives :: "server_hello \<Rightarrow> primitive list" where
  "hello_primitives sh =
     (case Option.bind (sh_cipher_suite sh) nv_name of
        None \<Rightarrow> []
      | Some name \<Rightarrow>
          (if starts_with name ''TLS_AES_'' \<or> starts_with name ''TLS_CHACHA20_''
           then primitives_from_tls13_ciphersuite name else primitives_from_tls12_ciphersuite name))
     @ (case sh_selected_group sh of
          None \<Rightarrow> []
        | Some grp \<Rightarrow>
            (let name = (case json_str grp of
                Some s \<Rightarrow> s
              | None \<Rightarrow> (case Option.bind (json_get ''name'' grp) json_str of Some s \<Rightarrow> s | None \<Rightarrow> []))
             in if name = [] then []
                else (case primitive_from_supported_group name of Some p \<Rightarrow> [p] | None \<Rightarrow> [])))"

definition certificate_primitives :: "server_certificates \<Rightarrow> primitive list" where
  "certificate_primitives cb =
     (case Option.bind (Option.bind (Option.bind (Option.bind (sc_certificate cb) ce_parsed)
             cx_signature_algorithm) nv_name) parse_cert_sig_algorithm of
        Some p \<Rightarrow> [p] | None \<Rightarrow> [])"

definition primitives_from_zgrab :: "zgrab_record \<Rightarrow> primitive list" where
  "primitives_from_zgrab r =
     (case Option.bind (Option.bind (zg_tls r) tl_result) tr_handshake_log of
        None \<Rightarrow> []
      | Some hs \<Rightarrow>
          (case hl_server_hello hs of Some sh \<Rightarrow> hello_primitives sh | None \<Rightarrow> [])
          @ (case hl_server_certificates hs of Some cb \<Rightarrow> certificate_primitives cb | None \<Rightarrow> []))"

definition event_from_zgrab :: "zgrab_record \<Rightarrow> timestamp \<Rightarrow> crypto_inventory_event" where
  "event_from_zgrab r now =
     build_tls_event
       (case or_else (zg_domain r) (zg_ip r) of Some h \<Rightarrow> h | None \<Rightarrow> ''unknown'')
       (synthetic_identity r) (primitives_from_zgrab r) now"

section \<open>A scan and a capture of the same handshake\<close>

text \<open>A record of zgrab2, in the shape the adapter's documentation gives, of a handshake whose ServerHello selects a suite
  and a group.\<close>

definition record_of_hello :: "string option \<Rightarrow> string option \<Rightarrow> string \<Rightarrow> string \<Rightarrow> zgrab_record" where
  "record_of_hello domain ip suite grp =
     \<lparr>zg_domain = domain, zg_ip = ip,
      zg_tls = Some \<lparr>tl_result = Some \<lparr>tr_handshake_log = Some
        \<lparr>hl_server_hello = Some \<lparr>sh_version = None,
            sh_cipher_suite = Some \<lparr>nv_name = Some suite, nv_value = None, nv_hex = None\<rparr>,
            sh_selected_group = Some (JStr grp)\<rparr>,
         hl_server_certificates = None\<rparr>\<rparr>\<rparr>\<rparr>"

text \<open>The suites of RFC 8446, appendix B.4: codepoint, name, cipher and hash.\<close>

definition tls13_suites :: "(u16 \<times> string \<times> string \<times> string) list" where
  "tls13_suites =
     [(0x1301, ''TLS_AES_128_GCM_SHA256'', ''AES-128-GCM'', ''SHA-256''),
      (0x1302, ''TLS_AES_256_GCM_SHA384'', ''AES-256-GCM'', ''SHA-384''),
      (0x1303, ''TLS_CHACHA20_POLY1305_SHA256'', ''ChaCha20-Poly1305'', ''SHA-256''),
      (0x1304, ''TLS_AES_128_CCM_SHA256'', ''AES-128-CCM'', ''SHA-256''),
      (0x1305, ''TLS_AES_128_CCM_8_SHA256'', ''AES-128-CCM-8'', ''SHA-256'')]"

text \<open>The extensions of a TLS 1.3 ServerHello: the version, and others the parser skips, \<open>key_share\<close>
  (51) among them.\<close>

definition server_ext :: "wire_ext \<Rightarrow> bool" where
  "server_ext x = (case x of ExtGroups _ _ \<Rightarrow> False | ExtSchemes _ _ \<Rightarrow> False | _ \<Rightarrow> True)"

lemma report_server_exts:
  "list_all server_ext xs \<Longrightarrow> primitives_from_summary (fold report_ext xs s) = primitives_from_summary s"
proof (induction xs arbitrary: s)
  case (Cons x xs)
  then show ?case by (cases x) (simp_all add: server_ext_def primitives_from_summary_def)
qed simp

definition suite_as_specified :: "u16 \<times> string \<times> string \<times> string \<Rightarrow> bool" where
  "suite_as_specified row = (case row of (cs, suite, aead, digest) \<Rightarrow>
     ciphersuite_name cs = Some suite \<and> (starts_with suite ''TLS_AES_'' \<or> starts_with suite ''TLS_CHACHA20_'') \<and>
     map (\<lambda>p. (pr_role p, pr_algorithm p)) (primitives_from_tls13_ciphersuite suite) = [(Encrypt, aead), (Hash, digest)])"

lemma all_suites_as_specified: "list_all suite_as_specified tls13_suites"
  by code_simp

lemma suite_primitives:
  assumes "(cs, suite, aead, digest) \<in> set tls13_suites"
  shows "first_suite_primitives [cs] = primitives_from_tls13_ciphersuite suite"
    and "map (\<lambda>p. (pr_role p, pr_algorithm p)) (primitives_from_tls13_ciphersuite suite) = [(Encrypt, aead), (Hash, digest)]"
    and "starts_with suite ''TLS_AES_'' \<or> starts_with suite ''TLS_CHACHA20_''"
proof -
  have "suite_as_specified (cs, suite, aead, digest)"
    using all_suites_as_specified assms by (simp only: list_all_iff)
  then show "first_suite_primitives [cs] = primitives_from_tls13_ciphersuite suite"
    and "map (\<lambda>p. (pr_role p, pr_algorithm p)) (primitives_from_tls13_ciphersuite suite) = [(Encrypt, aead), (Hash, digest)]"
    and "starts_with suite ''TLS_AES_'' \<or> starts_with suite ''TLS_CHACHA20_''"
    by (simp_all add: suite_as_specified_def)
qed

text \<open>The codepoints of ML-KEM, alone and in a hybrid.\<close>

definition post_quantum_groups :: "u16 list" where
  "post_quantum_groups = [0x11ec, 0x11eb, 0x11ed, 0x0768, 0x0769, 0x076a]"

definition group_as_named :: "u16 \<times> string \<Rightarrow> bool" where
  "group_as_named row = (case primitive_from_supported_group (snd row) of
     None \<Rightarrow> False
   | Some p \<Rightarrow> pr_role p = Kex \<and> pr_parameters p = [(''named_group'', JStr (snd row))] \<and>
       pr_pq_resistant p = Some (fst row \<in> set post_quantum_groups) \<and> snd row \<noteq> [])"

lemma all_groups_as_named: "list_all group_as_named named_group_table"
  by code_simp

lemma known_group_primitive:
  assumes "named_group_name g = Some grp"
  obtains p where "primitive_from_supported_group grp = Some p" "pr_role p = Kex"
    "pr_parameters p = [(''named_group'', JStr grp)]" "pr_pq_resistant p = Some (g \<in> set post_quantum_groups)"
    "grp \<noteq> []"
proof -
  have "group_as_named (g, grp)"
    using all_groups_as_named map_of_SomeD [OF assms [unfolded named_group_name_def]] by (auto simp only: list_all_iff)
  then show ?thesis using that by (auto simp: group_as_named_def split: option.splits)
qed

text \<open>C40: a capture of a TLS 1.3 ServerHello misses the key exchange that a scan of the server reports.  Take any
  well-formed ServerHello on the wire, with any bytes after it, that selects one of the suites of RFC 8446, carries
  in \<open>key_share\<close> a group the code has a name for, and has no \<open>supported_groups\<close> or \<open>signature_algorithms\<close>
  extension, which a server does not send there.  The parser accepts it and reports exactly the cipher and the hash of
  the suite.  A zgrab2 record that names the same suite and group, in the spelling of the code's tables, gives those same
  primitives followed by one more, the key
  exchange with that group, quantum-resistant when the group has ML-KEM and not otherwise.\<close>

theorem capture_misses_key_exchange:
  assumes "hello_wf h" "length (encode_hello_body h) < 2 ^ 24" "he_kind h = ServerHello" "he_suites h = [cs]"
    and "he_exts h = Some exts" "list_all server_ext exts" "ExtOther 0x0033 (u16_to_be g @ share) \<in> set exts"
    and "(cs, suite, aead, digest) \<in> set tls13_suites" "named_group_name g = Some grp"
  shows "\<exists>sm p. parse_handshake (encode_hello h @ trailing) = Inr sm \<and>
     map (\<lambda>p. (pr_role p, pr_algorithm p)) (primitives_from_summary sm) = [(Encrypt, aead), (Hash, digest)] \<and>
     primitives_from_zgrab (record_of_hello domain ip suite grp) = primitives_from_summary sm @ [p] \<and>
     pr_role p = Kex \<and> pr_parameters p = [(''named_group'', JStr grp)] \<and>
     pr_pq_resistant p = Some (g \<in> set post_quantum_groups)"
proof -
  obtain p where p: "primitive_from_supported_group grp = Some p" "pr_role p = Kex"
    "pr_parameters p = [(''named_group'', JStr grp)]" "pr_pq_resistant p = Some (g \<in> set post_quantum_groups)"
    "grp \<noteq> []"
    by (rule known_group_primitive [OF assms(9)])
  note suite = suite_primitives [OF assms(8)]
  have "primitives_from_summary (report_hello h) = first_suite_primitives [cs]"
    by (simp only: report_hello_def assms(4,5) option.case report_server_exts [OF assms(6)])
      (simp add: primitives_from_summary_def empty_summary_def del: first_suite_primitives.simps)
  moreover have "primitives_from_zgrab (record_of_hello domain ip suite grp) = primitives_from_tls13_ciphersuite suite @ [p]"
    using suite(3) p(1,5) by (simp add: primitives_from_zgrab_def record_of_hello_def hello_primitives_def)
  moreover have "parse_handshake (encode_hello h @ trailing) = Inr (report_hello h)"
    by (rule parse_hello_encoded [OF assms(1,2)]) (simp add: assms(5))
  ultimately show ?thesis using suite(1,2) p(2-4) by simp
qed

text \<open>X25519MLKEM768 with TLS 1.3.\<close>

definition hybrid_hello :: hello where
  "hybrid_hello = \<lparr>he_kind = ServerHello, he_version = 0x0303, he_random = replicate 32 7, he_session = [],
     he_suites = [0x1302], he_compression = [0],
     he_exts = Some [ExtVersions [0x0304] [], ExtOther 0x0033 (u16_to_be 0x11ec @ [0, 2, 9, 9])]\<rparr>"

lemma capture_misses_key_exchange_witness:
  "\<exists>sm p. parse_handshake (encode_hello hybrid_hello @ [1]) = Inr sm \<and>
     map (\<lambda>p. (pr_role p, pr_algorithm p)) (primitives_from_summary sm) = [(Encrypt, ''AES-256-GCM''), (Hash, ''SHA-384'')] \<and>
     primitives_from_zgrab (record_of_hello (Some ''a'') None ''TLS_AES_256_GCM_SHA384'' ''X25519MLKEM768'') =
       primitives_from_summary sm @ [p] \<and>
     pr_role p = Kex \<and> pr_parameters p = [(''named_group'', JStr ''X25519MLKEM768'')] \<and>
     pr_pq_resistant p = Some (0x11ec \<in> set post_quantum_groups)"
proof (rule capture_misses_key_exchange)
  show "hello_wf hybrid_hello" "length (encode_hello_body hybrid_hello) < 2 ^ 24"
    by (simp_all add: hello_wf_def hybrid_hello_def encode_hello_body_def ext_wf_def encode_exts_def encode_ext_def
        ext_body_def)
  show "ExtOther 0x0033 (u16_to_be 0x11ec @ [0, 2, 9, 9]) \<in>
      set [ExtVersions [0x0304] [], ExtOther 0x0033 (u16_to_be 0x11ec @ [0, 2, 9, 9])]" by simp
  show "(0x1302, ''TLS_AES_256_GCM_SHA384'', ''AES-256-GCM'', ''SHA-384'') \<in> set tls13_suites"
    by (simp add: tls13_suites_def)
qed (simp_all add: hybrid_hello_def server_ext_def named_group_name_def named_group_table_def)

end
