(* ===== verification/Net_Cli.thy ===== *)
theory Net_Cli
  imports Zgrab Spool Pq_Probe
begin

text \<open>
  The agent's command line (src/crates/ree0xq-net/src/bin/ree0xq_net.rs): reading its inputs, the
  delivery sink with its spool, and the subcommands.  The collector is a step function on a state of
  its own; reading JSON (serde) and hexadecimal (the hex crate) are parameters.
\<close>

section \<open>The sink\<close>

record sink =
  si_collector :: "string option"
  si_spool :: bool

text \<open>What a sink acts on: the collector, standard output and the spool file.\<close>

record 's sink_world =
  sw_server :: 's
  sw_stdout :: "string list"
  sw_spool :: spool_file

record ('s, 'e) sink_env =
  sv_enc :: "'e \<Rightarrow> string"
  sv_dec :: "string \<Rightarrow> 'e option"
  sv_post :: "'s \<Rightarrow> 'e \<Rightarrow> bool \<times> 's"
  sv_client :: "(string, unit) result"
  sv_open :: "string \<Rightarrow> (string, unit) result"

definition drain_spool :: "('s, 'e) sink_env \<Rightarrow> sink \<Rightarrow> 's sink_world \<Rightarrow> 's sink_world" where
  "drain_spool env sk w =
     (if si_spool sk \<and> si_collector sk \<noteq> None
      then (case spool_drain (sv_enc env) (sv_dec env) (sv_post env) (sw_spool w) (sw_server w) of
          (_, f, s) \<Rightarrow> w\<lparr>sw_spool := f, sw_server := s\<rparr>)
      else w)"

definition sink_new ::
  "('s, 'e) sink_env \<Rightarrow> string option \<Rightarrow> string option \<Rightarrow> 's sink_world \<Rightarrow> (string, sink \<times> 's sink_world) result" where
  "sink_new env collector spool_dir w =
     rbind (case collector of
         None \<Rightarrow> Inr ()
       | Some _ \<Rightarrow> (case sv_client env of Inl e \<Rightarrow> Inl (''client build: '' @ e) | Inr u \<Rightarrow> Inr u)) (\<lambda>_.
     rbind (case (spool_dir, collector) of
         (Some dir, Some _) \<Rightarrow> rbind (sv_open env dir) (\<lambda>_. Inr True)
       | _ \<Rightarrow> Inr False) (\<lambda>spool.
     let sk = \<lparr>si_collector = collector, si_spool = spool\<rparr>
     in Inr (sk, drain_spool env sk w)))"

definition sink_send :: "('s, 'e) sink_env \<Rightarrow> sink \<Rightarrow> 's sink_world \<Rightarrow> 'e \<Rightarrow> 's sink_world" where
  "sink_send env sk w ev =
     (case si_collector sk of
        None \<Rightarrow> w\<lparr>sw_stdout := sw_stdout w @ [sv_enc env ev]\<rparr>
      | Some _ \<Rightarrow>
          (case sv_post env (sw_server w) ev of
             (True, s) \<Rightarrow> w\<lparr>sw_server := s\<rparr>
           | (False, s) \<Rightarrow>
               (let w = w\<lparr>sw_server := s\<rparr> in
                if si_spool sk then w\<lparr>sw_spool := spool_append (sv_enc env) (sw_spool w) ev\<rparr> else w)))"

definition sink_run ::
  "('s, 'e) sink_env \<Rightarrow> string option \<Rightarrow> string option \<Rightarrow> 'e list \<Rightarrow> 's sink_world \<Rightarrow>
   (string, 's sink_world) result" where
  "sink_run env collector spool_dir evs w =
     rbind (sink_new env collector spool_dir w) (\<lambda>(sk, w). Inr (foldl (sink_send env sk) w evs))"

section \<open>Inputs\<close>

definition parse_hosts :: "string \<Rightarrow> string list" where
  "parse_hosts raw = filter (\<lambda>l. l \<noteq> [] \<and> \<not> starts_with l ''#'') (map trim (str_lines raw))"

definition parse_zgrab_payload ::
  "(string \<Rightarrow> (string, zgrab_record list) result) \<Rightarrow> (string \<Rightarrow> zgrab_record option) \<Rightarrow> string \<Rightarrow>
   (string, zgrab_record list) result" where
  "parse_zgrab_payload dec_array dec_record raw =
     (let trimmed = trim_start raw in
      if starts_with trimmed ''['' then dec_array trimmed
      else Inr (List.map_filter dec_record (filter (\<lambda>l. l \<noteq> []) (map trim (str_lines raw)))))"

text \<open>\<open>read_line\<close> in a loop until it returns 0 bytes gives the whole input, or the first error.\<close>

definition drop_whitespace :: "string \<Rightarrow> string" where
  "drop_whitespace s = concat (filter (\<lambda>ch. ch \<notin> set whitespace_seqs) (utf8_chars s))"

fun trim_start_matches :: "string \<Rightarrow> string" where
  "trim_start_matches (a # b # s) =
     (if a = CHR ''0'' \<and> b = CHR ''x'' then trim_start_matches s else a # b # s)"
| "trim_start_matches s = s"

section \<open>Subcommands\<close>

definition run_from_zgrab ::
  "('s, crypto_inventory_event) sink_env \<Rightarrow> (string \<Rightarrow> (string, zgrab_record list) result) \<Rightarrow> (string \<Rightarrow> zgrab_record option) \<Rightarrow>
   (string, string) result \<Rightarrow> string option \<Rightarrow> string option \<Rightarrow> timestamp \<Rightarrow> 's sink_world \<Rightarrow>
   (string, 's sink_world) result" where
  "run_from_zgrab env dec_array dec_record input collector spool_dir now w =
     rbind input (\<lambda>raw.
     rbind (parse_zgrab_payload dec_array dec_record raw) (\<lambda>records.
     sink_run env collector spool_dir (map (\<lambda>r. event_from_zgrab r now) records) w))"

datatype parse_failure = InputError string | HexError | HandshakeError parse_error

definition run_parse_handshake ::
  "(string \<Rightarrow> bytes option) \<Rightarrow> (string, string) result \<Rightarrow>
   (parse_failure, handshake_summary \<times> primitive list) result" where
  "run_parse_handshake hex_decode input =
     (case input of
        Inl e \<Rightarrow> Inl (InputError e)
      | Inr raw_hex \<Rightarrow>
          (case hex_decode (trim_start_matches (drop_whitespace raw_hex)) of
             None \<Rightarrow> Inl HexError
           | Some bs \<Rightarrow>
               (case parse_handshake bs of
                  Inl e \<Rightarrow> Inl (HandshakeError e)
                | Inr s \<Rightarrow> Inr (s, primitives_from_summary s))))"

text \<open>The argument is \<open>-\<close> for standard input, the path of a file, or the digits themselves.\<close>

definition handshake_input :: "host_io \<Rightarrow> string \<Rightarrow> (string, string) result" where
  "handshake_input io hex_arg =
     (if hex_arg = ''-'' then hio_stdin io
      else if hio_is_file io hex_arg then hio_read io hex_arg
      else Inr hex_arg)"

definition run_pq_probe :: "probe_env \<Rightarrow> string \<Rightarrow> u16 \<Rightarrow> pq_probe_result list" where
  "run_pq_probe env raw port = map (\<lambda>host. pq_probe env host port) (parse_hosts raw)"

text \<open>The dedup cache of a live run, in nanoseconds; a TTL of zero turns it off.\<close>

definition live_dedup :: "nat \<Rightarrow> nat \<Rightarrow> dedup_cache option" where
  "live_dedup ttl_secs capacity =
     (if ttl_secs = 0 then None else Some (dedup_new (ttl_secs * 1000000000) capacity))"

text \<open>The result of an observation and the events it has handed to the sink by then.\<close>

definition run_live_iface ::
  "frame_env \<Rightarrow> pcap_lib \<Rightarrow> bool \<Rightarrow> string \<Rightarrow> string \<Rightarrow> bool \<Rightarrow> int \<Rightarrow> dedup_cache option \<Rightarrow>
   (string, observation_stats) result \<times> crypto_inventory_event list" where
  "run_live_iface fenv lib live_pcap iface expr promiscuous snaplen dedup =
     (if \<not> live_pcap then (Inl ''--iface requires the `live-pcap` feature'', [])
      else
        (let cfg = \<lparr>ic_iface = iface, ic_snaplen = snaplen, ic_read_timeout_ms = 100,
               ic_filter = (if expr = [] then None else Some expr), ic_promiscuous = promiscuous\<rparr> in
         case observe_interface_with_dedup fenv lib cfg dedup of (r, s) \<Rightarrow> (r, lv_events s)))"

record live_args =
  la_pcap :: "string option"
  la_iface :: "string option"
  la_filter :: string
  la_promiscuous :: bool
  la_snaplen :: int
  la_collector :: "string option"
  la_spool_dir :: "string option"
  la_dedup_ttl_secs :: nat
  la_dedup_capacity :: nat

text \<open>\<open>None\<close> is the \<open>unreachable!\<close> panic; \<open>live_pcap\<close> is the feature of the build.\<close>

definition live_observation ::
  "frame_env \<Rightarrow> (string \<Rightarrow> (string, packet list) result) \<Rightarrow> pcap_lib \<Rightarrow> bool \<Rightarrow> live_args \<Rightarrow>
   ((string, observation_stats) result \<times> crypto_inventory_event list) option" where
  "live_observation fenv read_pcap lib live_pcap a =
     (let dedup = live_dedup (la_dedup_ttl_secs a) (la_dedup_capacity a) in
      case (la_pcap a, la_iface a) of
        (Some p, None) \<Rightarrow>
          Some (case read_pcap p of
              Inl e \<Rightarrow> (Inl e, [])
            | Inr pkts \<Rightarrow> (let s = observe_pcap_with_dedup fenv dedup pkts in (Inr (lv_stats s), lv_events s)))
      | (None, Some i) \<Rightarrow>
          Some (run_live_iface fenv lib live_pcap i (la_filter a) (la_promiscuous a) (la_snaplen a) dedup)
      | (None, None) \<Rightarrow> Some (Inl ''live: pass either --pcap <file> or --iface <name>'', [])
      | (Some _, Some _) \<Rightarrow> None)"

text \<open>The sink is opened, and its spool drained, before the observation starts.\<close>

definition run_live ::
  "('s, crypto_inventory_event) sink_env \<Rightarrow> frame_env \<Rightarrow> (string \<Rightarrow> (string, packet list) result) \<Rightarrow> pcap_lib \<Rightarrow> bool \<Rightarrow>
   live_args \<Rightarrow> 's sink_world \<Rightarrow> ((string, observation_stats) result \<times> 's sink_world) option" where
  "run_live env fenv read_pcap lib live_pcap a w =
     (case sink_new env (la_collector a) (la_spool_dir a) w of
        Inl e \<Rightarrow> Some (Inl e, w)
      | Inr (sk, w) \<Rightarrow>
          (case live_observation fenv read_pcap lib live_pcap a of
             None \<Rightarrow> None
           | Some (r, evs) \<Rightarrow> Some (r, foldl (sink_send env sk) w evs)))"

definition run_live_ebpf ::
  "('s, crypto_inventory_event) sink_env \<Rightarrow> ebpf_host \<Rightarrow> bool \<Rightarrow> string \<Rightarrow> string \<Rightarrow> string option \<Rightarrow> string option \<Rightarrow>
   's sink_world \<Rightarrow> (string, observation_stats) result \<times> 's sink_world" where
  "run_live_ebpf env host live_interface iface ebpf_object collector spool_dir w =
     (if \<not> live_interface then (Inl ''live-ebpf requires the `live-interface` feature'', w)
      else
        (case sink_new env collector spool_dir w of
           Inl e \<Rightarrow> (Inl e, w)
         | Inr (sk, w) \<Rightarrow>
             (case live_iface_run host iface ebpf_object of
                (r, evs) \<Rightarrow> (r, foldl (sink_send env sk) w evs))))"

section \<open>What a run delivers\<close>

lemma refused_append: "refused post s (a @ b) = refused post s a @ refused post (emitted_state post s a) b"
  by (induction a arbitrary: s) (auto split: prod.splits)

lemma emitted_append: "emitted_state post s (a @ b) = emitted_state post (emitted_state post s a) b"
  by (induction a arbitrary: s) auto

text \<open>A spool file that holds a list of events: the file drain leaves, or one built by appends.\<close>

definition spool_file_of :: "('e \<Rightarrow> string) \<Rightarrow> 'e list \<Rightarrow> spool_file" where
  "spool_file_of enc es = (if es = [] then None else Some (spool_encode enc es))"

lemma spool_append_file: "spool_append enc (spool_file_of enc es) e = spool_file_of enc (es @ [e])"
  by (simp add: spool_file_of_def spool_append_def spool_encode_def)

lemma drain_file:
  assumes "codec_laws enc dec"
  shows "spool_drain enc dec post (spool_file_of enc es) s =
    (let r = refused post s es in
     (\<lparr>ds_seen = length es, ds_delivered = length es - length r, ds_retained = length r, ds_corrupt_dropped = 0\<rparr>,
      spool_file_of enc r, emitted_state post s es))"
proof (cases "es = []")
  case False
  have "read_lines (spool_encode enc es) = map (Inr \<circ> enc) es"
    using read_lines_encode [OF assms, of es "[]"] by simp
  moreover have "offered dec (map (Inr \<circ> enc) es) = es" "corrupt_count dec (map (Inr \<circ> enc) es) = 0"
    using offered_encode [OF assms, of es "[]"] corrupt_encode [OF assms, of es "[]"] by simp_all
  ultimately show ?thesis
    using False
    by (simp add: spool_file_of_def spool_drain_def drain_lines_result drain_stats_default_def Let_def)
qed (simp add: spool_file_of_def spool_drain_def drain_stats_default_def)

lemma sends_result:
  assumes "si_collector sk = Some url" "si_spool sk" "sw_spool w = spool_file_of (sv_enc env) old"
  shows "foldl (sink_send env sk) w evs =
    w\<lparr>sw_server := emitted_state (sv_post env) (sw_server w) evs,
      sw_spool := spool_file_of (sv_enc env) (old @ refused (sv_post env) (sw_server w) evs)\<rparr>"
  using assms(3)
proof (induction evs arbitrary: w old)
  case (Cons e evs)
  obtain ok s where p: "sv_post env (sw_server w) e = (ok, s)" by fastforce
  show ?case
  proof (cases ok)
    case True
    then have "sink_send env sk w e = w\<lparr>sw_server := s\<rparr>"
      using p assms(1) by (simp add: sink_send_def)
    then show ?thesis using Cons.IH [of "w\<lparr>sw_server := s\<rparr>" old] Cons.prems p True by simp
  next
    case False
    then have "sink_send env sk w e =
        w\<lparr>sw_server := s, sw_spool := spool_file_of (sv_enc env) (old @ [e])\<rparr>"
      using p assms(1,2) Cons.prems by (simp add: sink_send_def spool_append_file)
    then show ?thesis
      using Cons.IH [of "w\<lparr>sw_server := s, sw_spool := spool_file_of (sv_enc env) (old @ [e])\<rparr>" "old @ [e]"] p False
      by simp
  qed
qed simp

lemma sink_run_result:
  assumes "codec_laws (sv_enc env) (sv_dec env)" "sv_client env = Inr ()" "sv_open env dir = Inr ()"
    and "sw_spool w = spool_file_of (sv_enc env) old"
  shows "sink_run env (Some url) (Some dir) evs w =
     Inr (w\<lparr>sw_server := emitted_state (sv_post env) (sw_server w) (old @ evs),
            sw_spool := spool_file_of (sv_enc env) (refused (sv_post env) (sw_server w) (old @ evs))\<rparr>)"
proof -
  let ?sk = "\<lparr>si_collector = Some url, si_spool = True\<rparr>"
  let ?w = "w\<lparr>sw_spool := spool_file_of (sv_enc env) (refused (sv_post env) (sw_server w) old),
    sw_server := emitted_state (sv_post env) (sw_server w) old\<rparr>"
  have "drain_spool env ?sk w = ?w"
    by (simp add: drain_spool_def assms(4) drain_file [OF assms(1)] Let_def)
  then have "sink_new env (Some url) (Some dir) w = Inr (?sk, ?w)"
    by (simp add: sink_new_def assms(2,3))
  moreover have "foldl (sink_send env ?sk) ?w evs =
      ?w\<lparr>sw_server := emitted_state (sv_post env) (sw_server ?w) evs,
        sw_spool := spool_file_of (sv_enc env)
          (refused (sv_post env) (sw_server w) old @ refused (sv_post env) (sw_server ?w) evs)\<rparr>"
    by (rule sends_result) simp_all
  ultimately show ?thesis
    by (simp add: sink_run_def refused_append emitted_append)
qed

text \<open>A run of the agent with a collector and a spool offers to the collector first the spooled
  events and then its own, each once and in order, and leaves in the spool exactly those it
  refused, in that order.\<close>

theorem sink_run_exact:
  assumes "codec_laws (sv_enc env) (sv_dec env)" "sv_client env = Inr ()" "sv_open env dir = Inr ()"
    and "sw_spool w = spool_file_of (sv_enc env) old"
  shows "sink_run env (Some url) (Some dir) evs w =
     Inr (w\<lparr>sw_server := emitted_state (sv_post env) (sw_server w) (old @ evs),
            sw_spool := spool_file_of (sv_enc env) (refused (sv_post env) (sw_server w) (old @ evs))\<rparr>)"
  by (rule sink_run_result [OF assms])

section \<open>Recovery from outages\<close>

text \<open>Successive runs of the agent, each with its own events.\<close>

fun agent_runs ::
  "('s, 'e) sink_env \<Rightarrow> string \<Rightarrow> string \<Rightarrow> 'e list list \<Rightarrow> 's sink_world \<Rightarrow>
   (string, 's sink_world) result" where
  "agent_runs env url dir [] w = Inr w"
| "agent_runs env url dir (evs # runs) w =
     rbind (sink_run env (Some url) (Some dir) evs w) (agent_runs env url dir runs)"

lemma agent_runs_append:
  "agent_runs env url dir (a @ b) w = rbind (agent_runs env url dir a w) (agent_runs env url dir b)"
proof (induction a arbitrary: w)
  case (Cons evs runs)
  then show ?case by (cases "sink_run env (Some url) (Some dir) evs w") simp_all
qed simp

text \<open>The serializer, the HTTP client and the spool directory work; and what the spool holds.\<close>

definition spool_works :: "('s, 'e) sink_env \<Rightarrow> string \<Rightarrow> bool" where
  "spool_works env dir \<longleftrightarrow>
     codec_laws (sv_enc env) (sv_dec env) \<and> sv_client env = Inr () \<and> sv_open env dir = Inr ()"

definition pending :: "('s, 'e) sink_env \<Rightarrow> 's sink_world \<Rightarrow> 'e list \<Rightarrow> bool" where
  "pending env w old \<longleftrightarrow> sw_spool w = spool_file_of (sv_enc env) old"

lemma sink_run_pending:
  assumes "spool_works env dir" "pending env w old"
  shows "sink_run env (Some url) (Some dir) evs w =
     Inr (w\<lparr>sw_server := emitted_state (sv_post env) (sw_server w) (old @ evs),
            sw_spool := spool_file_of (sv_enc env) (refused (sv_post env) (sw_server w) (old @ evs))\<rparr>)"
  using assms by (intro sink_run_result) (simp_all add: spool_works_def pending_def)

text \<open>Whatever the runs are, the collector has seen nothing but a sequence of posts.\<close>

lemma agent_runs_posts:
  assumes "spool_works env dir" "pending env w old" "agent_runs env url dir runs w = Inr w'"
  shows "\<exists>es. sw_server w' = emitted_state (sv_post env) (sw_server w) es"
  using assms(2,3)
proof (induction runs arbitrary: w old)
  case Nil
  then have "sw_server w' = emitted_state (sv_post env) (sw_server w) []" by simp
  then show ?case by blast
next
  case (Cons evs runs)
  let ?w1 = "w\<lparr>sw_server := emitted_state (sv_post env) (sw_server w) (old @ evs),
     sw_spool := spool_file_of (sv_enc env) (refused (sv_post env) (sw_server w) (old @ evs))\<rparr>"
  have "sink_run env (Some url) (Some dir) evs w = Inr ?w1"
    by (rule sink_run_pending [OF assms(1) Cons.prems(1)])
  then have "agent_runs env url dir runs ?w1 = Inr w'" using Cons.prems(2) by simp
  moreover have "pending env ?w1 (refused (sv_post env) (sw_server w) (old @ evs))" by (simp add: pending_def)
  ultimately obtain es where "sw_server w' = emitted_state (sv_post env) (sw_server ?w1) es"
    using Cons.IH by blast
  then have "sw_server w' = emitted_state (sv_post env) (sw_server w) ((old @ evs) @ es)"
    by (simp add: emitted_append)
  then show ?case by blast
qed

text \<open>Two lists with the same elements outside a predicate differ only inside it.\<close>

lemma mset_filter_cancel:
  assumes "mset xs + C = mset ys + D" "filter (\<lambda>x. \<not> P x) xs = filter (\<lambda>x. \<not> P x) ys"
  shows "mset (filter P xs) + C = mset (filter P ys) + D"
proof -
  have split: "mset zs = mset (filter P zs) + mset (filter (\<lambda>x. \<not> P x) zs)" for zs
    by (simp add: multiset_partition)
  have "mset (filter P xs) + C + mset (filter (\<lambda>x. \<not> P x) ys) = mset (filter P ys) + D + mset (filter (\<lambda>x. \<not> P x) ys)"
    using assms(1) unfolding split [of xs] split [of ys] assms(2) by (simp only: add_ac)
  then show ?thesis by (rule add_right_imp_eq)
qed

text \<open>What the agent relies on in a collector, for the events it can read (\<open>known\<close>).  One that it takes
  (\<open>good\<close>): a request that succeeds has stored the event; one that fails has used up some of the collector's
  \<open>patience\<close> and has stored either nothing or, when only the reply was lost, the event, which then counts among
  \<open>lost\<close>.  Any other is refused each time, and nothing is stored.\<close>

locale collector =
  fixes post :: "'s \<Rightarrow> 'e \<Rightarrow> bool \<times> 's"
    and accepted :: "'s \<Rightarrow> 'e list"
    and lost :: "'s \<Rightarrow> 'e list"
    and patience :: "'s \<Rightarrow> nat"
    and known :: "'e \<Rightarrow> bool"
    and good :: "'e \<Rightarrow> bool"
  assumes post_stored: "good e \<Longrightarrow> post s e = (True, s') \<Longrightarrow>
        accepted s' = accepted s @ [e] \<and> lost s' = lost s \<and> patience s' \<le> patience s"
    and post_failed: "good e \<Longrightarrow> post s e = (False, s') \<Longrightarrow> patience s' < patience s \<and>
        (accepted s' = accepted s \<and> lost s' = lost s \<or> accepted s' = accepted s @ [e] \<and> lost s' = lost s @ [e])"
    and post_refused: "known e \<Longrightarrow> \<not> good e \<Longrightarrow> post s e = (ok, s') \<Longrightarrow>
        \<not> ok \<and> accepted s' = accepted s \<and> lost s' = lost s \<and> patience s' \<le> patience s"
begin

lemma offers:
  assumes "list_all known es"
  shows "mset (accepted (emitted_state post s es)) + mset (refused post s es) + mset (lost s) =
      mset (accepted s) + mset es + mset (lost (emitted_state post s es)) \<and>
    patience (emitted_state post s es) + length (filter good (refused post s es)) \<le> patience s \<and>
    list_all known (refused post s es) \<and>
    filter (\<lambda>e. \<not> good e) (refused post s es) = filter (\<lambda>e. \<not> good e) es \<and>
    set (lost (emitted_state post s es)) \<subseteq> set (lost s) \<union> set (filter good es)"
  using assms
proof (induction es arbitrary: s)
  case (Cons e es)
  then have k: "known e" "list_all known es" by simp_all
  obtain ok s' where p: "post s e = (ok, s')" by fastforce
  note IH = Cons.IH [OF k(2), of s']
  show ?case
  proof (cases "good e")
    case False
    then show ?thesis using IH post_refused [OF k(1) False p] p k(1) by auto
  next
    case g: True
    show ?thesis
    proof (cases ok)
      case True
      then show ?thesis using IH post_stored [OF g, of s s'] p g by auto
    next
      case False
      then have f: "post s e = (False, s')" using p by simp
      from post_failed [OF g this] show ?thesis using IH g k(1) by (auto simp: f)
    qed
  qed
qed simp

text \<open>A run offers what was pending and what is new; the events no request can deliver stay, in order.\<close>

lemma run_step:
  assumes agent: "spool_works env dir" "sv_post env = post" and p: "pending env w old"
    and k: "list_all known old" "list_all known evs"
  obtains w' old' where "sink_run env (Some url) (Some dir) evs w = Inr w'" "pending env w' old'"
    "list_all known old'" "filter (\<lambda>e. \<not> good e) old' = filter (\<lambda>e. \<not> good e) (old @ evs)"
    "mset (accepted (sw_server w')) + mset old' + mset (lost (sw_server w)) =
     mset (accepted (sw_server w)) + mset (old @ evs) + mset (lost (sw_server w'))"
    "patience (sw_server w') + length (filter good old') \<le> patience (sw_server w)"
    "set (lost (sw_server w')) \<subseteq> set (lost (sw_server w)) \<union> set (filter good (old @ evs))"
    "set old' \<subseteq> set old \<union> set evs"
proof -
  let ?s = "sw_server w"
  let ?w = "w\<lparr>sw_server := emitted_state post ?s (old @ evs),
     sw_spool := spool_file_of (sv_enc env) (refused post ?s (old @ evs))\<rparr>"
  have all: "list_all known (old @ evs)" using k by simp
  have sub: "set (refused post s es) \<subseteq> set es" for s es
    by (induction es arbitrary: s) (auto split: prod.splits)
  show ?thesis
  proof (rule that [of ?w "refused post ?s (old @ evs)"])
    show "sink_run env (Some url) (Some dir) evs w = Inr ?w"
      using sink_run_pending [OF agent(1) p] agent(2) by simp
    show "set (refused post ?s (old @ evs)) \<subseteq> set old \<union> set evs" using sub [of ?s "old @ evs"] by simp
  qed (use offers [OF all, of ?s] in \<open>simp_all add: pending_def\<close>)
qed

lemma runs_conserve:
  assumes agent: "spool_works env dir" "sv_post env = post" and p: "pending env w old"
    and k: "list_all known old" "list_all known (concat runs)"
  obtains w' old' where "agent_runs env url dir runs w = Inr w'" "pending env w' old'" "list_all known old'"
    "filter (\<lambda>e. \<not> good e) old' = filter (\<lambda>e. \<not> good e) (old @ concat runs)"
    "mset (accepted (sw_server w')) + mset old' + mset (lost (sw_server w)) =
     mset (accepted (sw_server w)) + mset (old @ concat runs) + mset (lost (sw_server w'))"
    "patience (sw_server w') \<le> patience (sw_server w)"
    "set (lost (sw_server w')) \<subseteq> set (lost (sw_server w)) \<union> set (filter good (old @ concat runs))"
    "set old' \<subseteq> set old \<union> set (concat runs)"
  using p k
proof (induction runs arbitrary: w old thesis)
  case (Cons evs runs)
  have k: "list_all known evs" "list_all known (concat runs)" using Cons.prems(4) by simp_all
  obtain w1 old1 where 1: "sink_run env (Some url) (Some dir) evs w = Inr w1" "pending env w1 old1" "list_all known old1"
    "filter (\<lambda>e. \<not> good e) old1 = filter (\<lambda>e. \<not> good e) (old @ evs)"
    "mset (accepted (sw_server w1)) + mset old1 + mset (lost (sw_server w)) =
     mset (accepted (sw_server w)) + mset (old @ evs) + mset (lost (sw_server w1))"
    "patience (sw_server w1) + length (filter good old1) \<le> patience (sw_server w)"
    "set (lost (sw_server w1)) \<subseteq> set (lost (sw_server w)) \<union> set (filter good (old @ evs))"
    "set old1 \<subseteq> set old \<union> set evs"
    by (rule run_step [OF agent Cons.prems(2,3) k(1), of url])
  obtain w2 old2 where 2: "agent_runs env url dir runs w1 = Inr w2" "pending env w2 old2" "list_all known old2"
    "filter (\<lambda>e. \<not> good e) old2 = filter (\<lambda>e. \<not> good e) (old1 @ concat runs)"
    "mset (accepted (sw_server w2)) + mset old2 + mset (lost (sw_server w1)) =
     mset (accepted (sw_server w1)) + mset (old1 @ concat runs) + mset (lost (sw_server w2))"
    "patience (sw_server w2) \<le> patience (sw_server w1)"
    "set (lost (sw_server w2)) \<subseteq> set (lost (sw_server w1)) \<union> set (filter good (old1 @ concat runs))"
    "set old2 \<subseteq> set old1 \<union> set (concat runs)"
    by (rule Cons.IH [OF _ 1(2,3) k(2)])
  have "mset (accepted (sw_server w2)) + mset old2 + mset (lost (sw_server w)) + mset (lost (sw_server w1)) =
      mset (accepted (sw_server w)) + mset (old @ concat (evs # runs)) + mset (lost (sw_server w2))
      + mset (lost (sw_server w1))"
    using arg_cong2 [OF 1(5) 2(5), of "(+)"] by (simp add: add_ac)
  moreover have "set (lost (sw_server w2)) \<subseteq> set (lost (sw_server w)) \<union> set (filter good (old @ concat (evs # runs)))"
    using 1(7,8) 2(7) by auto
  ultimately show ?case
    by (intro Cons.prems(1) [of w2 old2]) (use 1 2 in auto)
qed auto

text \<open>Further runs with nothing new empty the spool of the good events; the others are offered for ever.\<close>

lemma flush:
  assumes agent: "spool_works env dir" "sv_post env = post" and p: "pending env w old"
    and k: "list_all known old"
    and n: "filter good old = [] \<or> patience (sw_server w) < n"
  obtains w' where "agent_runs env url dir (replicate n []) w = Inr w'" "pending env w' (filter (\<lambda>e. \<not> good e) old)"
    "mset (accepted (sw_server w')) + mset (lost (sw_server w)) =
     mset (accepted (sw_server w)) + mset (filter good old) + mset (lost (sw_server w'))"
    "set (lost (sw_server w')) \<subseteq> set (lost (sw_server w)) \<union> set (filter good old)"
  using p k n
proof (induction n arbitrary: w old thesis)
  case 0
  then have "filter (\<lambda>e. \<not> good e) old = old" by (auto simp: filter_empty_conv filter_id_conv)
  with 0 show ?case by (intro 0(1) [of w]) auto
next
  case (Suc n)
  obtain w1 old1 where 1: "sink_run env (Some url) (Some dir) [] w = Inr w1" "pending env w1 old1" "list_all known old1"
    "filter (\<lambda>e. \<not> good e) old1 = filter (\<lambda>e. \<not> good e) (old @ [])"
    "mset (accepted (sw_server w1)) + mset old1 + mset (lost (sw_server w)) =
     mset (accepted (sw_server w)) + mset (old @ []) + mset (lost (sw_server w1))"
    "patience (sw_server w1) + length (filter good old1) \<le> patience (sw_server w)"
    "set (lost (sw_server w1)) \<subseteq> set (lost (sw_server w)) \<union> set (filter good (old @ []))"
    "set old1 \<subseteq> set old \<union> set []"
    by (rule run_step [OF agent Suc.prems(2,3), of "[]" url]) simp_all
  have "filter good old1 = [] \<or> patience (sw_server w1) < n"
  proof (cases "filter good old1")
    case (Cons e es)
    then have "e \<in> set old" "good e" using 1(8) filter_eq_ConsD [OF Cons] by auto
    then have "filter good old \<noteq> []" by (auto simp: filter_empty_conv)
    then show ?thesis using Cons 1(6) Suc.prems(4) by auto
  qed simp
  from Suc.IH [OF _ 1(2,3) this] obtain w2 where 2: "agent_runs env url dir (replicate n []) w1 = Inr w2"
    "pending env w2 (filter (\<lambda>e. \<not> good e) old1)"
    "mset (accepted (sw_server w2)) + mset (lost (sw_server w1)) =
     mset (accepted (sw_server w1)) + mset (filter good old1) + mset (lost (sw_server w2))"
    "set (lost (sw_server w2)) \<subseteq> set (lost (sw_server w1)) \<union> set (filter good old1)" by blast
  have "mset (accepted (sw_server w1)) + mset (filter good old1) + mset (lost (sw_server w)) =
      mset (accepted (sw_server w)) + mset (filter good old) + mset (lost (sw_server w1))"
    using mset_filter_cancel [of old1 "mset (accepted (sw_server w1)) + mset (lost (sw_server w))" old _ good] 1(4,5)
    by (simp add: add_ac)
  from arg_cong2 [OF this 2(3), of "(+)"]
  have "mset (accepted (sw_server w2)) + mset (lost (sw_server w)) =
      mset (accepted (sw_server w)) + mset (filter good old) + mset (lost (sw_server w2))"
    by (simp add: add_ac)
  moreover have "set (filter good old1) \<subseteq> set (filter good old)" using 1(8) by auto
  ultimately show ?case by (intro Suc.prems(1) [of w2]) (use 1 2 in auto)
qed

lemma recovered:
  assumes "spool_works env dir" "sv_post env = post" "sw_spool w = None" "list_all known (concat runs)"
    and "patience (sw_server w) < n" "accepted (sw_server w) = []" "lost (sw_server w) = []"
  shows "\<exists>w'. agent_runs env url dir (runs @ replicate n []) w = Inr w' \<and>
     sw_spool w' = spool_file_of (sv_enc env) (filter (\<lambda>e. \<not> good e) (concat runs)) \<and>
     mset (accepted (sw_server w')) = mset (filter good (concat runs)) + mset (lost (sw_server w')) \<and>
     set (lost (sw_server w')) \<subseteq> set (filter good (concat runs))"
proof -
  have "pending env w []" by (simp add: pending_def spool_file_of_def assms(3))
  from runs_conserve [OF assms(1,2) this _ assms(4), of url] obtain w1 old1 where 1:
    "agent_runs env url dir runs w = Inr w1" "pending env w1 old1" "list_all known old1"
    "filter (\<lambda>e. \<not> good e) old1 = filter (\<lambda>e. \<not> good e) (concat runs)"
    "mset (accepted (sw_server w1)) + mset old1 = mset (concat runs) + mset (lost (sw_server w1))"
    "patience (sw_server w1) \<le> patience (sw_server w)"
    "set (lost (sw_server w1)) \<subseteq> set (filter good (concat runs))" "set old1 \<subseteq> set (concat runs)"
    using assms(6,7) by auto
  have "patience (sw_server w1) < n" using 1(6) assms(5) by simp
  then have "filter good old1 = [] \<or> patience (sw_server w1) < n" by simp
  from flush [OF assms(1,2) 1(2,3) this, of url] obtain w2 where 2:
    "agent_runs env url dir (replicate n []) w1 = Inr w2" "pending env w2 (filter (\<lambda>e. \<not> good e) old1)"
    "mset (accepted (sw_server w2)) + mset (lost (sw_server w1)) =
     mset (accepted (sw_server w1)) + mset (filter good old1) + mset (lost (sw_server w2))"
    "set (lost (sw_server w2)) \<subseteq> set (lost (sw_server w1)) \<union> set (filter good old1)" by blast
  have "mset (accepted (sw_server w1)) + mset (filter good old1) = mset (filter good (concat runs)) + mset (lost (sw_server w1))"
    using mset_filter_cancel [of old1 "mset (accepted (sw_server w1))" "concat runs" _ good] 1(4,5)
    by (simp add: add_ac)
  from arg_cong2 [OF this 2(3), of "(+)"]
  have "mset (accepted (sw_server w2)) = mset (filter good (concat runs)) + mset (lost (sw_server w2))"
    by (simp add: add_ac)
  moreover have "set (lost (sw_server w2)) \<subseteq> set (filter good (concat runs))"
    using 1(7,8) 2(4) unfolding set_filter by blast
  ultimately show ?thesis
    using 1(1,4) 2(1,2) by (auto simp: agent_runs_append pending_def)
qed

end

text \<open>A collector with a schedule of outages: the head of the schedule says whether the next request
  is accepted, and after the schedule every request is.  It keeps the events it accepted.\<close>

type_synonym 'e outage_server = "bool list \<times> 'e list"

definition outage_post :: "'e outage_server \<Rightarrow> 'e \<Rightarrow> bool \<times> 'e outage_server" where
  "outage_post srv e = (case srv of
     (up # sched, lg) \<Rightarrow> (up, (sched, if up then lg @ [e] else lg))
   | ([], lg) \<Rightarrow> (True, ([], lg @ [e])))"

interpretation outage: collector outage_post snd "\<lambda>_. []" "\<lambda>srv. length (fst srv)" "\<lambda>_. True" "\<lambda>_. True"
  by unfold_locales (auto simp: outage_post_def split: prod.splits list.splits)

definition spooled_agent :: "('e outage_server, 'e) sink_env \<Rightarrow> string \<Rightarrow> bool" where
  "spooled_agent env dir \<longleftrightarrow> spool_works env dir \<and> sv_post env = outage_post"

text \<open>Outages end without loss or duplication.  Let any runs of the agent meet a collector that
  refuses requests according to any finite schedule of outages.  After as many further runs as the
  schedule is long, plus one, the spool is empty and the collector has accepted each event of every run
  exactly as often as the agent emitted it.\<close>

theorem outages_recovered:
  assumes "spooled_agent env dir" "sw_server w = (sched, [])" "sw_spool w = None"
    and "length sched < n"
  shows "\<exists>w'. agent_runs env url dir (runs @ replicate n []) w = Inr w' \<and> sw_spool w' = None \<and>
     mset (snd (sw_server w')) = mset (concat runs)"
  using outage.recovered [of env dir w runs n url] assms by (simp add: spooled_agent_def list_all_iff spool_file_of_def)

section \<open>Witnesses\<close>

definition toy_sink_env :: "(nat outage_server, nat) sink_env" where
  "toy_sink_env = \<lparr>sv_enc = show_nat, sv_dec = dec_nat, sv_post = outage_post, sv_client = Inr (),
     sv_open = (\<lambda>_. Inr ())\<rparr>"

lemma toy_spooled_agent: "spooled_agent toy_sink_env dir"
  by (simp add: spooled_agent_def spool_works_def toy_sink_env_def codec_laws_nat)

lemma sink_run_exact_witness:
  "sink_run toy_sink_env (Some ''http://c'') (Some ''/s'') [9]
      \<lparr>sw_server = ([True, False], []), sw_stdout = [], sw_spool = spool_file_of show_nat [5]\<rparr> =
   Inr \<lparr>sw_server = ([], [5]), sw_stdout = [], sw_spool = spool_file_of show_nat [9]\<rparr>"
proof -
  have "codec_laws (sv_enc toy_sink_env) (sv_dec toy_sink_env)" by (simp add: toy_sink_env_def codec_laws_nat)
  from sink_run_exact [OF this, of "''/s''" "\<lparr>sw_server = ([True, False], []), sw_stdout = [],
      sw_spool = spool_file_of show_nat [5]\<rparr>" "[5]" "''http://c''" "[9]"]
  show ?thesis by (simp add: toy_sink_env_def outage_post_def)
qed

lemma outages_recovered_witness:
  "\<exists>w'. agent_runs toy_sink_env ''http://c'' ''/s'' ([[5, 7], [9]] @ replicate 3 [])
      \<lparr>sw_server = ([False, False], []), sw_stdout = [], sw_spool = None\<rparr> = Inr w' \<and> sw_spool w' = None \<and>
     mset (snd (sw_server w')) = mset (concat [[5, 7], [9]])"
  by (rule outages_recovered [OF toy_spooled_agent, where sched = "[False, False]"]) simp_all

end
