(* ===== verification/Cert.thy ===== *)
theory Cert
  imports Core_Types
begin

text \<open>
  Certificates: src/crates/ree0xq-cert/src/cert.rs, src/crates/ree0xq-cert/src/scan.rs, and the
  delivery sink of src/crates/ree0xq-cert/src/bin/ree0xq_cert.rs.  The PEM reader and the X.509
  parser (x509-parser), SHA-256 and chrono's formatting are fields of \<open>cert_env\<close>; the file walk is
  the list of entries walkdir yields, each with the outcome of reading it.
\<close>

definition CERT_MODULE_NAME :: string where
  "CERT_MODULE_NAME = ''ree0xq-cert''"

section \<open>PEM bundles\<close>

record parsed_cert =
  pc_der :: bytes
  pc_source_path :: "string option"
  pc_bundle_index :: nat

text \<open>What \<open>Pem::read\<close> returns on successive calls, until its first error.\<close>

datatype pem_read = PemBlock string bytes | PemMissingHeader | PemError string

fun pem_loop :: "string option \<Rightarrow> nat \<Rightarrow> pem_read list \<Rightarrow> (string, parsed_cert list) result" where
  "pem_loop path idx [] = Inr []"
| "pem_loop path idx (PemBlock label contents # rs) =
     (if label \<noteq> ''CERTIFICATE'' then pem_loop path idx rs
      else rbind (pem_loop path (idx + 1) rs) (\<lambda>out.
        Inr (\<lparr>pc_der = contents, pc_source_path = path, pc_bundle_index = idx\<rparr> # out)))"
| "pem_loop path idx (PemMissingHeader # rs) = Inr []"
| "pem_loop path idx (PemError e # rs) = Inl (''PEM parse: '' @ e)"

text \<open>The fields of a parsed certificate the code reads.  A name of the subject that is not a string is
  \<open>None\<close>; the alternative names are \<open>None\<close> when the extension is absent or malformed.\<close>

datatype general_name = DNSName string | OtherName

record x509_view =
  xv_common_names :: "string option list"
  xv_alt_names :: "general_name list option"
  xv_not_before :: int
  xv_not_after :: int
  xv_sig_oid :: string
  xv_key_len :: nat

record cert_env =
  ct_pem :: "bytes \<Rightarrow> pem_read list"
  ct_x509 :: "bytes \<Rightarrow> (string, x509_view) result"
  ct_sha256_hex :: "bytes \<Rightarrow> string"
  ct_rfc3339 :: "int \<Rightarrow> string option"
  ct_now :: timestamp

definition parse_pem_bundle :: "cert_env \<Rightarrow> bytes \<Rightarrow> string option \<Rightarrow> (string, parsed_cert list) result" where
  "parse_pem_bundle env pem path = pem_loop path 0 (ct_pem env pem)"

section \<open>Algorithms\<close>

definition sig_oid_table :: "(string \<times> string) list" where
  "sig_oid_table =
     [(''1.2.840.113549.1.1.5'', ''RSA-PKCS1-SHA1''), (''1.2.840.113549.1.1.11'', ''RSA-PKCS1-SHA256''),
      (''1.2.840.113549.1.1.12'', ''RSA-PKCS1-SHA384''), (''1.2.840.113549.1.1.13'', ''RSA-PKCS1-SHA512''),
      (''1.2.840.113549.1.1.10'', ''RSA-PSS''), (''1.2.840.10045.4.3.2'', ''ECDSA-SHA256''),
      (''1.2.840.10045.4.3.3'', ''ECDSA-SHA384''), (''1.2.840.10045.4.3.4'', ''ECDSA-SHA512''),
      (''1.3.101.112'', ''Ed25519''), (''1.3.101.113'', ''Ed448''),
      (''2.16.840.1.101.3.4.3.17'', ''ML-DSA-44''), (''2.16.840.1.101.3.4.3.18'', ''ML-DSA-65''),
      (''2.16.840.1.101.3.4.3.19'', ''ML-DSA-87'')]"

definition sig_algo_name :: "x509_view \<Rightarrow> string" where
  "sig_algo_name c = (case map_of sig_oid_table (xv_sig_oid c) of Some n \<Rightarrow> n | None \<Rightarrow> ''unknown'')"

definition decompose_table :: "(string \<times> string \<times> bool \<times> string option) list" where
  "decompose_table =
     [(''RSA-PKCS1-SHA1'', ''RSA-PKCS1'', False, Some ''SHA-1''),
      (''RSA-PKCS1-SHA256'', ''RSA-PKCS1'', False, Some ''SHA-256''),
      (''RSA-PKCS1-SHA384'', ''RSA-PKCS1'', False, Some ''SHA-384''),
      (''RSA-PKCS1-SHA512'', ''RSA-PKCS1'', False, Some ''SHA-512''),
      (''RSA-PSS'', ''RSA-PSS'', False, None),
      (''ECDSA-SHA256'', ''ECDSA'', False, Some ''SHA-256''),
      (''ECDSA-SHA384'', ''ECDSA'', False, Some ''SHA-384''),
      (''ECDSA-SHA512'', ''ECDSA'', False, Some ''SHA-512''),
      (''Ed25519'', ''Ed25519'', False, None), (''Ed448'', ''Ed448'', False, None),
      (''ML-DSA-44'', ''ML-DSA-44'', True, None), (''ML-DSA-65'', ''ML-DSA-65'', True, None),
      (''ML-DSA-87'', ''ML-DSA-87'', True, None)]"

definition decompose_sig :: "string \<Rightarrow> string \<times> bool \<times> string option" where
  "decompose_sig sig = (case map_of decompose_table sig of Some d \<Rightarrow> d | None \<Rightarrow> (sig, False, None))"

definition pq_nist_level :: "string \<Rightarrow> nist_level option" where
  "pq_nist_level sig =
     map_of [(''ML-DSA-44'', L1), (''ML-DSA-65'', L3), (''ML-DSA-87'', L5)] sig"

definition primitives_for :: "x509_view \<Rightarrow> primitive list" where
  "primitives_for c =
     (let sig_name = sig_algo_name c in
      case decompose_sig sig_name of (algo, pq, hash) \<Rightarrow>
        mk_primitive Sig algo (Some pq) (pq_nist_level sig_name) #
        (case hash of Some h \<Rightarrow> [mk_primitive Hash h (Some True) None] | None \<Rightarrow> []))"

section \<open>The event of a certificate\<close>

definition subject_cn :: "x509_view \<Rightarrow> string option" where
  "subject_cn c = (case xv_common_names c of [] \<Rightarrow> None | cn # _ \<Rightarrow> cn)"

definition first_san :: "x509_view \<Rightarrow> string option" where
  "first_san c = (case xv_alt_names c of
     None \<Rightarrow> None
   | Some ns \<Rightarrow> (case List.map_filter (\<lambda>n. case n of DNSName s \<Rightarrow> Some s | OtherName \<Rightarrow> None) ns of
        [] \<Rightarrow> None | s # _ \<Rightarrow> Some s))"

definition event_from_cert :: "cert_env \<Rightarrow> parsed_cert \<Rightarrow> (string, crypto_inventory_event) result" where
  "event_from_cert env cert =
     (case ct_x509 env (pc_der cert) of
        Inl e \<Rightarrow> Inl (''x509 parse: '' @ e)
      | Inr parsed \<Rightarrow>
          (let fingerprint = ct_sha256_hex env (pc_der cert);
               cn = (case subject_cn parsed of Some s \<Rightarrow> s | None \<Rightarrow> fingerprint);
               host = (case first_san parsed of Some s \<Rightarrow> Some s | None \<Rightarrow> subject_cn parsed);
               show_time = (\<lambda>t. case ct_rfc3339 env t of Some s \<Rightarrow> s | None \<Rightarrow> ''?'')
           in Inr
             \<lparr>ev_schema_version = SCHEMA_VERSION, ev_schema_minor = SCHEMA_MINOR,
              ev_source_module = CERT_MODULE_NAME, ev_observed_at = ct_now env,
              ev_asset = \<lparr>as_kind = X509Cert, as_identity = ''sha256:'' @ fingerprint, as_host = host\<rparr>,
              ev_primitives = primitives_for parsed, ev_channel_protection = None, ev_agility = None,
              ev_posture = \<lparr>po_score = 50,
                po_rationale = ''X.509 cert CN='' @ cn @ '' sig='' @ sig_algo_name parsed @ '' key='' @
                  show_nat (xv_key_len parsed) @ '' bytes; valid '' @ show_time (xv_not_before parsed) @
                  ''..'' @ show_time (xv_not_after parsed),
                po_replacement = None\<rparr>\<rparr>))"

text \<open>The events of a bundle: a certificate that does not parse as X.509 is skipped.\<close>

definition ok_events :: "cert_env \<Rightarrow> parsed_cert list \<Rightarrow> crypto_inventory_event list" where
  "ok_events env certs =
     List.map_filter (\<lambda>c. case event_from_cert env c of Inr ev \<Rightarrow> Some ev | Inl _ \<Rightarrow> None) certs"

section \<open>Host scan\<close>

definition DEFAULT_ROOTS :: "string list" where
  "DEFAULT_ROOTS = [''/etc/ssl'', ''/etc/pki'', ''/usr/local/share/ca-certificates'', ''/etc/letsencrypt/live'']"

definition CERT_EXTENSIONS :: "string list" where
  "CERT_EXTENSIONS = [''pem'', ''crt'', ''cer'']"

definition has_cert_extension :: "string \<Rightarrow> bool" where
  "has_cert_extension path = (case path_extension path of
     None \<Rightarrow> False
   | Some s \<Rightarrow> valid_utf8 s \<and> to_lower s \<in> set CERT_EXTENSIONS)"

record scan_stats =
  ss_roots_walked :: nat
  ss_files_inspected :: nat
  ss_files_skipped_io :: nat
  ss_files_skipped_no_certs :: nat
  ss_certs_parsed :: nat
  ss_events_emitted :: nat

definition scan_stats_default :: scan_stats where
  "scan_stats_default =
     \<lparr>ss_roots_walked = 0, ss_files_inspected = 0, ss_files_skipped_io = 0, ss_files_skipped_no_certs = 0,
      ss_certs_parsed = 0, ss_events_emitted = 0\<rparr>"

text \<open>An entry of the walk: a walk error, or a path, whether it is a regular file, and its content.\<close>

type_synonym cert_entry = "(unit, string \<times> bool \<times> (unit, bytes) result) result"

type_synonym scan_acc = "scan_stats \<times> crypto_inventory_event list"

definition emit_certs :: "cert_env \<Rightarrow> parsed_cert list \<Rightarrow> scan_acc \<Rightarrow> scan_acc" where
  "emit_certs env certs acc =
     foldl (\<lambda>(st, out) cert.
       (let st = ss_certs_parsed_update Suc st in
        case event_from_cert env cert of
          Inr ev \<Rightarrow> (ss_events_emitted_update Suc st, out @ [ev])
        | Inl _ \<Rightarrow> (st, out))) acc certs"

definition scan_entry :: "cert_env \<Rightarrow> scan_acc \<Rightarrow> cert_entry \<Rightarrow> scan_acc" where
  "scan_entry env acc entry =
     (case (acc, entry) of
        (_, Inl _) \<Rightarrow> acc
      | ((st, out), Inr (path, is_file, content)) \<Rightarrow>
          if \<not> is_file then acc
          else if \<not> has_cert_extension path then acc
          else
            (let st = ss_files_inspected_update Suc st in
             case content of
               Inl _ \<Rightarrow> (ss_files_skipped_io_update Suc st, out)
             | Inr bytes \<Rightarrow>
                 (case parse_pem_bundle env bytes (Some path) of
                    Inl _ \<Rightarrow> (ss_files_skipped_no_certs_update Suc st, out)
                  | Inr certs \<Rightarrow>
                      if certs = [] then (ss_files_skipped_no_certs_update Suc st, out)
                      else emit_certs env certs (st, out))))"

text \<open>A root is \<open>None\<close> when it does not exist, else the entries of its walk.\<close>

definition host_scan :: "cert_env \<Rightarrow> cert_entry list option list \<Rightarrow> scan_acc" where
  "host_scan env roots =
     foldl (\<lambda>(st, out) root.
       (let st = ss_roots_walked_update Suc st in
        case root of None \<Rightarrow> (st, out) | Some entries \<Rightarrow> foldl (scan_entry env) (st, out) entries))
       (scan_stats_default, []) roots"

section \<open>The sink\<close>

text \<open>\<open>--spool-dir\<close> is accepted and ignored: what the collector refuses is dropped.\<close>

definition cert_sink_send ::
  "('s \<Rightarrow> crypto_inventory_event \<Rightarrow> bool \<times> 's) \<Rightarrow> (crypto_inventory_event \<Rightarrow> string) \<Rightarrow> string option \<Rightarrow>
   's \<times> string list \<Rightarrow> crypto_inventory_event \<Rightarrow> 's \<times> string list" where
  "cert_sink_send post enc collector w ev =
     (case (collector, w) of
        (None, (srv, stdout)) \<Rightarrow> (srv, stdout @ [enc ev])
      | (Some _, (srv, stdout)) \<Rightarrow> (snd (post srv ev), stdout))"

definition cert_sink_new :: "(string, unit) result \<Rightarrow> string option \<Rightarrow> (string, unit) result" where
  "cert_sink_new client collector =
     (case collector of
        None \<Rightarrow> Inr ()
      | Some _ \<Rightarrow> (case client of Inl e \<Rightarrow> Inl (''client build: '' @ e) | Inr u \<Rightarrow> Inr u))"

text \<open>A scan hands its events to the sink one by one, whatever its own result is.\<close>

definition cert_deliver ::
  "('s \<Rightarrow> crypto_inventory_event \<Rightarrow> bool \<times> 's) \<Rightarrow> (crypto_inventory_event \<Rightarrow> string) \<Rightarrow> string option \<Rightarrow>
   's \<times> string list \<Rightarrow> crypto_inventory_event list \<Rightarrow> 's \<times> string list" where
  "cert_deliver post enc collector w evs = foldl (cert_sink_send post enc collector) w evs"

definition run_host_scan ::
  "cert_env \<Rightarrow> (string \<Rightarrow> cert_entry list option) \<Rightarrow> (string, unit) result \<Rightarrow> ('s \<Rightarrow> crypto_inventory_event \<Rightarrow> bool \<times> 's) \<Rightarrow>
   (crypto_inventory_event \<Rightarrow> string) \<Rightarrow> string list \<Rightarrow> string option \<Rightarrow> 's \<times> string list \<Rightarrow>
   (string, scan_stats) result \<times> 's \<times> string list" where
  "run_host_scan env walk client post enc roots collector w =
     (case cert_sink_new client collector of
        Inl e \<Rightarrow> (Inl e, w)
      | Inr _ \<Rightarrow>
          (case host_scan env (map walk (if roots = [] then DEFAULT_ROOTS else roots)) of
             (st, out) \<Rightarrow> (Inr st, cert_deliver post enc collector w out)))"

section \<open>What a scan reports\<close>

lemma foldl_emit:
  "emit_certs env certs (st, out) =
     (st\<lparr>ss_certs_parsed := ss_certs_parsed st + length certs,
         ss_events_emitted := ss_events_emitted st + length (ok_events env certs)\<rparr>,
      out @ ok_events env certs)"
proof (induction certs arbitrary: st out)
  case (Cons c cs)
  show ?case
  proof (cases "event_from_cert env c")
    case (Inl e)
    then have "emit_certs env (c # cs) (st, out) = emit_certs env cs (ss_certs_parsed_update Suc st, out)"
      by (simp add: emit_certs_def)
    then show ?thesis using Inl Cons [of "ss_certs_parsed_update Suc st" out]
      by (simp add: ok_events_def List.map_filter_def)
  next
    case (Inr ev)
    then have "emit_certs env (c # cs) (st, out) =
        emit_certs env cs (ss_events_emitted_update Suc (ss_certs_parsed_update Suc st), out @ [ev])"
      by (simp add: emit_certs_def)
    then show ?thesis
      using Inr Cons [of "ss_events_emitted_update Suc (ss_certs_parsed_update Suc st)" "out @ [ev]"]
      by (simp add: ok_events_def List.map_filter_def)
  qed
qed (simp add: emit_certs_def ok_events_def List.map_filter_def)

section \<open>What a host scan should report\<close>

text \<open>A specification apart from the code.  The signature algorithms by object identifier: the name in the
  rationale and the primitives.\<close>

definition signature_table :: "(string \<times> string \<times> primitive list) list" where
  "signature_table =
     (let classical = (\<lambda>algo. mk_primitive Sig algo (Some False) None);
          hash = (\<lambda>h. mk_primitive Hash h (Some True) None);
          lattice = (\<lambda>algo level. mk_primitive Sig algo (Some True) (Some level))
      in
     [(''1.2.840.113549.1.1.5'', ''RSA-PKCS1-SHA1'', [classical ''RSA-PKCS1'', hash ''SHA-1'']),
      (''1.2.840.113549.1.1.11'', ''RSA-PKCS1-SHA256'', [classical ''RSA-PKCS1'', hash ''SHA-256'']),
      (''1.2.840.113549.1.1.12'', ''RSA-PKCS1-SHA384'', [classical ''RSA-PKCS1'', hash ''SHA-384'']),
      (''1.2.840.113549.1.1.13'', ''RSA-PKCS1-SHA512'', [classical ''RSA-PKCS1'', hash ''SHA-512'']),
      (''1.2.840.113549.1.1.10'', ''RSA-PSS'', [classical ''RSA-PSS'']),
      (''1.2.840.10045.4.3.2'', ''ECDSA-SHA256'', [classical ''ECDSA'', hash ''SHA-256'']),
      (''1.2.840.10045.4.3.3'', ''ECDSA-SHA384'', [classical ''ECDSA'', hash ''SHA-384'']),
      (''1.2.840.10045.4.3.4'', ''ECDSA-SHA512'', [classical ''ECDSA'', hash ''SHA-512'']),
      (''1.3.101.112'', ''Ed25519'', [classical ''Ed25519'']),
      (''1.3.101.113'', ''Ed448'', [classical ''Ed448'']),
      (''2.16.840.1.101.3.4.3.17'', ''ML-DSA-44'', [lattice ''ML-DSA-44'' L1]),
      (''2.16.840.1.101.3.4.3.18'', ''ML-DSA-65'', [lattice ''ML-DSA-65'' L3]),
      (''2.16.840.1.101.3.4.3.19'', ''ML-DSA-87'', [lattice ''ML-DSA-87'' L5])])"

definition signature_row :: "string \<Rightarrow> string \<times> primitive list" where
  "signature_row oid =
     (case map_of signature_table oid of
        Some row \<Rightarrow> row
      | None \<Rightarrow> (''unknown'', [mk_primitive Sig ''unknown'' (Some False) None]))"

text \<open>The report of one certificate, field by field; none when it is not X.509.\<close>

definition cert_report :: "cert_env \<Rightarrow> bytes \<Rightarrow> crypto_inventory_event option" where
  "cert_report env der =
     (case ct_x509 env der of
        Inl _ \<Rightarrow> None
      | Inr c \<Rightarrow>
          (let cn = (case xv_common_names c of Some s # _ \<Rightarrow> Some s | _ \<Rightarrow> None);
               sans = [s. DNSName s \<leftarrow> (case xv_alt_names c of None \<Rightarrow> [] | Some ns \<Rightarrow> ns)];
               fingerprint = ct_sha256_hex env der;
               time = (\<lambda>t. case ct_rfc3339 env t of Some s \<Rightarrow> s | None \<Rightarrow> ''?'')
           in Some
             \<lparr>ev_schema_version = 1, ev_schema_minor = 1, ev_source_module = ''ree0xq-cert'',
              ev_observed_at = ct_now env,
              ev_asset = \<lparr>as_kind = X509Cert, as_identity = ''sha256:'' @ fingerprint,
                as_host = (case sans of s # _ \<Rightarrow> Some s | [] \<Rightarrow> cn)\<rparr>,
              ev_primitives = snd (signature_row (xv_sig_oid c)), ev_channel_protection = None, ev_agility = None,
              ev_posture = \<lparr>po_score = 50,
                po_rationale = ''X.509 cert CN='' @ (case cn of Some s \<Rightarrow> s | None \<Rightarrow> fingerprint) @
                  '' sig='' @ fst (signature_row (xv_sig_oid c)) @ '' key='' @ show_nat (xv_key_len c) @
                  '' bytes; valid '' @ time (xv_not_before c) @ ''..'' @ time (xv_not_after c),
                po_replacement = None\<rparr>\<rparr>))"

text \<open>The certificates of a bundle: its \<open>CERTIFICATE\<close> blocks up to where no further header is found; none at
  all when a block before that is malformed.\<close>

fun is_block :: "pem_read \<Rightarrow> bool" where
  "is_block (PemBlock _ _) = True"
| "is_block _ = False"

definition malformed_block :: "pem_read list \<Rightarrow> bool" where
  "malformed_block reads = (case dropWhile is_block reads of PemError _ # _ \<Rightarrow> True | _ \<Rightarrow> False)"

definition bundle_certs :: "pem_read list \<Rightarrow> bytes list" where
  "bundle_certs reads =
     (if malformed_block reads then []
      else [der. PemBlock label der \<leftarrow> takeWhile is_block reads, label = ''CERTIFICATE''])"

text \<open>The file an entry of the walk offers: a regular one with a certificate extension.\<close>

definition cert_file :: "cert_entry \<Rightarrow> (unit, bytes) result option" where
  "cert_file entry =
     (case entry of
        Inr (path, True, content) \<Rightarrow>
          (case path_extension path of
             Some ext \<Rightarrow> if valid_utf8 ext \<and> to_lower ext \<in> {''pem'', ''crt'', ''cer''} then Some content else None
           | None \<Rightarrow> None)
      | _ \<Rightarrow> None)"

definition file_certs :: "cert_env \<Rightarrow> (unit, bytes) result \<Rightarrow> bytes list" where
  "file_certs env content = (case content of Inl _ \<Rightarrow> [] | Inr pem \<Rightarrow> bundle_certs (ct_pem env pem))"

lemma signature_row_code: "(sig_algo_name c, primitives_for c) = signature_row (xv_sig_oid c)"
proof -
  have rows: "list_all (\<lambda>(oid, n). signature_row oid =
      (n, mk_primitive Sig (fst (decompose_sig n)) (Some (fst (snd (decompose_sig n)))) (pq_nist_level n) #
        (case snd (snd (decompose_sig n)) of Some h \<Rightarrow> [mk_primitive Hash h (Some True) None] | None \<Rightarrow> [])))
      sig_oid_table"
    by code_simp
  show ?thesis
  proof (cases "map_of sig_oid_table (xv_sig_oid c)")
    case None
    moreover have "map fst signature_table = map fst sig_oid_table"
      by (simp add: sig_oid_table_def signature_table_def Let_def)
    ultimately have "map_of signature_table (xv_sig_oid c) = None"
      by (metis list.set_map map_of_eq_None_iff)
    then show ?thesis using None
      by (simp add: signature_row_def sig_algo_name_def primitives_for_def Let_def decompose_sig_def
          decompose_table_def pq_nist_level_def)
  next
    case (Some n)
    from map_of_SomeD [OF this] rows show ?thesis using Some
      by (auto simp: list_all_iff sig_algo_name_def primitives_for_def Let_def split: prod.splits)
  qed
qed

lemma cert_report_code:
  "(case event_from_cert env c of Inr ev \<Rightarrow> Some ev | Inl _ \<Rightarrow> None) = cert_report env (pc_der c)"
proof (cases "ct_x509 env (pc_der c)")
  case (Inr v)
  define sans where "sans = [s. DNSName s \<leftarrow> (case xv_alt_names v of None \<Rightarrow> [] | Some ns \<Rightarrow> ns)]"
  have san: "first_san v = (case sans of [] \<Rightarrow> None | s # _ \<Rightarrow> Some s)"
  proof -
    have "List.map_filter (\<lambda>n. case n of DNSName s \<Rightarrow> Some s | OtherName \<Rightarrow> None) ns = [s. DNSName s \<leftarrow> ns]" for ns
      by (induction ns) (auto simp: List.map_filter_def split: general_name.splits)
    then show ?thesis by (simp add: first_san_def sans_def split: option.split)
  qed
  have "subject_cn v = (case xv_common_names v of Some s # _ \<Rightarrow> Some s | _ \<Rightarrow> None)"
    by (auto simp: subject_cn_def split: list.split option.split)
  moreover have "sig_algo_name v = fst (signature_row (xv_sig_oid v))"
    "primitives_for v = snd (signature_row (xv_sig_oid v))"
    by (simp_all add: signature_row_code [symmetric])
  ultimately show ?thesis
    using Inr
    by (cases sans) (simp_all add: event_from_cert_def cert_report_def san sans_def [symmetric] Let_def
        SCHEMA_VERSION_def SCHEMA_MINOR_def CERT_MODULE_NAME_def)
qed (simp add: event_from_cert_def cert_report_def)

lemma ok_events_report: "ok_events env certs = List.map_filter (cert_report env) (map pc_der certs)"
  by (induction certs) (auto simp: ok_events_def cert_report_code List.map_filter_def)

lemma malformed_block_simps [simp]:
  "\<not> malformed_block []" "malformed_block (PemBlock label contents # rs) \<longleftrightarrow> malformed_block rs"
  "\<not> malformed_block (PemMissingHeader # rs)" "malformed_block (PemError e # rs)"
  by (simp_all add: malformed_block_def)

lemma pem_loop_bundle:
  "case pem_loop path i reads of
     Inl _ \<Rightarrow> malformed_block reads
   | Inr certs \<Rightarrow> \<not> malformed_block reads \<and> map pc_der certs = bundle_certs reads"
proof (induction path i reads rule: pem_loop.induct)
  case (2 path i label contents rs)
  then show ?case
    by (cases "label = ''CERTIFICATE''"; cases "pem_loop path (i + 1) rs"; cases "pem_loop path i rs")
      (simp_all add: bundle_certs_def)
qed (simp_all add: bundle_certs_def)

lemma scan_entry_file:
  "scan_entry env (st, out) entry =
     (case cert_file entry of
        None \<Rightarrow> (st, out)
      | Some content \<Rightarrow>
          (let certs = file_certs env content; evs = List.map_filter (cert_report env) certs in
           (st\<lparr>ss_files_inspected := ss_files_inspected st + 1,
               ss_files_skipped_io := ss_files_skipped_io st + (if is_ok content then 0 else 1),
               ss_files_skipped_no_certs := ss_files_skipped_no_certs st + (if is_ok content \<and> certs = [] then 1 else 0),
               ss_certs_parsed := ss_certs_parsed st + length certs,
               ss_events_emitted := ss_events_emitted st + length evs\<rparr>, out @ evs)))"
proof (cases entry)
  case (Inr e)
  obtain path is_file content where e: "e = (path, is_file, content)" by (cases e) auto
  have ext: "has_cert_extension path \<longleftrightarrow> (case path_extension path of
      Some ext \<Rightarrow> valid_utf8 ext \<and> to_lower ext \<in> {''pem'', ''crt'', ''cer''} | None \<Rightarrow> False)"
    by (simp add: has_cert_extension_def CERT_EXTENSIONS_def split: option.split)
  have f: "cert_file entry = (if is_file \<and> has_cert_extension path then Some content else None)"
    unfolding ext by (cases is_file) (auto simp: Inr e cert_file_def split: option.splits)
  show ?thesis
  proof (cases "is_file \<and> has_cert_extension path")
    case False
    then show ?thesis by (simp add: f) (auto simp: Inr e scan_entry_def)
  next
    case True
    then have c: "cert_file entry = Some content" by (simp add: f)
    show ?thesis
    proof (cases content)
      case (Inl u)
      then show ?thesis
        using True unfolding c by (simp add: Inr e scan_entry_def file_certs_def List.map_filter_def Let_def)
    next
      case pem: (Inr pem)
      have b: "case parse_pem_bundle env pem (Some path) of Inl _ \<Rightarrow> bundle_certs (ct_pem env pem) = []
          | Inr certs \<Rightarrow> map pc_der certs = bundle_certs (ct_pem env pem)"
        using pem_loop_bundle [where path = "Some path" and i = 0 and reads = "ct_pem env pem"]
        by (auto simp: parse_pem_bundle_def bundle_certs_def split: sum.splits)
      show ?thesis
      proof (cases "parse_pem_bundle env pem (Some path)")
        case l: (Inl u)
        then show ?thesis
          using True b pem unfolding c
          by (simp add: Inr e scan_entry_def file_certs_def List.map_filter_def Let_def)
      next
        case r: (Inr certs)
        then have "file_certs env content = map pc_der certs" using b pem by (simp add: file_certs_def)
        then show ?thesis
          using True pem r unfolding c
          by (cases certs) (simp_all add: Inr e scan_entry_def foldl_emit ok_events_report List.map_filter_def Let_def)
      qed
    qed
  qed
qed (simp add: scan_entry_def cert_file_def)

lemma scan_entries_files:
  fixes env entries
  defines "files \<equiv> List.map_filter cert_file entries"
  defines "evs \<equiv> List.map_filter (cert_report env) (concat (map (file_certs env) files))"
  shows "foldl (scan_entry env) (st, out) entries =
     (st\<lparr>ss_files_inspected := ss_files_inspected st + length files,
         ss_files_skipped_io := ss_files_skipped_io st + length (filter (\<lambda>f. \<not> is_ok f) files),
         ss_files_skipped_no_certs := ss_files_skipped_no_certs st + length (filter (\<lambda>f. is_ok f \<and> file_certs env f = []) files),
         ss_certs_parsed := ss_certs_parsed st + length (concat (map (file_certs env) files)),
         ss_events_emitted := ss_events_emitted st + length evs\<rparr>, out @ evs)"
  unfolding files_def evs_def
proof (induction entries arbitrary: st out)
  case (Cons e es)
  show ?case
    by (cases "cert_file e") (simp_all add: scan_entry_file Cons List.map_filter_def Let_def)
qed (simp add: List.map_filter_def)

lemma host_scan_entries:
  "host_scan env roots =
     (let (st, out) = foldl (scan_entry env) (scan_stats_default, []) (concat (List.map_filter id roots))
      in (st\<lparr>ss_roots_walked := length roots\<rparr>, out))"
proof -
  let ?f = "\<lambda>(st, out) root. (let st = ss_roots_walked_update Suc st in
        case root of None \<Rightarrow> (st, out) | Some entries \<Rightarrow> foldl (scan_entry env) (st, out) entries)"
  have "foldl ?f (st, out) roots =
     (let (st', out') = foldl (scan_entry env) (st, out) (concat (List.map_filter id roots))
      in (st'\<lparr>ss_roots_walked := ss_roots_walked st + length roots\<rparr>, out'))" for st out
  proof (induction roots arbitrary: st out)
    case (Cons r roots)
    then show ?case
      by (cases r) (simp_all add: scan_entries_files List.map_filter_def Let_def)
  qed (simp add: List.map_filter_def)
  then show ?thesis by (simp add: host_scan_def scan_stats_default_def Let_def)
qed


text \<open>A valid certificate in front of a corrupt block is not reported.\<close>

theorem corrupt_block_hides_certificates:
  assumes "ct_pem env pem = [PemBlock ''CERTIFICATE'' der, PemError e]"
  shows "fst (host_scan env [Some [Inr (''a.pem'', True, Inr pem)]]) =
      scan_stats_default\<lparr>ss_roots_walked := 1, ss_files_inspected := 1, ss_files_skipped_no_certs := 1\<rparr> \<and>
    snd (host_scan env [Some [Inr (''a.pem'', True, Inr pem)]]) = []"
proof -
  have "cert_file (Inr (''a.pem'', True, Inr pem)) = Some (Inr pem)"
    by (simp add: cert_file_def path_extension_def path_file_name_def to_lower_def ascii_lower_def byte_in_def)
  moreover have "file_certs env (Inr pem) = []" by (simp add: file_certs_def bundle_certs_def assms)
  ultimately show ?thesis
    by (simp add: host_scan_entries scan_entry_file scan_stats_default_def Let_def List.map_filter_def)
qed

section \<open>Algorithms of certificates\<close>

lemma sig_oid_cases:
  obtains "map_of sig_oid_table (xv_sig_oid c) = None" "sig_algo_name c = ''unknown''"
  | n where "(xv_sig_oid c, n) \<in> set sig_oid_table" "sig_algo_name c = n"
proof (cases "map_of sig_oid_table (xv_sig_oid c)")
  case (Some n)
  then show ?thesis using that(2) [of n] map_of_SomeD [OF Some] by (simp add: sig_algo_name_def)
qed (use that(1) in \<open>simp add: sig_algo_name_def\<close>)

definition oid_pq :: "string \<Rightarrow> bool \<times> nist_level option" where
  "oid_pq oid = (if oid = ''2.16.840.1.101.3.4.3.17'' then (True, Some L1)
     else if oid = ''2.16.840.1.101.3.4.3.18'' then (True, Some L3)
     else if oid = ''2.16.840.1.101.3.4.3.19'' then (True, Some L5) else (False, None))"

lemma oid_pq_table:
  "list_all (\<lambda>(oid, n). (fst (snd (decompose_sig n)), pq_nist_level n) = oid_pq oid) sig_oid_table"
  by (simp add: sig_oid_table_def oid_pq_def decompose_sig_def decompose_table_def pq_nist_level_def)

text \<open>An X.509 event claims a post-quantum signature exactly for the three ML-DSA object
  identifiers, and gives it the NIST level of its parameter set.\<close>

theorem cert_pq_iff_ml_dsa:
  "(\<exists>p\<in>set (primitives_for c). pr_role p = Sig \<and> pr_pq_resistant p = Some True \<and> pr_nist p = l) \<longleftrightarrow>
     (xv_sig_oid c, l) \<in> {(''2.16.840.1.101.3.4.3.17'', Some L1), (''2.16.840.1.101.3.4.3.18'', Some L3),
       (''2.16.840.1.101.3.4.3.19'', Some L5)}"
proof -
  let ?n = "sig_algo_name c"
  let ?pq = "(fst (snd (decompose_sig ?n)), pq_nist_level ?n)"
  have "(\<exists>p\<in>set (primitives_for c). pr_role p = Sig \<and> pr_pq_resistant p = Some True \<and> pr_nist p = l) \<longleftrightarrow>
      ?pq = (True, l)"
    by (cases "decompose_sig ?n") (auto simp: primitives_for_def Let_def split: option.splits)
  also have "?pq = oid_pq (xv_sig_oid c)"
  proof (cases rule: sig_oid_cases [of c])
    case 1
    then have "xv_sig_oid c \<noteq> o'" if "map_of sig_oid_table o' \<noteq> None" for o'
      using that by auto
    from this [of "''2.16.840.1.101.3.4.3.17''"] this [of "''2.16.840.1.101.3.4.3.18''"]
      this [of "''2.16.840.1.101.3.4.3.19''"] show ?thesis
      using 1(2) by (simp add: oid_pq_def decompose_sig_def decompose_table_def sig_oid_table_def pq_nist_level_def)
  next
    case (2 n)
    then show ?thesis using oid_pq_table by (auto simp: list_all_iff)
  qed
  finally show ?thesis by (auto simp: oid_pq_def)
qed

text \<open>The hash of every RSA-PKCS1 or ECDSA certificate is reported as post-quantum safe, SHA-1 too,
  which the table for TLS suites marks as not safe.\<close>

theorem sha1_certificate_marked_safe:
  "xv_sig_oid c = ''1.2.840.113549.1.1.5'' \<Longrightarrow>
     mk_primitive Hash ''SHA-1'' (Some True) None \<in> set (primitives_for c)"
  by (simp add: Let_def primitives_for_def sig_algo_name_def sig_oid_table_def decompose_sig_def decompose_table_def)

lemma sha1_certificate_marked_safe_witness:
  "mk_primitive Hash ''SHA-1'' (Some True) None \<in> set (primitives_for \<lparr>xv_common_names = [],
     xv_alt_names = None, xv_not_before = 0, xv_not_after = 0, xv_sig_oid = ''1.2.840.113549.1.1.5'', xv_key_len = 256\<rparr>)"
  by (rule sha1_certificate_marked_safe) simp

end
