(* ===== verification/Ct_Scan.thy ===== *)
theory Ct_Scan
  imports Cert "HOL-Library.Finite_Map"
begin

text \<open>
  The certificate-transparency scanner (src/crates/ree0xq-cert/src/ct.rs) with its crt.sh backend and
  its cursor file.  HTTP requests are a function from the URL to a status and a body; reading and
  writing the cursor's JSON (serde) are parameters.  Ids are \<open>u64\<close>, only compared, so naturals.
\<close>

section \<open>Backends\<close>

record ct_list_entry =
  cl_id :: nat
  cl_common_name :: "string option"

record ct_backend =
  cb_list :: "string \<Rightarrow> (string, ct_list_entry list) result"
  cb_fetch_pem :: "nat \<Rightarrow> (string, bytes) result"

definition crt_sh_list ::
  "(string \<Rightarrow> (string, nat \<times> 'b) result) \<Rightarrow> ('b \<Rightarrow> (string, ct_list_entry list) result) \<Rightarrow> string \<Rightarrow>
   (string, ct_list_entry list) result" where
  "crt_sh_list get json domain =
     (case get (''https://crt.sh/?q=%25.'' @ domain @ ''&output=json'') of
        Inl e \<Rightarrow> Inl (''crt.sh list: '' @ e)
      | Inr (status, body) \<Rightarrow>
          if \<not> is_success status then Inl (''crt.sh list returned '' @ show_nat status)
          else (case json body of Inl e \<Rightarrow> Inl (''crt.sh list JSON: '' @ e) | Inr es \<Rightarrow> Inr es))"

definition crt_sh_fetch ::
  "(string \<Rightarrow> (string, nat \<times> 'b) result) \<Rightarrow> ('b \<Rightarrow> (string, bytes) result) \<Rightarrow> nat \<Rightarrow> (string, bytes) result" where
  "crt_sh_fetch get body_bytes i =
     (case get (''https://crt.sh/?d='' @ show_nat i) of
        Inl e \<Rightarrow> Inl (''crt.sh fetch id='' @ show_nat i @ '': '' @ e)
      | Inr (status, body) \<Rightarrow>
          if \<not> is_success status
          then Inl (''crt.sh fetch id='' @ show_nat i @ '' returned '' @ show_nat status)
          else (case body_bytes body of Inl e \<Rightarrow> Inl (''crt.sh fetch body: '' @ e) | Inr bs \<Rightarrow> Inr bs))"

section \<open>The cursor\<close>

type_synonym cursor_map = "string \<rightharpoonup> nat"

text \<open>The file is absent, or its text, or an error to read it.\<close>

type_synonym cursor_file = "(string, string) result option"

definition cursor_load :: "(string \<Rightarrow> (string, cursor_map) result) \<Rightarrow> cursor_file \<Rightarrow> (string, cursor_map) result" where
  "cursor_load dec file = (case file of
     None \<Rightarrow> Inr Map.empty
   | Some r \<Rightarrow> rbind r (\<lambda>raw. if trim raw = [] then Inr Map.empty else dec raw))"

record ct_scan_config =
  cg_domains :: "string list"
  cg_cursor :: bool

record ct_scan_stats =
  ct_domains_scanned :: nat
  ct_entries_listed :: nat
  ct_entries_below_cursor :: nat
  ct_certs_fetched :: nat
  ct_fetch_failures :: nat
  ct_events_emitted :: nat

definition ct_stats_default :: ct_scan_stats where
  "ct_stats_default =
     \<lparr>ct_domains_scanned = 0, ct_entries_listed = 0, ct_entries_below_cursor = 0, ct_certs_fetched = 0,
      ct_fetch_failures = 0, ct_events_emitted = 0\<rparr>"

section \<open>The scan\<close>

definition decorate :: "string \<Rightarrow> crypto_inventory_event \<Rightarrow> crypto_inventory_event" where
  "decorate domain ev =
     (if as_host (ev_asset ev) = None
      then ev\<lparr>ev_asset := (ev_asset ev)\<lparr>as_host := Some domain\<rparr>\<rparr> else ev)"

type_synonym ct_acc = "ct_scan_stats \<times> nat \<times> crypto_inventory_event list"

definition emit_ct_certs :: "cert_env \<Rightarrow> string \<Rightarrow> parsed_cert list \<Rightarrow> ct_scan_stats \<times> crypto_inventory_event list \<Rightarrow>
    ct_scan_stats \<times> crypto_inventory_event list" where
  "emit_ct_certs env domain certs acc =
     foldl (\<lambda>(st, out) cert. case event_from_cert env cert of
         Inr ev \<Rightarrow> (ct_events_emitted_update Suc st, out @ [decorate domain ev])
       | Inl _ \<Rightarrow> (st, out)) acc certs"

definition ct_entry :: "cert_env \<Rightarrow> ct_backend \<Rightarrow> string \<Rightarrow> nat \<Rightarrow> ct_acc \<Rightarrow> ct_list_entry \<Rightarrow> ct_acc" where
  "ct_entry env backend domain prev_max acc entry =
     (case acc of (st, new_max, out) \<Rightarrow>
        if cl_id entry \<le> prev_max then (ct_entries_below_cursor_update Suc st, new_max, out)
        else
          (case cb_fetch_pem backend (cl_id entry) of
             Inl _ \<Rightarrow> (ct_fetch_failures_update Suc st, new_max, out)
           | Inr pem \<Rightarrow>
               (case parse_pem_bundle env pem None of
                  Inl _ \<Rightarrow> (ct_fetch_failures_update Suc st, new_max, out)
                | Inr certs \<Rightarrow>
                    if certs = [] then (ct_fetch_failures_update Suc st, new_max, out)
                    else
                      (case emit_ct_certs env domain certs (ct_certs_fetched_update Suc st, out) of
                         (st, out) \<Rightarrow> (st, max new_max (cl_id entry), out)))))"

definition ct_domain ::
  "cert_env \<Rightarrow> ct_backend \<Rightarrow> ct_scan_stats \<times> cursor_map \<times> crypto_inventory_event list \<Rightarrow> string \<Rightarrow>
   ct_scan_stats \<times> cursor_map \<times> crypto_inventory_event list" where
  "ct_domain env backend acc domain =
     (case acc of (st, cursor, out) \<Rightarrow>
        (let st = ct_domains_scanned_update Suc st in
         case cb_list backend domain of
           Inl _ \<Rightarrow> (st, cursor, out)
         | Inr entries \<Rightarrow>
             (let entries = sort_key cl_id entries;
                  st = st\<lparr>ct_entries_listed := ct_entries_listed st + length entries\<rparr>;
                  prev_max = (case cursor domain of Some n \<Rightarrow> n | None \<Rightarrow> 0) in
              case foldl (ct_entry env backend domain prev_max) (st, prev_max, out) entries of
                (st, new_max, out) \<Rightarrow> (st, cursor(domain \<mapsto> new_max), out))))"

text \<open>Result, events handed to the callback, and the cursor file afterwards; \<open>write\<close> is the outcome of
  writing it.\<close>

definition ct_scan ::
  "cert_env \<Rightarrow> (string \<Rightarrow> (string, cursor_map) result) \<Rightarrow> (cursor_map \<Rightarrow> string) \<Rightarrow> (string, unit) result \<Rightarrow>
   ct_scan_config \<Rightarrow> ct_backend \<Rightarrow> cursor_file \<Rightarrow>
   (string, ct_scan_stats) result \<times> crypto_inventory_event list \<times> cursor_file" where
  "ct_scan env dec enc write cfg backend file =
     (case (if cg_cursor cfg then cursor_load dec file else Inr Map.empty) of
        Inl e \<Rightarrow> (Inl e, [], file)
      | Inr cursor \<Rightarrow>
          (case foldl (ct_domain env backend) (ct_stats_default, cursor, []) (cg_domains cfg) of
             (st, cursor', out) \<Rightarrow>
               if \<not> cg_cursor cfg then (Inr st, out, file)
               else (case write of
                   Inl e \<Rightarrow> (Inl e, out, file)
                 | Inr _ \<Rightarrow> (Inr st, out, Some (Inr (enc cursor'))))))"

definition run_ct_scan ::
  "cert_env \<Rightarrow> (string \<Rightarrow> (string, cursor_map) result) \<Rightarrow> (cursor_map \<Rightarrow> string) \<Rightarrow> (string, unit) result \<Rightarrow>
   (string, unit) result \<Rightarrow> ('s \<Rightarrow> crypto_inventory_event \<Rightarrow> bool \<times> 's) \<Rightarrow> (crypto_inventory_event \<Rightarrow> string) \<Rightarrow>
   ct_scan_config \<Rightarrow> (string, ct_backend) result \<Rightarrow> string option \<Rightarrow> cursor_file \<times> 's \<times> string list \<Rightarrow>
   (string, ct_scan_stats) result \<times> cursor_file \<times> 's \<times> string list" where
  "run_ct_scan env dec enc write client post show_ev cfg backend collector w =
     (case rbind backend (\<lambda>b. rbind (cert_sink_new client collector) (\<lambda>_. Inr b)) of
        Inl e \<Rightarrow> (Inl e, w)
      | Inr b \<Rightarrow>
          (case w of (file, sinks) \<Rightarrow>
             (case ct_scan env dec enc write cfg b file of
                (r, evs, file') \<Rightarrow> (r, file', cert_deliver post show_ev collector sinks evs))))"

section \<open>One domain\<close>

text \<open>What a listed id yields: the bundle of its PEM, when it can be fetched and holds a certificate.\<close>

definition usable_certs :: "cert_env \<Rightarrow> ct_backend \<Rightarrow> nat \<Rightarrow> parsed_cert list" where
  "usable_certs env backend i = (case cb_fetch_pem backend i of
     Inl _ \<Rightarrow> []
   | Inr pem \<Rightarrow> (case parse_pem_bundle env pem None of Inl _ \<Rightarrow> [] | Inr certs \<Rightarrow> certs))"

abbreviation usable :: "cert_env \<Rightarrow> ct_backend \<Rightarrow> nat \<Rightarrow> bool" where
  "usable env backend i \<equiv> usable_certs env backend i \<noteq> []"

definition id_events :: "cert_env \<Rightarrow> ct_backend \<Rightarrow> string \<Rightarrow> nat \<Rightarrow> crypto_inventory_event list" where
  "id_events env backend domain i = map (decorate domain) (ok_events env (usable_certs env backend i))"

lemma emit_ct_certs_result:
  "emit_ct_certs env d certs (st, out) =
     (st\<lparr>ct_events_emitted := ct_events_emitted st + length (ok_events env certs)\<rparr>,
      out @ map (decorate d) (ok_events env certs))"
proof (induction certs arbitrary: st out)
  case (Cons c cs)
  have nil: "emit_ct_certs env d (c # cs) (st, out) = emit_ct_certs env d cs
      (case event_from_cert env c of Inr ev \<Rightarrow> (ct_events_emitted_update Suc st, out @ [decorate d ev]) | Inl _ \<Rightarrow> (st, out))"
    by (simp add: emit_ct_certs_def)
  show ?case
    unfolding nil by (cases "event_from_cert env c") (simp_all add: Cons ok_events_def List.map_filter_def)
qed (simp add: emit_ct_certs_def ok_events_def List.map_filter_def)

lemma ct_entry_result:
  "ct_entry env b d prev (st, m, out) e =
     (if cl_id e \<le> prev then (ct_entries_below_cursor_update Suc st, m, out)
      else if usable env b (cl_id e)
      then (st\<lparr>ct_certs_fetched := ct_certs_fetched st + 1,
              ct_events_emitted := ct_events_emitted st + length (id_events env b d (cl_id e))\<rparr>,
            max m (cl_id e), out @ id_events env b d (cl_id e))
      else (ct_fetch_failures_update Suc st, m, out @ id_events env b d (cl_id e)))"
  by (auto simp: ct_entry_def usable_certs_def id_events_def emit_ct_certs_result ok_events_def
      List.map_filter_def split: sum.splits)

definition fresh_ids :: "nat \<Rightarrow> ct_list_entry list \<Rightarrow> nat list" where
  "fresh_ids prev entries = filter (\<lambda>i. prev < i) (map cl_id (sort_key cl_id entries))"

lemma id_events_unusable: "\<not> usable env b i \<Longrightarrow> id_events env b d i = []"
  by (simp add: id_events_def ok_events_def List.map_filter_def)

lemma ct_entries_result:
  "foldl (ct_entry env b d prev) (st, m, out) es =
     (let ids = filter (\<lambda>i. prev < i) (map cl_id es) in
      (st\<lparr>ct_entries_below_cursor := ct_entries_below_cursor st + length (filter (\<lambda>i. i \<le> prev) (map cl_id es)),
          ct_certs_fetched := ct_certs_fetched st + length (filter (usable env b) ids),
          ct_fetch_failures := ct_fetch_failures st + length (filter (\<lambda>i. \<not> usable env b i) ids),
          ct_events_emitted := ct_events_emitted st + length (concat (map (id_events env b d) ids))\<rparr>,
       fold max (filter (usable env b) ids) m, out @ concat (map (id_events env b d) ids)))"
proof (induction es arbitrary: st m out)
  case (Cons e es)
  consider "cl_id e \<le> prev" | "prev < cl_id e" "usable env b (cl_id e)" | "prev < cl_id e" "\<not> usable env b (cl_id e)"
    by fastforce
  then show ?case
    by cases (simp_all add: ct_entry_result Cons Let_def max.commute id_events_unusable)
qed simp

text \<open>The cursor a domain ends with: the highest usable id above the old one, or the old one.\<close>

definition high_water :: "cert_env \<Rightarrow> ct_backend \<Rightarrow> nat \<Rightarrow> ct_list_entry list \<Rightarrow> nat" where
  "high_water env b prev entries = Max (insert prev {i \<in> cl_id ` set entries. prev < i \<and> usable env b i})"

lemma fold_max: "fold max xs (m :: nat) = Max (insert m (set xs))"
  using Max.set_eq_fold [of m xs] by simp

lemma ct_domain_result:
  assumes "cb_list b d = Inr entries" "prev = (case cursor d of Some n \<Rightarrow> n | None \<Rightarrow> 0)"
  shows "\<exists>st'. ct_domain env b (st, cursor, out) d =
      (st', cursor(d \<mapsto> high_water env b prev entries),
       out @ concat (map (id_events env b d) (fresh_ids prev entries))) \<and>
     ct_entries_below_cursor st' + ct_certs_fetched st' + ct_fetch_failures st' =
       ct_entries_below_cursor st + ct_certs_fetched st + ct_fetch_failures st + length entries \<and>
     ct_entries_listed st' = ct_entries_listed st + length entries \<and>
     ct_domains_scanned st' = Suc (ct_domains_scanned st) \<and>
     ct_events_emitted st' = ct_events_emitted st + length (concat (map (id_events env b d) (fresh_ids prev entries)))"
proof -
  let ?es = "sort_key cl_id entries"
  let ?ids = "filter (\<lambda>i. prev < i) (map cl_id ?es)"
  have "length (filter (\<lambda>i. i \<le> prev) (map cl_id ?es)) + length ?ids = length entries"
    using sum_length_filter_compl [of "\<lambda>i. i \<le> prev" "map cl_id ?es"] by (simp add: not_le)
  moreover have "length (filter (usable env b) ?ids) + length (filter (\<lambda>i. \<not> usable env b i) ?ids) = length ?ids"
    by (rule sum_length_filter_compl)
  moreover have "fold max (filter (usable env b) ?ids) prev = high_water env b prev entries"
    unfolding fold_max high_water_def by (rule arg_cong [where f = Max]) auto
  ultimately show ?thesis
    using assms by (simp add: ct_domain_def ct_entries_result Let_def fresh_ids_def)
qed

text \<open>C22: the scan of one domain fetches exactly the listed ids above the cursor, in ascending order,
  reports the certificates of those that can be used, and moves the cursor to the highest of them;
  every listed entry is counted as below the cursor, fetched or failed.\<close>

theorem ct_scan_domain_exact:
  assumes "cursor_load dec file = Inr cursor" "cb_list b d = Inr entries"
    and "prev = (case cursor d of Some n \<Rightarrow> n | None \<Rightarrow> 0)"
  shows "\<exists>st. ct_scan env dec enc (Inr ()) \<lparr>cg_domains = [d], cg_cursor = True\<rparr> b file =
      (Inr st, concat (map (id_events env b d) (fresh_ids prev entries)),
       Some (Inr (enc (cursor(d \<mapsto> high_water env b prev entries))))) \<and>
     ct_entries_listed st = length entries \<and>
     ct_entries_below_cursor st + ct_certs_fetched st + ct_fetch_failures st = length entries"
  using ct_domain_result [where cursor = cursor and prev = prev, OF assms(2,3), of env ct_stats_default "[]"] assms(1)
  by (auto simp: ct_scan_def ct_stats_default_def)

section \<open>What a later run misses\<close>

text \<open>The cursor's JSON reads back as the cursor, and is not blank.\<close>

definition cursor_codec :: "(string \<Rightarrow> (string, cursor_map) result) \<Rightarrow> (cursor_map \<Rightarrow> string) \<Rightarrow> bool" where
  "cursor_codec dec enc \<longleftrightarrow> (\<forall>c. finite (dom c) \<longrightarrow> dec (enc c) = Inr c \<and> trim (enc c) \<noteq> [])"

text \<open>C35: an id that fails below one that succeeds is lost.  When the log lists an id whose fetch fails
  in a run and a higher one that is usable, no later run with the saved cursor fetches the failed
  id again, whatever the log then lists or serves: it reports only ids above the usable one.\<close>

theorem ct_failed_id_lost:
  assumes "cursor_codec dec enc" "cursor_load dec file = Inr cursor" "finite (dom cursor)"
    and "cb_list b d = Inr entries" "prev = (case cursor d of Some n \<Rightarrow> n | None \<Rightarrow> 0)"
    and "{lost, good} \<subseteq> cl_id ` set entries" "prev < lost" "lost < good"
    and "\<not> usable env b lost" "usable env b good"
    and "ct_scan env dec enc (Inr ()) \<lparr>cg_domains = [d], cg_cursor = True\<rparr> b file = (r, evs, file')"
    and "cb_list later d = Inr entries'"
  shows "\<exists>st ids file''. ct_scan env' dec enc (Inr ()) \<lparr>cg_domains = [d], cg_cursor = True\<rparr> later file' =
      (Inr st, concat (map (id_events env' later d) ids), file'') \<and> (\<forall>i\<in>set ids. lost < i \<and> good < i)"
proof -
  let ?c = "cursor(d \<mapsto> high_water env b prev entries)"
  have file': "file' = Some (Inr (enc ?c))"
    using ct_domain_result [where cursor = cursor and prev = prev, OF assms(4,5), of env ct_stats_default "[]"] assms(2,11)
    by (auto simp: ct_scan_def)
  have "dec (enc ?c) = Inr ?c" "trim (enc ?c) \<noteq> []"
    using assms(1,3) by (simp_all add: cursor_codec_def)
  then have load: "cursor_load dec file' = Inr ?c" by (simp add: file' cursor_load_def)
  let ?S = "insert prev {i \<in> cl_id ` set entries. prev < i \<and> usable env b i}"
  have "good \<in> ?S" using assms(6,7,8,10) by auto
  then have "good \<le> high_water env b prev entries"
    unfolding high_water_def by (intro Max_ge) auto
  then have "\<forall>i\<in>set (fresh_ids (high_water env b prev entries) entries'). lost < i \<and> good < i"
    using assms(8) by (auto simp: fresh_ids_def)
  moreover have "\<exists>st file''. ct_scan env' dec enc (Inr ()) \<lparr>cg_domains = [d], cg_cursor = True\<rparr> later file' =
      (Inr st, concat (map (id_events env' later d) (fresh_ids (high_water env b prev entries) entries')), file'')"
    using ct_domain_result [where cursor = ?c and prev = "high_water env b prev entries", OF assms(12), of env' ct_stats_default "[]"] load
    by (auto simp: ct_scan_def)
  ultimately show ?thesis by blast
qed

text \<open>An outage of the collector loses certificates for good.  When the collector refuses every event
  of a run, the cursor still moves over the ids they came from; a later run against a collector
  that accepts delivers none of them.\<close>

theorem ct_outage_loses_events:
  assumes "cursor_codec dec enc" "cursor_load dec file = Inr cursor" "finite (dom cursor)"
    and "cb_list b d = Inr entries" "\<forall>e\<in>set entries. usable env b (cl_id e)"
    and "\<forall>s e. down s e = (False, s)"
    and "cfg = \<lparr>cg_domains = [d], cg_cursor = True\<rparr>"
  shows "\<exists>r file'. run_ct_scan env dec enc (Inr ()) (Inr ()) down show_ev cfg (Inr b) (Some url) (file, srv, out) = (r, file', srv, out) \<and>
     (\<exists>r' file''. run_ct_scan env dec enc (Inr ()) (Inr ()) up show_ev cfg (Inr b) (Some url) (file', srv, out) = (r', file'', srv, out))"
proof -
  define prev where "prev = (case cursor d of Some n \<Rightarrow> n | None \<Rightarrow> 0)"
  let ?m = "high_water env b prev entries"
  let ?c = "cursor(d \<mapsto> ?m)"
  obtain st evs where one: "ct_scan env dec enc (Inr ()) cfg b file = (Inr st, evs, Some (Inr (enc ?c)))"
    using ct_domain_result [where cursor = cursor and prev = prev, OF assms(4) prev_def, of env ct_stats_default "[]"]
      assms(2,7) by (auto simp: ct_scan_def)
  have drop: "cert_deliver down show_ev (Some url) (srv, out) evs = (srv, out)"
    unfolding cert_deliver_def by (induction evs) (simp_all add: cert_sink_send_def assms(6))
  have "fresh_ids ?m entries = []"
  proof -
    have "i \<le> ?m" if "i \<in> cl_id ` set entries" for i
    proof (cases "prev < i")
      case True
      then show ?thesis using that assms(5) unfolding high_water_def by (intro Max_ge) auto
    next
      case False
      moreover have "prev \<le> ?m" unfolding high_water_def by (intro Max_ge) auto
      ultimately show ?thesis by simp
    qed
    then show ?thesis by (auto simp: fresh_ids_def filter_empty_conv not_less)
  qed
  moreover have "cursor_load dec (Some (Inr (enc ?c))) = Inr ?c"
    using assms(1,3) by (simp add: cursor_codec_def cursor_load_def)
  ultimately obtain st' file'' where "ct_scan env dec enc (Inr ()) cfg b (Some (Inr (enc ?c))) = (Inr st', [], file'')"
    using ct_domain_result [where cursor = ?c and prev = ?m, OF assms(4), of env ct_stats_default "[]"] assms(7)
    by (auto simp: ct_scan_def)
  then show ?thesis
    using one drop by (simp add: run_ct_scan_def cert_sink_new_def cert_deliver_def)
qed

section \<open>Witnesses\<close>

definition toy_cursor_enc :: "cursor_map \<Rightarrow> string" where
  "toy_cursor_enc c = show_nat (to_nat (Abs_fmap c))"

definition toy_cursor_dec :: "string \<Rightarrow> (string, cursor_map) result" where
  "toy_cursor_dec s = Inr (fmlookup (from_nat (digits_value s)))"

lemma toy_cursor_codec: "cursor_codec toy_cursor_dec toy_cursor_enc"
  using trim_digits [OF show_nat_nonempty show_nat_digits]
  by (simp add: cursor_codec_def toy_cursor_dec_def toy_cursor_enc_def Abs_fmap_inverse)

definition toy_cert_env :: cert_env where
  "toy_cert_env = \<lparr>ct_pem = (\<lambda>bs. [PemBlock ''CERTIFICATE'' bs, PemMissingHeader]),
     ct_x509 = (\<lambda>_. Inr \<lparr>xv_common_names = [Some ''a''], xv_alt_names = None, xv_not_before = 0,
       xv_not_after = 0, xv_sig_oid = ''1.3.101.112'', xv_key_len = 32\<rparr>),
     ct_sha256_hex = (\<lambda>bs. show_nat (length bs)), ct_rfc3339 = (\<lambda>_. None), ct_now = 0\<rparr>"

definition toy_ct_backend :: "nat list \<Rightarrow> nat list \<Rightarrow> ct_backend" where
  "toy_ct_backend ids failing = \<lparr>cb_list = (\<lambda>_. Inr (map (\<lambda>i. \<lparr>cl_id = i, cl_common_name = None\<rparr>) ids)),
     cb_fetch_pem = (\<lambda>i. if i \<in> set failing then Inl ''503'' else Inr [of_nat i])\<rparr>"

lemma toy_usable: "usable toy_cert_env (toy_ct_backend ids failing) i \<longleftrightarrow> i \<notin> set failing"
  by (simp add: usable_certs_def toy_cert_env_def toy_ct_backend_def parse_pem_bundle_def)

lemma ct_scan_domain_exact_witness:
  "\<exists>st. ct_scan toy_cert_env toy_cursor_dec toy_cursor_enc (Inr ()) \<lparr>cg_domains = [''a.org''], cg_cursor = True\<rparr>
      (toy_ct_backend [2, 1] []) None =
      (Inr st, concat (map (id_events toy_cert_env (toy_ct_backend [2, 1] []) ''a.org'') [1, 2]),
       Some (Inr (toy_cursor_enc [''a.org'' \<mapsto> 2]))) \<and>
     ct_entries_listed st = 2 \<and> ct_entries_below_cursor st + ct_certs_fetched st + ct_fetch_failures st = 2"
proof -
  let ?es = "map (\<lambda>i. \<lparr>cl_id = i, cl_common_name = None\<rparr>) [2, 1]"
  have l: "cursor_load toy_cursor_dec None = Inr Map.empty" by (simp add: cursor_load_def)
  have c: "cb_list (toy_ct_backend [2, 1] []) ''a.org'' = Inr ?es" by (simp add: toy_ct_backend_def)
  have "high_water toy_cert_env (toy_ct_backend [2, 1] []) 0 ?es = 2"
  proof -
    have "{i \<in> cl_id ` set ?es. 0 < i \<and> usable toy_cert_env (toy_ct_backend [2, 1] []) i} = {1, 2}"
      by (auto simp: toy_usable)
    then show ?thesis by (simp add: high_water_def)
  qed
  moreover have "fresh_ids 0 ?es = [1, 2]" by (simp add: fresh_ids_def)
  ultimately show ?thesis
    using ct_scan_domain_exact [OF l c refl, of toy_cert_env toy_cursor_enc] by (simp add: numeral_2_eq_2)
qed

lemma ct_failed_id_lost_witness:
  "\<exists>st ids file''. ct_scan toy_cert_env toy_cursor_dec toy_cursor_enc (Inr ()) \<lparr>cg_domains = [''a.org''], cg_cursor = True\<rparr>
      (toy_ct_backend [1, 2, 3] [])
      (snd (snd (ct_scan toy_cert_env toy_cursor_dec toy_cursor_enc (Inr ()) \<lparr>cg_domains = [''a.org''], cg_cursor = True\<rparr>
        (toy_ct_backend [1, 2] [1]) None))) =
      (Inr st, concat (map (id_events toy_cert_env (toy_ct_backend [1, 2, 3] []) ''a.org'') ids), file'') \<and>
     (\<forall>i\<in>set ids. 1 < i \<and> 2 < i)"
proof -
  let ?es = "map (\<lambda>i. \<lparr>cl_id = i, cl_common_name = None\<rparr>)"
  obtain r evs file' where s: "ct_scan toy_cert_env toy_cursor_dec toy_cursor_enc (Inr ())
      \<lparr>cg_domains = [''a.org''], cg_cursor = True\<rparr> (toy_ct_backend [1, 2] [1]) None = (r, evs, file')"
    by (metis prod.exhaust)
  have l: "cursor_load toy_cursor_dec None = Inr Map.empty" by (simp add: cursor_load_def)
  have "cb_list (toy_ct_backend [1, 2] [1]) ''a.org'' = Inr (?es [1, 2])"
    "cb_list (toy_ct_backend [1, 2, 3] []) ''a.org'' = Inr (?es [1, 2, 3])"
    by (simp_all add: toy_ct_backend_def)
  note c = this
  have "\<exists>st ids file''. ct_scan toy_cert_env toy_cursor_dec toy_cursor_enc (Inr ()) \<lparr>cg_domains = [''a.org''], cg_cursor = True\<rparr>
      (toy_ct_backend [1, 2, 3] []) file' =
      (Inr st, concat (map (id_events toy_cert_env (toy_ct_backend [1, 2, 3] []) ''a.org'') ids), file'') \<and>
     (\<forall>i\<in>set ids. 1 < i \<and> 2 < i)"
    by (rule ct_failed_id_lost [OF toy_cursor_codec l _ c(1) refl _ _ _ _ _ s c(2)]) (auto simp: toy_usable)
  then show ?thesis by (simp only: s snd_conv)
qed

lemma ct_outage_loses_events_witness:
  "\<exists>r file'. run_ct_scan toy_cert_env toy_cursor_dec toy_cursor_enc (Inr ()) (Inr ()) (\<lambda>s e. (False, s)) (\<lambda>_. [])
      \<lparr>cg_domains = [''a.org''], cg_cursor = True\<rparr> (Inr (toy_ct_backend [1, 2] [])) (Some ''http://c'') (None, 0 :: nat, []) =
      (r, file', 0, []) \<and>
     (\<exists>r' file''. run_ct_scan toy_cert_env toy_cursor_dec toy_cursor_enc (Inr ()) (Inr ()) (\<lambda>s e. (True, Suc s)) (\<lambda>_. [])
      \<lparr>cg_domains = [''a.org''], cg_cursor = True\<rparr> (Inr (toy_ct_backend [1, 2] [])) (Some ''http://c'') (file', 0, []) =
      (r', file'', 0, []))"
  by (rule ct_outage_loses_events [OF toy_cursor_codec _ _ _ _ _ refl, where cursor = Map.empty
      and entries = "map (\<lambda>i. \<lparr>cl_id = i, cl_common_name = None\<rparr>) [1, 2]"])
    (simp_all add: cursor_load_def toy_usable, simp add: toy_ct_backend_def)

end
