(* ===== verification/Vault.thy ===== *)
theory Vault
  imports Cert
begin

text \<open>
  The Vault PKI scanner (src/crates/ree0xq-cert/src/vault.rs), with its HTTP backend and the URL
  sanitiser of its log lines, which src/crates/ree0xq-server/src/store_pg.rs repeats for database
  URLs.  HTTP requests are functions from the URL to a status and a body.
\<close>

section \<open>URLs\<close>

text \<open>\<open>str::find\<close>: the first position of a pattern.\<close>

fun find_sub :: "string \<Rightarrow> string \<Rightarrow> nat option" where
  "find_sub n [] = (if n = [] then Some 0 else None)"
| "find_sub n (c # s) = (if starts_with (c # s) n then Some 0 else map_option Suc (find_sub n s))"

definition sanitised_url :: "string \<Rightarrow> string" where
  "sanitised_url url =
     (case find_sub ''://'' url of
        Some scheme_end \<Rightarrow>
          (let rest = drop (scheme_end + 3) url in
           case find_sub ''@'' rest of
             Some a \<Rightarrow>
               (case find_sub '':'' (take a rest) of
                  Some colon \<Rightarrow> take (scheme_end + 3) url @ take colon rest @ drop a rest
                | None \<Rightarrow> url)
           | None \<Rightarrow> url)
      | None \<Rightarrow> url)"

definition trim_slashes :: "string \<Rightarrow> string" where
  "trim_slashes s = trim_end_slash (dropWhile (\<lambda>c. c = CHR ''/'') s)"

section \<open>Backends\<close>

record vault_backend =
  vb_list_serials :: "string \<Rightarrow> (string, string list) result"
  vb_fetch_cert_pem :: "string \<Rightarrow> string \<Rightarrow> (string, bytes) result"

definition vault_list_serials ::
  "(string \<Rightarrow> (string, nat \<times> 'b) result) \<Rightarrow> ('b \<Rightarrow> (string, string list) result) \<Rightarrow> string \<Rightarrow> string \<Rightarrow>
   (string, string list) result" where
  "vault_list_serials list_req json addr mount =
     (case list_req (trim_end_slash addr @ ''/v1/'' @ trim_slashes mount @ ''/certs'') of
        Inl e \<Rightarrow> Inl (''vault LIST: '' @ e)
      | Inr (status, body) \<Rightarrow>
          if status = 404 then Inr []
          else if \<not> (200 \<le> status \<and> status < 300) then Inl (''vault LIST returned '' @ show_nat status)
          else (case json body of Inl e \<Rightarrow> Inl (''vault LIST JSON: '' @ e) | Inr keys \<Rightarrow> Inr keys))"

definition vault_fetch_cert_pem ::
  "(string \<Rightarrow> (string, nat \<times> 'b) result) \<Rightarrow> ('b \<Rightarrow> (string, bytes) result) \<Rightarrow> string \<Rightarrow> string \<Rightarrow> string \<Rightarrow>
   (string, bytes) result" where
  "vault_fetch_cert_pem get json addr mount serial =
     (case get (trim_end_slash addr @ ''/v1/'' @ trim_slashes mount @ ''/cert/'' @ serial) of
        Inl e \<Rightarrow> Inl (''vault GET: '' @ e)
      | Inr (status, body) \<Rightarrow>
          if \<not> (200 \<le> status \<and> status < 300) then Inl (''vault GET returned '' @ show_nat status)
          else (case json body of Inl e \<Rightarrow> Inl (''vault GET JSON: '' @ e) | Inr pem \<Rightarrow> Inr pem))"

section \<open>The scan\<close>

record vault_stats =
  vs_mounts_scanned :: nat
  vs_serials_listed :: nat
  vs_certs_fetched :: nat
  vs_fetch_failures :: nat
  vs_events_emitted :: nat

definition vault_stats_default :: vault_stats where
  "vault_stats_default =
     \<lparr>vs_mounts_scanned = 0, vs_serials_listed = 0, vs_certs_fetched = 0, vs_fetch_failures = 0,
      vs_events_emitted = 0\<rparr>"

type_synonym vault_acc = "vault_stats \<times> crypto_inventory_event list"

definition vault_serial :: "cert_env \<Rightarrow> vault_backend \<Rightarrow> string \<Rightarrow> vault_acc \<Rightarrow> string \<Rightarrow> vault_acc" where
  "vault_serial env backend mount acc serial =
     (case acc of (st, out) \<Rightarrow>
        (case vb_fetch_cert_pem backend mount serial of
           Inl _ \<Rightarrow> (vs_fetch_failures_update Suc st, out)
         | Inr pem \<Rightarrow>
             (case parse_pem_bundle env pem None of
                Inl _ \<Rightarrow> (vs_fetch_failures_update Suc st, out)
              | Inr certs \<Rightarrow>
                  if certs = [] then (vs_fetch_failures_update Suc st, out)
                  else
                    foldl (\<lambda>(st, out) cert. case event_from_cert env cert of
                        Inr ev \<Rightarrow> (vs_events_emitted_update Suc st, out @ [ev])
                      | Inl _ \<Rightarrow> (st, out)) (vs_certs_fetched_update Suc st, out) certs)))"

definition vault_mount :: "cert_env \<Rightarrow> vault_backend \<Rightarrow> vault_acc \<Rightarrow> string \<Rightarrow> vault_acc" where
  "vault_mount env backend acc mount =
     (case acc of (st, out) \<Rightarrow>
        (let st = vs_mounts_scanned_update Suc st in
         case vb_list_serials backend mount of
           Inl _ \<Rightarrow> (st, out)
         | Inr serials \<Rightarrow>
             foldl (vault_serial env backend mount)
               (st\<lparr>vs_serials_listed := vs_serials_listed st + length serials\<rparr>, out) serials))"

definition vault_scan :: "cert_env \<Rightarrow> vault_backend \<Rightarrow> string list \<Rightarrow> vault_acc" where
  "vault_scan env backend mounts = foldl (vault_mount env backend) (vault_stats_default, []) mounts"

text \<open>The token comes from an environment variable; without it nothing is scanned.\<close>

definition run_vault_scan ::
  "cert_env \<Rightarrow> (string \<Rightarrow> string option) \<Rightarrow> (string \<Rightarrow> string \<Rightarrow> (string, vault_backend) result) \<Rightarrow>
   (string, unit) result \<Rightarrow> ('s \<Rightarrow> crypto_inventory_event \<Rightarrow> bool \<times> 's) \<Rightarrow> (crypto_inventory_event \<Rightarrow> string) \<Rightarrow> string \<Rightarrow> string list \<Rightarrow>
   string \<Rightarrow> string option \<Rightarrow> 's \<times> string list \<Rightarrow> (string, vault_stats) result \<times> 's \<times> string list" where
  "run_vault_scan env getenv backend client post show_ev addr mounts token_env collector w =
     (case getenv token_env of
        None \<Rightarrow> (Inl (''missing Vault token: env var `'' @ token_env @ ''` is not set (override with --token-env)''), w)
      | Some token \<Rightarrow>
          (case rbind (backend addr token) (\<lambda>b. rbind (cert_sink_new client collector) (\<lambda>_. Inr b)) of
             Inl e \<Rightarrow> (Inl e, w)
           | Inr b \<Rightarrow>
               (case vault_scan env b mounts of
                  (st, evs) \<Rightarrow> (Inr st, cert_deliver post show_ev collector w evs))))"

section \<open>What the sanitiser hides\<close>

lemma find_sub_char: "find_sub [c] (x @ c # y) = Some (length x)" if "c \<notin> set x"
  using that by (induction x) (auto simp: starts_with_def)

lemma find_sub_none: "c \<notin> set x \<Longrightarrow> find_sub [c] x = None"
  by (induction x) (auto simp: starts_with_def)

lemma find_sub_scheme: "CHR '':'' \<notin> set x \<Longrightarrow> find_sub ''://'' (x @ ''://'' @ y) = Some (length x)"
proof (induction x)
  case (Cons c x)
  then have "\<not> starts_with (c # x @ ''://'' @ y) ''://''" by (auto simp: starts_with_def)
  with Cons show ?case by simp
qed (simp add: starts_with_def)

text \<open>A URL with a user and a password loses exactly the password up to the first \<open>@\<close>.  When the
  password itself holds an \<open>@\<close>, the rest of it stays in the log line.\<close>

theorem sanitised_url_exact:
  assumes "CHR '':'' \<notin> set scheme" "CHR '':'' \<notin> set user" "CHR ''@'' \<notin> set user" "CHR ''@'' \<notin> set secret"
  shows "sanitised_url (scheme @ ''://'' @ user @ '':'' @ secret @ ''@'' @ host) =
     scheme @ ''://'' @ user @ ''@'' @ host"
proof -
  let ?rest = "user @ '':'' @ secret @ ''@'' @ host"
  have "find_sub ''://'' (scheme @ ''://'' @ ?rest) = Some (length scheme)"
    by (rule find_sub_scheme [OF assms(1)])
  moreover have "find_sub ''@'' ?rest = Some (length (user @ '':'' @ secret))"
    using find_sub_char [of "CHR ''@''" "user @ '':'' @ secret" host] assms(3,4) by simp
  moreover have "find_sub '':'' (take (length (user @ '':'' @ secret)) ?rest) = Some (length user)"
    using find_sub_char [OF assms(2), of secret] by simp
  ultimately show ?thesis
    by (simp add: sanitised_url_def Let_def)
qed

lemma sanitised_url_exact_witness:
  "sanitised_url (''postgres'' @ ''://'' @ ''app'' @ '':'' @ ''p'' @ ''@'' @ ''ss@db:5432/x'') =
     ''postgres'' @ ''://'' @ ''app'' @ ''@'' @ ''ss@db:5432/x''"
  by (rule sanitised_url_exact) simp_all

section \<open>What the scan reports\<close>

definition serial_certs :: "cert_env \<Rightarrow> vault_backend \<Rightarrow> string \<Rightarrow> string \<Rightarrow> parsed_cert list" where
  "serial_certs env backend mount serial = (case vb_fetch_cert_pem backend mount serial of
     Inl _ \<Rightarrow> []
   | Inr pem \<Rightarrow> (case parse_pem_bundle env pem None of Inl _ \<Rightarrow> [] | Inr certs \<Rightarrow> certs))"

definition mount_serials :: "vault_backend \<Rightarrow> string \<Rightarrow> (string \<times> string) list" where
  "mount_serials backend mount =
     (case vb_list_serials backend mount of Inl _ \<Rightarrow> [] | Inr ss \<Rightarrow> map (Pair mount) ss)"

lemma foldl_vault_certs:
  "foldl (\<lambda>(st, out) cert. case event_from_cert env cert of
       Inr ev \<Rightarrow> (vs_events_emitted_update Suc st, out @ [ev]) | Inl _ \<Rightarrow> (st, out)) (st, out) certs =
   (st\<lparr>vs_events_emitted := vs_events_emitted st + length (ok_events env certs)\<rparr>, out @ ok_events env certs)"
proof (induction certs arbitrary: st out)
  case (Cons c cs)
  then show ?case
    by (cases "event_from_cert env c") (simp_all add: ok_events_def List.map_filter_def)
qed (simp add: ok_events_def List.map_filter_def)

lemma vault_serial_result:
  "vault_serial env b m (st, out) s =
     (if serial_certs env b m s = [] then (vs_fetch_failures_update Suc st, out)
      else (st\<lparr>vs_certs_fetched := Suc (vs_certs_fetched st),
              vs_events_emitted := vs_events_emitted st + length (ok_events env (serial_certs env b m s))\<rparr>,
            out @ ok_events env (serial_certs env b m s)))"
  by (auto simp: vault_serial_def serial_certs_def foldl_vault_certs split: sum.splits)

definition vault_sums :: "vault_stats \<Rightarrow> nat \<times> nat \<times> nat" where
  "vault_sums st = (vs_serials_listed st, vs_certs_fetched st + vs_fetch_failures st, vs_events_emitted st)"

lemma vault_serials_result:
  "\<exists>st'. foldl (vault_serial env b m) (st, out) ss =
      (st', out @ concat (map (\<lambda>s. ok_events env (serial_certs env b m s)) ss)) \<and>
     vs_mounts_scanned st' = vs_mounts_scanned st \<and>
     vault_sums st' = (vs_serials_listed st, vs_certs_fetched st + vs_fetch_failures st + length ss,
       vs_events_emitted st + length (concat (map (\<lambda>s. ok_events env (serial_certs env b m s)) ss)))"
proof (induction ss arbitrary: st out)
  case (Cons s ss)
  have nil: "ok_events env [] = []" by (simp add: ok_events_def List.map_filter_def)
  obtain st1 where 1: "vault_serial env b m (st, out) s = (st1, out @ ok_events env (serial_certs env b m s))"
    "vs_mounts_scanned st1 = vs_mounts_scanned st" "vs_serials_listed st1 = vs_serials_listed st"
    "vs_certs_fetched st1 + vs_fetch_failures st1 = Suc (vs_certs_fetched st + vs_fetch_failures st)"
    "vs_events_emitted st1 = vs_events_emitted st + length (ok_events env (serial_certs env b m s))"
    by (cases "serial_certs env b m s = []") (auto simp: vault_serial_result nil)
  show ?case
    using Cons [of st1 "out @ ok_events env (serial_certs env b m s)"] 1 by (auto simp: vault_sums_def)
qed (simp add: vault_sums_def)

text \<open>A Vault scan reports every certificate that parses, of every serial the mounts list, once and in
  order, whatever listing or fetch fails; every listed serial is counted as fetched or failed.\<close>

theorem vault_scan_exact:
  "let (st, out) = vault_scan env backend mounts;
       serials = concat (map (mount_serials backend) mounts)
   in out = concat (map (\<lambda>(m, s). ok_events env (serial_certs env backend m s)) serials) \<and>
      vs_mounts_scanned st = length mounts \<and> vs_serials_listed st = length serials \<and>
      vs_certs_fetched st + vs_fetch_failures st = length serials \<and> vs_events_emitted st = length out"
proof -
  let ?ser = "\<lambda>ms. concat (map (mount_serials backend) ms)"
  let ?evs = "\<lambda>ms. concat (map (\<lambda>(m, s). ok_events env (serial_certs env backend m s)) (?ser ms))"
  have "\<exists>st'. foldl (vault_mount env backend) (st, out) mounts = (st', out @ ?evs mounts) \<and>
      vs_mounts_scanned st' = vs_mounts_scanned st + length mounts \<and>
      vault_sums st' = (vs_serials_listed st + length (?ser mounts),
        vs_certs_fetched st + vs_fetch_failures st + length (?ser mounts), vs_events_emitted st + length (?evs mounts))"
    for st out
  proof (induction mounts arbitrary: st out)
    case (Cons m ms)
    show ?case
    proof (cases "vb_list_serials backend m")
      case (Inl e)
      then show ?thesis
        using Cons [of "vs_mounts_scanned_update Suc st" out] by (simp add: vault_mount_def mount_serials_def)
    next
      case (Inr ss)
      let ?st = "(vs_mounts_scanned_update Suc st)\<lparr>vs_serials_listed := vs_serials_listed st + length ss\<rparr>"
      obtain st1 where 1: "vault_mount env backend (st, out) m =
          (st1, out @ concat (map (\<lambda>s. ok_events env (serial_certs env backend m s)) ss))"
        "vs_mounts_scanned st1 = Suc (vs_mounts_scanned st)"
        "vault_sums st1 = (vs_serials_listed st + length ss, vs_certs_fetched st + vs_fetch_failures st + length ss,
          vs_events_emitted st + length (concat (map (\<lambda>s. ok_events env (serial_certs env backend m s)) ss)))"
        using vault_serials_result [of env backend m ?st out ss] Inr by (auto simp: vault_mount_def Let_def)
      show ?thesis
        using Cons [of st1 "out @ concat (map (\<lambda>s. ok_events env (serial_certs env backend m s)) ss)"] 1 Inr
        by (auto simp: vault_sums_def mount_serials_def comp_def)
    qed
  qed (simp add: vault_sums_def)
  from this [of vault_stats_default "[]"] show ?thesis
    by (auto simp: vault_scan_def vault_stats_default_def vault_sums_def Let_def)
qed

end
