(* ===== verification/Chain.thy ===== *)
theory Chain
  imports Cert
begin

text \<open>
  The public-chain address classifiers (src/crates/ree0xq-chain): the event builder and address
  list of event.rs, bitcoin.rs, ethereum.rs, qrl.rs, and the subcommands of
  src/bin/ree0xq_chain.rs, whose sink is the code of \<open>Cert\<close>'s.  The three scan loops share the
  locale \<open>address_scanner\<close>.
\<close>

definition CHAIN_MODULE_NAME :: string where
  "CHAIN_MODULE_NAME = ''ree0xq-chain''"

section \<open>Events and address lists\<close>

definition build_event :: "string \<Rightarrow> string \<Rightarrow> primitive list \<Rightarrow> string \<Rightarrow> timestamp \<Rightarrow> crypto_inventory_event" where
  "build_event chain address prims rationale now =
     \<lparr>ev_schema_version = SCHEMA_VERSION, ev_schema_minor = SCHEMA_MINOR,
      ev_source_module = CHAIN_MODULE_NAME, ev_observed_at = now,
      ev_asset = \<lparr>as_kind = BlockchainKey, as_identity = chain @ '':'' @ address, as_host = Some chain\<rparr>,
      ev_primitives = prims, ev_channel_protection = None, ev_agility = None,
      ev_posture = \<lparr>po_score = 50, po_rationale = rationale, po_replacement = None\<rparr>\<rparr>"

definition load_addresses :: "string \<Rightarrow> string list" where
  "load_addresses raw = filter (\<lambda>l. l \<noteq> [] \<and> \<not> starts_with l ''#'') (map trim (str_lines raw))"

record chain_stats =
  ch_seen :: nat
  ch_classified :: nat
  ch_skipped :: nat
  ch_emitted :: nat

definition chain_stats_default :: chain_stats where
  "chain_stats_default = \<lparr>ch_seen = 0, ch_classified = 0, ch_skipped = 0, ch_emitted = 0\<rparr>"

type_synonym chain_acc = "chain_stats \<times> crypto_inventory_event list"

section \<open>Bitcoin\<close>

datatype script_type = P2pkh | P2sh | P2wpkh | P2wsh | P2tr

fun script_label :: "script_type \<Rightarrow> string" where
  "script_label P2pkh = ''P2PKH''"
| "script_label P2sh = ''P2SH''"
| "script_label P2wpkh = ''P2WPKH''"
| "script_label P2wsh = ''P2WSH''"
| "script_label P2tr = ''P2TR (Taproot)''"

definition script_primitives :: "script_type \<Rightarrow> primitive list" where
  "script_primitives st = (case st of
     P2tr \<Rightarrow> [mk_primitive Sig ''Schnorr-secp256k1'' (Some False) None,
              mk_primitive Hash ''SHA-256'' (Some True) None]
   | _ \<Rightarrow> [mk_primitive Sig ''ECDSA-secp256k1'' (Some False) None,
           mk_primitive Hash ''SHA-256'' (Some True) None])"

definition classify :: "string \<Rightarrow> script_type option" where
  "classify address =
     (let trimmed = trim address in
      if trimmed = [] then None
      else
        (let lower = to_lower trimmed in
         if starts_with lower ''bc1q'' \<or> starts_with lower ''tb1q'' then
           (if length lower = 42 then Some P2wpkh else if length lower = 62 then Some P2wsh else None)
         else if starts_with lower ''bc1p'' \<or> starts_with lower ''tb1p'' then
           (if length lower = 62 then Some P2tr else None)
         else if \<not> (26 \<le> length trimmed \<and> length trimmed \<le> 35) then None
         else if hd trimmed \<in> {CHR ''1'', CHR ''m'', CHR ''n''} then Some P2pkh
         else if hd trimmed \<in> {CHR ''3'', CHR ''2''} then Some P2sh
         else None))"

definition bitcoin_event :: "timestamp \<Rightarrow> string \<Rightarrow> script_type \<Rightarrow> crypto_inventory_event" where
  "bitcoin_event now addr st =
     (let prims = script_primitives st in
      build_event ''bitcoin'' addr prims
        (''Bitcoin '' @ script_label st @ '' address; spends with '' @
         (case find (\<lambda>p. pr_role p = Sig) prims of Some p \<Rightarrow> pr_algorithm p | None \<Rightarrow> ''?'') @ '' + SHA-256'') now)"

definition bitcoin_step :: "timestamp \<Rightarrow> chain_acc \<Rightarrow> string \<Rightarrow> chain_acc" where
  "bitcoin_step now acc addr = (case acc of (stats, out) \<Rightarrow>
     (let stats = ch_seen_update Suc stats in
      case classify addr of
        Some st \<Rightarrow>
          (ch_emitted_update Suc (ch_classified_update Suc stats), out @ [bitcoin_event now addr st])
      | None \<Rightarrow> (ch_skipped_update Suc stats, out)))"

definition bitcoin_scan :: "timestamp \<Rightarrow> string list \<Rightarrow> chain_acc" where
  "bitcoin_scan now addresses = foldl (bitcoin_step now) (chain_stats_default, []) addresses"

section \<open>Ethereum\<close>

definition ETH_HEX_LEN :: nat where
  "ETH_HEX_LEN = 40"

definition eth_is_valid :: "string \<Rightarrow> bool" where
  "eth_is_valid address =
     (let s = trim address in
      case (case strip_prefix ''0x'' s of Some r \<Rightarrow> Some r | None \<Rightarrow> strip_prefix ''0X'' s) of
        None \<Rightarrow> False
      | Some rest \<Rightarrow> length rest = ETH_HEX_LEN \<and> list_all is_hexdigit rest)"

definition eth_primitives :: "primitive list" where
  "eth_primitives = [mk_primitive Sig ''ECDSA-secp256k1'' (Some False) None,
     mk_primitive Hash ''Keccak-256'' (Some True) None]"

definition eth_event :: "timestamp \<Rightarrow> string \<Rightarrow> crypto_inventory_event" where
  "eth_event now addr =
     build_event ''ethereum'' (trim addr) eth_primitives
       (''Ethereum address; EOA classification '' @ [CHR 0xE2, CHR 0x80, CHR 0x94] @
        '' spends with ECDSA-secp256k1 + Keccak-256. Contract-vs-EOA disambiguation requires a live RPC and is V3.x scope.'')
       now"

definition eth_step :: "timestamp \<Rightarrow> chain_acc \<Rightarrow> string \<Rightarrow> chain_acc" where
  "eth_step now acc addr = (case acc of (stats, out) \<Rightarrow>
     (let stats = ch_seen_update Suc stats in
      if \<not> eth_is_valid addr then (ch_skipped_update Suc stats, out)
      else (ch_emitted_update Suc (ch_classified_update Suc stats), out @ [eth_event now addr])))"

definition eth_scan :: "timestamp \<Rightarrow> string list \<Rightarrow> chain_acc" where
  "eth_scan now addresses = foldl (eth_step now) (chain_stats_default, []) addresses"

section \<open>QRL\<close>

definition QRL_HEX_LEN :: nat where
  "QRL_HEX_LEN = 78"

definition qrl_is_valid :: "string \<Rightarrow> bool" where
  "qrl_is_valid address =
     (case strip_prefix ''Q'' (trim address) of
        None \<Rightarrow> False
      | Some rest \<Rightarrow> length rest = QRL_HEX_LEN \<and> list_all is_hexdigit rest)"

definition qrl_primitives :: "primitive list" where
  "qrl_primitives = [mk_primitive Sig ''XMSS'' (Some True) None, mk_primitive Hash ''SHA-256'' (Some True) None]"

definition qrl_event :: "timestamp \<Rightarrow> string \<Rightarrow> crypto_inventory_event" where
  "qrl_event now addr =
     build_event ''qrl'' (trim addr) qrl_primitives
       ''QRL address; XMSS hash-based PQ signature (stateful) + SHA-256 hash. Quantum-resistant under standard hash-collision assumptions.''
       now"

definition qrl_step :: "timestamp \<Rightarrow> chain_acc \<Rightarrow> string \<Rightarrow> chain_acc" where
  "qrl_step now acc addr = (case acc of (stats, out) \<Rightarrow>
     (let stats = ch_seen_update Suc stats in
      if \<not> qrl_is_valid addr then (ch_skipped_update Suc stats, out)
      else (ch_emitted_update Suc (ch_classified_update Suc stats), out @ [qrl_event now addr])))"

definition qrl_scan :: "timestamp \<Rightarrow> string list \<Rightarrow> chain_acc" where
  "qrl_scan now addresses = foldl (qrl_step now) (chain_stats_default, []) addresses"

section \<open>The subcommands\<close>

definition run_chain ::
  "(string list \<Rightarrow> chain_acc) \<Rightarrow> (string, unit) result \<Rightarrow> (crypto_inventory_event \<Rightarrow> string) \<Rightarrow>
   ('s \<Rightarrow> crypto_inventory_event \<Rightarrow> bool \<times> 's) \<Rightarrow> (string, string) result \<Rightarrow> string option \<Rightarrow> 's \<times> string list \<Rightarrow>
   (string, chain_stats) result \<times> 's \<times> string list" where
  "run_chain scan client show_ev post input collector w =
     (case rbind input (\<lambda>raw. rbind (cert_sink_new client collector) (\<lambda>_. Inr raw)) of
        Inl e \<Rightarrow> (Inl e, w)
      | Inr raw \<Rightarrow>
          (case scan (load_addresses raw) of
             (st, evs) \<Rightarrow> (Inr st, cert_deliver post show_ev collector w evs)))"

section \<open>The contract of a scan loop\<close>

locale address_scanner =
  fixes step :: "timestamp \<Rightarrow> chain_acc \<Rightarrow> string \<Rightarrow> chain_acc"
    and recognise :: "timestamp \<Rightarrow> string \<Rightarrow> crypto_inventory_event option"
  assumes step_hit: "recognise now a = Some ev \<Longrightarrow>
      step now (st, out) a =
        (ch_emitted_update Suc (ch_classified_update Suc (ch_seen_update Suc st)), out @ [ev])"
    and step_miss: "recognise now a = None \<Longrightarrow>
      step now (st, out) a = (ch_skipped_update Suc (ch_seen_update Suc st), out)"
begin

lemma scan_from:
  "foldl (step now) (st, out) as =
     (st\<lparr>ch_seen := ch_seen st + length as,
         ch_classified := ch_classified st + length (List.map_filter (recognise now) as),
         ch_skipped := ch_skipped st + length (filter (\<lambda>a. recognise now a = None) as),
         ch_emitted := ch_emitted st + length (List.map_filter (recognise now) as)\<rparr>,
      out @ List.map_filter (recognise now) as)"
proof (induction as arbitrary: st out)
  case (Cons a as)
  then show ?case
    by (cases "recognise now a") (simp_all add: step_hit step_miss List.map_filter_def)
qed (simp add: List.map_filter_def)

lemma filtered_length:
  "length (List.map_filter (recognise now) as) + length (filter (\<lambda>a. recognise now a = None) as) = length as"
  by (induction as) (auto simp: List.map_filter_def)

lemma scan_exact:
  "\<exists>st. foldl (step now) (chain_stats_default, []) as = (st, List.map_filter (recognise now) as) \<and>
     ch_seen st = length as \<and> ch_classified st + ch_skipped st = length as \<and>
     ch_emitted st = length (List.map_filter (recognise now) as)"
  using filtered_length [of now as] by (simp add: scan_from chain_stats_default_def)

end

interpretation bitcoin: address_scanner bitcoin_step "\<lambda>now a. map_option (bitcoin_event now a) (classify a)"
  by unfold_locales (auto simp: bitcoin_step_def)

interpretation eth: address_scanner eth_step "\<lambda>now a. if eth_is_valid a then Some (eth_event now a) else None"
  by unfold_locales (auto simp: eth_step_def split: if_splits)

interpretation qrl: address_scanner qrl_step "\<lambda>now a. if qrl_is_valid a then Some (qrl_event now a) else None"
  by unfold_locales (auto simp: qrl_step_def split: if_splits)

lemma map_filter_if: "List.map_filter (\<lambda>a. if P a then Some (f a) else None) as = map f (filter P as)"
  by (induction as) (simp_all add: List.map_filter_def)

section \<open>The address formats\<close>

text \<open>The formats the scanners are meant to recognise, written as tables and apart from the classifiers.  A
  row for Bitcoin: whether letter case is ignored, the starts, the least and the greatest length, the
  script type's label and the algorithm it spends with.\<close>

definition bitcoin_formats :: "(bool \<times> string list \<times> nat \<times> nat \<times> string \<times> string) list" where
  "bitcoin_formats =
     [(True, [''bc1q'', ''tb1q''], 42, 42, ''P2WPKH'', ''ECDSA-secp256k1''),
      (True, [''bc1q'', ''tb1q''], 62, 62, ''P2WSH'', ''ECDSA-secp256k1''),
      (True, [''bc1p'', ''tb1p''], 62, 62, ''P2TR (Taproot)'', ''Schnorr-secp256k1''),
      (False, [''1'', ''m'', ''n''], 26, 35, ''P2PKH'', ''ECDSA-secp256k1''),
      (False, [''3'', ''2''], 26, 35, ''P2SH'', ''ECDSA-secp256k1'')]"

definition fits_format :: "string \<Rightarrow> bool \<times> string list \<times> nat \<times> nat \<times> string \<times> string \<Rightarrow> bool" where
  "fits_format a row = (case row of (ignore_case, starts, lo, hi, label, sig) \<Rightarrow>
     lo \<le> length a \<and> length a \<le> hi \<and>
     list_ex (\<lambda>p. take (length p) (if ignore_case then to_lower a else a) = p) starts)"

definition bitcoin_format :: "string \<Rightarrow> (string \<times> string) option" where
  "bitcoin_format a =
     map_option (\<lambda>(ignore_case, starts, lo, hi, label, sig). (label, sig)) (find (fits_format a) bitcoin_formats)"

text \<open>One of some starts, followed by exactly \<open>n\<close> hexadecimal digits.\<close>

definition hex_format :: "string list \<Rightarrow> nat \<Rightarrow> string \<Rightarrow> bool" where
  "hex_format starts n a =
     list_ex (\<lambda>p. take (length p) a = p \<and> length a = length p + n \<and>
       list_all (\<lambda>c. c \<in> set ''0123456789abcdefABCDEF'') (drop (length p) a)) starts"

text \<open>The report of an address, field by field.\<close>

definition address_report ::
  "timestamp \<Rightarrow> string \<Rightarrow> string \<Rightarrow> string \<Rightarrow> bool \<Rightarrow> string \<Rightarrow> string \<Rightarrow> crypto_inventory_event" where
  "address_report now chain address sig pq hash rationale =
     \<lparr>ev_schema_version = 1, ev_schema_minor = 1, ev_source_module = ''ree0xq-chain'', ev_observed_at = now,
      ev_asset = \<lparr>as_kind = BlockchainKey, as_identity = chain @ '':'' @ address, as_host = Some chain\<rparr>,
      ev_primitives = [mk_primitive Sig sig (Some pq) None, mk_primitive Hash hash (Some True) None],
      ev_channel_protection = None, ev_agility = None,
      ev_posture = \<lparr>po_score = 50, po_rationale = rationale, po_replacement = None\<rparr>\<rparr>"

lemma build_event_report:
  "build_event chain address [mk_primitive Sig sig (Some pq) None, mk_primitive Hash hash (Some True) None] rationale now =
   address_report now chain address sig pq hash rationale"
  by (simp add: build_event_def address_report_def SCHEMA_VERSION_def SCHEMA_MINOR_def CHAIN_MODULE_NAME_def)

definition bitcoin_report :: "timestamp \<Rightarrow> string \<Rightarrow> crypto_inventory_event option" where
  "bitcoin_report now a = map_option (\<lambda>(label, sig). address_report now ''bitcoin'' a sig False ''SHA-256''
     (''Bitcoin '' @ label @ '' address; spends with '' @ sig @ '' + SHA-256'')) (bitcoin_format (trim a))"

lemma lower_head:
  "ascii_lower c = CHR ''b'' \<Longrightarrow> c \<noteq> CHR ''1'' \<and> c \<noteq> CHR ''m'' \<and> c \<noteq> CHR ''n'' \<and> c \<noteq> CHR ''3'' \<and> c \<noteq> CHR ''2''"
  "ascii_lower c = CHR ''t'' \<Longrightarrow> c \<noteq> CHR ''1'' \<and> c \<noteq> CHR ''m'' \<and> c \<noteq> CHR ''n'' \<and> c \<noteq> CHR ''3'' \<and> c \<noteq> CHR ''2''"
  by (auto simp: ascii_lower_def split: if_splits)

lemma length_lower [simp]: "length (to_lower s) = length s"
  by (simp add: to_lower_def)

lemma classify_format:
  "map_option (\<lambda>st. (script_label st, if st = P2tr then ''Schnorr-secp256k1'' else ''ECDSA-secp256k1'')) (classify a) =
   bitcoin_format (trim a)"
proof (cases "trim a")
  case Nil
  then show ?thesis
    by (simp add: classify_def bitcoin_format_def bitcoin_formats_def fits_format_def)
next
  case (Cons c cs)
  define t where "t = trim a"
  have low: "starts_with (to_lower t) p \<Longrightarrow> hd p = ascii_lower c" if "p \<noteq> []" for p
    using that by (cases p) (auto simp: starts_with_def t_def Cons to_lower_def)
  have leg: "starts_with t [x] \<longleftrightarrow> c = x" for x by (auto simp: starts_with_def t_def Cons)
  have hd: "hd t = c" "t \<noteq> []" by (simp_all add: t_def Cons)
  consider (v0) "starts_with (to_lower t) ''bc1q'' \<or> starts_with (to_lower t) ''tb1q''"
    | (v1) "\<not> (starts_with (to_lower t) ''bc1q'' \<or> starts_with (to_lower t) ''tb1q'')"
      "starts_with (to_lower t) ''bc1p'' \<or> starts_with (to_lower t) ''tb1p''"
    | (legacy) "\<not> (starts_with (to_lower t) ''bc1q'' \<or> starts_with (to_lower t) ''tb1q'')"
      "\<not> (starts_with (to_lower t) ''bc1p'' \<or> starts_with (to_lower t) ''tb1p'')" by blast
  then show ?thesis
  proof cases
    case v0
    then have "ascii_lower c = CHR ''b'' \<or> ascii_lower c = CHR ''t''" using low by fastforce
    then have "c \<noteq> CHR ''1'' \<and> c \<noteq> CHR ''m'' \<and> c \<noteq> CHR ''n'' \<and> c \<noteq> CHR ''3'' \<and> c \<noteq> CHR ''2''"
      using lower_head by blast
    moreover have "\<not> (starts_with (to_lower t) ''bc1p'' \<or> starts_with (to_lower t) ''tb1p'')"
      using v0 by (auto simp: starts_with_def)
    ultimately show ?thesis using v0 hd
      by (auto simp: classify_def Let_def bitcoin_format_def bitcoin_formats_def fits_format_def leg
          starts_with_def [symmetric] t_def [symmetric])
  next
    case v1
    then have "ascii_lower c = CHR ''b'' \<or> ascii_lower c = CHR ''t''" using low by fastforce
    then have "c \<noteq> CHR ''1'' \<and> c \<noteq> CHR ''m'' \<and> c \<noteq> CHR ''n'' \<and> c \<noteq> CHR ''3'' \<and> c \<noteq> CHR ''2''"
      using lower_head by blast
    then show ?thesis using v1 hd
      by (auto simp: classify_def Let_def bitcoin_format_def bitcoin_formats_def fits_format_def leg
          starts_with_def [symmetric] t_def [symmetric])
  next
    case legacy
    then show ?thesis using hd
      by (auto simp: classify_def Let_def bitcoin_format_def bitcoin_formats_def fits_format_def leg
          starts_with_def [symmetric] t_def [symmetric])
  qed
qed

lemma bitcoin_recognised: "map_option (bitcoin_event now a) (classify a) = bitcoin_report now a"
proof -
  have sel: "pr_role (mk_primitive r al p n) = r" "pr_algorithm (mk_primitive r al p n) = al" for r al p n
    by (simp_all add: mk_primitive_def)
  have "bitcoin_event now a st = address_report now ''bitcoin'' a
      (if st = P2tr then ''Schnorr-secp256k1'' else ''ECDSA-secp256k1'') False ''SHA-256''
      (''Bitcoin '' @ script_label st @ '' address; spends with '' @
        (if st = P2tr then ''Schnorr-secp256k1'' else ''ECDSA-secp256k1'') @ '' + SHA-256'')" for st
    by (cases st) (simp_all add: bitcoin_event_def script_primitives_def build_event_report sel)
  then show ?thesis
    unfolding bitcoin_report_def classify_format [symmetric] by (cases "classify a") simp_all
qed

lemma hexdigit_set: "is_hexdigit c \<longleftrightarrow> c \<in> set ''0123456789abcdefABCDEF''"
  by (cases c) (auto simp: is_hexdigit_def is_digit_def)

lemma hexdigits_set: "list_all is_hexdigit s \<longleftrightarrow> list_all (\<lambda>c. c \<in> set ''0123456789abcdefABCDEF'') s"
  unfolding list_all_iff by (meson hexdigit_set)

lemma eth_format: "eth_is_valid a \<longleftrightarrow> hex_format [''0x'', ''0X''] 40 (trim a)"
  by (auto simp: eth_is_valid_def hex_format_def strip_prefix_def starts_with_def Let_def ETH_HEX_LEN_def
      hexdigits_set simp del: set_simps split: if_splits)

lemma qrl_format: "qrl_is_valid a \<longleftrightarrow> hex_format [''Q''] 78 (trim a)"
  by (auto simp: qrl_is_valid_def hex_format_def strip_prefix_def starts_with_def QRL_HEX_LEN_def
      hexdigits_set simp del: set_simps split: if_splits)

text \<open>C32: each scan emits, in the order of the list, one event for each address that has one of the chain's
  formats after trimming, and counts it as classified and every other address as skipped.  For Bitcoin the
  formats are the five rows of \<open>bitcoin_formats\<close> by prefix and length, the SegWit ones in either letter case,
  and the event carries Schnorr for Taproot and ECDSA otherwise, with SHA-256; for Ethereum \<open>0x\<close> or
  \<open>0X\<close> and 40 hexadecimal digits, with ECDSA and Keccak-256; for QRL \<open>Q\<close> and 78 hexadecimal
  digits, with XMSS and SHA-256.  Only the QRL signature is quantum-resistant.  Every field of the event is
  given; the identity is the chain and the address, trimmed except for Bitcoin.\<close>

theorem chain_scans_exact:
  "snd (bitcoin_scan now as) = List.map_filter (bitcoin_report now) as \<and>
   snd (eth_scan now as) = map (\<lambda>a. address_report now ''ethereum'' (trim a) ''ECDSA-secp256k1'' False ''Keccak-256''
       (''Ethereum address; EOA classification '' @ [CHR 0xE2, CHR 0x80, CHR 0x94] @
        '' spends with ECDSA-secp256k1 + Keccak-256. Contract-vs-EOA disambiguation requires a live RPC and is V3.x scope.''))
     (filter (\<lambda>a. hex_format [''0x'', ''0X''] 40 (trim a)) as) \<and>
   snd (qrl_scan now as) = map (\<lambda>a. address_report now ''qrl'' (trim a) ''XMSS'' True ''SHA-256''
       ''QRL address; XMSS hash-based PQ signature (stateful) + SHA-256 hash. Quantum-resistant under standard hash-collision assumptions.'')
     (filter (\<lambda>a. hex_format [''Q''] 78 (trim a)) as) \<and>
   list_all (\<lambda>(st, evs). ch_seen st = length as \<and> ch_classified st = length evs \<and> ch_emitted st = length evs \<and>
       ch_skipped st = length as - length evs)
     [bitcoin_scan now as, eth_scan now as, qrl_scan now as]"
proof -
  have skip: "length (filter (\<lambda>a. f a = None) as) = length as - length (List.map_filter f as)" for f :: "string \<Rightarrow> 'e option"
    by (induction as) (auto simp: List.map_filter_def Suc_diff_le length_filter_le le_trans split: option.splits)
  show ?thesis
    unfolding bitcoin_scan_def eth_scan_def qrl_scan_def bitcoin.scan_from eth.scan_from qrl.scan_from skip
    by (simp add: chain_stats_default_def map_filter_if bitcoin_recognised eth_format qrl_format
        eth_event_def qrl_event_def eth_primitives_def qrl_primitives_def build_event_report)
qed

text \<open>Recognised and refused addresses, at the edges of the formats.\<close>

lemma bitcoin_format_samples:
  "map bitcoin_format [''bc1q'' @ replicate 38 (CHR ''x''), ''BC1P'' @ replicate 58 (CHR ''x''), CHR ''1'' # replicate 25 (CHR ''x''),
     CHR ''3'' # replicate 34 (CHR ''x''), ''bc1q'' @ replicate 39 (CHR ''x''), CHR ''1'' # replicate 24 (CHR ''x''),
     CHR ''M'' # replicate 33 (CHR ''x'')] =
   [Some (''P2WPKH'', ''ECDSA-secp256k1''), Some (''P2TR (Taproot)'', ''Schnorr-secp256k1''),
    Some (''P2PKH'', ''ECDSA-secp256k1''), Some (''P2SH'', ''ECDSA-secp256k1''), None, None, None]"
  by code_simp

section \<open>One account, two assets\<close>

lemma trim_alnum:
  assumes "s \<noteq> []" "list_all is_alnum s"
  shows "trim s = s"
proof -
  have no: "is_alnum c \<Longrightarrow> c \<notin> hd ` set whitespace_seqs" "is_alnum c \<Longrightarrow> c \<notin> last ` set whitespace_seqs" for c
    by (auto simp: whitespace_seqs_def is_alnum_def is_digit_def)
  have a: "hd s \<notin> hd ` set whitespace_seqs"
    using assms no(1) [of "hd s"] by (cases s) auto
  have "last s \<notin> last ` set whitespace_seqs"
    using assms no(2) [of "last s"] by (auto simp: list_all_iff)
  then have b: "hd (rev s) \<notin> hd ` set (map rev whitespace_seqs)"
    using assms(1) by (auto simp: hd_rev image_iff)
  show ?thesis
    using strip_seqs_id [OF a assms(1)] strip_seqs_id [OF b] assms(1)
    by (simp add: trim_def trim_start_def trim_end_def)
qed

lemma hexdigit_alnum: "is_hexdigit c \<Longrightarrow> is_alnum c"
  by (auto simp: is_hexdigit_def is_alnum_def)

lemma hexdigit_upper: "is_hexdigit c \<Longrightarrow> is_hexdigit (ascii_upper c)"
  by (auto simp: is_hexdigit_def is_digit_def ascii_upper_def)

lemma eth_valid_hex:
  assumes "length d = 40" "list_all is_hexdigit d"
  shows "trim (''0x'' @ d) = ''0x'' @ d" "eth_is_valid (''0x'' @ d)"
proof -
  have "list_all is_alnum (''0x'' @ d)"
    using assms(2) hexdigit_alnum by (auto simp: list_all_iff is_alnum_def is_digit_def)
  then show t: "trim (''0x'' @ d) = ''0x'' @ d" by (intro trim_alnum) simp_all
  show "eth_is_valid (''0x'' @ d)"
    unfolding eth_is_valid_def t Let_def using assms by (simp add: strip_prefix_def starts_with_def ETH_HEX_LEN_def)
qed

text \<open>An Ethereum account written in two letter cases, which EIP-55 makes the same account, is two
  assets: both spellings are accepted and the identity keeps the spelling.\<close>

theorem eth_case_splits_account:
  assumes "length d = 40" "list_all is_hexdigit d"
  shows "eth_is_valid (''0x'' @ d) \<and> eth_is_valid (''0x'' @ to_upper d) \<and>
     (as_identity (ev_asset (eth_event now (''0x'' @ d))) = as_identity (ev_asset (eth_event now (''0x'' @ to_upper d)))
      \<longleftrightarrow> d = to_upper d)"
proof -
  have "length (to_upper d) = 40" "list_all is_hexdigit (to_upper d)"
    using assms hexdigit_upper by (auto simp: to_upper_def list_all_iff)
  note u = eth_valid_hex [OF this] and l = eth_valid_hex [OF assms]
  show ?thesis
    using u(2) l(2) by (simp only: eth_event_def u(1) l(1)) (simp add: build_event_def)
qed

lemma eth_case_splits_account_witness:
  "eth_is_valid (''0x'' @ replicate 40 (CHR ''a'')) \<and>
   as_identity (ev_asset (eth_event 0 (''0x'' @ replicate 40 (CHR ''a'')))) \<noteq>
     as_identity (ev_asset (eth_event 0 (''0x'' @ to_upper (replicate 40 (CHR ''a'')))))"
proof -
  have "replicate 40 (CHR ''a'') \<noteq> to_upper (replicate 40 (CHR ''a''))"
  proof
    assume eq: "replicate 40 (CHR ''a'') = to_upper (replicate 40 (CHR ''a''))"
    have "hd (to_upper (replicate 40 (CHR ''a''))) = CHR ''A''"
      by (simp add: to_upper_def ascii_upper_def char_of_eq_iff)
    then show False unfolding eq [symmetric] by simp
  qed
  then show ?thesis
    using eth_case_splits_account [of "replicate 40 (CHR ''a'')" 0]
    by (simp add: list_all_iff is_hexdigit_def)
qed

end
