(* ===== verification/Id.thy ===== *)
theory Id
  imports Cert
begin

text \<open>
  Keys in HSMs and cloud KMSs (src/crates/ree0xq-id): the key-type table of algos.rs, the offline
  inventory of inventory.rs, the PKCS#11 walker of pkcs11.rs, the AWS KMS lister of aws_kms.rs and
  the subcommands of src/bin/ree0xq_id.rs, whose sink is the code of \<open>Cert\<close>'s.  cryptoki and the AWS
  SDK are parameters: what each of their calls returns.
\<close>

definition ID_MODULE_NAME :: string where
  "ID_MODULE_NAME = ''ree0xq-id''"

definition id_build_event :: "string \<Rightarrow> string option \<Rightarrow> primitive list \<Rightarrow> string \<Rightarrow> timestamp \<Rightarrow> crypto_inventory_event" where
  "id_build_event ident host prims rationale now =
     \<lparr>ev_schema_version = SCHEMA_VERSION, ev_schema_minor = SCHEMA_MINOR,
      ev_source_module = ID_MODULE_NAME, ev_observed_at = now,
      ev_asset = \<lparr>as_kind = HsmSlot, as_identity = ident, as_host = host\<rparr>,
      ev_primitives = prims, ev_channel_protection = None, ev_agility = None,
      ev_posture = \<lparr>po_score = 50, po_rationale = rationale, po_replacement = None\<rparr>\<rparr>"

section \<open>Key types\<close>

definition id_sig :: "string \<Rightarrow> bool \<Rightarrow> nist_level option \<Rightarrow> nat option \<Rightarrow> primitive" where
  "id_sig name pq level bits =
     mk_primitive Sig (case bits of Some b \<Rightarrow> name @ ''-'' @ show_nat b | None \<Rightarrow> name) (Some pq) level"

definition hash_sha :: "string \<Rightarrow> primitive" where
  "hash_sha name = mk_primitive Hash name (Some True) None"

definition id_encrypt :: "string \<Rightarrow> bool \<Rightarrow> primitive" where
  "id_encrypt algorithm pq_safe = mk_primitive Encrypt algorithm (Some pq_safe) None"

text \<open>The arms of the match whose result does not depend on the size.\<close>

definition key_type_table :: "(string \<times> primitive list) list" where
  "key_type_table =
     (let p256 = [id_sig ''ECDSA-P256'' False None None, hash_sha ''SHA-256''];
          p384 = [id_sig ''ECDSA-P384'' False None None, hash_sha ''SHA-384''];
          p521 = [id_sig ''ECDSA-P521'' False None None, hash_sha ''SHA-512''];
          k1 = [id_sig ''ECDSA-secp256k1'' False None None, hash_sha ''SHA-256''];
          s128 = [id_sig ''SLH-DSA-SHA2-128s'' True (Some L1) None];
          s192 = [id_sig ''SLH-DSA-SHA2-192s'' True (Some L3) None]
      in [(''ECDSA-P256'', p256), (''ECC-NIST-P256'', p256), (''EC-P256'', p256),
          (''ECDSA-P384'', p384), (''ECC-NIST-P384'', p384), (''EC-P384'', p384),
          (''ECDSA-P521'', p521), (''ECC-NIST-P521'', p521), (''EC-P521'', p521),
          (''ECDSA-SECP256K1'', k1), (''ECC-SECG-P256K1'', k1),
          (''ED25519'', [id_sig ''Ed25519'' False None None]), (''ED448'', [id_sig ''Ed448'' False None None]),
          (''ML-DSA-44'', [id_sig ''ML-DSA-44'' True (Some L1) None]),
          (''ML-DSA-65'', [id_sig ''ML-DSA-65'' True (Some L3) None]),
          (''ML-DSA-87'', [id_sig ''ML-DSA-87'' True (Some L5) None]),
          (''SLH-DSA-SHA2-128S'', s128), (''SLH-DSA-128S'', s128),
          (''SLH-DSA-SHA2-192S'', s192), (''SLH-DSA-192S'', s192),
          (''HMAC-SHA256'', [hash_sha ''SHA-256'']), (''HMAC_SHA_256'', [hash_sha ''SHA-256'']),
          (''HMAC-SHA384'', [hash_sha ''SHA-384'']), (''HMAC_SHA_384'', [hash_sha ''SHA-384'']),
          (''HMAC-SHA512'', [hash_sha ''SHA-512'']), (''HMAC_SHA_512'', [hash_sha ''SHA-512''])])"

definition id_primitives_for :: "string \<Rightarrow> nat option \<Rightarrow> primitive list" where
  "id_primitives_for key_type key_size_bits =
     (let upper = to_upper key_type in
      if upper = ''RSA'' then [id_sig ''RSA-PKCS1'' False None key_size_bits]
      else if upper = ''AES'' then
        (let size = (case key_size_bits of Some b \<Rightarrow> b | None \<Rightarrow> 256)
         in [id_encrypt (''AES-'' @ show_nat size) (256 \<le> size)])
      else (case map_of key_type_table upper of
          Some ps \<Rightarrow> ps
        | None \<Rightarrow> [mk_primitive Sig (''unknown:'' @ key_type) None None]))"

section \<open>The offline inventory\<close>

record key_inventory =
  ki_key_id :: string
  ki_key_type :: string
  ki_key_size_bits :: "nat option"
  ki_usage :: "string list"

record slot_inventory =
  sl_hsm_vendor :: string
  sl_hsm_model :: "string option"
  sl_slot_id :: string
  sl_label :: "string option"
  sl_keys :: "key_inventory list"

record id_stats =
  is_slots_seen :: nat
  is_keys_seen :: nat
  is_events_emitted :: nat
  is_skipped :: nat

definition id_stats_default :: id_stats where
  "id_stats_default = \<lparr>is_slots_seen = 0, is_keys_seen = 0, is_events_emitted = 0, is_skipped = 0\<rparr>"

type_synonym id_acc = "id_stats \<times> crypto_inventory_event list"

definition bits_text :: "nat option \<Rightarrow> string" where
  "bits_text bits = (case bits of Some b \<Rightarrow> '' '' @ show_nat b @ ''b'' | None \<Rightarrow> [])"

definition key_event :: "timestamp \<Rightarrow> slot_inventory \<Rightarrow> key_inventory \<Rightarrow> crypto_inventory_event" where
  "key_event now slot key =
     (let host = (case sl_hsm_model slot of
          Some m \<Rightarrow> Some (sl_hsm_vendor slot @ '' '' @ m) | None \<Rightarrow> Some (sl_hsm_vendor slot))
      in id_build_event (sl_hsm_vendor slot @ ''/'' @ sl_slot_id slot @ ''/'' @ ki_key_id key) host
        (id_primitives_for (ki_key_type key) (ki_key_size_bits key))
        (''HSM slot '' @ sl_slot_id slot @ '' on '' @ sl_hsm_vendor slot @ '' '' @
         (case sl_hsm_model slot of Some m \<Rightarrow> m | None \<Rightarrow> ''(unknown model)'') @ '': key '' @ ki_key_id key @
         '' ('' @ ki_key_type key @ bits_text (ki_key_size_bits key) @ ''), usage='' @
         (if ki_usage key = [] then ''?'' else intercalate '','' (ki_usage key))) now)"

definition inventory_key :: "timestamp \<Rightarrow> slot_inventory \<Rightarrow> id_acc \<Rightarrow> key_inventory \<Rightarrow> id_acc" where
  "inventory_key now slot acc key = (case acc of (st, out) \<Rightarrow>
     (is_events_emitted_update Suc (is_keys_seen_update Suc st), out @ [key_event now slot key]))"

definition inventory_slot :: "timestamp \<Rightarrow> id_acc \<Rightarrow> slot_inventory \<Rightarrow> id_acc" where
  "inventory_slot now acc slot = (case acc of (st, out) \<Rightarrow>
     foldl (inventory_key now slot) (is_slots_seen_update Suc st, out) (sl_keys slot))"

definition inventory_scan :: "timestamp \<Rightarrow> slot_inventory list \<Rightarrow> id_acc" where
  "inventory_scan now slots = foldl (inventory_slot now) (id_stats_default, []) slots"

definition inventory_scan_file ::
  "timestamp \<Rightarrow> (string \<Rightarrow> (string, slot_inventory list) result) \<Rightarrow> (string, string) result \<Rightarrow>
   (string, id_acc) result" where
  "inventory_scan_file now json input = rbind (rbind input json) (\<lambda>slots. Inr (inventory_scan now slots))"

text \<open>\<open>scan_file\<close> behind the sink: an unreadable file or malformed JSON emits nothing.\<close>

definition run_inventory_scan ::
  "timestamp \<Rightarrow> (string \<Rightarrow> (string, slot_inventory list) result) \<Rightarrow> (string, unit) result \<Rightarrow>
   (crypto_inventory_event \<Rightarrow> string) \<Rightarrow> ('s \<Rightarrow> crypto_inventory_event \<Rightarrow> bool \<times> 's) \<Rightarrow> (string, string) result \<Rightarrow> string option \<Rightarrow> 's \<times> string list \<Rightarrow>
   (string, id_stats) result \<times> 's \<times> string list" where
  "run_inventory_scan now json client show_ev post input collector w =
     (case rbind (cert_sink_new client collector) (\<lambda>_. rbind input json) of
        Inl e \<Rightarrow> (Inl e, w)
      | Inr slots \<Rightarrow> (case inventory_scan now slots of
          (st, evs) \<Rightarrow> (Inr st, cert_deliver post show_ev collector w evs)))"

lemma run_inventory_scan_file:
  "run_inventory_scan now json client show_ev post input collector w =
     (case rbind (cert_sink_new client collector) (\<lambda>_. inventory_scan_file now json input) of
        Inl e \<Rightarrow> (Inl e, w)
      | Inr (st, evs) \<Rightarrow> (Inr st, cert_deliver post show_ev collector w evs))"
  by (auto simp: run_inventory_scan_def inventory_scan_file_def rbind_def split: sum.splits prod.splits)

section \<open>PKCS\#11\<close>

text \<open>\<open>String::from_utf8_lossy\<close>: a malformed sequence, as long as it is the beginning of a character,
  becomes one replacement character.\<close>

definition three_lead :: "char \<Rightarrow> char \<Rightarrow> bool" where
  "three_lead a b \<longleftrightarrow> byte_in 0xE0 0xE0 a \<and> byte_in 0xA0 0xBF b
     \<or> (byte_in 0xE1 0xEC a \<or> byte_in 0xEE 0xEF a) \<and> utf8_tail b
     \<or> byte_in 0xED 0xED a \<and> byte_in 0x80 0x9F b"

definition four_lead :: "char \<Rightarrow> char \<Rightarrow> bool" where
  "four_lead a b \<longleftrightarrow> byte_in 0xF0 0xF0 a \<and> byte_in 0x90 0xBF b
     \<or> byte_in 0xF1 0xF3 a \<and> utf8_tail b \<or> byte_in 0xF4 0xF4 a \<and> byte_in 0x80 0x8F b"

definition lossy_skip :: "string \<Rightarrow> nat" where
  "lossy_skip s = (case s of
     a # b # t \<Rightarrow>
       (if four_lead a b then (case t of c # _ \<Rightarrow> if utf8_tail c then 3 else 2 | [] \<Rightarrow> 2)
        else if three_lead a b then 2 else 1)
   | _ \<Rightarrow> 1)"

lemma lossy_skip_pos [simp]: "0 < lossy_skip s"
  by (auto simp: lossy_skip_def split: list.splits)

function utf8_lossy :: "string \<Rightarrow> string" where
  "utf8_lossy s =
     (if s = [] then []
      else case find (\<lambda>n. 0 < n \<and> n \<le> length s \<and> valid_utf8 (take n s)) [1, 2, 3, 4] of
        Some n \<Rightarrow> take n s @ utf8_lossy (drop n s)
      | None \<Rightarrow> [CHR 0xEF, CHR 0xBF, CHR 0xBD] @ utf8_lossy (drop (lossy_skip s) s))"
  by pat_completeness auto
termination
proof (relation "measure length")
  fix s :: string and n
  assume "s \<noteq> []" "find (\<lambda>n. 0 < n \<and> n \<le> length s \<and> valid_utf8 (take n s)) [1, 2, 3, 4] = Some n"
  then have "0 < n \<and> n \<le> length s"
    by (auto simp only: find_Some_iff)
  then show "(drop n s, s) \<in> measure length" using \<open>s \<noteq> []\<close> by (cases s) auto
next
  fix s :: string
  assume "s \<noteq> []"
  then show "(drop (lossy_skip s) s, s) \<in> measure length" by (cases s) auto
qed simp

datatype key_kind = KtRsa | KtEc | KtAes | KtEcEdwards | KtOther string

datatype key_attribute = ALabel string | AKeyType key_kind | AModulusBits nat | AOther

datatype object_class = PublicKey | SecretKey

fun key_type_label :: "key_kind \<Rightarrow> string" where
  "key_type_label KtRsa = ''RSA''"
| "key_type_label KtEc = ''ECDSA-P256''"
| "key_type_label KtAes = ''AES''"
| "key_type_label KtEcEdwards = ''Ed25519''"
| "key_type_label (KtOther debug) = debug"

fun class_label :: "object_class \<Rightarrow> string" where
  "class_label PublicKey = ''public-key''"
| "class_label SecretKey = ''secret-key''"

text \<open>The loop over the attributes; the last of each kind wins.\<close>

definition read_attributes :: "key_attribute list \<Rightarrow> string \<times> key_kind option \<times> nat option" where
  "read_attributes attrs =
     foldl (\<lambda>(label, kt, bits) a. case a of
         ALabel b \<Rightarrow> (utf8_lossy b, kt, bits)
       | AKeyType v \<Rightarrow> (label, Some v, bits)
       | AModulusBits v \<Rightarrow> (label, kt, Some (v mod 2 ^ 32))
       | AOther \<Rightarrow> (label, kt, bits)) ([], None, None) attrs"

definition object_event ::
  "timestamp \<Rightarrow> string \<Rightarrow> nat \<Rightarrow> object_class \<Rightarrow> key_attribute list \<Rightarrow> crypto_inventory_event option" where
  "object_event now token_label raw_slot class attrs =
     (case read_attributes attrs of (label, kt, bits) \<Rightarrow>
        (case kt of
           None \<Rightarrow> None
         | Some kt \<Rightarrow>
             (let key_spec = key_type_label kt in
              Some (id_build_event
                (''pkcs11:'' @ token_label @ ''/slot:'' @ show_nat raw_slot @ ''/'' @ label)
                (Some (''PKCS#11 '' @ token_label))
                (id_primitives_for key_spec bits)
                (''PKCS#11 '' @ class_label class @ '' '' @ key_spec @ '' on slot '' @ show_nat raw_slot @
                 (case bits of Some b \<Rightarrow> '' ('' @ show_nat b @ ''-bit)'' | None \<Rightarrow> [])) now))))"

record pk_slot =
  ps_id :: nat
  ps_token_label :: "(string, string) result"
  ps_session :: "(string, unit) result"
  ps_login :: "string \<Rightarrow> (string, unit) result"
  ps_objects :: "object_class \<Rightarrow> (string, (string, key_attribute list) result list) result"

text \<open>Events emitted before an error have been handed to the callback.\<close>

fun pk_objects ::
  "timestamp \<Rightarrow> string \<Rightarrow> nat \<Rightarrow> object_class \<Rightarrow> (string, key_attribute list) result list \<Rightarrow> id_acc \<Rightarrow>
   (string, unit) result \<times> id_acc" where
  "pk_objects now token slot class [] acc = (Inr (), acc)"
| "pk_objects now token slot class (h # hs) (st, out) =
     (let st = is_keys_seen_update Suc st in
      case h of
        Inl e \<Rightarrow> (Inl e, (st, out))
      | Inr attrs \<Rightarrow>
          (case object_event now token slot class attrs of
             None \<Rightarrow> pk_objects now token slot class hs (is_skipped_update Suc st, out)
           | Some ev \<Rightarrow> pk_objects now token slot class hs (is_events_emitted_update Suc st, out @ [ev])))"

definition pk_class ::
  "timestamp \<Rightarrow> pk_slot \<Rightarrow> string \<Rightarrow> object_class \<Rightarrow> id_acc \<Rightarrow> (string, unit) result \<times> id_acc" where
  "pk_class now slot token class acc =
     (case ps_objects slot class of
        Inl e \<Rightarrow> (Inl (''C_FindObjects: '' @ e), acc)
      | Inr handles \<Rightarrow> pk_objects now token (ps_id slot) class handles acc)"

definition pk_slot_scan :: "timestamp \<Rightarrow> string option \<Rightarrow> pk_slot \<Rightarrow> id_acc \<Rightarrow> (string, unit) result \<times> id_acc" where
  "pk_slot_scan now user_pin slot acc =
     (case acc of (st, out) \<Rightarrow>
        (let acc = (is_slots_seen_update Suc st, out) in
         case rbind (ps_token_label slot) (\<lambda>token.
              rbind (ps_session slot) (\<lambda>_.
              rbind (case user_pin of Some pin \<Rightarrow> ps_login slot pin | None \<Rightarrow> Inr ()) (\<lambda>_. Inr token))) of
           Inl e \<Rightarrow> (Inl e, acc)
         | Inr token \<Rightarrow>
             (case pk_class now slot token PublicKey acc of
                (Inl e, acc) \<Rightarrow> (Inl e, acc)
              | (Inr _, acc) \<Rightarrow> pk_class now slot token SecretKey acc)))"

fun pk_slots :: "timestamp \<Rightarrow> string option \<Rightarrow> nat option \<Rightarrow> pk_slot list \<Rightarrow> id_acc \<Rightarrow> (string, unit) result \<times> id_acc" where
  "pk_slots now pin only [] acc = (Inr (), acc)"
| "pk_slots now pin only (s # ss) acc =
     (if only \<noteq> None \<and> only \<noteq> Some (ps_id s) then pk_slots now pin only ss acc
      else (case pk_slot_scan now pin s acc of
          (Inl e, acc) \<Rightarrow> (Inl e, acc)
        | (Inr _, acc) \<Rightarrow> pk_slots now pin only ss acc))"

definition pkcs11_scan ::
  "timestamp \<Rightarrow> string option \<Rightarrow> nat option \<Rightarrow> (string, pk_slot list) result \<Rightarrow> (string, id_stats) result \<times> crypto_inventory_event list" where
  "pkcs11_scan now pin only slots =
     (case slots of
        Inl e \<Rightarrow> (Inl e, [])
      | Inr ss \<Rightarrow>
          (case pk_slots now pin only ss (id_stats_default, []) of
             (Inl e, (st, out)) \<Rightarrow> (Inl e, out)
           | (Inr _, (st, out)) \<Rightarrow> (Inr st, out)))"

section \<open>AWS KMS\<close>

record kms_key_info =
  kk_key_id :: string
  kk_key_spec :: string
  kk_key_size_bits :: "nat option"
  kk_usage :: "string option"
  kk_region :: "string option"

definition kms_key_event :: "timestamp \<Rightarrow> kms_key_info \<Rightarrow> crypto_inventory_event" where
  "kms_key_event now key =
     id_build_event (kk_key_id key) (map_option (\<lambda>r. ''aws-kms:'' @ r) (kk_region key))
       (id_primitives_for (kk_key_spec key) (kk_key_size_bits key))
       (''KMS key '' @ kk_key_id key @ '' ('' @ kk_key_spec key @ bits_text (kk_key_size_bits key) @
        (case kk_usage key of Some u \<Rightarrow> '', usage='' @ u | None \<Rightarrow> []) @ '')'') now"

definition kms_scan ::
  "timestamp \<Rightarrow> (string, kms_key_info list) result \<Rightarrow> (string, nat \<times> nat) result \<times> crypto_inventory_event list" where
  "kms_scan now keys = (case keys of
     Inl e \<Rightarrow> (Inl e, [])
   | Inr ks \<Rightarrow> (Inr (length ks, length ks), map (kms_key_event now) ks))"

definition keyspec_table :: "(string \<times> string) list" where
  "keyspec_table =
     [(''RSA_2048'', ''RSA''), (''RSA_3072'', ''RSA''), (''RSA_4096'', ''RSA''),
      (''ECC_NIST_P256'', ''ECDSA-P256''), (''ECC_NIST_P384'', ''ECDSA-P384''), (''ECC_NIST_P521'', ''ECDSA-P521''),
      (''ECC_SECG_P256K1'', ''ECDSA-secp256k1''), (''SYMMETRIC_DEFAULT'', ''AES''),
      (''HMAC_224'', ''HMAC-SHA256''), (''HMAC_256'', ''HMAC-SHA256''), (''HMAC_384'', ''HMAC-SHA384''),
      (''HMAC_512'', ''HMAC-SHA512''),
      (''ML_DSA_44'', ''ML-DSA-44''), (''ML-DSA-44'', ''ML-DSA-44''), (''ML_DSA_65'', ''ML-DSA-65''),
      (''ML-DSA-65'', ''ML-DSA-65''), (''ML_DSA_87'', ''ML-DSA-87''), (''ML-DSA-87'', ''ML-DSA-87'')]"

definition aws_keyspec_to_algo :: "string \<Rightarrow> string" where
  "aws_keyspec_to_algo spec = (case map_of keyspec_table (to_upper spec) of Some a \<Rightarrow> a | None \<Rightarrow> spec)"

definition keyspec_bits_table :: "(string \<times> nat) list" where
  "keyspec_bits_table =
     [(''RSA_2048'', 2048), (''RSA_3072'', 3072), (''RSA_4096'', 4096), (''SYMMETRIC_DEFAULT'', 256),
      (''HMAC_224'', 224), (''HMAC_256'', 256), (''HMAC_384'', 384), (''HMAC_512'', 512)]"

definition aws_keyspec_bits :: "string \<Rightarrow> nat option" where
  "aws_keyspec_bits spec = map_of keyspec_bits_table (to_upper spec)"

text \<open>One page of \<open>ListKeys\<close>, and the metadata \<open>DescribeKey\<close> gives for a key, when it gives any.\<close>

record kms_page =
  kp_keys :: "string option list"
  kp_truncated :: bool
  kp_next_marker :: "string option"

record kms_metadata =
  km_arn :: "string option"
  km_key_spec :: "string option"
  km_key_usage :: "string option"

record kms_service =
  ks_list :: "string option \<Rightarrow> (string, kms_page) result"
  ks_describe :: "string \<Rightarrow> (string, kms_metadata option) result"
  ks_region :: string

definition key_info :: "kms_service \<Rightarrow> string \<Rightarrow> kms_metadata \<Rightarrow> kms_key_info" where
  "key_info svc key_id meta =
     \<lparr>kk_key_id = (case km_arn meta of Some a \<Rightarrow> a | None \<Rightarrow> key_id),
      kk_key_spec = (case km_key_spec meta of Some s \<Rightarrow> aws_keyspec_to_algo s | None \<Rightarrow> ''unknown''),
      kk_key_size_bits = Option.bind (km_key_spec meta) aws_keyspec_bits,
      kk_usage = km_key_usage meta, kk_region = Some (ks_region svc)\<rparr>"

fun describe_keys :: "kms_service \<Rightarrow> string option list \<Rightarrow> (string, kms_key_info list) result" where
  "describe_keys svc [] = Inr []"
| "describe_keys svc (entry # entries) =
     (let key_id = (case entry of Some i \<Rightarrow> i | None \<Rightarrow> []) in
      rbind (ks_describe svc key_id) (\<lambda>desc.
      rbind (describe_keys svc entries) (\<lambda>rest.
      Inr (case desc of Some meta \<Rightarrow> key_info svc key_id meta # rest | None \<Rightarrow> rest))))"

text \<open>The page loop ends when the service says so; \<open>None\<close> is a loop that does not end.\<close>

partial_function (option) list_keys_loop ::
  "kms_service \<Rightarrow> string option \<Rightarrow> kms_key_info list \<Rightarrow> (string, kms_key_info list) result option" where
  "list_keys_loop svc marker out =
     (case ks_list svc marker of
        Inl e \<Rightarrow> Some (Inl e)
      | Inr page \<Rightarrow>
          (case describe_keys svc (kp_keys page) of
             Inl e \<Rightarrow> Some (Inl e)
           | Inr infos \<Rightarrow>
               (if kp_truncated page
                then (case kp_next_marker page of
                    None \<Rightarrow> Some (Inr (out @ infos))
                  | Some m \<Rightarrow> list_keys_loop svc (Some m) (out @ infos))
                else Some (Inr (out @ infos)))))"

definition list_keys :: "kms_service \<Rightarrow> (string, kms_key_info list) result option" where
  "list_keys svc = list_keys_loop svc None []"

section \<open>The other subcommands\<close>

text \<open>\<open>built\<close> says whether the crate was built with the feature the subcommand needs.\<close>

definition run_pkcs11_scan ::
  "bool \<Rightarrow> timestamp \<Rightarrow> (string \<Rightarrow> string option) \<Rightarrow> (string, pk_slot list) result \<Rightarrow> (string, unit) result \<Rightarrow>
   (crypto_inventory_event \<Rightarrow> string) \<Rightarrow> ('s \<Rightarrow> crypto_inventory_event \<Rightarrow> bool \<times> 's) \<Rightarrow> string option \<Rightarrow>
   nat option \<Rightarrow> string option \<Rightarrow> 's \<times> string list \<Rightarrow> (string, id_stats) result \<times> 's \<times> string list" where
  "run_pkcs11_scan built now getenv slots client show_ev post pin_env only collector w =
     (if \<not> built then (Inl ''pkcs11-scan requires the `pkcs11` feature'', w)
      else
        (case rbind (case pin_env of
                None \<Rightarrow> Inr None
              | Some v \<Rightarrow> (case getenv v of
                    None \<Rightarrow> Inl (''--pin-env `'' @ v @ ''` not present in process env'')
                  | Some pin \<Rightarrow> Inr (Some pin))) (\<lambda>pin.
              rbind (cert_sink_new client collector) (\<lambda>_. Inr pin)) of
           Inl e \<Rightarrow> (Inl e, w)
         | Inr pin \<Rightarrow>
             (case pkcs11_scan now pin only slots of
                (r, evs) \<Rightarrow> (r, cert_deliver post show_ev collector w evs))))"

text \<open>\<open>None\<close> is a listing that does not end.\<close>

text \<open>The region of the backend: what the SDK resolved, else what the caller asked for.\<close>

definition resolved_region :: "string option \<Rightarrow> string option \<Rightarrow> string" where
  "resolved_region sdk region =
     (case sdk of Some r \<Rightarrow> r | None \<Rightarrow> (case region of Some r \<Rightarrow> r | None \<Rightarrow> ''unknown''))"

definition run_aws_kms_scan ::
  "bool \<Rightarrow> timestamp \<Rightarrow> (string option \<Rightarrow> (string, kms_service) result) \<Rightarrow> (string, unit) result \<Rightarrow>
   (crypto_inventory_event \<Rightarrow> string) \<Rightarrow> ('s \<Rightarrow> crypto_inventory_event \<Rightarrow> bool \<times> 's) \<Rightarrow> string option \<Rightarrow>
   string option \<Rightarrow> 's \<times> string list \<Rightarrow> ((string, nat \<times> nat) result \<times> 's \<times> string list) option" where
  "run_aws_kms_scan built now connect client show_ev post region collector w =
     (if \<not> built then Some (Inl ''aws-kms-scan requires the `aws-kms` feature'', w)
      else
        (case rbind (cert_sink_new client collector) (\<lambda>_. connect region) of
           Inl e \<Rightarrow> Some (Inl e, w)
         | Inr svc \<Rightarrow>
             (case list_keys svc of
                None \<Rightarrow> None
              | Some keys \<Rightarrow>
                  (case kms_scan now keys of
                     (r, evs) \<Rightarrow> Some (r, cert_deliver post show_ev collector w evs)))))"

section \<open>Termination of the listing\<close>

text \<open>The pages a service chains by its markers, read at most \<open>n\<close> deep.\<close>

fun pages_keys :: "kms_service \<Rightarrow> nat \<Rightarrow> string option \<Rightarrow> (string, kms_key_info list) result" where
  "pages_keys svc 0 marker = Inr []"
| "pages_keys svc (Suc n) marker =
     rbind (ks_list svc marker) (\<lambda>page.
     rbind (describe_keys svc (kp_keys page)) (\<lambda>infos.
     if kp_truncated page \<and> kp_next_marker page \<noteq> None
     then rbind (pages_keys svc n (kp_next_marker page)) (\<lambda>rest. Inr (infos @ rest))
     else Inr infos))"

definition markers_progress :: "kms_service \<Rightarrow> (string option \<Rightarrow> nat) \<Rightarrow> bool" where
  "markers_progress svc rank \<longleftrightarrow> (\<forall>marker page m. ks_list svc marker = Inr page \<longrightarrow> kp_truncated page \<longrightarrow>
     kp_next_marker page = Some m \<longrightarrow> rank (Some m) < rank marker)"

lemma list_keys_loop_returns:
  assumes "markers_progress svc rank"
  shows "rank marker < n \<Longrightarrow> list_keys_loop svc marker out = Some (rbind (pages_keys svc n marker) (\<lambda>ks. Inr (out @ ks)))"
proof (induction n arbitrary: marker out)
  case (Suc n)
  show ?case
  proof (cases "ks_list svc marker")
    case (Inr page)
    show ?thesis
    proof (cases "describe_keys svc (kp_keys page)")
      case (Inl e)
      then show ?thesis by (subst list_keys_loop.simps) (simp add: Inr)
    next
      case infos: (Inr infos)
      show ?thesis
      proof (cases "kp_truncated page \<and> kp_next_marker page \<noteq> None")
        case True
        then obtain m where m: "kp_next_marker page = Some m" by blast
        have "rank (Some m) < rank marker"
          using assms Inr m True unfolding markers_progress_def by blast
        with Suc.prems have "rank (Some m) < n" by simp
        from Suc.IH [OF this, of "out @ infos"] show ?thesis
          using True m by (subst list_keys_loop.simps) (simp add: Inr infos rbind_assoc)
      next
        case False
        then show ?thesis
          by (subst list_keys_loop.simps) (auto simp: Inr infos split: option.splits)
      qed
    qed
  qed (subst list_keys_loop.simps, simp)
qed simp

text \<open>C24: the key listing returns, with every page's keys in order or an error, whenever the service's
  markers make progress: some measure decreases from each truncated page to the one its marker names.\<close>

theorem list_keys_terminates:
  assumes "markers_progress svc rank"
  shows "list_keys svc = Some (pages_keys svc (Suc (rank None)) None)"
  using list_keys_loop_returns [OF assms, of None "Suc (rank None)" "[]"]
  by (cases "pages_keys svc (Suc (rank None)) None") (simp_all add: list_keys_def)

text \<open>A service that answers every request with the same truncated page and marker keeps the listing
  in its loop for ever: nothing in the code bounds the number of pages.\<close>

theorem repeated_marker_diverges:
  assumes "ks_list svc None = Inr page" "ks_list svc (Some m) = Inr page" "kp_truncated page"
    and "kp_next_marker page = Some m" "describe_keys svc (kp_keys page) = Inr infos"
  shows "list_keys svc = None"
proof -
  define P where "P = (\<lambda>(s :: kms_service) marker (out :: kms_key_info list) (r :: (string, kms_key_info list) result).
      s \<noteq> svc \<or> marker \<notin> {None, Some m})"
  have loop: "P s marker out r" if "list_keys_loop s marker out = Some r" for s marker out r
  proof (rule list_keys_loop.raw_induct [where P = P, OF _ that])
    fix loop s' marker' out' r'
    assume IH: "\<And>s marker out r. loop s marker out = Some r \<Longrightarrow> P s marker out r"
      and step: "(case ks_list s' marker' of
         Inl e \<Rightarrow> Some (Inl e)
       | Inr page \<Rightarrow>
           (case describe_keys s' (kp_keys page) of
              Inl e \<Rightarrow> Some (Inl e)
            | Inr infos \<Rightarrow>
                (if kp_truncated page
                 then (case kp_next_marker page of
                     None \<Rightarrow> Some (Inr (out' @ infos))
                   | Some m \<Rightarrow> loop s' (Some m) (out' @ infos))
                 else Some (Inr (out' @ infos))))) = Some r'"
    show "P s' marker' out' r'"
    proof (cases "s' = svc \<and> marker' \<in> {None, Some m}")
      case True
      then have "loop svc (Some m) (out' @ infos) = Some r'"
        using step assms by auto
      from IH [OF this] show ?thesis by (simp add: P_def)
    qed (simp add: P_def)
  qed
  show ?thesis
  proof (cases "list_keys svc")
    case (Some r)
    then show ?thesis using loop [of svc None "[]" r] by (simp add: list_keys_def P_def)
  qed
qed

section \<open>What the key inventories report\<close>

lemma foldl_inventory_key:
  "foldl (inventory_key now slot) (st, out) ks =
     (st\<lparr>is_keys_seen := is_keys_seen st + length ks, is_events_emitted := is_events_emitted st + length ks\<rparr>,
      out @ map (key_event now slot) ks)"
  by (induction ks arbitrary: st out) (simp_all add: inventory_key_def)

text \<open>The offline scan emits one event for each key of each slot, in file order.\<close>

theorem inventory_scan_exact:
  "inventory_scan now slots =
     (let evs = concat (map (\<lambda>s. map (key_event now s) (sl_keys s)) slots) in
      (\<lparr>is_slots_seen = length slots, is_keys_seen = length evs, is_events_emitted = length evs, is_skipped = 0\<rparr>, evs))"
proof -
  have "foldl (inventory_slot now) (st, out) slots =
      (let evs = concat (map (\<lambda>s. map (key_event now s) (sl_keys s)) slots) in
       (st\<lparr>is_slots_seen := is_slots_seen st + length slots, is_keys_seen := is_keys_seen st + length evs,
           is_events_emitted := is_events_emitted st + length evs\<rparr>, out @ evs))" for st out
    by (induction slots arbitrary: st out) (simp_all add: inventory_slot_def foldl_inventory_key Let_def)
  then show ?thesis by (simp add: inventory_scan_def id_stats_default_def Let_def)
qed

lemma id_primitives_aes: "id_primitives_for ''AES'' None = [mk_primitive Encrypt ''AES-256'' (Some True) None]"
  by (simp add: id_primitives_for_def to_upper_def ascii_upper_def id_encrypt_def show_nat.simps digit_char_def
    char_of_eq_iff)

lemma read_attributes_kind:
  "fst (snd (foldl (\<lambda>(label, kt, bits) a. case a of
         ALabel b \<Rightarrow> (utf8_lossy b, kt, bits)
       | AKeyType v \<Rightarrow> (label, Some v, bits)
       | AModulusBits v \<Rightarrow> (label, kt, Some (v mod 2 ^ 32))
       | AOther \<Rightarrow> (label, kt, bits)) acc attrs)) \<in> insert (fst (snd acc)) {Some k |k. AKeyType k \<in> set attrs} \<and>
   (fst (snd (foldl (\<lambda>(label, kt, bits) a. case a of
         ALabel b \<Rightarrow> (utf8_lossy b, kt, bits)
       | AKeyType v \<Rightarrow> (label, Some v, bits)
       | AModulusBits v \<Rightarrow> (label, kt, Some (v mod 2 ^ 32))
       | AOther \<Rightarrow> (label, kt, bits)) acc attrs)) = None \<longrightarrow> {k. AKeyType k \<in> set attrs} = {}) \<and>
   ({v. AModulusBits v \<in> set attrs} = {} \<longrightarrow> snd (snd (foldl (\<lambda>(label, kt, bits) a. case a of
         ALabel b \<Rightarrow> (utf8_lossy b, kt, bits)
       | AKeyType v \<Rightarrow> (label, Some v, bits)
       | AModulusBits v \<Rightarrow> (label, kt, Some (v mod 2 ^ 32))
       | AOther \<Rightarrow> (label, kt, bits)) acc attrs)) = snd (snd acc))"
  by (induction attrs rule: rev_induct) (auto split: prod.splits key_attribute.splits)

text \<open>PKCS\#11 gives a secret key no modulus length, and the walker asks for no other length, so every
  AES key in an HSM, of 128 bits too, is reported as AES-256 and post-quantum safe.\<close>

theorem pkcs11_aes_reported_256:
  assumes "AKeyType KtAes \<in> set attrs" "\<And>k. AKeyType k \<in> set attrs \<Longrightarrow> k = KtAes"
    and "\<And>v. AModulusBits v \<notin> set attrs"
  shows "\<exists>ev. object_event now token slot SecretKey attrs = Some ev \<and>
     ev_primitives ev = [mk_primitive Encrypt ''AES-256'' (Some True) None]"
proof -
  obtain label kt bits where r: "read_attributes attrs = (label, kt, bits)" by (metis prod.exhaust)
  have "kt = Some KtAes" "bits = None"
    using read_attributes_kind [of "([], None, None)" attrs] r assms unfolding read_attributes_def by auto
  then show ?thesis
    by (simp add: object_event_def r id_build_event_def id_primitives_aes)
qed

lemma pkcs11_aes_reported_256_witness:
  "\<exists>ev. object_event 0 ''token'' 1 SecretKey [ALabel ''k'', AKeyType KtAes] = Some ev \<and>
     ev_primitives ev = [mk_primitive Encrypt ''AES-256'' (Some True) None]"
  by (rule pkcs11_aes_reported_256) auto

section \<open>Witnesses\<close>

definition toy_kms :: kms_service where
  "toy_kms = \<lparr>ks_list = (\<lambda>m. Inr (case m of
       None \<Rightarrow> \<lparr>kp_keys = [Some ''a''], kp_truncated = True, kp_next_marker = Some ''2''\<rparr>
     | Some _ \<Rightarrow> \<lparr>kp_keys = [Some ''b''], kp_truncated = False, kp_next_marker = None\<rparr>)),
     ks_describe = (\<lambda>i. Inr (Some \<lparr>km_arn = Some i, km_key_spec = Some ''RSA_2048'', km_key_usage = None\<rparr>)),
     ks_region = ''eu-west-1''\<rparr>"

lemma list_keys_terminates_witness:
  "list_keys toy_kms = Some (pages_keys toy_kms (Suc 1) None)"
proof -
  have "markers_progress toy_kms (\<lambda>m. if m = None then 1 else 0)"
    by (auto simp: markers_progress_def toy_kms_def split: option.splits)
  from list_keys_terminates [OF this] show ?thesis by simp
qed

lemma repeated_marker_diverges_witness:
  "list_keys \<lparr>ks_list = (\<lambda>_. Inr \<lparr>kp_keys = [], kp_truncated = True, kp_next_marker = Some ''x''\<rparr>),
     ks_describe = (\<lambda>_. Inr None), ks_region = []\<rparr> = None"
  by (rule repeated_marker_diverges [where m = "''x''" and infos = "[]"
      and page = "\<lparr>kp_keys = [], kp_truncated = True, kp_next_marker = Some ''x''\<rparr>"]) simp_all

end
