(* ===== verification/Kme.thy ===== *)
theory Kme
  imports Http "HOL-Library.AList"
begin

text \<open>
  The reference KME emulator: src/crates/ree0xq-qkd/src/etsi014/mod.rs and
  src/crates/ree0xq-qkd/src/emulator/mod.rs.  The random number generator and the UUID generator
  are the two functions of an \<open>rng_env\<close>, each threading the generator's state.  The router is the
  type of the requests it admits, with the path parameter already extracted by axum; each request
  holds the emulator's lock for as long as its handler runs, so a run is a sequence of requests.
\<close>

unbundle bit_operations_syntax

section \<open>ETSI GS QKD 014 wire types\<close>

record status_response =
  sr_source_kme_id :: string
  sr_target_kme_id :: string
  sr_master_sae_id :: string
  sr_slave_sae_id :: string
  sr_key_size :: u32
  sr_stored_key_count :: u32
  sr_max_key_count :: u32
  sr_max_key_per_request :: u32
  sr_max_key_size :: u32
  sr_min_key_size :: u32
  sr_max_sae_id_count :: u32
  sr_link_qber :: "f32 option"
  sr_link_key_rate_bps :: "u64 option"

record etsi_key =
  ek_key_id :: string
  ek_key :: string

record key_container =
  kc_keys :: "etsi_key list"

record enc_keys_query =
  eq_size :: "u32 option"
  eq_number :: "u32 option"

record dec_key_id =
  dk_key_id :: string

record dec_keys_request =
  dr_key_IDs :: "dec_key_id list"

record error_response =
  er_message :: string
  er_details :: "string list"

section \<open>The emulator's state\<close>

record emulator_config =
  ec_kme_id :: string
  ec_paired_kme_id :: string
  ec_key_size :: u32
  ec_initial_qber :: f32
  ec_initial_key_rate_bps :: u64
  ec_max_key_count :: u32

record emulator_state =
  em_cfg :: emulator_config
  em_keys :: "(string \<times> bytes) list"
  em_qber :: f32
  em_key_rate_bps :: u64
  em_forced_failure :: "string option"

record 'r rng_env =
  re_fill :: "'r \<Rightarrow> nat \<Rightarrow> bytes \<times> 'r"
  re_uuid :: "'r \<Rightarrow> string \<times> 'r"

section \<open>Base64\<close>

definition B64_ALPHA :: string where
  "B64_ALPHA = ''ABCDEFGHIJKLMNOPQRSTUVWXYZabcdefghijklmnopqrstuvwxyz0123456789+/''"

definition sextet :: "u32 \<Rightarrow> nat \<Rightarrow> char" where
  "sextet n shift = B64_ALPHA ! unat (drop_bit shift n AND 0x3F)"

function b64_loop :: "bytes \<Rightarrow> nat \<Rightarrow> string \<Rightarrow> nat \<times> string" where
  "b64_loop input i out =
     (if i + 3 \<le> length input then
        (let n = push_bit 16 (ucast (input ! i)) OR push_bit 8 (ucast (input ! (i + 1))) OR ucast (input ! (i + 2)) in
         b64_loop input (i + 3) (out @ map (sextet n) [18, 12, 6, 0]))
      else (i, out))"
  by pat_completeness auto
termination by (relation "measure (\<lambda>(input, i, out). length input - i)") auto

declare b64_loop.simps [simp del]

definition base64_encode :: "bytes \<Rightarrow> string" where
  "base64_encode input =
     (case b64_loop input 0 [] of (i, out) \<Rightarrow>
       let rem = length input - i in
       if 0 < rem then
         (let n0 = push_bit 16 (ucast (input ! i)) :: u32;
              n = (if rem = 2 then n0 OR push_bit 8 (ucast (input ! (i + 1))) else n0) in
          out @ [sextet n 18, sextet n 12, if rem = 2 then sextet n 6 else CHR ''='', CHR ''=''])
       else out)"

section \<open>Handlers\<close>

definition build_status :: "emulator_state \<Rightarrow> string \<Rightarrow> string \<Rightarrow> status_response" where
  "build_status st master_sae slave_sae =
     \<lparr>sr_source_kme_id = ec_kme_id (em_cfg st), sr_target_kme_id = ec_paired_kme_id (em_cfg st),
      sr_master_sae_id = master_sae, sr_slave_sae_id = slave_sae, sr_key_size = ec_key_size (em_cfg st),
      sr_stored_key_count = of_nat (length (em_keys st)), sr_max_key_count = ec_max_key_count (em_cfg st),
      sr_max_key_per_request = 128, sr_max_key_size = 4096, sr_min_key_size = 64, sr_max_sae_id_count = 0,
      sr_link_qber = Some (em_qber st), sr_link_key_rate_bps = Some (em_key_rate_bps st)\<rparr>"

fun generate_loop ::
  "'r rng_env \<Rightarrow> nat \<Rightarrow> nat \<Rightarrow> emulator_state \<Rightarrow> etsi_key list \<Rightarrow> 'r \<Rightarrow> etsi_key list \<times> emulator_state \<times> 'r" where
  "generate_loop env byte_len 0 st out r = (out, st, r)"
| "generate_loop env byte_len (Suc n) st out r =
     (case re_fill env r byte_len of (buf, r') \<Rightarrow>
      case re_uuid env r' of (uuid, r'') \<Rightarrow>
        generate_loop env byte_len n (st\<lparr>em_keys := AList.update uuid buf (em_keys st)\<rparr>)
          (out @ [\<lparr>ek_key_id = uuid, ek_key = base64_encode buf\<rparr>]) r'')"

definition generate_keys ::
  "'r rng_env \<Rightarrow> emulator_state \<Rightarrow> u32 \<Rightarrow> u32 \<Rightarrow> 'r \<Rightarrow> etsi_key list \<times> emulator_state \<times> 'r" where
  "generate_keys env st num size_bits r = generate_loop env ((unat size_bits + 7) div 8) (unat num) st [] r"

definition emulator_new :: "'r rng_env \<Rightarrow> emulator_config \<Rightarrow> 'r \<Rightarrow> emulator_state \<times> 'r" where
  "emulator_new env cfg r =
     snd (generate_keys env
       \<lparr>em_cfg = cfg, em_keys = [], em_qber = ec_initial_qber cfg, em_key_rate_bps = ec_initial_key_rate_bps cfg,
        em_forced_failure = None\<rparr> 32 (ec_key_size cfg) r)"

type_synonym 'a kme_result = "(status_code \<times> error_response, 'a) result"

definition kme_unavailable :: "string \<Rightarrow> 'a kme_result" where
  "kme_unavailable reason = Inl (SERVICE_UNAVAILABLE, \<lparr>er_message = ''kme_unavailable'', er_details = [reason]\<rparr>)"

definition handle_status :: "emulator_state \<Rightarrow> string \<Rightarrow> status_response kme_result" where
  "handle_status st slave_sae_id =
     (case em_forced_failure st of
        Some reason \<Rightarrow> kme_unavailable reason
      | None \<Rightarrow> Inr (build_status st ''SAE-MASTER'' slave_sae_id))"

definition enc_count :: "enc_keys_query \<Rightarrow> u32" where
  "enc_count query = max 1 (min 128 (case eq_number query of Some n \<Rightarrow> n | None \<Rightarrow> 1))"

definition handle_enc_keys ::
  "'r rng_env \<Rightarrow> enc_keys_query \<Rightarrow> emulator_state \<Rightarrow> 'r \<Rightarrow> key_container kme_result \<times> emulator_state \<times> 'r" where
  "handle_enc_keys env query st r =
     (case em_forced_failure st of
        Some reason \<Rightarrow> (kme_unavailable reason, st, r)
      | None \<Rightarrow>
          (let size = (case eq_size query of Some s \<Rightarrow> s | None \<Rightarrow> ec_key_size (em_cfg st)) in
           case generate_keys env st (enc_count query) size r of
             (keys, st', r') \<Rightarrow> (Inr \<lparr>kc_keys = keys\<rparr>, st', r')))"

fun dec_loop :: "(string \<times> bytes) list \<Rightarrow> dec_key_id list \<Rightarrow> etsi_key list \<Rightarrow> key_container kme_result" where
  "dec_loop pool [] keys = Inr \<lparr>kc_keys = keys\<rparr>"
| "dec_loop pool (entry # es) keys =
     (case map_of pool (dk_key_id entry) of
        Some buf \<Rightarrow> dec_loop pool es (keys @ [\<lparr>ek_key_id = dk_key_id entry, ek_key = base64_encode buf\<rparr>])
      | None \<Rightarrow> Inl (NOT_FOUND, \<lparr>er_message = ''key_not_available'',
                        er_details = [''unknown key_ID '' @ dk_key_id entry]\<rparr>))"

definition handle_dec_keys :: "emulator_state \<Rightarrow> dec_keys_request \<Rightarrow> key_container kme_result" where
  "handle_dec_keys st req =
     (case em_forced_failure st of
        Some reason \<Rightarrow> kme_unavailable reason
      | None \<Rightarrow> dec_loop (em_keys st) (dr_key_IDs req) [])"

datatype control_op = SetQber f32 | SetKeyRate u64 | ForceFailure string | ClearFailure

fun handle_control :: "control_op \<Rightarrow> emulator_state \<Rightarrow> emulator_state" where
  "handle_control (SetQber qber) st = st\<lparr>em_qber := max 0 (min 1 qber)\<rparr>"
| "handle_control (SetKeyRate rate_bps) st = st\<lparr>em_key_rate_bps := rate_bps\<rparr>"
| "handle_control (ForceFailure reason) st = st\<lparr>em_forced_failure := Some reason\<rparr>"
| "handle_control ClearFailure st = st\<lparr>em_forced_failure := None\<rparr>"

text \<open>The router: the requests the four routes admit, and the answer of each.\<close>

datatype kme_request =
    GetStatus string
  | GetEncKeys string enc_keys_query
  | PostDecKeys string dec_keys_request
  | PostControl control_op

datatype kme_response =
    StatusAnswer "status_response kme_result"
  | KeysAnswer "key_container kme_result"
  | NoContent

fun kme_serve ::
  "'r rng_env \<Rightarrow> kme_request \<Rightarrow> emulator_state \<times> 'r \<Rightarrow> kme_response \<times> emulator_state \<times> 'r" where
  "kme_serve env (GetStatus slave) (st, r) = (StatusAnswer (handle_status st slave), st, r)"
| "kme_serve env (GetEncKeys slave query) (st, r) =
     (case handle_enc_keys env query st r of (ans, st', r') \<Rightarrow> (KeysAnswer ans, st', r'))"
| "kme_serve env (PostDecKeys master req) (st, r) = (KeysAnswer (handle_dec_keys st req), st, r)"
| "kme_serve env (PostControl op) (st, r) = (NoContent, handle_control op st, r)"

fun kme_run ::
  "'r rng_env \<Rightarrow> kme_request list \<Rightarrow> emulator_state \<times> 'r \<Rightarrow> kme_response list \<times> emulator_state \<times> 'r" where
  "kme_run env [] s = ([], s)"
| "kme_run env (req # reqs) s =
     (case kme_serve env req s of (ans, s') \<Rightarrow>
      case kme_run env reqs s' of (answers, s'') \<Rightarrow> (ans # answers, s''))"

section \<open>Base64 against RFC 4648\<close>

definition b64_value :: "char \<Rightarrow> u32 option" where
  "b64_value c = map_option of_nat (find (\<lambda>k. B64_ALPHA ! k = c) [0..<64])"

definition b64_join :: "u32 \<Rightarrow> u32 \<Rightarrow> u32 \<Rightarrow> u32 \<Rightarrow> u32" where
  "b64_join v0 v1 v2 v3 = push_bit 18 v0 OR push_bit 12 v1 OR push_bit 6 v2 OR v3"

definition octet :: "u32 \<Rightarrow> nat \<Rightarrow> u8" where
  "octet n shift = ucast (drop_bit shift n)"

text \<open>The decoder of RFC 4648, section 4: groups of four characters, padding only in the last group.\<close>

fun base64_decode :: "string \<Rightarrow> bytes option" where
  "base64_decode [] = Some []"
| "base64_decode [c0, c1, c2, c3] =
     (if c3 \<noteq> CHR ''='' then
        (case (b64_value c0, b64_value c1, b64_value c2, b64_value c3) of
           (Some v0, Some v1, Some v2, Some v3) \<Rightarrow>
             (let n = b64_join v0 v1 v2 v3 in Some [octet n 16, octet n 8, octet n 0])
         | _ \<Rightarrow> None)
      else if c2 \<noteq> CHR ''='' then
        (case (b64_value c0, b64_value c1, b64_value c2) of
           (Some v0, Some v1, Some v2) \<Rightarrow> (let n = b64_join v0 v1 v2 0 in Some [octet n 16, octet n 8])
         | _ \<Rightarrow> None)
      else
        (case (b64_value c0, b64_value c1) of
           (Some v0, Some v1) \<Rightarrow> Some [octet (b64_join v0 v1 0 0) 16]
         | _ \<Rightarrow> None))"
| "base64_decode (c0 # c1 # c2 # c3 # cs) =
     (case (b64_value c0, b64_value c1, b64_value c2, b64_value c3) of
        (Some v0, Some v1, Some v2, Some v3) \<Rightarrow>
          (let n = b64_join v0 v1 v2 v3 in
           map_option (\<lambda>bs. octet n 16 # octet n 8 # octet n 0 # bs) (base64_decode cs))
      | _ \<Rightarrow> None)"
| "base64_decode _ = None"

text \<open>The encoder, group by group.\<close>

fun b64_groups :: "bytes \<Rightarrow> string" where
  "b64_groups (a # b # c # t) =
     map (sextet (push_bit 16 (ucast a) OR push_bit 8 (ucast b) OR ucast c)) [18, 12, 6, 0] @ b64_groups t"
| "b64_groups [a, b] = map (sextet (push_bit 16 (ucast a) OR push_bit 8 (ucast b))) [18, 12, 6] @ ''=''"
| "b64_groups [a] = map (sextet (push_bit 16 (ucast a))) [18, 12] @ ''==''"
| "b64_groups [] = []"

lemma find_nth_distinct:
  "distinct xs \<Longrightarrow> k < length xs \<Longrightarrow> find (\<lambda>j. xs ! j = xs ! k) [0..<length xs] = Some k"
  by (auto simp: find_Some_iff nth_eq_iff_index_eq intro!: exI [of _ k])

lemma B64_ALPHA_facts: "length B64_ALPHA = 64" "distinct B64_ALPHA" "CHR ''='' \<notin> set B64_ALPHA"
  by (simp_all add: B64_ALPHA_def)

lemma and_63: "n AND 0x3F = take_bit 6 (n :: u32)"
  by (simp add: take_bit_eq_mask mask_eq_exp_minus_1)

lemma sextet_lt: "unat (take_bit 6 (n :: u32)) < 64"
  using take_bit_nat_less_exp [of 6 "unat n"] by (simp add: unsigned_take_bit_eq del: take_bit_nat_less_exp)

lemma b64_value_sextet [simp]: "b64_value (sextet n k) = Some (take_bit 6 (drop_bit k n))"
  using find_nth_distinct [OF B64_ALPHA_facts(2), of "unat (take_bit 6 (drop_bit k n))"] sextet_lt [of "drop_bit k n"]
  by (simp add: b64_value_def sextet_def and_63 B64_ALPHA_facts(1))

lemma sextet_not_pad [simp]: "sextet n k \<noteq> CHR ''=''"
proof -
  have "sextet n k \<in> set B64_ALPHA"
    using sextet_lt [of "drop_bit k n"] by (simp add: sextet_def and_63 B64_ALPHA_facts(1))
  then show ?thesis using B64_ALPHA_facts(3) by metis
qed

lemma join_sextets:
  fixes n :: u32
  assumes "\<And>k. 24 \<le> k \<Longrightarrow> \<not> bit n k"
  shows "b64_join (take_bit 6 (drop_bit 18 n)) (take_bit 6 (drop_bit 12 n)) (take_bit 6 (drop_bit 6 n)) (take_bit 6 n) = n"
proof (rule bit_word_eqI)
  fix k assume "k < LENGTH(32)"
  have "k < 6 \<or> 6 \<le> k \<and> k < 12 \<or> 12 \<le> k \<and> k < 18 \<or> 18 \<le> k \<and> k < 24 \<or> 24 \<le> k" by linarith
  then show "bit (b64_join (take_bit 6 (drop_bit 18 n)) (take_bit 6 (drop_bit 12 n)) (take_bit 6 (drop_bit 6 n))
      (take_bit 6 n)) k = bit n k"
    using \<open>k < LENGTH(32)\<close> assms by (elim disjE) (auto simp: b64_join_def bit_simps)
qed

lemma u8_top [simp]: "\<not> bit (a :: u8) (8 + n)" "\<not> bit (a :: u8) (16 + n)"
  by (auto dest: bit_imp_le_length)

definition packed :: "u8 \<Rightarrow> u8 \<Rightarrow> u8 \<Rightarrow> u32" where
  "packed a b c = push_bit 16 (ucast a) OR push_bit 8 (ucast b) OR ucast c"

lemma packed_top: "24 \<le> k \<Longrightarrow> \<not> bit (packed a b c) k"
  by (auto simp: packed_def bit_simps dest: bit_imp_le_length)

lemma octet_packed [simp]:
  "octet (packed a b c) 16 = a" "octet (packed a b c) 8 = b" "octet (packed a b c) 0 = c"
  by (auto intro!: bit_word_eqI simp: octet_def packed_def bit_simps dest: bit_imp_le_length)

lemma packed_low:
  "packed a b 0 = push_bit 16 (ucast a) OR push_bit 8 (ucast b)" "packed a 0 0 = push_bit 16 (ucast a)"
  by (simp_all add: packed_def)

lemma packed_sextets_0 [simp]:
  "take_bit 6 (packed a b 0) = 0" "take_bit 6 (drop_bit 6 (packed a 0 0)) = 0" "take_bit 6 (packed a 0 0) = 0"
  by (auto intro!: bit_word_eqI simp: packed_def bit_simps)

lemma join_packed [simp]:
  "b64_join (take_bit 6 (drop_bit 18 (packed a b c))) (take_bit 6 (drop_bit 12 (packed a b c)))
     (take_bit 6 (drop_bit 6 (packed a b c))) (take_bit 6 (packed a b c)) = packed a b c"
  "b64_join (take_bit 6 (drop_bit 18 (packed a b 0))) (take_bit 6 (drop_bit 12 (packed a b 0)))
     (take_bit 6 (drop_bit 6 (packed a b 0))) 0 = packed a b 0"
  "b64_join (take_bit 6 (drop_bit 18 (packed a 0 0))) (take_bit 6 (drop_bit 12 (packed a 0 0))) 0 0 = packed a 0 0"
  using join_sextets [of "packed a b c", OF packed_top] join_sextets [of "packed a b 0", OF packed_top]
    join_sextets [of "packed a 0 0", OF packed_top] by simp_all

lemma b64_groups_packed:
  "b64_groups (a # b # c # t) = map (sextet (packed a b c)) [18, 12, 6, 0] @ b64_groups t"
  "b64_groups [a, b] = map (sextet (packed a b 0)) [18, 12, 6] @ ''=''"
  "b64_groups [a] = map (sextet (packed a 0 0)) [18, 12] @ ''==''"
  by (simp_all add: packed_low) (simp_all add: packed_def)

lemma b64_groups_decode: "base64_decode (b64_groups bs) = Some bs"
proof (induction bs rule: b64_groups.induct)
  case (1 a b c t)
  show ?case
  proof (cases "b64_groups t")
    case Nil
    then have "t = []" by (cases t rule: b64_groups.cases) simp_all
    then show ?thesis by (simp add: b64_groups_packed del: b64_groups.simps(1))
  next
    case (Cons x xs)
    then show ?thesis using 1 by (simp add: b64_groups_packed Let_def del: b64_groups.simps(1-3))
  qed
qed (simp_all add: b64_groups_packed Let_def del: b64_groups.simps(1-3))

lemma base64_encode_groups: "base64_encode bs = b64_groups bs"
proof -
  have "i \<le> length bs \<Longrightarrow>
      (case b64_loop bs i out of (i, out) \<Rightarrow>
         let rem = length bs - i in
         if 0 < rem then
           (let n0 = push_bit 16 (ucast (bs ! i)) :: u32;
                n = (if rem = 2 then n0 OR push_bit 8 (ucast (bs ! (i + 1))) else n0) in
            out @ [sextet n 18, sextet n 12, if rem = 2 then sextet n 6 else CHR ''='', CHR ''=''])
         else out) = out @ b64_groups (drop i bs)" for i out
  proof (induction bs i out rule: b64_loop.induct)
    case (1 input i out)
    show ?case
    proof (cases "i + 3 \<le> length input")
      case True
      then have "drop i input = input ! i # input ! (i + 1) # input ! (i + 2) # drop (i + 3) input"
        by (simp add: Cons_nth_drop_Suc numeral_3_eq_3)
      then show ?thesis using 1 True by (subst b64_loop.simps) (simp add: Let_def)
    next
      case False
      then consider "i = length input" | "length input = Suc i" | "length input = Suc (Suc i)"
        using "1.prems" by linarith
      then show ?thesis
      proof cases
        case 2
        then have "drop i input = [input ! i]" using Cons_nth_drop_Suc [of i input] by simp
        with 2 show ?thesis by (subst b64_loop.simps) (simp add: Let_def)
      next
        case 3
        then have "drop i input = [input ! i, input ! (i + 1)]"
          using Cons_nth_drop_Suc [of i input] Cons_nth_drop_Suc [of "Suc i" input] by simp
        with 3 show ?thesis by (subst b64_loop.simps) (simp add: Let_def)
      qed (subst b64_loop.simps, simp)
    qed
  qed
  from this [of 0 "[]"] show ?thesis by (simp add: base64_encode_def)
qed

text \<open>Base64 text of any key material decodes, by RFC 4648, to that material.\<close>

theorem base64_round_trip: "base64_decode (base64_encode bs) = Some bs"
  by (simp add: base64_encode_groups b64_groups_decode)

section \<open>The key pool\<close>

fun draws :: "'r rng_env \<Rightarrow> nat \<Rightarrow> nat \<Rightarrow> 'r \<Rightarrow> (string \<times> bytes) list \<times> 'r" where
  "draws env byte_len 0 r = ([], r)"
| "draws env byte_len (Suc n) r =
     (case re_fill env r byte_len of (buf, r') \<Rightarrow>
      case re_uuid env r' of (uuid, r'') \<Rightarrow>
      case draws env byte_len n r'' of (ds, r''') \<Rightarrow> ((uuid, buf) # ds, r'''))"

definition delivered :: "string \<times> bytes \<Rightarrow> etsi_key" where
  "delivered d = \<lparr>ek_key_id = fst d, ek_key = base64_encode (snd d)\<rparr>"

definition pool_add :: "(string \<times> bytes) list \<Rightarrow> (string \<times> bytes) list \<Rightarrow> (string \<times> bytes) list" where
  "pool_add pool ds = foldl (\<lambda>p (u, b). AList.update u b p) pool ds"

lemma generate_loop_draws:
  "generate_loop env byte_len n st out r =
     (case draws env byte_len n r of (ds, r') \<Rightarrow>
       (out @ map delivered ds, st\<lparr>em_keys := pool_add (em_keys st) ds\<rparr>, r'))"
  by (induction n arbitrary: st out r)
     (simp_all add: pool_add_def delivered_def split: prod.splits)

lemma draws_length: "length (fst (draws env byte_len n r)) = n"
  by (induction n arbitrary: r) (simp_all split: prod.splits, metis fst_conv)

lemma draws_bytes:
  assumes "\<And>r n. length (fst (re_fill env r n)) = n"
  shows "list_all (\<lambda>d. length (snd d) = byte_len) (fst (draws env byte_len n r))"
  by (induction n arbitrary: r) (auto split: prod.splits, metis assms fst_conv, metis fst_conv)

lemma pool_add_lookup: "map_of (pool_add pool ds) = map_of pool ++ map_of (rev ds)"
  by (induction ds arbitrary: pool) (auto simp: pool_add_def update_conv')

lemma pool_add_keys: "distinct (map fst ds) \<Longrightarrow> (u, b) \<in> set ds \<Longrightarrow> map_of (pool_add pool ds) u = Some b"
  using map_of_is_SomeI [of "rev ds" u b] by (simp add: pool_add_lookup rev_map [symmetric])

lemma pool_add_length:
  "distinct (map fst ds) \<Longrightarrow> fst ` set ds \<inter> fst ` set pool = {} \<Longrightarrow>
     length (pool_add pool ds) = length pool + length ds"
proof (induction ds arbitrary: pool)
  case (Cons d ds)
  obtain u b where d: "d = (u, b)" by (cases d)
  have fresh: "u \<notin> fst ` set pool" using Cons.prems(2) d by auto
  then have upd: "AList.update u b pool = pool @ [(u, b)]"
    by (induction pool) auto
  have "length (pool_add (pool @ [(u, b)]) ds) = length (pool @ [(u, b)]) + length ds"
    using Cons.prems d by (intro Cons.IH) auto
  then show ?case using d upd by (simp add: pool_add_def)
qed (simp add: pool_add_def)

lemma handle_enc_keys_draws:
  assumes "handle_enc_keys env query st r = (Inr c, st', r')"
  shows "\<exists>ds. draws env ((unat (case eq_size query of Some s \<Rightarrow> s | None \<Rightarrow> ec_key_size (em_cfg st)) + 7) div 8)
           (unat (enc_count query)) r = (ds, r')
         \<and> kc_keys c = map delivered ds \<and> st' = st\<lparr>em_keys := pool_add (em_keys st) ds\<rparr>
         \<and> em_forced_failure st = None"
  using assms
  by (auto simp: handle_enc_keys_def generate_keys_def generate_loop_draws kme_unavailable_def Let_def
      split: option.splits prod.splits)

definition pool_has :: "emulator_state \<Rightarrow> etsi_key \<Rightarrow> bool" where
  "pool_has st k \<longleftrightarrow> map_option base64_encode (map_of (em_keys st) (ek_key_id k)) = Some (ek_key k)"

lemma dec_loop_pool:
  "list_all (pool_has st) ks \<Longrightarrow>
     dec_loop (em_keys st) (map (\<lambda>k. \<lparr>dk_key_id = ek_key_id k\<rparr>) ks) out = Inr \<lparr>kc_keys = out @ ks\<rparr>"
  by (induction ks arbitrary: out) (auto simp: pool_has_def)

fun issued :: "kme_request list \<Rightarrow> kme_response list \<Rightarrow> string list" where
  "issued (GetEncKeys slave query # reqs) (KeysAnswer (Inr c) # answers) =
     map ek_key_id (kc_keys c) @ issued reqs answers"
| "issued (req # reqs) (ans # answers) = issued reqs answers"
| "issued _ _ = []"

lemma delivered_id [simp]: "ek_key_id (delivered d) = fst d" "ek_key_id \<circ> delivered = fst"
  by (auto simp: delivered_def)

lemma pool_has_new:
  assumes "handle_enc_keys env query st r = (Inr c, st', r')" "distinct (map ek_key_id (kc_keys c))"
  shows "list_all (pool_has st') (kc_keys c)"
proof -
  obtain ds where ds: "kc_keys c = map delivered ds" "st' = st\<lparr>em_keys := pool_add (em_keys st) ds\<rparr>"
    using handle_enc_keys_draws [OF assms(1)] by blast
  then have "distinct (map fst ds)" using assms(2) by simp
  then show ?thesis
    by (auto simp: ds list_all_iff pool_has_def delivered_def pool_add_keys)
qed

lemma pool_has_kept:
  assumes "kme_serve env req (st, r) = (ans, st', r')" "pool_has st k"
    and "ek_key_id k \<notin> set (issued [req] [ans])"
  shows "pool_has st' k"
proof (cases req)
  case (GetEncKeys slave query)
  show ?thesis
  proof (cases "em_forced_failure st")
    case None
    then obtain c where enc: "handle_enc_keys env query st r = (Inr c, st', r')" "ans = KeysAnswer (Inr c)"
      using assms(1) GetEncKeys by (auto simp: handle_enc_keys_def Let_def split: prod.splits)
    obtain ds where ds: "kc_keys c = map delivered ds" "st' = st\<lparr>em_keys := pool_add (em_keys st) ds\<rparr>"
      using handle_enc_keys_draws [OF enc(1)] by blast
    have "ek_key_id k \<notin> fst ` set ds" using assms(3) GetEncKeys enc(2) ds(1) by simp
    then have "map_of (rev ds) (ek_key_id k) = None" by (simp add: map_of_eq_None_iff)
    then have "map_of (pool_add (em_keys st) ds) (ek_key_id k) = map_of (em_keys st) (ek_key_id k)"
      by (simp add: pool_add_lookup map_add_def)
    then show ?thesis using assms(2) ds(2) by (simp add: pool_has_def)
  qed (use assms GetEncKeys in \<open>auto simp: handle_enc_keys_def\<close>)
next
  case (PostControl op)
  then show ?thesis using assms by (cases op) (auto simp: pool_has_def)
qed (use assms in auto)

lemma issued_Cons: "issued (req # reqs) (ans # answers) = issued [req] [ans] @ issued reqs answers"
  by (cases req; cases ans rule: kme_response.exhaust)
     (auto split: sum.splits, (rename_tac a, case_tac a, auto)+)

lemma pool_has_run:
  "kme_run env reqs s = (answers, st', r') \<Longrightarrow> pool_has (fst s) k \<Longrightarrow>
     ek_key_id k \<notin> set (issued reqs answers) \<Longrightarrow> pool_has st' k"
proof (induction reqs arbitrary: s answers)
  case (Cons req reqs)
  obtain ans st1 r1 where step: "kme_serve env req s = (ans, st1, r1)" by (metis prod_cases3)
  obtain as where rest: "kme_run env reqs (st1, r1) = (as, st', r')" and answers: "answers = ans # as"
    using Cons.prems(1) step by (auto split: prod.splits)
  have ids: "ek_key_id k \<notin> set (issued [req] [ans])" "ek_key_id k \<notin> set (issued reqs as)"
    using Cons.prems(3) answers issued_Cons [of req reqs ans as] by auto
  have "pool_has st1 k" using pool_has_kept [of env req "fst s" "snd s", OF _ Cons.prems(2) ids(1)] step by simp
  then show ?case using Cons.IH [OF rest _ ids(2)] by simp
qed simp

text \<open>C15: every key an \<open>/enc_keys\<close> call hands out can be fetched from \<open>/dec_keys\<close>, in any order and any
  number of times, with the same material, after any further requests, as long as the emulator is not
  failing at that moment and the generator has not issued one of its identifiers again.\<close>

theorem delivered_keys_stay:
  assumes "handle_enc_keys env query st r = (Inr c, st1, r1)"
    and "kme_run env reqs (st1, r1) = (answers, st2, r2)"
    and "distinct (map ek_key_id (kc_keys c))"
    and "set (map ek_key_id (kc_keys c)) \<inter> set (issued reqs answers) = {}"
    and "em_forced_failure st2 = None" and "set wanted \<subseteq> set (kc_keys c)"
  shows "handle_dec_keys st2 \<lparr>dr_key_IDs = map (\<lambda>k. \<lparr>dk_key_id = ek_key_id k\<rparr>) wanted\<rparr> = Inr \<lparr>kc_keys = wanted\<rparr>"
proof -
  have "pool_has st2 k" if "k \<in> set wanted" for k
  proof (rule pool_has_run [OF assms(2)])
    have k: "k \<in> set (kc_keys c)" using that assms(6) by blast
    then show "pool_has (fst (st1, r1)) k"
      using pool_has_new [OF assms(1,3)] by (simp add: list_all_iff)
    show "ek_key_id k \<notin> set (issued reqs answers)" using k assms(4) by auto
  qed
  then show ?thesis using assms(5) by (simp add: handle_dec_keys_def list_all_iff dec_loop_pool)
qed

definition toy_rng :: "string list rng_env" where
  "toy_rng = \<lparr>re_fill = (\<lambda>r n. (replicate n 7, r)), re_uuid = (\<lambda>r. (hd r, tl r))\<rparr>"

definition toy_kme :: emulator_state where
  "toy_kme = \<lparr>em_cfg = \<lparr>ec_kme_id = ''KME-A'', ec_paired_kme_id = ''KME-B'', ec_key_size = 8,
      ec_initial_qber = 0, ec_initial_key_rate_bps = 0, ec_max_key_count = 1\<rparr>,
    em_keys = [], em_qber = 0, em_key_rate_bps = 0, em_forced_failure = None\<rparr>"

lemma toy_forced: "em_forced_failure toy_kme = None" "em_keys toy_kme = []"
  by (simp_all add: toy_kme_def)

lemma delivered_keys_stay_witness:
  "\<exists>c st1 r1 answers st2 r2.
     handle_enc_keys toy_rng \<lparr>eq_size = Some 16, eq_number = Some 2\<rparr> toy_kme [''a'', ''b'', ''c''] = (Inr c, st1, r1)
   \<and> kme_run toy_rng [GetEncKeys ''S'' \<lparr>eq_size = None, eq_number = None\<rparr>] (st1, r1) = (answers, st2, r2)
   \<and> length (kc_keys c) = 2
   \<and> handle_dec_keys st2 \<lparr>dr_key_IDs = map (\<lambda>k. \<lparr>dk_key_id = ek_key_id k\<rparr>) (rev (kc_keys c))\<rparr>
       = Inr \<lparr>kc_keys = rev (kc_keys c)\<rparr>"
proof -
  let ?q = "\<lparr>eq_size = Some 16, eq_number = Some 2\<rparr> :: enc_keys_query"
  let ?reqs = "[GetEncKeys ''S'' \<lparr>eq_size = None, eq_number = None\<rparr>]"
  have two: "generate_loop toy_rng 2 2 toy_kme [] [''a'', ''b'', ''c''] =
      ([delivered (''a'', [7, 7]), delivered (''b'', [7, 7])],
       toy_kme\<lparr>em_keys := [(''a'', [7, 7]), (''b'', [7, 7])]\<rparr>, [''c''])"
    by (simp add: toy_rng_def toy_kme_def delivered_def numeral_2_eq_2)
  obtain c st1 r1 where enc: "handle_enc_keys toy_rng ?q toy_kme [''a'', ''b'', ''c''] = (Inr c, st1, r1)"
    and c: "kc_keys c = [delivered (''a'', [7, 7]), delivered (''b'', [7, 7])]"
    and st1: "st1 = toy_kme\<lparr>em_keys := [(''a'', [7, 7]), (''b'', [7, 7])]\<rparr>" "r1 = [''c'']"
    using two that [of "\<lparr>kc_keys = [delivered (''a'', [7, 7]), delivered (''b'', [7, 7])]\<rparr>"]
    by (simp add: handle_enc_keys_def generate_keys_def enc_count_def toy_forced)
  obtain answers st2 r2 where run: "kme_run toy_rng ?reqs (st1, r1) = (answers, st2, r2)"
    and ids: "issued ?reqs answers = [''c'']" and st2: "em_forced_failure st2 = None"
    by (auto simp: st1 handle_enc_keys_def generate_keys_def enc_count_def toy_kme_def toy_rng_def)
  have "handle_dec_keys st2 \<lparr>dr_key_IDs = map (\<lambda>k. \<lparr>dk_key_id = ek_key_id k\<rparr>) (rev (kc_keys c))\<rparr>
      = Inr \<lparr>kc_keys = rev (kc_keys c)\<rparr>"
    by (rule delivered_keys_stay [OF enc run]) (simp_all add: c ids st2)
  then show ?thesis using enc run c by (intro exI [of _ c] exI) (auto)
qed

text \<open>C37: a successful \<open>/enc_keys\<close> hands out as many keys as the query's \<open>number\<close>, but at least one and at
  most 128, and one when the query has no \<open>number\<close>.  Each key decodes to the number of whole bytes that the
  query's \<open>size\<close> in bits, or else the configured size, rounds up to, provided the random generator fills the
  buffers it is given.  When the identifiers drawn are new and distinct, the pool grows by exactly that many
  keys, whatever \<open>max_key_count\<close> and \<open>max_key_size\<close> the emulator advertises.\<close>

theorem enc_keys_exact:
  assumes "handle_enc_keys env query st r = (Inr c, st', r')"
    and "\<And>r n. length (fst (re_fill env r n)) = n"
  shows "length (kc_keys c) = (case eq_number query of
        None \<Rightarrow> 1
      | Some n \<Rightarrow> if unat n = 0 then 1 else if unat n \<le> 128 then unat n else 128)
    \<and> list_all (\<lambda>k. \<exists>key. base64_decode (ek_key k) = Some key \<and>
        8 * length key \<in> (let bits = unat (case eq_size query of Some s \<Rightarrow> s | None \<Rightarrow> ec_key_size (em_cfg st))
                          in {bits..<bits + 8})) (kc_keys c)
    \<and> (distinct (map ek_key_id (kc_keys c)) \<longrightarrow> set (map ek_key_id (kc_keys c)) \<inter> fst ` set (em_keys st) = {} \<longrightarrow>
        length (em_keys st') = length (em_keys st) + length (kc_keys c))"
proof -
  let ?bits = "unat (case eq_size query of Some s \<Rightarrow> s | None \<Rightarrow> ec_key_size (em_cfg st))"
  let ?len = "(?bits + 7) div 8"
  obtain ds where draw: "draws env ?len (unat (enc_count query)) r = (ds, r')"
    and ds: "kc_keys c = map delivered ds" "st' = st\<lparr>em_keys := pool_add (em_keys st) ds\<rparr>"
    using handle_enc_keys_draws [OF assms(1)] by blast
  have len: "length ds = unat (enc_count query)" using draws_length [of env ?len "unat (enc_count query)" r] draw by simp
  have bytes: "list_all (\<lambda>d. length (snd d) = ?len) ds"
    using draws_bytes [where env = env and byte_len = ?len and n = "unat (enc_count query)" and r = r, OF assms(2)] draw by simp
  have "unat (enc_count query) = (case eq_number query of
        None \<Rightarrow> 1 | Some n \<Rightarrow> if unat n = 0 then 1 else if unat n \<le> 128 then unat n else 128)"
    by (cases "eq_number query") (auto simp: enc_count_def max_def min_def word_le_nat_alt Suc_le_eq unat_gt_0 unat_eq_0)
  moreover have "list_all (\<lambda>k. \<exists>key. base64_decode (ek_key k) = Some key \<and> 8 * length key \<in> {?bits..<?bits + 8}) (kc_keys c)"
  proof -
    have "8 * ?len \<in> {?bits..<?bits + 8}" by (simp, presburger)
    then show ?thesis
      using bytes by (auto simp: list_all_iff ds(1) delivered_def base64_encode_groups b64_groups_decode)
  qed
  moreover have "length (em_keys st') = length (em_keys st) + length (kc_keys c)"
    if "distinct (map ek_key_id (kc_keys c))" "set (map ek_key_id (kc_keys c)) \<inter> fst ` set (em_keys st) = {}"
    using that by (simp add: ds pool_add_length)
  ultimately show ?thesis using len by (simp add: ds(1) Let_def)
qed

text \<open>One key of 65536 bits from an emulator that advertises room for one key of at most 4096 bits and
  already holds it.\<close>

lemma enc_keys_exact_witness:
  "\<exists>c st' r'. handle_enc_keys toy_rng \<lparr>eq_size = Some 65536, eq_number = Some 0\<rparr> (toy_kme\<lparr>em_keys := [(''1'', [0])]\<rparr>) [''a'']
      = (Inr c, st', r')
   \<and> map (\<lambda>k. map_option length (base64_decode (ek_key k))) (kc_keys c) = [Some 8192]
   \<and> length (em_keys st') = 2 \<and> ec_max_key_count (em_cfg st') = 1"
proof -
  let ?q = "\<lparr>eq_size = Some 65536, eq_number = Some 0\<rparr> :: enc_keys_query"
  let ?st = "toy_kme\<lparr>em_keys := [(''1'', [0])]\<rparr>"
  obtain c st' r' where enc: "handle_enc_keys toy_rng ?q ?st [''a''] = (Inr c, st', r')"
    and ids: "map ek_key_id (kc_keys c) = [''a'']" and cfg: "em_cfg st' = em_cfg toy_kme"
    by (auto simp: handle_enc_keys_def generate_keys_def enc_count_def toy_kme_def toy_rng_def
        simp del: replicate.simps)
  have "length (kc_keys c) = 1"
    using arg_cong [OF ids, of length] by simp
  then obtain k where k: "kc_keys c = [k]" by (auto simp: length_Suc_conv)
  have fill: "length (fst (re_fill toy_rng r n)) = n" for r n by (simp add: toy_rng_def)
  have new: "distinct (map ek_key_id (kc_keys c))" "set (map ek_key_id (kc_keys c)) \<inter> fst ` set (em_keys ?st) = {}"
    by (simp_all add: ids)
  obtain key where key: "base64_decode (ek_key k) = Some key" "8 * length key \<in> {65536..<65544}"
    and pool: "length (em_keys st') = 2"
    using enc_keys_exact [OF enc fill] new k by (auto simp: Let_def)
  moreover have "length key = 8192" using key(2) by auto
  ultimately show ?thesis using enc cfg k by (auto simp: toy_kme_def)
qed

section \<open>Forced failures\<close>

fun touches_failure :: "kme_request \<Rightarrow> bool" where
  "touches_failure (PostControl (ForceFailure reason)) = True"
| "touches_failure (PostControl ClearFailure) = True"
| "touches_failure _ = False"

fun failing_answer :: "string \<Rightarrow> kme_request \<Rightarrow> kme_response" where
  "failing_answer reason (GetStatus slave) = StatusAnswer (kme_unavailable reason)"
| "failing_answer reason (PostControl op) = NoContent"
| "failing_answer reason _ = KeysAnswer (kme_unavailable reason)"

lemma failing_step:
  assumes "em_forced_failure st = Some reason" "\<not> touches_failure req"
  shows "\<exists>st'. kme_serve env req (st, r) = (failing_answer reason req, st', r)
     \<and> em_forced_failure st' = Some reason \<and> em_keys st' = em_keys st"
  using assms
  by (cases req rule: touches_failure.cases)
     (auto simp: handle_status_def handle_enc_keys_def handle_dec_keys_def)

lemma failing_run:
  "kme_run env reqs (st, r) = (answers, st', r') \<Longrightarrow> em_forced_failure st = Some reason \<Longrightarrow>
     list_all (Not \<circ> touches_failure) reqs \<Longrightarrow>
     answers = map (failing_answer reason) reqs \<and> em_keys st' = em_keys st \<and> r' = r
     \<and> em_forced_failure st' = Some reason"
proof (induction reqs arbitrary: st answers)
  case (Cons req reqs)
  from failing_step [OF Cons.prems(2), of req env r] Cons.prems(3)
  obtain st1 where step: "kme_serve env req (st, r) = (failing_answer reason req, st1, r)"
      "em_forced_failure st1 = Some reason" "em_keys st1 = em_keys st" by auto
  obtain as where rest: "kme_run env reqs (st1, r) = (as, st', r')" "answers = failing_answer reason req # as"
    using Cons.prems(1) step(1) by (auto split: prod.splits)
  show ?case using Cons.IH [OF rest(1) step(2)] Cons.prems(3) rest(2) step(3) by simp
qed simp

text \<open>From a forced failure on, every status and key request is answered 503 with the given reason,
  no key is generated and none is lost, until a control request clears or replaces the failure; then
  the keys delivered before are served again.\<close>

theorem failure_blocks_until_cleared:
  assumes "kme_run env reqs (handle_control (ForceFailure reason) st, r) = (answers, st', r')"
    and "list_all (Not \<circ> touches_failure) reqs"
  shows "answers = map (failing_answer reason) reqs \<and> r' = r
     \<and> (list_all (pool_has st) wanted \<longrightarrow>
          handle_dec_keys (handle_control ClearFailure st') \<lparr>dr_key_IDs = map (\<lambda>k. \<lparr>dk_key_id = ek_key_id k\<rparr>) wanted\<rparr>
            = Inr \<lparr>kc_keys = wanted\<rparr>)"
proof -
  note run = failing_run [OF assms(1) _ assms(2), of reason]
  then have "pool_has st' k \<longleftrightarrow> pool_has st k" for k by (simp add: pool_has_def)
  then have "list_all (pool_has st) wanted \<Longrightarrow>
      dec_loop (em_keys st') (map (\<lambda>k. \<lparr>dk_key_id = ek_key_id k\<rparr>) wanted) [] = Inr \<lparr>kc_keys = wanted\<rparr>"
    using dec_loop_pool [of st' wanted "[]"] by (simp add: list_all_iff)
  with run show ?thesis by (simp add: handle_dec_keys_def)
qed

lemma failure_blocks_until_cleared_witness:
  "\<exists>answers st' r'.
     kme_run toy_rng [GetStatus ''S'', GetEncKeys ''S'' \<lparr>eq_size = None, eq_number = None\<rparr>, PostControl (SetQber 2)]
       (handle_control (ForceFailure ''cut'') (toy_kme\<lparr>em_keys := [(''a'', [7])]\<rparr>), [''b'']) = (answers, st', r')
   \<and> answers = [StatusAnswer (kme_unavailable ''cut''), KeysAnswer (kme_unavailable ''cut''), NoContent]
   \<and> handle_dec_keys (handle_control ClearFailure st') \<lparr>dr_key_IDs = [\<lparr>dk_key_id = ''a''\<rparr>]\<rparr>
       = Inr \<lparr>kc_keys = [delivered (''a'', [7])]\<rparr>"
proof -
  let ?reqs = "[GetStatus ''S'', GetEncKeys ''S'' \<lparr>eq_size = None, eq_number = None\<rparr>, PostControl (SetQber 2)]"
  let ?st = "toy_kme\<lparr>em_keys := [(''a'', [7])]\<rparr>"
  obtain answers st' r' where run:
    "kme_run toy_rng ?reqs (handle_control (ForceFailure ''cut'') ?st, [''b'']) = (answers, st', r')"
    by (metis prod_cases3)
  have "list_all (pool_has ?st) [delivered (''a'', [7])]" by (simp add: pool_has_def delivered_def)
  then show ?thesis
    using failure_blocks_until_cleared [OF run, of "[delivered (''a'', [7])]"] run by auto
qed

end
