(* ===== verification/Qkd.thy ===== *)
theory Qkd
  imports Kme Routes Binary32
begin

text \<open>
  The ETSI GS QKD 014 collector, src/crates/ree0xq-qkd/src/collector/mod.rs, and the replay of
  scenarios against the emulator, src/crates/ree0xq-qkd/src/replay/mod.rs and
  src/crates/ree0xq-qkd/src/bin/replay.rs.  HTTP and the clock are functions on a world state that
  each call may change.  An \<open>f32\<close> is its rational value: NaN and the infinities, which JSON cannot
  carry, are left out.
\<close>

definition SOURCE_MODULE :: string where
  "SOURCE_MODULE = ''ree0xq-qkd''"

section \<open>The collector\<close>

record collector_config =
  cc_kme_endpoints :: "string list"
  cc_slave_sae_id :: string
  cc_status_interval :: nat
  cc_collector_endpoint :: "string option"
  cc_qber_warn :: f32
  cc_qber_fail :: f32

definition collector_config_default :: collector_config where
  "collector_config_default =
     \<lparr>cc_kme_endpoints = [''http://127.0.0.1:11071/api/v1''], cc_slave_sae_id = ''SAE-REE0XQ-COLLECTOR'',
      cc_status_interval = 5, cc_collector_endpoint = None,
      cc_qber_warn = rnd32 (5/100), cc_qber_fail = rnd32 (11/100)\<rparr>"

text \<open>\<open>{:.3}\<close>: the exact value rounded to three decimals, ties to even.\<close>

definition pad3 :: "nat \<Rightarrow> string" where
  "pad3 n = [digit_char (n div 100 mod 10), digit_char (n div 10 mod 10), digit_char (n mod 10)]"

definition show_fixed3 :: "f32 \<Rightarrow> string" where
  "show_fixed3 x =
     (let n = nat (round_even (\<bar>x\<bar> * 1000)) in
      (if x < 0 then ''-'' else []) @ show_nat (n div 1000) @ ''.'' @ pad3 (n mod 1000))"

definition at_least_sign :: string where
  "at_least_sign = [CHR 0xE2, CHR 0x89, CHR 0xA5]"

definition derive_link_health :: "status_response \<Rightarrow> f32 \<Rightarrow> f32 \<Rightarrow> link_health \<times> string option" where
  "derive_link_health status warn_qber fail_qber =
     (let qber = (case sr_link_qber status of Some q \<Rightarrow> q | None \<Rightarrow> 0) in
      if fail_qber \<le> qber then
        (HealthFailed, Some (''QBER '' @ show_fixed3 qber @ '' '' @ at_least_sign @ '' fail threshold '' @ show_fixed3 fail_qber))
      else if warn_qber \<le> qber then
        (HealthDegraded, Some (''QBER '' @ show_fixed3 qber @ '' '' @ at_least_sign @ '' warn threshold '' @ show_fixed3 warn_qber))
      else if sr_stored_key_count status = 0 then
        (HealthDegraded, Some ''KME reports zero stored keys'')
      else (HealthOk, None))"

fun health_debug :: "link_health \<Rightarrow> string" where
  "health_debug HealthOk = ''Ok''"
| "health_debug HealthDegraded = ''Degraded''"
| "health_debug HealthFailed = ''Failed''"

fun health_score :: "link_health \<Rightarrow> u8" where
  "health_score HealthOk = 90"
| "health_score HealthDegraded = 50"
| "health_score HealthFailed = 10"

definition build_kme_event ::
  "string \<Rightarrow> status_response \<Rightarrow> link_health \<Rightarrow> string option \<Rightarrow> timestamp \<Rightarrow> crypto_inventory_event" where
  "build_kme_event kme_endpoint status health degraded_reason now =
     \<lparr>ev_schema_version = SCHEMA_VERSION, ev_schema_minor = SCHEMA_MINOR, ev_source_module = SOURCE_MODULE,
      ev_observed_at = now,
      ev_asset = \<lparr>as_kind = QkdKme, as_identity = sr_source_kme_id status, as_host = Some kme_endpoint\<rparr>,
      ev_primitives = [],
      ev_channel_protection = Some \<lparr>cp_state = QkdHybridPsk, cp_kme_endpoint = Some kme_endpoint,
        cp_key_id_observed = None, cp_psk_age_seconds = None, cp_link_qber = sr_link_qber status,
        cp_link_key_rate_bps = sr_link_key_rate_bps status, cp_link_health = health,
        cp_degraded_reason = degraded_reason\<rparr>,
      ev_agility = None,
      ev_posture = \<lparr>po_score = health_score health,
        po_rationale = ''KME '' @ sr_source_kme_id status @ '' reported '' @ health_debug health @
          ''; stored_keys='' @ show_nat (unat (sr_stored_key_count status)),
        po_replacement = None\<rparr>\<rparr>"

definition status_url :: "string \<Rightarrow> string \<Rightarrow> string" where
  "status_url endpoint slave_sae_id =
     (let base = trim_end_slash endpoint in
      if ends_with base ''/keys'' then base @ ''/'' @ slave_sae_id @ ''/status''
      else base @ ''/keys/'' @ slave_sae_id @ ''/status'')"

text \<open>What the collector asks of its HTTP client, its clock and its timer: \<open>kc_get\<close> answers with an HTTP
  status and the outcome of decoding the body, \<open>kc_post\<close> with an HTTP status; \<open>Inl\<close> is a transport error.\<close>

record 's kme_client =
  kc_get :: "'s \<Rightarrow> string \<Rightarrow> (string, nat \<times> (string, status_response) result) result \<times> 's"
  kc_post :: "'s \<Rightarrow> string \<Rightarrow> crypto_inventory_event \<Rightarrow> (string, nat) result \<times> 's"
  kc_now :: "'s \<Rightarrow> timestamp"
  kc_wait_tick :: "'s \<Rightarrow> nat \<Rightarrow> 's"
  kc_show_status :: "nat \<Rightarrow> string"

definition unreachable_stub :: "string \<Rightarrow> string \<Rightarrow> status_response" where
  "unreachable_stub endpoint slave_sae_id =
     \<lparr>sr_source_kme_id = ''unreachable:'' @ endpoint, sr_target_kme_id = ''unknown'', sr_master_sae_id = ''unknown'',
      sr_slave_sae_id = slave_sae_id, sr_key_size = 0, sr_stored_key_count = 0, sr_max_key_count = 0,
      sr_max_key_per_request = 0, sr_max_key_size = 0, sr_min_key_size = 0, sr_max_sae_id_count = 0,
      sr_link_qber = None, sr_link_key_rate_bps = None\<rparr>"

definition poll_once ::
  "'s kme_client \<Rightarrow> string \<Rightarrow> string \<Rightarrow> collector_config \<Rightarrow> 's \<Rightarrow> (string, crypto_inventory_event) result \<times> 's" where
  "poll_once cl endpoint slave_sae_id cfg s =
     (case kc_get cl s (status_url endpoint slave_sae_id) of
        (Inl e, s') \<Rightarrow> (Inl e, s')
      | (Inr (status_code, body), s') \<Rightarrow>
          if \<not> is_success status_code then
            (Inr (build_kme_event endpoint (unreachable_stub endpoint slave_sae_id) HealthFailed
               (Some (''HTTP '' @ kc_show_status cl status_code @ '' from /status'')) (kc_now cl s')), s')
          else
            (case body of
               Inl e \<Rightarrow> (Inl e, s')
             | Inr status \<Rightarrow>
                 (case derive_link_health status (cc_qber_warn cfg) (cc_qber_fail cfg) of
                    (health, reason) \<Rightarrow> (Inr (build_kme_event endpoint status health reason (kc_now cl s')), s'))))"

definition forward_event ::
  "'s kme_client \<Rightarrow> string \<Rightarrow> crypto_inventory_event \<Rightarrow> 's \<Rightarrow> (string, unit) result \<times> 's" where
  "forward_event cl downstream event s =
     (case kc_post cl s downstream event of
        (Inl e, s') \<Rightarrow> (Inl e, s')
      | (Inr code, s') \<Rightarrow>
          if \<not> is_success code then (Inl (''downstream returned '' @ kc_show_status cl code), s') else (Inr (), s'))"

definition visit_endpoint :: "'s kme_client \<Rightarrow> collector_config \<Rightarrow> 's \<Rightarrow> string \<Rightarrow> 's" where
  "visit_endpoint cl cfg s endpoint =
     (case poll_once cl endpoint (cc_slave_sae_id cfg) cfg s of
        (Inr ev, s') \<Rightarrow>
          (case cc_collector_endpoint cfg of
             Some downstream \<Rightarrow> snd (forward_event cl downstream ev s')
           | None \<Rightarrow> s')
      | (Inl e, s') \<Rightarrow> s')"

text \<open>One turn of the endless loop of \<open>run\<close>, and its first \<open>n\<close> turns.\<close>

definition collector_turn :: "'s kme_client \<Rightarrow> collector_config \<Rightarrow> 's \<Rightarrow> 's" where
  "collector_turn cl cfg s =
     foldl (visit_endpoint cl cfg) (kc_wait_tick cl s (cc_status_interval cfg)) (cc_kme_endpoints cfg)"

definition collector_run :: "'s kme_client \<Rightarrow> collector_config \<Rightarrow> nat \<Rightarrow> 's \<Rightarrow> 's" where
  "collector_run cl cfg n s = (collector_turn cl cfg ^^ n) s"

section \<open>Replay\<close>

record replay_event =
  re_at_seconds :: u64
  re_op :: control_op
  re_label :: "string option"

record replay_scenario =
  rs_id :: string
  rs_description :: string
  rs_duration_seconds :: u64
  rs_events :: "replay_event list"

datatype replay_error = OutOfOrder u64 u64 | PastEnd u64 u64

fun validate_loop :: "u64 \<Rightarrow> u64 \<Rightarrow> replay_event list \<Rightarrow> (replay_error, unit) result" where
  "validate_loop duration prev [] = Inr ()"
| "validate_loop duration prev (ev # evs) =
     (if re_at_seconds ev < prev then Inl (OutOfOrder (re_at_seconds ev) prev)
      else if duration < re_at_seconds ev then Inl (PastEnd (re_at_seconds ev) duration)
      else validate_loop duration (re_at_seconds ev) evs)"

definition validate :: "replay_scenario \<Rightarrow> (replay_error, unit) result" where
  "validate sc = validate_loop (rs_duration_seconds sc) 0 (rs_events sc)"

text \<open>\<open>Duration::from_secs\<close>, in nanoseconds.\<close>

definition at_to_duration :: "u64 \<Rightarrow> nat" where
  "at_to_duration at_seconds = unat at_seconds * 1000000000"

fun show_replay_error :: "replay_error \<Rightarrow> string" where
  "show_replay_error (OutOfOrder t prev) =
     ''event at '' @ show_nat (unat t) @ ''s precedes earlier event at '' @ show_nat (unat prev) @ ''s''"
| "show_replay_error (PastEnd t duration) =
     ''event at '' @ show_nat (unat t) @ ''s falls past scenario end '' @ show_nat (unat duration) @ ''s''"

text \<open>The driver's world: nanoseconds since \<open>start\<close>, a sleep, and a post to the control endpoint.\<close>

record 's replay_world =
  rw_elapsed :: "'s \<Rightarrow> nat"
  rw_sleep :: "nat \<Rightarrow> 's \<Rightarrow> 's"
  rw_post :: "control_op \<Rightarrow> 's \<Rightarrow> (string, nat) result \<times> 's"
  rw_from_json :: "string \<Rightarrow> (string, replay_scenario) result"
  rw_from_yaml :: "string \<Rightarrow> (string, replay_scenario) result"

definition sleep_until :: "'s replay_world \<Rightarrow> nat \<Rightarrow> 's \<Rightarrow> 's" where
  "sleep_until w target s =
     (let elapsed = rw_elapsed w s in if elapsed < target then rw_sleep w (target - elapsed) s else s)"

fun replay_events :: "'s replay_world \<Rightarrow> replay_event list \<Rightarrow> 's \<Rightarrow> (string, unit) result \<times> 's" where
  "replay_events w [] s = (Inr (), s)"
| "replay_events w (ev # evs) s =
     (case rw_post w (re_op ev) (sleep_until w (at_to_duration (re_at_seconds ev)) s) of
        (Inl e, s') \<Rightarrow> (Inl e, s')
      | (Inr code, s') \<Rightarrow> replay_events w evs s')"

definition load_scenario ::
  "'s replay_world \<Rightarrow> string \<Rightarrow> (string, string) result \<Rightarrow> (string, replay_scenario) result" where
  "load_scenario w path raw =
     rbind raw (\<lambda>text. if path_extension path = Some ''json'' then rw_from_json w text else rw_from_yaml w text)"

definition replay_main ::
  "'s replay_world \<Rightarrow> string \<Rightarrow> (string, string) result \<Rightarrow> 's \<Rightarrow> (string, unit) result \<times> 's" where
  "replay_main w path raw s =
     (case load_scenario w path raw of
        Inl e \<Rightarrow> (Inl e, s)
      | Inr sc \<Rightarrow>
          (case validate sc of
             Inl e \<Rightarrow> (Inl (show_replay_error e), s)
           | Inr _ \<Rightarrow>
               (case replay_events w (rs_events sc) s of
                  (Inl e, s') \<Rightarrow> (Inl e, s')
                | (Inr _, s') \<Rightarrow> (Inr (), sleep_until w (at_to_duration (rs_duration_seconds sc)) s'))))"

section \<open>Validation\<close>

lemma validate_loop_ok:
  "validate_loop duration prev evs = Inr () \<longleftrightarrow>
     sorted (prev # map re_at_seconds evs) \<and> list_all (\<lambda>ev. re_at_seconds ev \<le> duration) evs"
  by (induction evs arbitrary: prev) (auto simp: not_less)

text \<open>A scenario validates exactly when its events are in time order and none lies past the end.\<close>

theorem validate_exact:
  "validate sc = Inr () \<longleftrightarrow>
     sorted (map re_at_seconds (rs_events sc)) \<and>
     list_all (\<lambda>ev. re_at_seconds ev \<le> rs_duration_seconds sc) (rs_events sc)"
  by (simp add: validate_def validate_loop_ok)

section \<open>The timing of a replay\<close>

text \<open>The same world, with a log of each operation and the time of its post.\<close>

definition logged :: "'s replay_world \<Rightarrow> ('s \<times> (nat \<times> control_op) list) replay_world" where
  "logged w =
     \<lparr>rw_elapsed = (\<lambda>(s, l). rw_elapsed w s),
      rw_sleep = (\<lambda>d (s, l). (rw_sleep w d s, l)),
      rw_post = (\<lambda>op (s, l). case rw_post w op s of (r, s') \<Rightarrow> (r, s', l @ [(rw_elapsed w s, op)])),
      rw_from_json = rw_from_json w, rw_from_yaml = rw_from_yaml w\<rparr>"

text \<open>A sleep lasts at least as long as asked, and time does not run backwards.\<close>

definition clock_laws :: "'s replay_world \<Rightarrow> bool" where
  "clock_laws w \<longleftrightarrow>
     (\<forall>d s. rw_elapsed w s + d \<le> rw_elapsed w (rw_sleep w d s)) \<and>
     (\<forall>op s. rw_elapsed w s \<le> rw_elapsed w (snd (rw_post w op s)))"

lemma logged_parsers: "rw_from_json (logged w) = rw_from_json w" "rw_from_yaml (logged w) = rw_from_yaml w"
  by (simp_all add: logged_def)

lemma sleep_until_logged: "sleep_until (logged w) t (s, l) = (sleep_until w t s, l)"
  by (simp add: sleep_until_def logged_def Let_def)

lemma sleep_until_reaches:
  assumes "clock_laws w"
  shows "t \<le> rw_elapsed w (sleep_until w t s)" "rw_elapsed w s \<le> rw_elapsed w (sleep_until w t s)"
proof -
  have "rw_elapsed w s + (t - rw_elapsed w s) \<le> rw_elapsed w (rw_sleep w (t - rw_elapsed w s) s)"
    using assms unfolding clock_laws_def by blast
  then show "t \<le> rw_elapsed w (sleep_until w t s)" "rw_elapsed w s \<le> rw_elapsed w (sleep_until w t s)"
    by (auto simp: sleep_until_def Let_def)
qed

definition on_time :: "replay_event \<Rightarrow> nat \<times> control_op \<Rightarrow> bool" where
  "on_time ev p \<longleftrightarrow> at_to_duration (re_at_seconds ev) \<le> fst p \<and> snd p = re_op ev"

lemma replay_events_logged:
  assumes "clock_laws w"
  shows "replay_events (logged w) evs (s, l) = (res, (s', posts')) \<Longrightarrow>
    \<exists>posts. posts' = l @ posts \<and> rw_elapsed w s \<le> rw_elapsed w s'
      \<and> list_all2 on_time (take (length posts) evs) posts
      \<and> list_all (\<lambda>p. rw_elapsed w s \<le> fst p) posts \<and> sorted (map fst posts)
      \<and> (res = Inr () \<longrightarrow> length posts = length evs)"
proof (induction evs arbitrary: s l)
  case (Cons ev evs)
  let ?s = "sleep_until w (at_to_duration (re_at_seconds ev)) s"
  obtain r s1 where post: "rw_post w (re_op ev) ?s = (r, s1)" by (cases "rw_post w (re_op ev) ?s")
  have step: "rw_post (logged w) (re_op ev) (sleep_until (logged w) (at_to_duration (re_at_seconds ev)) (s, l))
      = (r, s1, l @ [(rw_elapsed w ?s, re_op ev)])"
    using post by (simp only: sleep_until_logged) (simp add: logged_def)
  have due: "on_time ev (rw_elapsed w ?s, re_op ev)"
    using sleep_until_reaches [OF assms] by (simp add: on_time_def)
  have mono: "rw_elapsed w s \<le> rw_elapsed w ?s" "rw_elapsed w ?s \<le> rw_elapsed w s1"
    using sleep_until_reaches(2) [OF assms] assms post unfolding clock_laws_def by (blast, metis snd_conv)
  show ?case
  proof (cases r)
    case (Inl e)
    then have "res = Inl e" "s' = s1" "posts' = l @ [(rw_elapsed w ?s, re_op ev)]"
      using Cons.prems step by simp_all
    then show ?thesis using due mono by (intro exI [of _ "[(rw_elapsed w ?s, re_op ev)]"]) simp
  next
    case (Inr code)
    then have "replay_events (logged w) evs (s1, l @ [(rw_elapsed w ?s, re_op ev)]) = (res, s', posts')"
      using Cons.prems step by simp
    from Cons.IH [OF this] obtain posts where
      posts: "posts' = l @ (rw_elapsed w ?s, re_op ev) # posts" "rw_elapsed w s1 \<le> rw_elapsed w s'"
        "list_all2 on_time (take (length posts) evs) posts" "list_all (\<lambda>p. rw_elapsed w s1 \<le> fst p) posts"
        "sorted (map fst posts)" "res = Inr () \<longrightarrow> length posts = length evs" by auto
    then show ?thesis using due mono
      by (intro exI [of _ "(rw_elapsed w ?s, re_op ev) # posts"]) (auto simp: list_all_iff intro: order_trans)
  qed
qed simp

text \<open>C26: a replay that completes has posted every operation of its scenario once, in the scenario's
  order, none before its offset, and has lasted at least the scenario's duration.\<close>

theorem replay_on_schedule:
  assumes "clock_laws w" "load_scenario w path raw = Inr sc"
    and "replay_main (logged w) path raw (s, []) = (Inr (), (s', posts))"
  shows "list_all2 on_time (rs_events sc) posts \<and> sorted (map fst posts)
    \<and> at_to_duration (rs_duration_seconds sc) \<le> rw_elapsed w s'"
proof -
  have load: "load_scenario (logged w) path raw = Inr sc"
    using assms(2) by (simp only: load_scenario_def logged_parsers)
  have ok: "validate sc = Inr ()"
    using assms(3) load by (auto simp: replay_main_def split: sum.splits)
  obtain s1 where run: "replay_events (logged w) (rs_events sc) (s, []) = (Inr (), (s1, posts))"
    and fin: "s' = sleep_until w (at_to_duration (rs_duration_seconds sc)) s1"
    using assms(3) load ok
    by (auto simp: replay_main_def sleep_until_logged split: sum.splits prod.splits)
  from replay_events_logged [OF assms(1) run] sleep_until_reaches(1) [OF assms(1)] show ?thesis
    by (auto simp: fin)
qed

definition lazy_world :: "nat replay_world" where
  "lazy_world = \<lparr>rw_elapsed = id, rw_sleep = (+), rw_post = (\<lambda>op t. (Inr 204, t + 1000000000)),
     rw_from_json = (\<lambda>text. Inl text), rw_from_yaml = (\<lambda>text. Inr \<lparr>rs_id = text, rs_description = [],
       rs_duration_seconds = 3, rs_events =
         [\<lparr>re_at_seconds = 1, re_op = SetQber (1/10), re_label = None\<rparr>,
          \<lparr>re_at_seconds = 1, re_op = ClearFailure, re_label = None\<rparr>]\<rparr>)\<rparr>"

lemma replay_on_schedule_witness:
  "\<exists>sc posts. load_scenario lazy_world ''r.yaml'' (Inr ''r'') = Inr sc \<and> length (rs_events sc) = 2
   \<and> list_all2 on_time (rs_events sc) posts"
proof -
  obtain sc where sc: "load_scenario lazy_world ''r.yaml'' (Inr ''r'') = Inr sc" "length (rs_events sc) = 2"
    and run: "replay_main (logged lazy_world) ''r.yaml'' (Inr ''r'') (0, []) =
      (Inr (), (3000000000, [(1000000000, SetQber (1/10)), (2000000000, ClearFailure)]))"
    by (auto simp: lazy_world_def logged_def load_scenario_def path_extension_def path_file_name_def
        replay_main_def validate_def sleep_until_def at_to_duration_def Let_def)
  have "clock_laws lazy_world" by (simp add: clock_laws_def lazy_world_def)
  from replay_on_schedule [OF this sc(1) run] sc show ?thesis by blast
qed

section \<open>The collector against the emulator\<close>

text \<open>The emulator's \<open>/status\<close> answer as the collector receives it: the JSON of a status decodes to the
  status, the body of an error is not read.\<close>

definition emulator_answer :: "status_response kme_result \<Rightarrow> nat \<times> (string, status_response) result" where
  "emulator_answer ans = (case ans of Inr status \<Rightarrow> (200, Inr status) | Inl _ \<Rightarrow> (503, Inl ''not a status''))"

definition expected_health :: "collector_config \<Rightarrow> emulator_state \<Rightarrow> link_health" where
  "expected_health cfg st =
     (if em_forced_failure st \<noteq> None \<or> cc_qber_fail cfg \<le> em_qber st then HealthFailed
      else if cc_qber_warn cfg \<le> em_qber st \<or> 2 ^ 32 dvd length (em_keys st) then HealthDegraded
      else HealthOk)"

lemma stored_count_zero: "(of_nat n :: u32) = 0 \<longleftrightarrow> 2 ^ 32 dvd n"
  by (simp add: word_of_nat_eq_0_iff)

lemma poll_emulator:
  assumes "kc_get cl s (status_url endpoint slave) = (Inr (emulator_answer (handle_status st slave)), s')"
  shows "\<exists>ev cp. poll_once cl endpoint slave cfg s = (Inr ev, s') \<and> ev_channel_protection ev = Some cp
    \<and> cp_link_health cp = expected_health cfg st \<and> cp_kme_endpoint cp = Some endpoint \<and> po_score (ev_posture ev) = health_score (expected_health cfg st)
    \<and> as_kind (ev_asset ev) = QkdKme \<and> ev_source_module ev = SOURCE_MODULE \<and> ev_observed_at ev = kc_now cl s'
    \<and> cp_link_qber cp = (if em_forced_failure st = None then Some (em_qber st) else None)
    \<and> as_identity (ev_asset ev) =
        (if em_forced_failure st = None then ec_kme_id (em_cfg st) else ''unreachable:'' @ endpoint)"
proof (cases "em_forced_failure st")
  case None
  then have "kc_get cl s (status_url endpoint slave) = (Inr (200, Inr (build_status st ''SAE-MASTER'' slave)), s')"
    using assms by (simp add: handle_status_def emulator_answer_def)
  then show ?thesis
    using None
    by (auto simp: poll_once_def is_success_def build_status_def derive_link_health_def build_kme_event_def
        expected_health_def stored_count_zero Let_def)
next
  case (Some reason)
  then have "kc_get cl s (status_url endpoint slave) = (Inr (503, Inl ''not a status''), s')"
    using assms by (simp add: handle_status_def emulator_answer_def kme_unavailable_def)
  then show ?thesis
    using Some
    by (auto simp: poll_once_def is_success_def build_kme_event_def unreachable_stub_def expected_health_def)
qed

text \<open>A world that holds an emulator: sleeping leaves it alone and a post to its control endpoint
  answers 204.\<close>

definition drives :: "'s replay_world \<Rightarrow> ('s \<Rightarrow> emulator_state) \<Rightarrow> bool" where
  "drives w em \<longleftrightarrow>
     (\<forall>d s. em (rw_sleep w d s) = em s) \<and>
     (\<forall>op s. \<exists>s'. rw_post w op s = (Inr 204, s') \<and> em s' = handle_control op (em s))"

lemma drives_sleep [simp]: "drives w em \<Longrightarrow> em (sleep_until w t s) = em s"
  by (simp add: drives_def sleep_until_def Let_def)

lemma replay_drives:
  "drives w em \<Longrightarrow>
    \<exists>s'. replay_events w evs s = (Inr (), s') \<and> em s' = foldl (\<lambda>st ev. handle_control (re_op ev) st) (em s) evs"
proof (induction evs arbitrary: s)
  case (Cons ev evs)
  let ?s = "sleep_until w (at_to_duration (re_at_seconds ev)) s"
  obtain s1 where post: "rw_post w (re_op ev) ?s = (Inr 204, s1)" "em s1 = handle_control (re_op ev) (em ?s)"
    using Cons.prems unfolding drives_def by blast
  from Cons.IH [OF Cons.prems, of s1] post Cons.prems show ?case by auto
qed simp

text \<open>After a valid scenario has been replayed into an emulator, a poll of it reports exactly the link
  the scenario left behind: failed while a forced failure stands or the error rate has reached the
  failure threshold, degraded at the warning threshold or with an empty pool, and otherwise healthy,
  with the last error rate set, clamped to the unit interval.\<close>

theorem scenario_observed:
  assumes "drives w em" "load_scenario w path raw = Inr sc" "validate sc = Inr ()"
    and "kc_get cl c (status_url endpoint slave) =
      (Inr (emulator_answer (handle_status (foldl (\<lambda>st ev. handle_control (re_op ev) st) (em s) (rs_events sc)) slave)), c')"
  shows "\<exists>s' ev cp. replay_main w path raw s = (Inr (), s') \<and> poll_once cl endpoint slave cfg c = (Inr ev, c')
    \<and> em s' = foldl (\<lambda>st ev. handle_control (re_op ev) st) (em s) (rs_events sc)
    \<and> ev_channel_protection ev = Some cp \<and> cp_link_health cp = expected_health cfg (em s')
    \<and> cp_link_qber cp = (if em_forced_failure (em s') = None then Some (em_qber (em s')) else None)"
proof -
  obtain s1 where run: "replay_events w (rs_events sc) s = (Inr (), s1)"
    and em: "em s1 = foldl (\<lambda>st ev. handle_control (re_op ev) st) (em s) (rs_events sc)"
    using replay_drives [OF assms(1)] by blast
  have "replay_main w path raw s = (Inr (), sleep_until w (at_to_duration (rs_duration_seconds sc)) s1)"
    using assms(2,3) run by (simp add: replay_main_def)
  with poll_emulator [OF assms(4), of cfg] em assms(1) show ?thesis by force
qed

definition toy_scenario :: replay_scenario where
  "toy_scenario = \<lparr>rs_id = ''r2'', rs_description = [], rs_duration_seconds = 10, rs_events =
     [\<lparr>re_at_seconds = 0, re_op = ForceFailure ''cut'', re_label = None\<rparr>,
      \<lparr>re_at_seconds = 4, re_op = SetQber (7/100), re_label = None\<rparr>,
      \<lparr>re_at_seconds = 9, re_op = ClearFailure, re_label = None\<rparr>]\<rparr>"

definition toy_replay :: "(nat \<times> emulator_state) replay_world" where
  "toy_replay = \<lparr>rw_elapsed = fst, rw_sleep = (\<lambda>d (t, st). (t + d, st)),
     rw_post = (\<lambda>op (t, st). (Inr 204, t, handle_control op st)),
     rw_from_json = (\<lambda>text. Inl text), rw_from_yaml = (\<lambda>text. Inr toy_scenario)\<rparr>"

definition toy_client :: "emulator_state \<Rightarrow> timestamp kme_client" where
  "toy_client st = \<lparr>kc_get = (\<lambda>t url. (Inr (emulator_answer (handle_status st ''S'')), t)),
     kc_post = (\<lambda>t url ev. (Inr 202, t)), kc_now = id, kc_wait_tick = (\<lambda>t n. t + int n),
     kc_show_status = (\<lambda>code. ''503 Service Unavailable'')\<rparr>"

lemma scenario_observed_witness:
  "\<exists>s' ev cp. replay_main toy_replay ''r2.yaml'' (Inr []) (0, toy_kme\<lparr>em_keys := [(''a'', [7])]\<rparr>) = (Inr (), s')
   \<and> fst (poll_once (toy_client (snd s')) ''http://kme/api/v1'' ''S''
         (collector_config_default\<lparr>cc_qber_warn := 5/100, cc_qber_fail := 11/100\<rparr>) 5) = Inr ev
   \<and> ev_channel_protection ev = Some cp \<and> cp_link_health cp = HealthDegraded \<and> cp_link_qber cp = Some (7/100)"
proof -
  let ?s = "(0 :: nat, toy_kme\<lparr>em_keys := [(''a'', [7])]\<rparr>)"
  let ?last = "foldl (\<lambda>st ev. handle_control (re_op ev) st) (snd ?s) (rs_events toy_scenario)"
  let ?cfg = "collector_config_default\<lparr>cc_qber_warn := 5/100, cc_qber_fail := 11/100\<rparr>"
  have world: "drives toy_replay snd" by (auto simp: drives_def toy_replay_def)
  have load: "load_scenario toy_replay ''r2.yaml'' (Inr []) = Inr toy_scenario"
    by (simp add: load_scenario_def toy_replay_def path_extension_def path_file_name_def Let_def)
  have valid: "validate toy_scenario = Inr ()"
    by (simp add: validate_def toy_scenario_def)
  have get: "kc_get (toy_client ?last) 5 (status_url ''http://kme/api/v1'' ''S'') =
      (Inr (emulator_answer (handle_status ?last ''S'')), 5)"
    by (simp add: toy_client_def)
  obtain s' ev cp where
    "replay_main toy_replay ''r2.yaml'' (Inr []) ?s = (Inr (), s')" "snd s' = ?last"
    "poll_once (toy_client ?last) ''http://kme/api/v1'' ''S'' ?cfg 5 = (Inr ev, 5)"
    "ev_channel_protection ev = Some cp" "cp_link_health cp = expected_health ?cfg (snd s')"
    "cp_link_qber cp = (if em_forced_failure (snd s') = None then Some (em_qber (snd s')) else None)"
    using scenario_observed [OF world load valid get, of ?cfg] by (elim exE conjE) (rule that)
  moreover have "em_forced_failure ?last = None" "em_qber ?last = 7/100" "length (em_keys ?last) = 1"
    by (simp_all add: toy_scenario_def)
  ultimately show ?thesis by (intro exI [of _ s'] exI [of _ ev] exI [of _ cp]) (simp add: expected_health_def)
qed

section \<open>An outage on the dashboard\<close>

lemma memory_latest_member:
  "memory_inv s \<Longrightarrow> e \<in> set (memory_latest_per_asset s) \<longleftrightarrow> map_of (ms_latest s) (key_from_event e) = Some e"
  by (force simp: memory_latest_per_asset_def memory_inv_def image_iff)

lemma memory_other_key:
  assumes "list_all (\<lambda>e. key_from_event e \<noteq> key_from_event ev) evs" "memory_inv store"
    and "ev \<in> set (memory_latest_per_asset store)"
  shows "ev \<in> set (memory_latest_per_asset (foldl memory_append store evs))"
  using assms
proof (induction evs arbitrary: store)
  case (Cons e evs)
  have "ev \<in> set (memory_latest_per_asset (memory_append store e))"
    using Cons.prems memory_inv_append by (auto simp: memory_latest_member memory_append_latest)
  then show ?case using Cons memory_inv_append by simp
qed simp

definition refused_poll :: "'s kme_client \<Rightarrow> string \<Rightarrow> string \<Rightarrow> 's \<Rightarrow> bool" where
  "refused_poll cl endpoint slave s \<longleftrightarrow>
     (case fst (kc_get cl s (status_url endpoint slave)) of Inr (code, _) \<Rightarrow> \<not> is_success code | Inl _ \<Rightarrow> False)"

lemma refused_poll_identity:
  assumes "refused_poll cl endpoint slave s" "fst (poll_once cl endpoint slave cfg s) = Inr ev"
  shows "as_identity (ev_asset ev) = ''unreachable:'' @ endpoint"
  using assms
  by (auto simp: refused_poll_def poll_once_def build_kme_event_def unreachable_stub_def
      split: sum.splits prod.splits if_splits)

text \<open>C36: during an outage the failed polls are filed under another identity, \<open>unreachable:<endpoint>\<close>, so
  \<open>/v1/qkd/links\<close> goes on listing the KME itself with its last healthy reading, however many polls
  have failed since.\<close>

theorem outage_leaves_healthy_row:
  assumes "memory_inv store" "ev \<in> set (memory_latest_per_asset store)"
    and "as_kind (ev_asset ev) = QkdKme" "as_identity (ev_asset ev) \<noteq> ''unreachable:'' @ endpoint"
    and "list_all (refused_poll cl endpoint slave) polls"
    and "map (\<lambda>s. fst (poll_once cl endpoint slave cfg s)) polls = map Inr evs"
  shows "\<exists>n links. qkd_links memory_ops (foldl memory_append store evs) = Inr (n, links)
    \<and> qkd_link_summary_of ev \<in> set links"
proof -
  have "as_identity (ev_asset e) = ''unreachable:'' @ endpoint" if "e \<in> set evs" for e
  proof -
    have "Inr e \<in> set (map (\<lambda>s. fst (poll_once cl endpoint slave cfg s)) polls)"
      using that assms(6) by simp
    then show ?thesis using assms(5) refused_poll_identity by (force simp: list_all_iff)
  qed
  then have "list_all (\<lambda>e. key_from_event e \<noteq> key_from_event ev) evs"
    using assms(4) by (force simp: list_all_iff key_from_event_def)
  from memory_other_key [OF this assms(1,2)] show ?thesis
    using assms(3) by (auto simp: qkd_links_def memory_ops_def lift_store_def Let_def)
qed

lemma outage_leaves_healthy_row_witness:
  "\<exists>n links. qkd_links memory_ops (foldl memory_append
       (memory_append memory_new (build_kme_event ''http://kme'' (build_status toy_kme ''M'' ''S'') HealthOk None 1))
       [build_kme_event ''http://kme'' (unreachable_stub ''http://kme'' ''S'') HealthFailed
          (Some ''HTTP 503 Service Unavailable from /status'') 7]) = Inr (n, links)
   \<and> list_ex (\<lambda>l. ql_identity l = ''KME-A'' \<and> ql_link_health l = ''ok'') links"
proof -
  let ?ev = "build_kme_event ''http://kme'' (build_status toy_kme ''M'' ''S'') HealthOk None 1"
  let ?cl = "toy_client (toy_kme\<lparr>em_forced_failure := Some ''cut''\<rparr>)"
  let ?store = "memory_append memory_new ?ev"
  have inv: "memory_inv ?store"
    by (rule memory_inv_append) (simp add: memory_inv_def memory_new_def)
  have mem: "?ev \<in> set (memory_latest_per_asset ?store)"
    using inv by (simp add: memory_latest_member memory_append_latest memory_new_def supersede_def)
  have kind: "as_kind (ev_asset ?ev) = QkdKme" and ident: "as_identity (ev_asset ?ev) = ''KME-A''"
    by (simp_all add: build_kme_event_def build_status_def toy_kme_def)
  have refused: "list_all (refused_poll ?cl ''http://kme'' ''S'') [7]"
    by (simp add: refused_poll_def toy_client_def emulator_answer_def handle_status_def kme_unavailable_def is_success_def)
  have polls: "map (\<lambda>s. fst (poll_once ?cl ''http://kme'' ''S'' collector_config_default s)) [7] =
      map Inr [build_kme_event ''http://kme'' (unreachable_stub ''http://kme'' ''S'') HealthFailed
          (Some ''HTTP 503 Service Unavailable from /status'') 7]"
    by (simp add: poll_once_def toy_client_def emulator_answer_def handle_status_def kme_unavailable_def is_success_def)
  have other: "as_identity (ev_asset ?ev) \<noteq> ''unreachable:'' @ ''http://kme''"
    by (simp add: ident)
  obtain n links where "qkd_links memory_ops (foldl memory_append ?store
       [build_kme_event ''http://kme'' (unreachable_stub ''http://kme'' ''S'') HealthFailed
          (Some ''HTTP 503 Service Unavailable from /status'') 7]) = Inr (n, links)"
    and "qkd_link_summary_of ?ev \<in> set links"
    using outage_leaves_healthy_row [OF inv mem kind other refused polls] by blast
  moreover have "ql_identity (qkd_link_summary_of ?ev) = ''KME-A''" "ql_link_health (qkd_link_summary_of ?ev) = ''ok''"
    by (simp_all add: qkd_link_summary_of_def ident) (simp_all add: build_kme_event_def)
  ultimately show ?thesis unfolding list_ex_iff by blast
qed

section \<open>Link health\<close>

fun health_rank :: "link_health \<Rightarrow> nat" where
  "health_rank HealthOk = 0"
| "health_rank HealthDegraded = 1"
| "health_rank HealthFailed = 2"

text \<open>At fixed thresholds a higher error rate or an emptied pool never makes a link look healthier,
  whatever the order of the thresholds, and only a healthy link is reported without a reason.\<close>

theorem link_health_monotone:
  assumes "(case sr_link_qber a of Some q \<Rightarrow> q | None \<Rightarrow> 0) \<le> (case sr_link_qber b of Some q \<Rightarrow> q | None \<Rightarrow> 0)"
    and "sr_stored_key_count a = 0 \<longrightarrow> sr_stored_key_count b = 0"
  shows "health_rank (fst (derive_link_health a w f)) \<le> health_rank (fst (derive_link_health b w f))
    \<and> (snd (derive_link_health a w f) = None \<longleftrightarrow> fst (derive_link_health a w f) = HealthOk)"
  using assms by (auto simp: derive_link_health_def Let_def split: option.splits)

lemma link_health_monotone_witness:
  "health_rank (fst (derive_link_health (build_status (toy_kme\<lparr>em_keys := [(''a'', [7])]\<rparr>) ''M'' ''S'') 1 2))
     \<le> health_rank (fst (derive_link_health (build_status (toy_kme\<lparr>em_qber := 1\<rparr>) ''M'' ''S'') 1 2))"
proof -
  let ?a = "build_status (toy_kme\<lparr>em_keys := [(''a'', [7])]\<rparr>) ''M'' ''S''"
  let ?b = "build_status (toy_kme\<lparr>em_qber := 1\<rparr>) ''M'' ''S''"
  have "health_rank (fst (derive_link_health ?a 1 2)) \<le> health_rank (fst (derive_link_health ?b 1 2))
    \<and> (snd (derive_link_health ?a 1 2) = None \<longleftrightarrow> fst (derive_link_health ?a 1 2) = HealthOk)"
    by (rule link_health_monotone) (simp_all add: build_status_def toy_kme_def)
  then show ?thesis by blast
qed

end
