(* ===== verification/Agility_Cli.thy ===== *)
theory Agility_Cli
  imports Routes Scanner Algo_Tables
begin

text \<open>
  The subcommands of src/crates/ree0xq-agility/src/bin/agility.rs.  Fetching a URL, reading a file and
  decoding JSON are fields of \<open>cli_env\<close>; what a command prints is the value it serialises.
  \<open>scan\<close> is \<open>load_ruleset\<close> followed by \<open>scan_target\<close>.
\<close>

section \<open>Scan\<close>

definition run_scan ::
  "rule_env \<Rightarrow> scan_env \<Rightarrow> string \<Rightarrow> string \<Rightarrow> string \<Rightarrow> u64 \<Rightarrow> nat \<Rightarrow> (rule_error, agility_block) result" where
  "run_scan renv senv version target rules max_file_bytes max_lines =
     rbind (load_ruleset renv rules) (\<lambda>compiled.
       Inr (scan_target_block senv version
         \<lparr>st_root = target, st_max_file_bytes = max_file_bytes, st_max_lines = max_lines\<rparr> compiled))"

section \<open>Recommend\<close>

record cli_item =
  ci_source_module :: string
  ci_asset_kind :: string
  ci_identity :: string
  ci_host :: "string option"
  ci_q :: f32
  ci_blocked :: bool
  ci_primitives :: "string list"
  ci_observed_at :: string

record cli_env =
  ce_http_get :: "string \<Rightarrow> (string, string) result"
  ce_read_file :: "string \<Rightarrow> (string, string) result"
  ce_inventory_json :: "string \<Rightarrow> (string, cli_item list) result"
  ce_plan_json :: "string \<Rightarrow> (string, milestone list) result"

definition fetch_inventory :: "cli_env \<Rightarrow> string \<Rightarrow> (string, cli_item list) result" where
  "fetch_inventory env source =
     rbind
       (if starts_with source ''http://'' \<or> starts_with source ''https://'' then ce_http_get env source
        else ce_read_file env source)
       (\<lambda>raw. ce_inventory_json env raw)"

definition classify_role :: "string \<Rightarrow> primitive_role" where
  "classify_role algorithm =
     (let upper = to_upper algorithm in
      if contains upper ''AES'' \<or> contains upper ''CHACHA'' \<or> contains upper ''DES'' \<or> contains upper ''RC4''
      then Encrypt
      else if starts_with upper ''SHA'' \<or> starts_with upper ''KECCAK'' \<or> starts_with upper ''MD5''
        \<or> starts_with upper ''HMAC''
      then Hash
      else if contains upper ''X25519'' \<or> contains upper ''ML-KEM'' \<or> contains upper ''MLKEM''
        \<or> contains upper ''ECDH'' \<or> contains upper ''DH-''
      then Kex
      else Sig)"

definition thin_primitive :: "string \<Rightarrow> primitive" where
  "thin_primitive name = mk_primitive (classify_role name) name None None"

record recommend_line =
  rl_identity :: string
  rl_kind :: string
  rl_host :: "string option"
  rl_current_q :: f32
  rl_blocked :: bool
  rl_primitives :: "string list"
  rl_recommendations :: "recommendation list"

definition recommend_item :: "cli_item \<Rightarrow> recommend_line" where
  "recommend_item item =
     \<lparr>rl_identity = ci_identity item, rl_kind = ci_asset_kind item, rl_host = ci_host item,
      rl_current_q = ci_q item, rl_blocked = ci_blocked item, rl_primitives = ci_primitives item,
      rl_recommendations = recommend_for (map thin_primitive (ci_primitives item))\<rparr>"

fun recommend_loop :: "string option \<Rightarrow> cli_item list \<Rightarrow> recommend_line list" where
  "recommend_loop filter_kind [] = []"
| "recommend_loop filter_kind (item # items) =
     (if filter_kind \<noteq> None \<and> filter_kind \<noteq> Some (ci_asset_kind item) then recommend_loop filter_kind items
      else let line = recommend_item item in
        if rl_recommendations line = [] then recommend_loop filter_kind items
        else line # recommend_loop filter_kind items)"

definition run_recommend :: "cli_env \<Rightarrow> string \<Rightarrow> string option \<Rightarrow> (string, recommend_line list) result" where
  "run_recommend env source filter_kind =
     rbind (fetch_inventory env source) (\<lambda>items. Inr (recommend_loop filter_kind items))"

section \<open>Roadmap, compat, deadlines\<close>

definition snapshot_of_item :: "cli_item \<Rightarrow> asset_snapshot" where
  "snapshot_of_item it =
     \<lparr>sn_identity = ci_identity it, sn_q = ci_q it, sn_blocked = ci_blocked it, sn_primitives = ci_primitives it\<rparr>"

definition run_roadmap ::
  "(plan_state \<Rightarrow> plan_state) \<Rightarrow> cli_env \<Rightarrow> string \<Rightarrow> string \<Rightarrow> (string, roadmap_projection) result" where
  "run_roadmap order env source plan_path =
     rbind (fetch_inventory env source) (\<lambda>items.
     rbind (ce_read_file env plan_path) (\<lambda>plan_raw.
     rbind (ce_plan_json env plan_raw) (\<lambda>plan.
       Inr (project_roadmap order (map snapshot_of_item items) plan))))"

datatype compat_output =
    CompatEntry compat_entry
  | CompatVerdict string string support_status
  | CompatList string "compat_entry list"

definition run_compat :: "string \<Rightarrow> string option \<Rightarrow> compat_output" where
  "run_compat stack algo =
     (case algo of
        Some a \<Rightarrow>
          (let status = stack_supports stack a in
           case compat_lookup stack a of
             Some entry \<Rightarrow> CompatEntry entry
           | None \<Rightarrow> CompatVerdict stack a status)
      | None \<Rightarrow> CompatList stack (list_stack stack))"

text \<open>\<open>chrono::Duration::days\<close> panics when the duration exceeds \<open>i64::MAX\<close> milliseconds; \<open>None\<close> is a panic.\<close>

definition duration_days :: "int \<Rightarrow> int option" where
  "duration_days d = (if \<bar>d * 86400 * 1000\<bar> \<le> 2 ^ 63 - 1 then Some (d * 86400 * 1000000000) else None)"

definition run_deadlines ::
  "calendar \<Rightarrow> (timestamp \<Rightarrow> int \<Rightarrow> timestamp option) \<Rightarrow> timestamp \<Rightarrow> string option \<Rightarrow> int option \<Rightarrow>
   deadline_entry list option" where
  "run_deadlines cal add_dur now jurisdiction horizon_days =
     (let entries = (case jurisdiction of Some j \<Rightarrow> for_jurisdiction cal j | None \<Rightarrow> all_deadlines cal) in
      case horizon_days of
        None \<Rightarrow> Some entries
      | Some d \<Rightarrow>
          Option.bind (duration_days d) (\<lambda>dur.
          Option.bind (add_dur now dur) (\<lambda>e.
            Some (filter (\<lambda>x. now \<le> dl_effective x \<and> dl_effective x \<le> e) entries))))"

section \<open>The command line\<close>

datatype agility_cmd =
    Scan (sc_target: string) (sc_rules: string) (sc_max_file_bytes: u64) (sc_max_lines: nat)
  | Recommend (rc_inventory: string) (rc_filter_kind: "string option")
  | RoadmapCmd (rm_inventory: string) (rm_plan: string)
  | CompatCmd (cm_stack: string) (cm_algo: "string option")
  | DeadlinesCmd (dl_jurisdiction: "string option") (dl_horizon_days: "int option")

text \<open>What the commands draw on, and the serialisers of what they print.\<close>

record agility_env =
  ae_rules :: rule_env
  ae_scan :: scan_env
  ae_version :: string
  ae_order :: "plan_state \<Rightarrow> plan_state"
  ae_cli :: cli_env
  ae_calendar :: calendar
  ae_add :: "timestamp \<Rightarrow> int \<Rightarrow> timestamp option"
  ae_now :: timestamp
  ae_show_rule_error :: "rule_error \<Rightarrow> string"
  ae_show_block :: "agility_block \<Rightarrow> string"
  ae_show_line :: "recommend_line \<Rightarrow> string"
  ae_show_projection :: "roadmap_projection \<Rightarrow> string"
  ae_show_compat :: "compat_output \<Rightarrow> string"
  ae_show_deadlines :: "timestamp \<Rightarrow> int option \<Rightarrow> string option \<Rightarrow> deadline_entry list \<Rightarrow> string"

text \<open>The result of \<open>main\<close> and the lines printed; \<open>None\<close> is a panic.\<close>

definition printed_or_error :: "(string, string list) result \<Rightarrow> (string, unit) result \<times> string list" where
  "printed_or_error r = (case r of Inl e \<Rightarrow> (Inl e, []) | Inr lines \<Rightarrow> (Inr (), lines))"

definition agility_main :: "agility_env \<Rightarrow> agility_cmd \<Rightarrow> ((string, unit) result \<times> string list) option" where
  "agility_main env cmd = (case cmd of
     Scan target rules max_file_bytes max_lines \<Rightarrow>
       Some (printed_or_error
         (case run_scan (ae_rules env) (ae_scan env) (ae_version env) target rules max_file_bytes max_lines of
            Inl e \<Rightarrow> Inl (ae_show_rule_error env e)
          | Inr block \<Rightarrow> Inr [ae_show_block env block]))
   | Recommend source filter_kind \<Rightarrow>
       Some (printed_or_error (rbind (run_recommend (ae_cli env) source filter_kind)
         (\<lambda>lines. Inr (map (ae_show_line env) lines))))
   | RoadmapCmd source plan \<Rightarrow>
       Some (printed_or_error (rbind (run_roadmap (ae_order env) (ae_cli env) source plan)
         (\<lambda>projection. Inr [ae_show_projection env projection])))
   | CompatCmd stack algo \<Rightarrow> Some (Inr (), [ae_show_compat env (run_compat stack algo)])
   | DeadlinesCmd jurisdiction horizon_days \<Rightarrow>
       map_option (\<lambda>entries. (Inr (), [ae_show_deadlines env (ae_now env) horizon_days jurisdiction entries]))
         (run_deadlines (ae_calendar env) (ae_add env) (ae_now env) jurisdiction horizon_days))"

text \<open>A command that fails has printed nothing, and one that succeeds prints one line, \<open>recommend\<close> one per
  asset with a recommendation.\<close>

lemma agility_main_lines:
  "agility_main env cmd = Some (r, lines) \<Longrightarrow>
   (r \<noteq> Inr () \<longrightarrow> lines = []) \<and> (r = Inr () \<and> (\<forall>s k. cmd \<noteq> Recommend s k) \<longrightarrow> length lines = 1)"
  by (cases cmd) (auto simp: agility_main_def printed_or_error_def rbind_def split: sum.splits)

section \<open>Guessing the role from the name\<close>

definition guessed :: "primitive \<Rightarrow> bool" where
  "guessed p \<longleftrightarrow> recommend_one (thin_primitive (pr_algorithm p)) = recommend_one p"

text \<open>Upper case of the characters of algorithm names.\<close>

lemma ascii_upper_chars:
  "ascii_upper CHR ''a'' = CHR ''A''" "ascii_upper CHR ''b'' = CHR ''B''" "ascii_upper CHR ''c'' = CHR ''C''"
  "ascii_upper CHR ''d'' = CHR ''D''" "ascii_upper CHR ''e'' = CHR ''E''" "ascii_upper CHR ''f'' = CHR ''F''"
  "ascii_upper CHR ''g'' = CHR ''G''" "ascii_upper CHR ''h'' = CHR ''H''" "ascii_upper CHR ''i'' = CHR ''I''"
  "ascii_upper CHR ''j'' = CHR ''J''" "ascii_upper CHR ''k'' = CHR ''K''" "ascii_upper CHR ''l'' = CHR ''L''"
  "ascii_upper CHR ''m'' = CHR ''M''" "ascii_upper CHR ''n'' = CHR ''N''" "ascii_upper CHR ''o'' = CHR ''O''"
  "ascii_upper CHR ''p'' = CHR ''P''" "ascii_upper CHR ''q'' = CHR ''Q''" "ascii_upper CHR ''r'' = CHR ''R''"
  "ascii_upper CHR ''s'' = CHR ''S''" "ascii_upper CHR ''t'' = CHR ''T''" "ascii_upper CHR ''u'' = CHR ''U''"
  "ascii_upper CHR ''v'' = CHR ''V''" "ascii_upper CHR ''w'' = CHR ''W''" "ascii_upper CHR ''x'' = CHR ''X''"
  "ascii_upper CHR ''y'' = CHR ''Y''" "ascii_upper CHR ''z'' = CHR ''Z''" "ascii_upper CHR ''A'' = CHR ''A''"
  "ascii_upper CHR ''B'' = CHR ''B''" "ascii_upper CHR ''C'' = CHR ''C''" "ascii_upper CHR ''D'' = CHR ''D''"
  "ascii_upper CHR ''E'' = CHR ''E''" "ascii_upper CHR ''F'' = CHR ''F''" "ascii_upper CHR ''G'' = CHR ''G''"
  "ascii_upper CHR ''H'' = CHR ''H''" "ascii_upper CHR ''I'' = CHR ''I''" "ascii_upper CHR ''J'' = CHR ''J''"
  "ascii_upper CHR ''K'' = CHR ''K''" "ascii_upper CHR ''L'' = CHR ''L''" "ascii_upper CHR ''M'' = CHR ''M''"
  "ascii_upper CHR ''N'' = CHR ''N''" "ascii_upper CHR ''O'' = CHR ''O''" "ascii_upper CHR ''P'' = CHR ''P''"
  "ascii_upper CHR ''Q'' = CHR ''Q''" "ascii_upper CHR ''R'' = CHR ''R''" "ascii_upper CHR ''S'' = CHR ''S''"
  "ascii_upper CHR ''T'' = CHR ''T''" "ascii_upper CHR ''U'' = CHR ''U''" "ascii_upper CHR ''V'' = CHR ''V''"
  "ascii_upper CHR ''W'' = CHR ''W''" "ascii_upper CHR ''X'' = CHR ''X''" "ascii_upper CHR ''Y'' = CHR ''Y''"
  "ascii_upper CHR ''Z'' = CHR ''Z''" "ascii_upper CHR ''0'' = CHR ''0''" "ascii_upper CHR ''1'' = CHR ''1''"
  "ascii_upper CHR ''2'' = CHR ''2''" "ascii_upper CHR ''3'' = CHR ''3''" "ascii_upper CHR ''4'' = CHR ''4''"
  "ascii_upper CHR ''5'' = CHR ''5''" "ascii_upper CHR ''6'' = CHR ''6''" "ascii_upper CHR ''7'' = CHR ''7''"
  "ascii_upper CHR ''8'' = CHR ''8''" "ascii_upper CHR ''9'' = CHR ''9''" "ascii_upper CHR ''-'' = CHR ''-''"
  "ascii_upper CHR ''+'' = CHR ''+''"
  by (simp_all add: ascii_upper_def char_of_eq_iff)

text \<open>A name no rule applies to gets no recommendation whatever role is guessed for it.\<close>

definition no_rule :: "string \<Rightarrow> bool" where
  "no_rule name \<longleftrightarrow> recommend_for_sig (thin_primitive name) = [] \<and> recommend_for_encrypt (thin_primitive name) = []"

lemma recommend_name:
  "pr_algorithm p = pr_algorithm q \<Longrightarrow> recommend_for_sig p = recommend_for_sig q"
  "pr_algorithm p = pr_algorithm q \<Longrightarrow> recommend_for_encrypt p = recommend_for_encrypt q"
  by (simp_all add: recommend_for_sig_def recommend_for_encrypt_def)

lemma thin_simps [simp]: "pr_algorithm (thin_primitive n) = n" "pr_role (thin_primitive n) = classify_role n"
  by (simp_all add: thin_primitive_def mk_primitive_def)

lemma no_rule_guessed: "no_rule (pr_algorithm p) \<Longrightarrow> guessed p"
  using recommend_name [of p "thin_primitive (pr_algorithm p)"]
  by (simp add: no_rule_def guessed_def recommend_one_def split: primitive_role.split)

lemma role_guessed: "classify_role (pr_algorithm p) = pr_role p \<Longrightarrow> guessed p"
  using recommend_name [of p "thin_primitive (pr_algorithm p)"]
  by (simp add: guessed_def recommend_one_def split: primitive_role.split)

lemmas no_rule_simps = no_rule_def recommend_for_sig_def recommend_for_encrypt_def starts_with_def Let_def

lemmas classify_simps = classify_role_def starts_with_def Let_def to_upper_def ascii_upper_chars

lemma kex_names: "list_all (\<lambda>(_, algo, _). no_rule algo) supported_group_table"
  by (simp add: supported_group_table_def no_rule_simps)

lemma signature_names:
  "list_all (\<lambda>(_, algo, _). classify_role algo = Sig) signature_scheme_table"
  by (simp add: signature_scheme_table_def classify_simps)

lemma encrypt_names: "list_all (\<lambda>(_, algo, _). classify_role algo = Encrypt) tls13_encrypt_table"
  by (simp add: tls13_encrypt_table_def classify_simps)

lemma suite_names:
  "list_all no_rule [''ECDHE'', ''DHE'', ''ECDH'', ''RSA-KEX'', ''ECDSA'', ''RSA'', ''DSA'', ''anonymous'',
     ''AES-256-CBC'', ''AES-128-CBC'', ''ChaCha20-Poly1305'', ''AES-256-GCM'', ''NULL'', ''SHA-384'', ''SHA-256'',
     ''SHA-1'', ''MD5'']"
  "list_all (\<lambda>algo. classify_role algo = Encrypt) [''AES-128-GCM'', ''3DES'', ''RC4'']"
  by (simp add: no_rule_simps, simp add: classify_simps)

lemma tls12_kex_names: "tls12_kex name = Some k \<Longrightarrow> no_rule k"
  using suite_names(1) by (auto simp: tls12_kex_def split: if_splits)

lemma tls12_sig_names: "tls12_sig name = Some k \<Longrightarrow> no_rule k"
  using suite_names(1) by (auto simp: tls12_sig_def split: if_splits)

lemma tls12_hash_names: "tls12_hash name = Some (k, pq) \<Longrightarrow> no_rule k"
  using suite_names(1) by (auto simp: tls12_hash_def split: if_splits)

lemma tls12_encrypt_names:
  assumes "tls12_encrypt name = Some (k, pq)"
  shows "guessed (mk_primitive Encrypt k pq None)"
proof -
  have "no_rule k \<or> classify_role k = Encrypt"
    using assms suite_names by (auto simp: tls12_encrypt_def split: if_splits)
  then show ?thesis by (auto simp: mk_primitive_def intro: no_rule_guessed role_guessed)
qed

lemma mk_primitive_simps [simp]: "pr_role (mk_primitive r n pq l) = r" "pr_algorithm (mk_primitive r n pq l) = n"
  by (simp_all add: mk_primitive_def)

lemma tls12_suite_guessed: "list_all guessed (primitives_from_tls12_ciphersuite name)"
  by (auto simp: primitives_from_tls12_ciphersuite_def no_rule_guessed split: option.split
      dest: tls12_kex_names tls12_sig_names tls12_hash_names intro: no_rule_guessed tls12_encrypt_names)

lemma tls13_suite_guessed: "list_all guessed (primitives_from_tls13_ciphersuite name)"
proof (cases "map_of tls13_encrypt_table name")
  case (Some e)
  obtain algo pq where e: "e = (algo, pq)" by (cases e)
  have "classify_role algo = Encrypt"
    using encrypt_names map_of_SomeD [OF Some] e by (auto simp: list_all_iff)
  then have "guessed (mk_primitive Encrypt algo pq None)" by (simp add: role_guessed)
  moreover have "guessed (mk_primitive Hash ''SHA-384'' (Some True) None)" "guessed (mk_primitive Hash ''SHA-256'' (Some True) None)"
    using suite_names(1) by (auto intro: no_rule_guessed)
  ultimately show ?thesis using Some e by (simp add: primitives_from_tls13_ciphersuite_def Let_def)
qed (simp add: primitives_from_tls13_ciphersuite_def)

lemma first_suite_guessed: "list_all guessed (first_suite_primitives cs)"
  by (induction cs) (auto simp: tls12_suite_guessed tls13_suite_guessed split: option.splits)

lemma group_guessed:
  assumes "group_primitive g = Some p"
  shows "guessed p"
proof -
  obtain name algo pq nist where "map_of supported_group_table name = Some (algo, pq, nist)" "pr_algorithm p = algo"
    using assms
    by (auto simp: group_primitive_def primitive_from_supported_group_def bind_eq_Some_conv split: option.splits prod.splits)
  then show ?thesis using kex_names by (auto simp: list_all_iff intro: no_rule_guessed dest!: map_of_SomeD)
qed

lemma scheme_guessed:
  assumes "scheme_primitive g = Some p"
  shows "guessed p"
proof -
  obtain name algo pq nist where row: "map_of signature_scheme_table name = Some (algo, pq, nist)"
      and p: "p = mk_primitive Sig algo pq nist"
    using assms
    by (auto simp: scheme_primitive_def primitive_from_signature_scheme_def bind_eq_Some_conv split: option.splits prod.splits)
  have "classify_role algo = Sig"
    using signature_names map_of_SomeD [OF row] by (auto simp: list_all_iff)
  then show ?thesis by (simp add: p role_guessed)
qed

lemma session_guessed: "list_all guessed (primitives_from_summary s)"
  using first_suite_guessed [of "ciphersuites s"]
  by (auto simp: primitives_from_summary_def list_all_iff set_map_filter group_guessed scheme_guessed)

lemma recommend_for_guessed:
  "list_all guessed ps \<Longrightarrow> recommend_for (map (thin_primitive \<circ> pr_algorithm) ps) = recommend_for ps"
  by (simp add: recommend_for_def list_all_iff guessed_def comp_def cong: map_cong)

section \<open>The command against the endpoints\<close>

text \<open>An inventory item of the server as the command decodes it; \<open>show_time\<close> is chrono's text of a time.\<close>

definition cli_item_of :: "(timestamp \<Rightarrow> string) \<Rightarrow> inventory_item \<Rightarrow> cli_item" where
  "cli_item_of show_time i =
     \<lparr>ci_source_module = ii_source_module i, ci_asset_kind = asset_kind_text (ii_asset_kind i),
      ci_identity = ii_identity i, ci_host = ii_host i, ci_q = ii_q i, ci_blocked = ii_blocked i,
      ci_primitives = ii_primitives i, ci_observed_at = show_time (ii_observed_at i)\<rparr>"

definition session_event :: "crypto_inventory_event \<Rightarrow> bool" where
  "session_event ev \<longleftrightarrow> (\<exists>s. ev_primitives ev = primitives_from_summary s)"

definition line_summary :: "recommend_line \<Rightarrow> string \<times> string \<times> string list \<times> recommendation list" where
  "line_summary l = (rl_identity l, rl_kind l, rl_primitives l, rl_recommendations l)"

definition item_summary :: "recommendation_item \<Rightarrow> string \<times> string \<times> string list \<times> recommendation list" where
  "item_summary i = (ri_identity i, asset_kind_text (ri_asset_kind i), ri_current i, ri_recommendations i)"

lemma recommend_loop_filter:
  "recommend_loop filter_kind items =
     filter (\<lambda>l. rl_recommendations l \<noteq> [])
       (map recommend_item (filter (\<lambda>i. filter_kind = None \<or> filter_kind = Some (ci_asset_kind i)) items))"
  by (induction items) (auto simp: Let_def)

lemma recommendation_items_filter:
  "recommendation_items evs = map (\<lambda>ev. \<lparr>ri_source_module = ev_source_module ev, ri_asset_kind = as_kind (ev_asset ev),
      ri_identity = as_identity (ev_asset ev), ri_host = as_host (ev_asset ev),
      ri_current = map pr_algorithm (ev_primitives ev), ri_recommendations = recommend_for (ev_primitives ev)\<rparr>)
    (filter (\<lambda>ev. recommend_for (ev_primitives ev) \<noteq> []) evs)"
  by (induction evs) (auto simp: Let_def)

text \<open>C23: on an inventory of TLS sessions the offline command, which sees only algorithm names and
  guesses each one's role, prints exactly the assets and the recommendations of the server's endpoint,
  which knows the roles.\<close>

theorem cli_recommends_like_server:
  assumes "so_latest ops st = Inr evs" "list_all session_event evs"
    and "inventory ops cfg now st = Inr body" "recommendations ops st = Inr (n, items)"
    and "fetch_inventory env source = Inr (map (cli_item_of show_time) (iv_items body))"
  shows "\<exists>lines. run_recommend env source None = Inr lines \<and>
    mset (map line_summary lines) = mset (map item_summary items)"
proof -
  define line where "line = (\<lambda>ev. recommend_item (cli_item_of show_time
    (inventory_item_of cfg now (is_blocked (ev_agility ev)) ev)))"
  have body: "mset (iv_items body) = mset (map (\<lambda>ev. inventory_item_of cfg now (is_blocked (ev_agility ev)) ev) evs)"
    using assms(1,3) by (auto simp: inventory_def lift_store_def by_q_desc_def Let_def)
  have rec: "rl_recommendations (line ev) = recommend_for (ev_primitives ev)" if "ev \<in> set evs" for ev
  proof -
    have "list_all guessed (ev_primitives ev)"
      using that assms(2) session_guessed by (auto simp: list_all_iff session_event_def)
    then show ?thesis
      using recommend_for_guessed by (simp add: line_def recommend_item_def cli_item_of_def inventory_item_of_def)
  qed
  have items: "items = recommendation_items evs"
    using assms(1,4) by (auto simp: recommendations_def lift_store_def Let_def)
  have summary: "line_summary (line ev) = (as_identity (ev_asset ev), asset_kind_text (as_kind (ev_asset ev)),
      map pr_algorithm (ev_primitives ev), recommend_for (ev_primitives ev))" if "ev \<in> set evs" for ev
    using rec [OF that]
    by (simp add: line_summary_def) (simp add: line_def recommend_item_def cli_item_of_def inventory_item_of_def)
  have "mset (map line_summary (recommend_loop None (map (cli_item_of show_time) (iv_items body)))) =
      image_mset line_summary (filter_mset (\<lambda>l. rl_recommendations l \<noteq> [])
        (image_mset (\<lambda>i. recommend_item (cli_item_of show_time i)) (mset (iv_items body))))"
    by (simp add: recommend_loop_filter comp_def)
  also have "\<dots> = image_mset line_summary (filter_mset (\<lambda>l. rl_recommendations l \<noteq> []) (mset (map line evs)))"
    unfolding body by (simp add: line_def comp_def image_mset.compositionality)
  also have "\<dots> = mset (map (line_summary \<circ> line) (filter (\<lambda>ev. rl_recommendations (line ev) \<noteq> []) evs))"
    by (simp only: mset_filter [symmetric] mset_map [symmetric] filter_map map_map comp_def)
  also have "filter (\<lambda>ev. rl_recommendations (line ev) \<noteq> []) evs = filter (\<lambda>ev. recommend_for (ev_primitives ev) \<noteq> []) evs"
    using rec by (intro filter_cong) simp_all
  also have "map (line_summary \<circ> line) (filter (\<lambda>ev. recommend_for (ev_primitives ev) \<noteq> []) evs) = map item_summary items"
    unfolding items recommendation_items_filter using summary by (simp add: item_summary_def)
  finally show ?thesis using assms(5) by (simp add: run_recommend_def)
qed

definition weak_session :: crypto_inventory_event where
  "weak_session = (sample_event ''host:443'' 1)\<lparr>ev_primitives := primitives_from_summary
     \<lparr>msg_kind = ClientHello, legacy_version = 0x0303, ciphersuites = [0x1301], supported_groups = [],
      signature_schemes = [], supported_versions = []\<rparr>\<rparr>"

definition file_env :: "cli_item list \<Rightarrow> cli_env" where
  "file_env items = \<lparr>ce_http_get = (\<lambda>url. Inl url), ce_read_file = (\<lambda>p. Inr p),
     ce_inventory_json = (\<lambda>raw. Inr items), ce_plan_json = (\<lambda>raw. Inl raw)\<rparr>"

lemma cli_recommends_like_server_witness:
  "\<exists>body lines. inventory tiny_ops \<lparr>rc_deadline = 10, rc_horizon_years = 1\<rparr> 2 [weak_session] = Inr body
   \<and> run_recommend (file_env (map (cli_item_of (\<lambda>t. [])) (iv_items body))) ''inventory.json'' None = Inr lines
   \<and> map line_summary lines =
       [(''host:443'', ''tls_session'', [''AES-128-GCM'', ''SHA-256''],
         recommend_for [mk_primitive Encrypt ''AES-128-GCM'' (Some False) None, mk_primitive Hash ''SHA-256'' (Some True) None])]"
proof -
  let ?ps = "[mk_primitive Encrypt ''AES-128-GCM'' (Some False) None, mk_primitive Hash ''SHA-256'' (Some True) None]"
  have ps: "ev_primitives weak_session = ?ps"
    by (simp add: weak_session_def primitives_from_summary_def ciphersuite_name_def ciphersuite_table_def
        primitives_from_tls13_ciphersuite_def tls13_encrypt_table_def starts_with_def ends_with_def map_filter_simps)
  have rec: "recommend_for ?ps \<noteq> []"
    by (simp add: recommend_for_Nil_iff recommend_one_def recommend_for_encrypt_def mk_primitive_def Let_def)
  have latest: "so_latest tiny_ops [weak_session] = Inr [weak_session]" by (simp add: tiny_ops_def)
  have session: "list_all session_event [weak_session]"
    by (auto simp: session_event_def weak_session_def)
  obtain body where body: "inventory tiny_ops \<lparr>rc_deadline = 10, rc_horizon_years = 1\<rparr> 2 [weak_session] = Inr body"
    by (simp add: inventory_def lift_store_def tiny_ops_def Let_def)
  obtain n items where items: "recommendations tiny_ops [weak_session] = Inr (n, items)"
    and summary: "map item_summary items =
      [(''host:443'', ''tls_session'', [''AES-128-GCM'', ''SHA-256''], recommend_for ?ps)]"
    using rec
    by (simp add: recommendations_def lift_store_def tiny_ops_def ps item_summary_def Let_def)
       (simp add: mk_primitive_def weak_session_def sample_event_def)
  have fetch: "fetch_inventory (file_env (map (cli_item_of (\<lambda>t. [])) (iv_items body))) ''inventory.json''
      = Inr (map (cli_item_of (\<lambda>t. [])) (iv_items body))"
    by (simp add: fetch_inventory_def file_env_def starts_with_def)
  from cli_recommends_like_server [OF latest session body items fetch] obtain lines where
    lines: "run_recommend (file_env (map (cli_item_of (\<lambda>t. [])) (iv_items body))) ''inventory.json'' None = Inr lines"
      "mset (map line_summary lines) = mset (map item_summary items)" by blast
  then have "map line_summary lines =
      [(''host:443'', ''tls_session'', [''AES-128-GCM'', ''SHA-256''], recommend_for ?ps)]"
    unfolding summary by (simp del: mset_map)
  with body lines(1) show ?thesis by (intro exI [of _ body] exI [of _ lines] conjI)
qed

text \<open>Within the range of a duration the offline deadline list is the server's for the same
  jurisdiction and horizon.\<close>

theorem cli_deadlines_like_server:
  assumes "agility_deadlines cal add_dur now \<lparr>dq_jurisdiction = j, dq_horizon_days = h\<rparr> = Some (n, items)"
  shows "run_deadlines cal add_dur now j (map_option (int \<circ> unat) h) = Some items \<and> n = length items"
proof -
  have "duration_days (int (unat d)) = Some (days_ns d)" for d :: u32
  proof -
    have "uint d < 2 ^ 32" using unsigned_less [of d, where ?'a = int] by simp
    then show ?thesis by (simp add: duration_days_def days_ns_def)
  qed
  then show ?thesis
    using assms by (auto simp: agility_deadlines_def run_deadlines_def Let_def split: option.splits)
qed

lemma cli_deadlines_like_server_witness:
  "\<exists>items. run_deadlines (\<lambda>y m d. int (10000 * y + 100 * m + d)) (\<lambda>a b. Some (a + b)) 20270101 None (Some 90) = Some items"
proof -
  let ?cal = "\<lambda>y m d. int (10000 * y + 100 * m + d)"
  obtain n items where "agility_deadlines ?cal (\<lambda>a b. Some (a + b)) 20270101
      \<lparr>dq_jurisdiction = None, dq_horizon_days = Some 90\<rparr> = Some (n, items)"
    by (simp add: agility_deadlines_def Let_def)
  from cli_deadlines_like_server [OF this] show ?thesis by auto
qed

end
