(* ===== verification/Module_Events.thy ===== *)
theory Module_Events
  imports Capture Net_Cli Ct_Scan Vault Chain Id Qkd Agility_Cli
begin

text \<open>
  What the inventory modules have in common: the shape of the events they emit, which the server's
  ingest accepts, and what the recommender of ree0xq-agility makes of the algorithm names in them.
\<close>

section \<open>Well-typed events\<close>

text \<open>A NIST level is given only to an algorithm known to be quantum-resistant.\<close>

definition well_typed_primitive :: "primitive \<Rightarrow> bool" where
  "well_typed_primitive p \<longleftrightarrow> pr_nist p = None \<or> pr_pq_resistant p = Some True"

definition module_kinds :: "(string \<times> asset_kind) list" where
  "module_kinds =
     [(''ree0xq-net'', TlsSession), (''ree0xq-cert'', X509Cert), (''ree0xq-chain'', BlockchainKey),
      (''ree0xq-id'', HsmSlot), (''ree0xq-qkd'', QkdKme)]"

definition well_typed_event :: "crypto_inventory_event \<Rightarrow> bool" where
  "well_typed_event ev \<longleftrightarrow>
     ev_schema_version ev = SCHEMA_VERSION \<and> ev_schema_minor ev = SCHEMA_MINOR \<and>
     (ev_source_module ev, as_kind (ev_asset ev)) \<in> set module_kinds \<and>
     po_score (ev_posture ev) \<le> 100 \<and> list_all well_typed_primitive (ev_primitives ev) \<and>
     (ev_channel_protection ev \<noteq> None \<longleftrightarrow> as_kind (ev_asset ev) = QkdKme)"

lemma well_typed_mk [simp]: "well_typed_primitive (mk_primitive r n pq l) \<longleftrightarrow> l = None \<or> pq = Some True"
  by (simp add: well_typed_primitive_def mk_primitive_def)

subsection \<open>TLS sessions\<close>

lemma tls12_typed: "list_all well_typed_primitive (primitives_from_tls12_ciphersuite name)"
  by (auto simp: primitives_from_tls12_ciphersuite_def split: option.splits)

lemma tls13_typed: "list_all well_typed_primitive (primitives_from_tls13_ciphersuite name)"
  by (auto simp: primitives_from_tls13_ciphersuite_def Let_def split: option.splits)

lemma suite_typed: "list_all well_typed_primitive (first_suite_primitives cs)"
  by (induction cs) (auto simp: tls12_typed tls13_typed split: option.splits)

lemma group_table_typed: "list_all (\<lambda>(_, _, pq, nist). nist = None \<or> pq = Some True) supported_group_table"
  and scheme_table_typed: "list_all (\<lambda>(_, _, pq, nist). nist = None \<or> pq = Some True) signature_scheme_table"
  by (simp_all add: supported_group_table_def signature_scheme_table_def)

lemma named_group_typed:
  assumes "primitive_from_supported_group name = Some p"
  shows "well_typed_primitive p"
proof -
  obtain algo pq nist where row: "map_of supported_group_table name = Some (algo, pq, nist)"
    and p: "pr_pq_resistant p = pq" "pr_nist p = nist"
    using assms by (auto simp: primitive_from_supported_group_def split: option.splits prod.splits)
  then show ?thesis
    using group_table_typed map_of_SomeD [OF row] by (auto simp: well_typed_primitive_def list_all_iff)
qed

lemma named_scheme_typed:
  assumes "primitive_from_signature_scheme name = Some p"
  shows "well_typed_primitive p"
proof -
  obtain algo pq nist where row: "map_of signature_scheme_table name = Some (algo, pq, nist)"
    and p: "p = mk_primitive Sig algo pq nist"
    using assms by (auto simp: primitive_from_signature_scheme_def split: option.splits prod.splits)
  then show ?thesis
    using scheme_table_typed map_of_SomeD [OF row] by (auto simp: list_all_iff)
qed

lemma summary_typed: "list_all well_typed_primitive (primitives_from_summary s)"
  using suite_typed [of "ciphersuites s"]
  by (auto simp: primitives_from_summary_def list_all_iff set_map_filter group_primitive_def scheme_primitive_def
      bind_eq_Some_conv named_group_typed named_scheme_typed)

lemma zgrab_typed: "list_all well_typed_primitive (primitives_from_zgrab r)"
proof -
  have "list_all well_typed_primitive (hello_primitives sh)" for sh
    by (auto simp: hello_primitives_def tls12_typed tls13_typed named_group_typed Let_def split: option.splits)
  moreover have "list_all well_typed_primitive (certificate_primitives cb)" for cb
    by (auto simp: certificate_primitives_def bind_eq_Some_conv parse_cert_sig_algorithm_def split: option.splits)
  ultimately show ?thesis by (auto simp: primitives_from_zgrab_def split: option.splits)
qed

lemma tls_event_typed: "list_all well_typed_primitive prims \<Longrightarrow> well_typed_event (tls_event host ident prims rationale now)"
  by (simp add: well_typed_event_def tls_event_def module_kinds_def MODULE_NAME_def)

definition live_typed :: "live_state \<Rightarrow> bool" where
  "live_typed s \<longleftrightarrow> list_all well_typed_event (lv_events s)"

lemma bump_typed [simp]: "live_typed (bump f s) = live_typed s"
  by (simp add: live_typed_def bump_def)

lemma emit_typed: "live_typed s \<Longrightarrow> live_typed (emit_handshake a b c d sm i now s)"
  by (auto simp: emit_handshake_def live_typed_def bump_def build_live_event_def tls_event_typed summary_typed
      Let_def split: option.splits prod.splits)

lemma frame_typed: "live_typed s \<Longrightarrow> live_typed (snd (handle_frame env frame i now s))"
  by (auto simp: handle_frame_def emit_typed Let_def split: option.splits sum.splits prod.splits)

lemma packet_typed: "live_typed s \<Longrightarrow> live_typed (observe_packet env pkt s)"
  using frame_typed [of "bump (os_packets_seen_update Suc) s" env]
  by (auto simp: observe_packet_def Let_def split: sum.splits prod.splits bool.splits) (metis snd_conv)+

lemma pcap_typed: "list_all well_typed_event (lv_events (observe_pcap_with_dedup env dedup pkts))"
proof -
  have "live_typed s \<Longrightarrow> live_typed (foldl (\<lambda>s p. observe_packet env p s) s pkts)" for s
    by (induction pkts arbitrary: s) (simp_all add: packet_typed)
  then show ?thesis
    unfolding observe_pcap_with_dedup_def live_typed_def by (simp add: live_typed_def)
qed

lemma interface_typed: "list_all well_typed_event (lv_events (snd (observe_interface_with_dedup env lib cfg dedup)))"
proof -
  have "live_typed s \<Longrightarrow> live_typed (snd (observe_interface env polls s))" for polls s
    by (induction polls arbitrary: s) (auto simp: packet_typed split: pcap_poll.splits)
  then show ?thesis
    unfolding observe_interface_with_dedup_def live_typed_def by (simp add: Let_def split: sum.splits)
qed

lemma loader_typed: "list_all well_typed_event (snd acc) \<Longrightarrow> list_all well_typed_event (snd (loader_run items acc))"
proof (induction items arbitrary: acc)
  case (Cons x items)
  obtain item now where x: "x = (item, now)" by (cases x)
  have "list_all well_typed_event (snd (loader_item item now acc))"
    using Cons.prems
    by (auto simp: loader_item_def build_loader_event_def build_live_event_def tls_event_typed summary_typed Let_def
        split: prod.splits option.splits sum.splits)
  then show ?case by (simp add: x Cons.IH)
qed simp

lemma ebpf_typed: "list_all well_typed_event (snd (live_iface_run host iface ebpf_object))"
  by (auto simp: live_iface_run_def loader_typed split: sum.splits)

subsection \<open>Certificates, addresses, keys and KMEs\<close>

lemma decompose_typed:
  "list_all (\<lambda>(sig, _, pq, _). pq_nist_level sig = None \<or> pq) decompose_table"
  by (simp add: decompose_table_def pq_nist_level_def)

lemma pq_nist_unknown: "map_of decompose_table sig = None \<Longrightarrow> pq_nist_level sig = None"
  by (auto simp: decompose_table_def pq_nist_level_def split: if_splits)

lemma certificate_typed: "list_all well_typed_primitive (Cert.primitives_for c)"
proof (cases "map_of decompose_table (sig_algo_name c)")
  case None
  then show ?thesis using pq_nist_unknown by (simp add: Cert.primitives_for_def decompose_sig_def Let_def)
next
  case (Some d)
  then have "pq_nist_level (sig_algo_name c) = None \<or> fst (snd d)"
    using decompose_typed map_of_SomeD [OF Some] by (cases d) (auto simp: list_all_iff)
  then show ?thesis
    using Some by (cases d) (auto simp: Cert.primitives_for_def decompose_sig_def Let_def split: option.splits)
qed

lemma cert_event_typed: "event_from_cert env cert = Inr ev \<Longrightarrow> well_typed_event ev"
  by (auto simp: event_from_cert_def well_typed_event_def module_kinds_def CERT_MODULE_NAME_def certificate_typed
      Let_def split: sum.splits)

lemma ok_events_typed: "list_all well_typed_event (ok_events env certs)"
proof -
  have "well_typed_event ev" if ev: "ev \<in> set (ok_events env certs)" for ev
  proof -
    obtain c where c: "(case event_from_cert env c of Inr ev \<Rightarrow> Some ev | Inl _ \<Rightarrow> None) = Some ev"
      using ev unfolding ok_events_def set_map_filter by blast
    show ?thesis
    proof (cases "event_from_cert env c")
      case (Inr e)
      then show ?thesis using c cert_event_typed [OF Inr] by simp
    qed (use c in simp)
  qed
  then show ?thesis by (simp add: list_all_iff)
qed

lemma cert_report_typed: "cert_report env der = Some ev \<Longrightarrow> well_typed_event ev"
  using cert_report_code [of env "\<lparr>pc_der = der, pc_source_path = None, pc_bundle_index = 0\<rparr>"]
  by (auto simp: cert_event_typed split: sum.splits)

lemma host_scan_typed: "list_all well_typed_event (snd (host_scan env roots))"
  by (auto simp: host_scan_entries scan_entries_files Let_def list_all_iff set_map_filter cert_report_typed
      split: prod.splits)

lemma foldl_snd_inv:
  assumes "\<And>s x. list_all Q (snd s) \<Longrightarrow> list_all Q (snd (f s x))" "list_all Q (snd s)"
  shows "list_all Q (snd (foldl f s xs))"
  using assms(2) by (induction xs arbitrary: s) (simp_all add: assms(1))

lemma decorate_typed: "well_typed_event (decorate domain ev) \<longleftrightarrow> well_typed_event ev"
  by (simp add: decorate_def well_typed_event_def)

lemma ct_domain_typed:
  assumes "list_all well_typed_event (snd (snd acc))"
  shows "list_all well_typed_event (snd (snd (ct_domain env backend acc domain)))"
proof -
  obtain st cursor out where acc: "acc = (st, cursor, out)" by (cases acc)
  have "list_all well_typed_event (id_events env backend domain i)" for i
    using ok_events_typed by (simp add: id_events_def list_all_iff decorate_typed)
  then have "list_all well_typed_event (concat (map (id_events env backend domain) ids))" for ids
    by (auto simp: list_all_iff)
  then show ?thesis using assms
    by (auto simp: acc ct_domain_def ct_entries_result Let_def split: sum.splits)
qed

lemma ct_scan_typed: "list_all well_typed_event (fst (snd (ct_scan env dec enc write cfg backend file)))"
proof -
  have "list_all well_typed_event (snd (snd (foldl (ct_domain env backend) acc domains)))"
    if "list_all well_typed_event (snd (snd acc))" for acc domains
    using that by (induction domains arbitrary: acc) (simp_all add: ct_domain_typed)
  from this [of "(ct_stats_default, cursor, [])" "cg_domains cfg" for cursor]
  show ?thesis by (auto simp: ct_scan_def split: sum.splits prod.splits) (metis snd_conv)+
qed

lemma vault_typed: "list_all well_typed_event (snd (vault_scan env backend mounts))"
proof -
  have emit: "list_all well_typed_event (snd acc) \<Longrightarrow> list_all well_typed_event (snd (foldl (\<lambda>(st, out) cert.
      case event_from_cert env cert of
        Inr ev \<Rightarrow> (vs_events_emitted_update Suc st, out @ [ev]) | Inl _ \<Rightarrow> (st, out)) acc certs))" for acc certs
    by (rule foldl_snd_inv) (auto simp: cert_event_typed split: sum.splits prod.splits)
  have "list_all well_typed_event (snd acc) \<Longrightarrow> list_all well_typed_event (snd (vault_serial env backend mount acc serial))"
    for acc mount serial
    using emit by (auto simp: vault_serial_def split: sum.splits prod.splits)
  then have "list_all well_typed_event (snd acc) \<Longrightarrow> list_all well_typed_event (snd (vault_mount env backend acc mount))"
    for acc mount
    by (auto simp: vault_mount_def Let_def split: sum.splits prod.splits intro!: foldl_snd_inv)
  then show ?thesis unfolding vault_scan_def by (intro foldl_snd_inv) simp_all
qed

lemma chain_event_typed:
  "list_all well_typed_primitive prims \<Longrightarrow> well_typed_event (build_event chain a prims rationale now)"
  by (simp add: well_typed_event_def build_event_def module_kinds_def CHAIN_MODULE_NAME_def)

lemma chain_primitives_typed:
  "list_all well_typed_primitive (script_primitives st)" "list_all well_typed_primitive eth_primitives"
  "list_all well_typed_primitive qrl_primitives"
  by (cases st) (simp_all add: script_primitives_def eth_primitives_def qrl_primitives_def)

lemma bitcoin_typed: "list_all well_typed_event (snd acc) \<Longrightarrow> list_all well_typed_event (snd (foldl (bitcoin_step now) acc as))"
  by (induction as arbitrary: acc)
     (auto simp: bitcoin_step_def bitcoin_event_def chain_event_typed chain_primitives_typed Let_def
       split: option.splits prod.splits)

lemma eth_typed: "list_all well_typed_event (snd acc) \<Longrightarrow> list_all well_typed_event (snd (foldl (eth_step now) acc as))"
  by (induction as arbitrary: acc)
     (auto simp: eth_step_def eth_event_def chain_event_typed chain_primitives_typed Let_def split: prod.splits)

lemma qrl_typed: "list_all well_typed_event (snd acc) \<Longrightarrow> list_all well_typed_event (snd (foldl (qrl_step now) acc as))"
  by (induction as arbitrary: acc)
     (auto simp: qrl_step_def qrl_event_def chain_event_typed chain_primitives_typed Let_def split: prod.splits)

lemma key_table_typed: "list_all (\<lambda>(_, ps). list_all well_typed_primitive ps) key_type_table"
  by (simp add: key_type_table_def id_sig_def hash_sha_def Let_def)

lemma key_typed: "list_all well_typed_primitive (id_primitives_for key_type bits)"
proof (cases "map_of key_type_table (to_upper key_type)")
  case (Some ps)
  then have "list_all well_typed_primitive ps"
    using key_table_typed map_of_SomeD [OF Some] by (auto simp: list_all_iff)
  with Some show ?thesis by (simp add: id_primitives_for_def id_sig_def id_encrypt_def Let_def)
qed (simp add: id_primitives_for_def id_sig_def id_encrypt_def Let_def)

lemma id_event_typed:
  "list_all well_typed_primitive prims \<Longrightarrow> well_typed_event (id_build_event ident host prims rationale now)"
  by (simp add: well_typed_event_def id_build_event_def module_kinds_def ID_MODULE_NAME_def)

lemma inventory_key_typed:
  "list_all well_typed_event (snd acc) \<Longrightarrow> list_all well_typed_event (snd (inventory_key now slot acc key))"
  by (auto simp: inventory_key_def key_event_def id_event_typed key_typed Let_def split: prod.splits)

lemma inventory_typed: "list_all well_typed_event (snd (inventory_scan now slots))"
  unfolding inventory_scan_def
  by (intro foldl_snd_inv)
     (auto simp: inventory_slot_def Let_def intro!: foldl_snd_inv inventory_key_typed split: prod.splits)

lemma pk_objects_typed:
  "list_all well_typed_event (snd acc) \<Longrightarrow>
     list_all well_typed_event (snd (snd (pk_objects now token slot class hs acc)))"
proof (induction hs arbitrary: acc)
  case (Cons h hs)
  obtain st out where acc: "acc = (st, out)" by (cases acc)
  have "well_typed_event ev" if "object_event now token slot class attrs = Some ev" for attrs ev
    using that by (auto simp: object_event_def id_event_typed key_typed Let_def split: option.splits prod.splits)
  then show ?case using Cons by (auto simp: acc Let_def split: sum.splits option.splits)
qed simp

lemma pk_class_typed:
  "list_all well_typed_event (snd acc) \<Longrightarrow> list_all well_typed_event (snd (snd (pk_class now slot token class acc)))"
  by (auto simp: pk_class_def pk_objects_typed split: sum.splits)

lemma pk_slot_typed:
  "list_all well_typed_event (snd acc) \<Longrightarrow> list_all well_typed_event (snd (snd (pk_slot_scan now pin slot acc)))"
  using pk_class_typed [of "(is_slots_seen_update Suc (fst acc), snd acc)" now slot _ PublicKey]
  by (auto simp: pk_slot_scan_def Let_def split: sum.splits prod.splits)
     (metis pk_class_typed snd_conv)+

lemma pk_slots_typed:
  "list_all well_typed_event (snd acc) \<Longrightarrow> list_all well_typed_event (snd (snd (pk_slots now pin only ss acc)))"
proof (induction ss arbitrary: acc)
  case (Cons s ss)
  then show ?case using pk_slot_typed [OF Cons.prems, of now pin s]
    by (auto split: sum.splits prod.splits)
qed simp

lemma pkcs11_typed: "list_all well_typed_event (snd (pkcs11_scan now pin only slots))"
  using pk_slots_typed [of "(id_stats_default, [])" now pin only]
  by (auto simp: pkcs11_scan_def split: sum.splits prod.splits) (metis snd_conv)+

lemma kms_typed: "list_all well_typed_event (snd (kms_scan now keys))"
proof -
  have "well_typed_event (kms_key_event now k)" for k
    unfolding kms_key_event_def by (rule id_event_typed) (rule key_typed)
  then show ?thesis by (auto simp: kms_scan_def list_all_iff split: sum.splits)
qed

lemma kme_event_typed: "well_typed_event (build_kme_event endpoint status health reason now)"
  by (cases health) (simp_all add: well_typed_event_def build_kme_event_def module_kinds_def SOURCE_MODULE_def)

text \<open>C21: the events of every module, on any input, are well typed: the current schema version, the asset
  kind of its module, a posture score of at most 100, NIST levels on quantum-resistant primitives only,
  and a channel protection block exactly on the QKD events.  The modules are the three TLS captures (files,
  interface, eBPF ring buffer) and zgrab2 records, the three certificate scans (host, transparency logs,
  Vault), the three address scans, the three key inventories (offline, PKCS 11, AWS KMS) and the QKD
  collector.\<close>

theorem module_events_well_typed:
  "list_all well_typed_event (lv_events (observe_pcap_with_dedup fenv dedup pkts)
     @ lv_events (snd (observe_interface_with_dedup fenv lib icfg dedup))
     @ snd (live_iface_run host iface ebpf_object)
     @ map (\<lambda>r. event_from_zgrab r now) records
     @ snd (host_scan cenv roots)
     @ fst (snd (ct_scan cenv dec enc write ctcfg backend file))
     @ snd (vault_scan cenv vault mounts)
     @ snd (bitcoin_scan now as) @ snd (eth_scan now as) @ snd (qrl_scan now as)
     @ snd (inventory_scan now slots) @ snd (pkcs11_scan now pin only pslots) @ snd (kms_scan now keys)
     @ concat (map (\<lambda>s. case fst (poll_once cl endpoint slave cfg s) of Inr ev \<Rightarrow> [ev] | Inl _ \<Rightarrow> []) polls))"
proof -
  have "list_all well_typed_event (map (\<lambda>r. event_from_zgrab r now) records)"
    unfolding event_from_zgrab_def build_tls_event_def list_all_iff by (auto intro!: tls_event_typed zgrab_typed)
  moreover have "list_all well_typed_event (snd (bitcoin_scan now as) @ snd (eth_scan now as) @ snd (qrl_scan now as))"
    unfolding bitcoin_scan_def eth_scan_def qrl_scan_def list_all_append
    by (intro conjI bitcoin_typed eth_typed qrl_typed) simp_all
  moreover have "list_all well_typed_event (case fst (poll_once cl endpoint slave cfg s) of Inr ev \<Rightarrow> [ev] | Inl _ \<Rightarrow> [])" for s
    by (auto simp: poll_once_def kme_event_typed split: sum.splits prod.splits)
  ultimately show ?thesis
    by (simp add: pcap_typed interface_typed ebpf_typed host_scan_typed ct_scan_typed vault_typed
        inventory_typed pkcs11_typed kms_typed)
      (simp add: list_all_iff)
qed

text \<open>The server ingests every batch of well-typed events whole, in order.\<close>

theorem well_typed_batch_ingested:
  assumes "list_all well_typed_event evs"
  shows "ingest_batch memory_ops evs st = (Inr (length evs), foldl memory_append st evs)"
proof -
  have "find (\<lambda>ev. ev_schema_version ev \<noteq> SCHEMA_VERSION) evs = None"
    using assms by (auto simp: find_None_iff list_all_iff well_typed_event_def)
  then show ?thesis by (simp add: ingest_batch_def ingest_def append_events_memory)
qed

lemma well_typed_batch_ingested_witness:
  "ingest_batch memory_ops [build_kme_event ''http://kme'' (build_status toy_kme ''M'' ''S'') HealthOk None 1, weak_session] memory_new
    = (Inr 2, foldl memory_append memory_new
        [build_kme_event ''http://kme'' (build_status toy_kme ''M'' ''S'') HealthOk None 1, weak_session])"
proof -
  have "well_typed_event weak_session"
    by (simp add: well_typed_event_def weak_session_def sample_event_def summary_typed module_kinds_def
        SCHEMA_VERSION_def SCHEMA_MINOR_def)
  then have "list_all well_typed_event
      [build_kme_event ''http://kme'' (build_status toy_kme ''M'' ''S'') HealthOk None 1, weak_session]"
    by (simp add: kme_event_typed)
  from well_typed_batch_ingested [OF this, of memory_new] show ?thesis by simp
qed

section \<open>What the recommender says of each module's names\<close>

lemma hash_never_replaced [simp]: "recommend_one (mk_primitive Hash n pq l) = []" "recommend_one (mk_primitive Kex n pq l) = []"
  by (simp_all add: recommend_one_def mk_primitive_def)

lemma no_rule_none: "no_rule (pr_algorithm p) \<Longrightarrow> recommend_one p = []"
  using no_rule_guessed [of p] by (simp add: guessed_def recommend_one_def no_rule_def split: primitive_role.splits)

lemma tls12_encrypt_replaced:
  "tls12_encrypt name = Some (k, pq) \<Longrightarrow> no_rule k \<or> k \<in> {''AES-128-GCM'', ''3DES'', ''RC4''}"
  using suite_names(1) by (auto simp: tls12_encrypt_def split: if_splits)

text \<open>For the primitives of a TLS 1.2 suite the recommender replaces at most the cipher (AES-128-GCM, 3DES
  or RC4): the suite's signature, though always classical, never gets a replacement, because the names
  \<open>ECDSA\<close>, \<open>RSA\<close> and \<open>DSA\<close> match none of the recommender's prefixes.\<close>

theorem tls12_only_cipher_replaced:
  "set (map rp_replaces (recommend_for (primitives_from_tls12_ciphersuite name))) \<subseteq> {''AES-128-GCM'', ''3DES'', ''RC4''}
   \<and> filter (\<lambda>p. pr_role p \<in> {Kex, Sig} \<and> pr_pq_resistant p \<noteq> Some False) (primitives_from_tls12_ciphersuite name) = []"
proof
  have "rp_replaces r \<in> {''AES-128-GCM'', ''3DES'', ''RC4''}"
    if p: "p \<in> set (primitives_from_tls12_ciphersuite name)" and r: "r \<in> set (recommend_one p)" for p r
  proof -
    have "\<not> no_rule (pr_algorithm p)" using r no_rule_none by force
    moreover have "pr_algorithm p = rp_replaces r" using recommend_one_replaces [OF r] by simp
    ultimately show ?thesis
      using p r
      by (auto simp: primitives_from_tls12_ciphersuite_def split: option.splits
          dest: tls12_sig_names [OF sym] tls12_sig_names tls12_encrypt_replaced [OF sym] tls12_encrypt_replaced)
  qed
  then show "set (map rp_replaces (recommend_for (primitives_from_tls12_ciphersuite name))) \<subseteq> {''AES-128-GCM'', ''3DES'', ''RC4''}"
    unfolding set_map set_recommend_for by blast
  show "filter (\<lambda>p. pr_role p \<in> {Kex, Sig} \<and> pr_pq_resistant p \<noteq> Some False) (primitives_from_tls12_ciphersuite name) = []"
    by (auto simp: primitives_from_tls12_ciphersuite_def mk_primitive_def filter_empty_conv split: option.splits)
qed

definition replaced_certificate_names :: "string list" where
  "replaced_certificate_names =
     [''RSA-PKCS1-SHA1'', ''RSA-PKCS1-SHA256'', ''RSA-PKCS1-SHA384'', ''RSA-PKCS1-SHA512'', ''RSA-PSS'', ''Ed25519'', ''Ed448'']"

lemma certificate_table_replaced:
  "list_all (\<lambda>(sig, algo, pq, h). (recommend_one (mk_primitive Sig algo (Some pq) l) \<noteq> []) = (sig \<in> set replaced_certificate_names))
     decompose_table"
  by (simp add: decompose_table_def replaced_certificate_names_def recommend_defs mk_primitive_def starts_with_def Let_def)

lemma unknown_not_replaced:
  "recommend_one (mk_primitive Sig ''unknown'' pq l) = []" "''unknown'' \<notin> set replaced_certificate_names"
  "map_of decompose_table ''unknown'' = None"
  by (simp_all add: recommend_defs mk_primitive_def starts_with_def replaced_certificate_names_def decompose_table_def Let_def)

lemma sig_algo_known: "sig_algo_name c = ''unknown'' \<or> map_of decompose_table (sig_algo_name c) \<noteq> None"
proof -
  have "list_all (\<lambda>(_, n). map_of decompose_table n \<noteq> None) sig_oid_table"
    by (simp add: sig_oid_table_def decompose_table_def del: not_None_eq)
  then show ?thesis
    by (auto simp: sig_algo_name_def list_all_iff split: option.split dest!: map_of_SomeD)
qed

text \<open>A certificate gets a recommendation exactly when its signature algorithm is an RSA or an EdDSA
  one: an ECDSA certificate, reported as \<open>ECDSA\<close> and not quantum-resistant, gets none.\<close>

theorem certificate_recommendations_exact:
  "recommend_for (Cert.primitives_for c) \<noteq> [] \<longleftrightarrow> sig_algo_name c \<in> set replaced_certificate_names"
proof -
  obtain algo pq hash where d: "decompose_sig (sig_algo_name c) = (algo, pq, hash)" by (metis prod_cases3)
  have "recommend_for (Cert.primitives_for c) \<noteq> [] \<longleftrightarrow>
      recommend_one (mk_primitive Sig algo (Some pq) (pq_nist_level (sig_algo_name c))) \<noteq> []"
    by (auto simp: recommend_for_Nil_iff Cert.primitives_for_def d Let_def split: option.splits)
  also have "\<dots> \<longleftrightarrow> sig_algo_name c \<in> set replaced_certificate_names"
  proof (cases "map_of decompose_table (sig_algo_name c)")
    case None
    then have "sig_algo_name c = ''unknown''" using sig_algo_known by blast
    moreover from this None d have "algo = ''unknown''" by (simp add: decompose_sig_def)
    ultimately show ?thesis by (simp only: unknown_not_replaced) simp
  next
    case (Some e)
    then have "(sig_algo_name c, algo, pq, hash) \<in> set decompose_table"
      using d map_of_SomeD [OF Some] by (simp add: decompose_sig_def)
    then show ?thesis using certificate_table_replaced [of "pq_nist_level (sig_algo_name c)"] by (auto simp: list_all_iff)
  qed
  finally show ?thesis .
qed

lemma aes_name: "''AES-'' @ show_nat b = ''AES-128'' \<longleftrightarrow> b = 128"
proof -
  have "show_nat 128 = ''128''" by (simp add: show_nat.simps digit_char_def char_of_eq_iff)
  then show ?thesis using show_nat_inj [of b 128] by auto
qed

lemma aes_names: "''AES-'' @ show_nat b \<noteq> ''AES-128-GCM''" "''AES-'' @ show_nat b \<noteq> ''AES-CBC''"
  using show_nat_digits [of b] by (auto simp: is_digit_def)

text \<open>An HSM's AES key gets a recommendation exactly at 128 bits, while it is reported as not
  quantum-resistant below 256: at 192 bits it is reported without a way out; blockchain keys get one on
  Bitcoin and Ethereum, and none on QRL, whose signatures are hash-based.\<close>

theorem key_recommendations_exact:
  "(recommend_for (id_primitives_for ''AES'' (Some b)) \<noteq> [] \<longleftrightarrow> b = 128)
   \<and> map pr_pq_resistant (id_primitives_for ''AES'' (Some b)) = [Some (256 \<le> b)]
   \<and> recommend_for (script_primitives st) \<noteq> [] \<and> recommend_for eth_primitives \<noteq> [] \<and> recommend_for qrl_primitives = []"
proof (intro conjI)
  have prims: "id_primitives_for ''AES'' (Some b) = [id_encrypt (''AES-'' @ show_nat b) (256 \<le> b)]"
    by (simp add: id_primitives_for_def to_upper_def ascii_upper_chars Let_def)
  have "\<not> starts_with (''AES-'' @ show_nat b) ''RC4''" by (simp add: starts_with_def)
  then show "recommend_for (id_primitives_for ''AES'' (Some b)) \<noteq> [] \<longleftrightarrow> b = 128"
    using aes_name [of b] aes_names [of b]
    by (simp add: prims recommend_for_Nil_iff recommend_one_def recommend_for_encrypt_def id_encrypt_def mk_primitive_def Let_def)
  show "map pr_pq_resistant (id_primitives_for ''AES'' (Some b)) = [Some (256 \<le> b)]"
    by (simp add: prims id_encrypt_def mk_primitive_def)
  show "recommend_for (script_primitives st) \<noteq> []" "recommend_for eth_primitives \<noteq> []" "recommend_for qrl_primitives = []"
    by (cases st) (simp_all add: script_primitives_def eth_primitives_def qrl_primitives_def recommend_for_Nil_iff
        recommend_defs mk_primitive_def starts_with_def Let_def)
qed

end
