(* ===== verification/App.thy ===== *)
theory App
  imports Server Vault
begin

text \<open>
  The running collector: the shared state of src/crates/ree0xq-server/src/lib.rs, the dispatch of a
  request to its handler over that state, and the start-up of main.rs from the command line to the
  listeners.  The extractors of the HTTP framework are fields of \<open>app_env\<close>: they turn
  a request into a handler's argument or reject it with a status.  What a request finds in the outside world
  (its arrival on the monotonic and on the wall clock, a fresh UUID, the key generator) is a \<open>tick\<close>.
\<close>

section \<open>State\<close>

record ('s, 'k, 'c) app_state =
  ap_store :: 's
  ap_default_deadline :: timestamp
  ap_horizon_years :: f32
  ap_ca :: "('k, 'c) ca"
  ap_tokens :: token_store
  ap_admin_token :: "string option"
  ap_rate_limiter :: rate_limiter

text \<open>2030-01-01T00:00:00Z.\<close>

definition cnsa_deadline :: timestamp where
  "cnsa_deadline = 1893456000 * 1000000000"

definition with_store ::
  "('k, 'c) pki \<Rightarrow> file_io \<Rightarrow> timestamp \<Rightarrow> 's \<Rightarrow> string \<Rightarrow> string option \<Rightarrow> files \<Rightarrow>
   (string, ('s, 'k, 'c) app_state) result \<times> files" where
  "with_store pki io now store ca_dir admin_token fs =
     (case load_or_init pki io now ca_dir fs of
        (Inl e, fs') \<Rightarrow> (Inl e, fs')
      | (Inr ca, fs') \<Rightarrow>
          (Inr \<lparr>ap_store = store, ap_default_deadline = cnsa_deadline, ap_horizon_years = 5, ap_ca = ca,
             ap_tokens = Map.empty, ap_admin_token = admin_token, ap_rate_limiter = limiter_defaults\<rparr>, fs'))"

definition new_in_memory ::
  "('k, 'c) pki \<Rightarrow> file_io \<Rightarrow> timestamp \<Rightarrow> string \<Rightarrow> string option \<Rightarrow> files \<Rightarrow>
   (string, (memory_store, 'k, 'c) app_state) result \<times> files" where
  "new_in_memory pki io now ca_dir admin_token fs = with_store pki io now memory_new ca_dir admin_token fs"

definition rollup_of :: "('s, 'k, 'c) app_state \<Rightarrow> rollup_config" where
  "rollup_of st = \<lparr>rc_deadline = ap_default_deadline st, rc_horizon_years = ap_horizon_years st\<rparr>"

section \<open>Requests\<close>

record app_env =
  xt_event :: "http_request \<Rightarrow> (status_code, crypto_inventory_event) result"
  xt_batch :: "http_request \<Rightarrow> (status_code, crypto_inventory_event list) result"
  xt_limit :: "http_request \<Rightarrow> (status_code, nat option) result"
  xt_deadlines :: "http_request \<Rightarrow> (status_code, deadlines_query) result"
  xt_compat :: "http_request \<Rightarrow> (status_code, compat_query) result"
  xt_roadmap :: "http_request \<Rightarrow> (status_code, milestone list) result"
  xt_issue :: "http_request \<Rightarrow> (status_code, issue_token_request) result"
  xt_enrol :: "http_request \<Rightarrow> (status_code, enrol_request) result"
  xt_calendar :: calendar
  xt_add_dur :: "timestamp \<Rightarrow> int \<Rightarrow> timestamp option"
  xt_order :: "plan_state \<Rightarrow> plan_state"

record ('k, 'c) tick =
  tk_instant :: nat
  tk_now :: timestamp
  tk_later :: timestamp
  tk_uuid :: string
  tk_pki :: "('k, 'c) pki"

datatype app_body =
    HealthText string
  | EventStored status_code
  | BatchStored nat
  | EventsPage events_response
  | InventoryPage inventory_response
  | BlockedPage inventory_response
  | PosturePage org_posture
  | LinksPage nat "qkd_link_summary list"
  | RecommendationsPage nat "recommendation_item list"
  | DeadlinesPage nat "deadline_entry list"
  | CompatPage nat "compat_entry list"
  | RoadmapPage roadmap_projection
  | TokenIssued issued_token
  | CertIssued agent_cert

text \<open>\<open>Rejected\<close> is an answer of the framework, \<open>Panicked\<close> a handler that does not answer.\<close>

datatype app_reply =
    Answered app_body
  | Failing status_code api_error
  | Rejected status_code
  | Panicked

definition answer :: "('a \<Rightarrow> app_body) \<Rightarrow> 'a response \<Rightarrow> app_reply" where
  "answer f r = (case r of Inr a \<Rightarrow> Answered (f a) | Inl (code, e) \<Rightarrow> Failing code e)"

definition extracted :: "(status_code, 'a) result \<Rightarrow> 'st \<Rightarrow> ('a \<Rightarrow> app_reply \<times> 'st) \<Rightarrow> app_reply \<times> 'st" where
  "extracted x st run = (case x of Inl code \<Rightarrow> (Rejected code, st) | Inr a \<Rightarrow> run a)"

text \<open>The handlers that change the state.\<close>

definition store_handler ::
  "('a \<Rightarrow> app_body) \<Rightarrow> ('s \<Rightarrow> 'a response \<times> 's) \<Rightarrow> ('s, 'k, 'c) app_state \<Rightarrow> app_reply \<times> ('s, 'k, 'c) app_state" where
  "store_handler f h st = (case h (ap_store st) of (r, s) \<Rightarrow> (answer f r, st\<lparr>ap_store := s\<rparr>))"

definition token_handler_run ::
  "('a \<Rightarrow> app_body) \<Rightarrow> (token_store \<Rightarrow> 'a response \<times> token_store) \<Rightarrow> ('s, 'k, 'c) app_state \<Rightarrow>
   app_reply \<times> ('s, 'k, 'c) app_state" where
  "token_handler_run f h st = (case h (ap_tokens st) of (r, t) \<Rightarrow> (answer f r, st\<lparr>ap_tokens := t\<rparr>))"

definition app_handle ::
  "app_env \<Rightarrow> 's store_ops \<Rightarrow> ('k, 'c) tick \<Rightarrow> handler \<Rightarrow> http_request \<Rightarrow> ('s, 'k, 'c) app_state \<Rightarrow>
   app_reply \<times> ('s, 'k, 'c) app_state" where
  "app_handle env ops tk h rq st =
     (case h of
        Healthz \<Rightarrow> (Answered (HealthText healthz), st)
      | EnrolAgent \<Rightarrow> extracted (xt_enrol env rq) st (\<lambda>req.
          token_handler_run CertIssued
            (enrol (sign_agent_cert (tk_pki tk) (ap_ca st) (tk_later tk)) (rq_headers rq) req (tk_now tk)) st)
      | IssueBootstrapToken \<Rightarrow> extracted (xt_issue env rq) st (\<lambda>req.
          token_handler_run TokenIssued
            (issue_bootstrap_token (ap_admin_token st) (rq_headers rq) req (tk_uuid tk) (tk_now tk) (tk_later tk)) st)
      | IngestOne \<Rightarrow> extracted (xt_event env rq) st (\<lambda>ev. store_handler EventStored (ingest_one ops ev) st)
      | IngestBatch \<Rightarrow> extracted (xt_batch env rq) st (\<lambda>evs. store_handler BatchStored (ingest_batch ops evs) st)
      | ListEvents \<Rightarrow> extracted (xt_limit env rq) st (\<lambda>n.
          (answer EventsPage (list_events ops n (ap_store st)), st))
      | Inventory \<Rightarrow> (answer InventoryPage (inventory ops (rollup_of st) (tk_now tk) (ap_store st)), st)
      | OrgPosture \<Rightarrow> (answer PosturePage (org_posture_handler ops (rollup_of st) (tk_now tk) (ap_store st)), st)
      | QkdLinks \<Rightarrow> (answer (\<lambda>(n, ls). LinksPage n ls) (qkd_links ops (ap_store st)), st)
      | BlockedAssets \<Rightarrow>
          (answer BlockedPage (blocked_assets ops (rollup_of st) (tk_now tk) (ap_store st)), st)
      | Recommendations \<Rightarrow>
          (answer (\<lambda>(n, items). RecommendationsPage n items) (recommendations ops (ap_store st)), st)
      | AgilityDeadlines \<Rightarrow> extracted (xt_deadlines env rq) st (\<lambda>q.
          (case agility_deadlines (xt_calendar env) (xt_add_dur env) (tk_now tk) q of
             None \<Rightarrow> Panicked | Some (n, ds) \<Rightarrow> Answered (DeadlinesPage n ds), st))
      | AgilityCompat \<Rightarrow> extracted (xt_compat env rq) st (\<lambda>q.
          (answer (\<lambda>(n, items). CompatPage n items) (agility_compat q), st))
      | AgilityRoadmap \<Rightarrow> extracted (xt_roadmap env rq) st (\<lambda>plan.
          (answer RoadmapPage
             (agility_roadmap (xt_order env) ops (rollup_of st) (tk_now tk) plan (ap_store st)), st)))"

definition app_serve ::
  "app_env \<Rightarrow> 's store_ops \<Rightarrow> route list \<Rightarrow> ('k, 'c) tick \<Rightarrow> http_request \<Rightarrow> ('s, 'k, 'c) app_state \<Rightarrow>
   app_reply \<times> ('s, 'k, 'c) app_state" where
  "app_serve env ops rs tk rq st =
     (case serve rs (tk_instant tk) rq (ap_rate_limiter st) of
        (Inl code, l) \<Rightarrow> (Rejected code, st\<lparr>ap_rate_limiter := l\<rparr>)
      | (Inr h, l) \<Rightarrow> app_handle env ops tk h rq (st\<lparr>ap_rate_limiter := l\<rparr>))"

text \<open>A history: each request with its tick and the listener it arrived on.\<close>

type_synonym ('k, 'c) arrival = "('k, 'c) tick \<times> route list \<times> http_request"

fun app_run ::
  "app_env \<Rightarrow> 's store_ops \<Rightarrow> ('k, 'c) arrival list \<Rightarrow> ('s, 'k, 'c) app_state \<Rightarrow>
   app_reply list \<times> ('s, 'k, 'c) app_state" where
  "app_run env ops [] st = ([], st)"
| "app_run env ops ((tk, rs, rq) # rqs) st =
     (case app_serve env ops rs tk rq st of (reply, st1) \<Rightarrow>
        (case app_run env ops rqs st1 of (replies, st2) \<Rightarrow> (reply # replies, st2)))"

section \<open>Start-up\<close>

text \<open>\<open>Arc<dyn EventStore>\<close>: one of the two stores.  \<open>fails\<close> is the database's answer to a
  statement; a transaction that fails leaves the tables as they were.\<close>

datatype any_store = InMemory memory_store | Postgres pg_store

definition any_ops :: "(pg_store \<Rightarrow> string option) \<Rightarrow> any_store store_ops" where
  "any_ops fails =
     \<lparr>so_append = (\<lambda>ev s. case s of
          InMemory m \<Rightarrow> (Inr (), InMemory (memory_append m ev))
        | Postgres p \<Rightarrow> (case fails p of Some e \<Rightarrow> (Inl e, s) | None \<Rightarrow> (Inr (), Postgres (pg_append p ev)))),
      so_recent = (\<lambda>n s. case s of
          InMemory m \<Rightarrow> Inr (memory_recent m n)
        | Postgres p \<Rightarrow> (case fails p of Some e \<Rightarrow> Inl e | None \<Rightarrow> Inr (pg_recent p n))),
      so_latest = (\<lambda>s. case s of
          InMemory m \<Rightarrow> Inr (memory_latest_per_asset m)
        | Postgres p \<Rightarrow> (case fails p of Some e \<Rightarrow> Inl e | None \<Rightarrow> Inr (pg_latest_per_asset p)))\<rparr>"

record pg_driver =
  pd_connect :: "string \<Rightarrow> (string, pg_store) result"
  pd_migrate :: "pg_store \<Rightarrow> (string, pg_store) result"

definition pg_sanitised_url :: "string \<Rightarrow> string" where
  "pg_sanitised_url url =
     (case find_sub ''://'' url of
        Some scheme_end \<Rightarrow>
          (let rest = drop (scheme_end + 3) url in
           case find_sub ''@'' rest of
             Some a \<Rightarrow>
               (case find_sub '':'' (take a rest) of
                  Some colon \<Rightarrow> take (scheme_end + 3) url @ take colon rest @ drop a rest
                | None \<Rightarrow> url)
           | None \<Rightarrow> url)
      | None \<Rightarrow> url)"

text \<open>It is the sanitiser of the Vault scanner.\<close>

lemma pg_sanitised_url_eq: "pg_sanitised_url = sanitised_url"
  by (simp add: fun_eq_iff pg_sanitised_url_def sanitised_url_def)

definition pg_connect :: "pg_driver \<Rightarrow> string \<Rightarrow> (string, pg_store) result" where
  "pg_connect drv url =
     (case pd_connect drv url of
        Inl _ \<Rightarrow> Inl (''connect to Postgres at '' @ pg_sanitised_url url)
      | Inr p \<Rightarrow>
          (case pd_migrate drv p of
             Inl _ \<Rightarrow> Inl ''run ree0xq-server migrations''
           | Inr p' \<Rightarrow> Inr p'))"

definition open_store :: "pg_driver \<Rightarrow> string option \<Rightarrow> (string, any_store) result" where
  "open_store drv database_url =
     (case database_url of
        Some url \<Rightarrow>
          (case pg_connect drv url of Inl _ \<Rightarrow> Inl ''init Postgres event store'' | Inr p \<Rightarrow> Inr (Postgres p))
      | None \<Rightarrow> Inr (InMemory memory_new))"

record ('k, 'c, 'd, 'l) boot_env =
  bo_pki :: "('k, 'c) pki"
  bo_io :: file_io
  bo_tls :: "('d, 'l) tls_env"
  bo_is_ip :: "string \<Rightarrow> bool"
  bo_is_addr :: "string \<Rightarrow> bool"
  bo_driver :: pg_driver
  bo_parse_time :: "string \<Rightarrow> (string, timestamp) result"
  bo_now :: timestamp

definition configure ::
  "(string \<Rightarrow> (string, timestamp) result) \<Rightarrow> args \<Rightarrow> ('s, 'k, 'c) app_state \<Rightarrow> (string, ('s, 'k, 'c) app_state) result" where
  "configure parse_time a st =
     rbind (case ar_deadline a of
         None \<Rightarrow> Inr st
       | Some d \<Rightarrow> rbind (parse_time d) (\<lambda>t. Inr (st\<lparr>ap_default_deadline := t\<rparr>))) (\<lambda>st.
     Inr (st\<lparr>ap_horizon_years := ar_horizon_years a\<rparr>))"

text \<open>\<open>main\<close> up to the point where the listeners run.  \<open>None\<close> is the panic of \<open>sign_server_cert\<close>.\<close>

definition server_main ::
  "('k, 'c, 'd, 'l) boot_env \<Rightarrow> args \<Rightarrow> files \<Rightarrow>
   (string, ('d, 'l) listener list \<times> (any_store, 'k, 'c) app_state) result option \<times> files" where
  "server_main b a fs =
     (case open_store (bo_driver b) (ar_database_url a) of
        Inl e \<Rightarrow> (Some (Inl e), fs)
      | Inr store \<Rightarrow>
          (case with_store (bo_pki b) (bo_io b) (bo_now b) store (ar_ca_dir a) (ar_admin_token a) fs of
             (Inl e, fs1) \<Rightarrow> (Some (Inl e), fs1)
           | (Inr st0, fs1) \<Rightarrow>
               (case configure (bo_parse_time b) a st0 of
                  Inl e \<Rightarrow> (Some (Inl e), fs1)
                | Inr st \<Rightarrow>
                    (map_option (\<lambda>r. rbind r (\<lambda>lns. Inr (lns, st)))
                       (start_listeners (bo_pki b) (bo_tls b) (bo_is_ip b) (bo_is_addr b) (ap_ca st) (bo_now b) a),
                     fs1))))"

text \<open>The lives of a server on one disk: each is a start and, when it succeeds, a history of requests.\<close>

fun server_lives ::
  "app_env \<Rightarrow> (pg_store \<Rightarrow> string option) \<Rightarrow>
   (('k, 'c, 'd, 'l) boot_env \<times> args \<times> ('k, 'c) arrival list) list \<Rightarrow> files \<Rightarrow> app_reply list list" where
  "server_lives env fails [] fs = []"
| "server_lives env fails ((b, a, rqs) # lives) fs =
     (case server_main b a fs of
        (Some (Inr (_, st)), fs1) \<Rightarrow>
          fst (app_run env (any_ops fails) rqs st) # server_lives env fails lives fs1
      | (_, fs1) \<Rightarrow> [] # server_lives env fails lives fs1)"

end
