(* ===== verification/App_History.thy ===== *)
theory App_History
  imports App
begin

text \<open>
  Histories of requests to the running collector of \<open>App\<close>, from its start: what they can
  obtain from the token endpoints, what the inventory shows afterwards, and what stays the same across
  restarts.
\<close>

section \<open>The token budget of an agent\<close>

text \<open>The live tokens of an agent, and the certificates and tokens the replies of a history hand out.\<close>

definition live_tokens :: "string \<Rightarrow> token_store \<Rightarrow> nat" where
  "live_tokens a tokens = card {t. \<exists>e. tokens t = Some e \<and> te_agent_id e = a}"

definition certs_for :: "string \<Rightarrow> app_reply list \<Rightarrow> nat" where
  "certs_for a replies =
     length (filter (\<lambda>r. case r of Answered (CertIssued c) \<Rightarrow> ac_agent_id c = a | _ \<Rightarrow> False) replies)"

definition tokens_for :: "string \<Rightarrow> app_reply list \<Rightarrow> nat" where
  "tokens_for a replies =
     length (filter (\<lambda>r. case r of Answered (TokenIssued i) \<Rightarrow> it_agent_id i = a | _ \<Rightarrow> False) replies)"

definition presents_admin_secret :: "string option \<Rightarrow> http_request \<Rightarrow> bool" where
  "presents_admin_secret admin rq \<longleftrightarrow>
     (case admin of None \<Rightarrow> False
      | Some secret \<Rightarrow> (case header_str (rq_headers rq) ADMIN_HEADER of None \<Rightarrow> [] | Some v \<Rightarrow> v) = secret)"

lemma answer_cases:
  "answer f r = Answered b \<longleftrightarrow> (\<exists>a. r = Inr a \<and> b = f a)"
  "answer f r \<noteq> Panicked" "answer f r \<noteq> Rejected c"
  by (auto simp: answer_def split: sum.splits)

lemma live_tokens_mono:
  assumes "finite (dom tokens)" "\<And>t e. tokens' t = Some e \<Longrightarrow> tokens t = Some e"
  shows "finite (dom tokens')" "live_tokens a tokens' \<le> live_tokens a tokens"
proof -
  have d: "dom tokens' \<subseteq> dom tokens" using assms(2) by blast
  then show "finite (dom tokens')" using assms(1) finite_subset by blast
  have "finite {t. \<exists>e. tokens t = Some e \<and> te_agent_id e = a}"
    by (rule finite_subset [OF _ assms(1)]) auto
  moreover have "{t. \<exists>e. tokens' t = Some e \<and> te_agent_id e = a} \<subseteq> {t. \<exists>e. tokens t = Some e \<and> te_agent_id e = a}"
    using assms(2) by blast
  ultimately show "live_tokens a tokens' \<le> live_tokens a tokens"
    unfolding live_tokens_def by (rule card_mono)
qed

lemma live_tokens_update:
  assumes "finite (dom tokens)"
  shows "live_tokens a (tokens(t \<mapsto> e)) \<le> live_tokens a tokens + (if te_agent_id e = a then 1 else 0)"
    and "tokens t = Some e \<Longrightarrow> te_agent_id e = a \<Longrightarrow> Suc (live_tokens a (tokens(t := None))) = live_tokens a tokens"
proof -
  let ?S = "{t. \<exists>e. tokens t = Some e \<and> te_agent_id e = a}"
  have fin: "finite ?S" by (rule finite_subset [OF _ assms]) auto
  have "{u. \<exists>x. (tokens(t \<mapsto> e)) u = Some x \<and> te_agent_id x = a} \<subseteq> (if te_agent_id e = a then insert t ?S else ?S)"
    by auto
  then have "live_tokens a (tokens(t \<mapsto> e)) \<le> card (if te_agent_id e = a then insert t ?S else ?S)"
    unfolding live_tokens_def using fin by (intro card_mono) auto
  also have "\<dots> \<le> live_tokens a tokens + (if te_agent_id e = a then 1 else 0)"
    unfolding live_tokens_def using fin by (auto simp: card_insert_if)
  finally show "live_tokens a (tokens(t \<mapsto> e)) \<le> live_tokens a tokens + (if te_agent_id e = a then 1 else 0)" .
  assume t: "tokens t = Some e" "te_agent_id e = a"
  then have "{u. \<exists>x. (tokens(t := None)) u = Some x \<and> te_agent_id x = a} = ?S - {t}" "t \<in> ?S" by auto
  then show "Suc (live_tokens a (tokens(t := None))) = live_tokens a tokens"
    unfolding live_tokens_def using card_Suc_Diff1 [OF fin] by simp
qed

lemma issue_ok:
  assumes "issue_bootstrap_token admin hs req uuid now now' tokens = (Inr i, tokens')"
  shows "(\<exists>secret. admin = Some secret \<and> (case header_str hs ADMIN_HEADER of None \<Rightarrow> [] | Some v \<Rightarrow> v) = secret)"
    and "tokens' = (prune_expired tokens now)(uuid \<mapsto> \<lparr>te_agent_id = it_agent_id i, te_expires_at = it_expires_at i\<rparr>)"
  using assms
  by (auto simp: issue_bootstrap_token_def api_fail_def Let_def issue_def constant_time_eq_iff
      split: option.splits if_splits)

lemma issue_failed:
  "issue_bootstrap_token admin hs req uuid now now' tokens = (Inl e, tokens') \<Longrightarrow> tokens' = tokens"
  by (auto simp: issue_bootstrap_token_def api_fail_def Let_def issue_def split: option.splits if_splits)

lemma prune_expired_store: "prune_expired tokens now t = Some e \<Longrightarrow> tokens t = Some e"
  by (auto simp: prune_expired_def split: option.splits if_splits)

text \<open>The token budget of an agent: its live tokens and its certificates so far never exceed the
  tokens issued for it.\<close>

lemma enrol_budget:
  assumes "enrol (sign_agent_cert pki ca now') hs req now tokens = (r, tokens')" "finite (dom tokens)"
  shows "finite (dom tokens') \<and> live_tokens a tokens' + certs_for a [answer CertIssued r] \<le> live_tokens a tokens"
proof (cases r)
  case (Inl e)
  then show ?thesis
    using live_tokens_mono [OF assms(2), of tokens'] enrol_store [of "sign_agent_cert pki ca now'" hs req now tokens] assms(1)
    by (cases e) (auto simp: answer_def certs_for_def)
next
  case (Inr c)
  obtain token e where *: "tokens token = Some e" "te_agent_id e = er_agent_id req" "tokens' = tokens(token := None)"
    "sign_agent_cert pki ca now' (er_agent_id req)
       (case er_validity_days req of None \<Rightarrow> DEFAULT_AGENT_VALIDITY_DAYS | Some d \<Rightarrow> d) = Inr c"
    using enrol_ok_token [of "sign_agent_cert pki ca now'" hs req now tokens c tokens'] assms(1) Inr by metis
  then have c: "ac_agent_id c = er_agent_id req" by (auto simp: sign_agent_cert_def rbind_eq_Inr)
  have sub: "tokens' t = Some x \<Longrightarrow> tokens t = Some x" for t x using *(3) by (simp split: if_splits)
  have "finite (dom tokens') \<and> live_tokens a tokens' \<le> live_tokens a tokens"
    using live_tokens_mono [OF assms(2) sub] by blast
  moreover have "Suc (live_tokens a tokens') = live_tokens a tokens" if "er_agent_id req = a"
    using live_tokens_update(2) [OF assms(2) *(1), of a] * that by simp
  ultimately show ?thesis using c Inr by (auto simp: answer_def certs_for_def)
qed

lemma issue_budget:
  assumes "issue_bootstrap_token admin hs req uuid now now' tokens = (r, tokens')" "finite (dom tokens)"
  shows "finite (dom tokens') \<and> live_tokens a tokens' \<le> live_tokens a tokens + tokens_for a [answer TokenIssued r]"
proof (cases r)
  case (Inl e)
  then show ?thesis using issue_failed [OF assms(1) [unfolded Inl]] assms(2) by simp
next
  case (Inr i)
  note ok = issue_ok [OF assms(1) [unfolded Inr]]
  have p: "finite (dom (prune_expired tokens now))" "live_tokens a (prune_expired tokens now) \<le> live_tokens a tokens"
    using live_tokens_mono [OF assms(2), of "prune_expired tokens now"] prune_expired_store by blast+
  show ?thesis
    using live_tokens_update(1) [OF p(1), of a uuid "\<lparr>te_agent_id = it_agent_id i, te_expires_at = it_expires_at i\<rparr>"] p ok(2) Inr
    by (auto simp: answer_def tokens_for_def)
qed

lemma budget_append:
  "certs_for a (r # rs) = certs_for a [r] + certs_for a rs" "tokens_for a (r # rs) = tokens_for a [r] + tokens_for a rs"
  by (simp_all add: certs_for_def tokens_for_def)

text \<open>What one request does to the tokens.\<close>

lemma handle_tokens:
  assumes "app_handle env ops tk h rq st = (reply, st')" "finite (dom (ap_tokens st))"
  shows "finite (dom (ap_tokens st')) \<and>
     live_tokens a (ap_tokens st') + certs_for a [reply] \<le> live_tokens a (ap_tokens st) + tokens_for a [reply]"
proof (cases "h = EnrolAgent \<or> h = IssueBootstrapToken")
  case False
  have "ap_tokens st' = ap_tokens st \<and> certs_for a [reply] = 0"
    using assms(1) False
    by (cases h) (auto simp: app_handle_def extracted_def store_handler_def answer_def certs_for_def
        split: sum.splits prod.splits option.splits)
  then show ?thesis using assms(2) by simp
next
  case True
  then show ?thesis
  proof
    assume h: "h = EnrolAgent"
    then show ?thesis
    proof (cases "xt_enrol env rq")
      case (Inr req)
      obtain r t where e: "enrol (sign_agent_cert (tk_pki tk) (ap_ca st) (tk_later tk)) (rq_headers rq) req
          (tk_now tk) (ap_tokens st) = (r, t)" by fastforce
      then have "reply = answer CertIssued r" "ap_tokens st' = t"
        using assms(1) h Inr by (auto simp: app_handle_def extracted_def token_handler_run_def)
      then show ?thesis using enrol_budget [OF e assms(2), of a] by simp
    qed (use assms in \<open>auto simp: app_handle_def extracted_def certs_for_def\<close>)
  next
    assume h: "h = IssueBootstrapToken"
    then show ?thesis
    proof (cases "xt_issue env rq")
      case (Inr req)
      obtain r t where e: "issue_bootstrap_token (ap_admin_token st) (rq_headers rq) req (tk_uuid tk)
          (tk_now tk) (tk_later tk) (ap_tokens st) = (r, t)" by fastforce
      then have r: "reply = answer TokenIssued r" "ap_tokens st' = t"
        using assms(1) h Inr by (auto simp: app_handle_def extracted_def token_handler_run_def)
      moreover have "certs_for a [answer TokenIssued r] = 0" by (cases r) (auto simp: certs_for_def answer_def)
      ultimately show ?thesis using issue_budget [OF e assms(2), of a] by simp
    qed (use assms in \<open>auto simp: app_handle_def extracted_def certs_for_def\<close>)
  qed
qed

text \<open>What no request changes, and who is given a token.\<close>

lemma handle_keeps:
  assumes "app_handle env ops tk h rq st = (reply, st')"
  shows "ap_admin_token st' = ap_admin_token st \<and> ap_ca st' = ap_ca st \<and>
     ap_default_deadline st' = ap_default_deadline st \<and> ap_horizon_years st' = ap_horizon_years st \<and>
     ap_rate_limiter st' = ap_rate_limiter st"
  using assms
  by (cases h) (auto simp: app_handle_def extracted_def store_handler_def token_handler_run_def
      split: sum.splits prod.splits)

lemma handle_issue:
  assumes "app_handle env ops tk h rq st = (Answered (TokenIssued i), st')"
  shows "presents_admin_secret (ap_admin_token st) rq"
proof -
  have "h = IssueBootstrapToken"
    using assms by (cases h) (auto simp: app_handle_def extracted_def store_handler_def token_handler_run_def
        answer_cases split: sum.splits prod.splits option.splits)
  then show ?thesis
    using assms
    by (auto simp: app_handle_def extracted_def token_handler_run_def answer_cases presents_admin_secret_def
        split: sum.splits prod.splits dest!: issue_ok(1))
qed

lemma handle_cert:
  assumes "app_handle env ops tk h rq st = (Answered (CertIssued c), st')"
  shows "ac_ca_cert_pem c = ca_pem (ap_ca st)"
proof -
  have h: "h = EnrolAgent"
    using assms by (cases h) (auto simp: app_handle_def extracted_def store_handler_def token_handler_run_def
        answer_cases split: sum.splits prod.splits option.splits)
  then show ?thesis
    using assms
    by (auto simp: app_handle_def extracted_def token_handler_run_def answer_cases sign_agent_cert_def rbind_eq_Inr
        split: sum.splits prod.splits elim!: enrol_ok_token)
qed

lemma serve_cases:
  assumes "app_serve env ops rs tk rq st = (reply, st')"
  obtains code l where "reply = Rejected code" "st' = st\<lparr>ap_rate_limiter := l\<rparr>"
  | h l where "serve rs (tk_instant tk) rq (ap_rate_limiter st) = (Inr h, l)"
      "app_handle env ops tk h rq (st\<lparr>ap_rate_limiter := l\<rparr>) = (reply, st')"
  using assms by (auto simp: app_serve_def split: prod.splits sum.splits)

lemma run_budget:
  assumes "app_run env ops rqs st = (replies, st')" "finite (dom (ap_tokens st))"
  shows "live_tokens a (ap_tokens st') + certs_for a replies \<le> live_tokens a (ap_tokens st) + tokens_for a replies"
  using assms
proof (induction rqs arbitrary: st replies)
  case (Cons x rqs)
  obtain tk rs rq where x: "x = (tk, rs, rq)" by (cases x)
  obtain reply st1 where 1: "app_serve env ops rs tk rq st = (reply, st1)" by fastforce
  obtain more st2 where 2: "app_run env ops rqs st1 = (more, st2)" by fastforce
  have "finite (dom (ap_tokens st1)) \<and>
      live_tokens a (ap_tokens st1) + certs_for a [reply] \<le> live_tokens a (ap_tokens st) + tokens_for a [reply]"
    using 1
  proof (cases rule: serve_cases)
    case 1
    then show ?thesis using Cons.prems(2) by (simp add: certs_for_def)
  next
    case (2 h l)
    then show ?thesis using handle_tokens [OF 2(2), of a] Cons.prems(2) by simp
  qed
  then show ?case
    using Cons.IH [of st1 more] Cons.prems(1) 1 2 x budget_append [of a reply more] by simp
qed (simp add: certs_for_def)

lemma run_constant:
  assumes "app_run env ops rqs st = (replies, st')"
  shows "length replies = length rqs \<and> ap_admin_token st' = ap_admin_token st \<and> ap_ca st' = ap_ca st \<and> rollup_of st' = rollup_of st \<and>
     (\<forall>i<length rqs. \<forall>tok. replies ! i = Answered (TokenIssued tok) \<longrightarrow>
        presents_admin_secret (ap_admin_token st) (snd (snd (rqs ! i)))) \<and>
     (\<forall>c. Answered (CertIssued c) \<in> set replies \<longrightarrow> ac_ca_cert_pem c = ca_pem (ap_ca st))"
  using assms
proof (induction rqs arbitrary: st replies)
  case (Cons x rqs)
  obtain tk rs rq where x: "x = (tk, rs, rq)" by (cases x)
  obtain reply st1 where 1: "app_serve env ops rs tk rq st = (reply, st1)" by fastforce
  obtain more st2 where 2: "app_run env ops rqs st1 = (more, st2)" by fastforce
  have s: "ap_admin_token st1 = ap_admin_token st \<and> ap_ca st1 = ap_ca st \<and> rollup_of st1 = rollup_of st \<and>
      (\<forall>tok. reply = Answered (TokenIssued tok) \<longrightarrow> presents_admin_secret (ap_admin_token st) rq) \<and>
      (\<forall>c. reply = Answered (CertIssued c) \<longrightarrow> ac_ca_cert_pem c = ca_pem (ap_ca st))"
    using 1
  proof (cases rule: serve_cases)
    case 1
    then show ?thesis by (simp add: rollup_of_def)
  next
    case (2 h l)
    then show ?thesis
      using handle_keeps [OF 2(2)] handle_issue [of env ops tk h rq "st\<lparr>ap_rate_limiter := l\<rparr>"]
        handle_cert [of env ops tk h rq "st\<lparr>ap_rate_limiter := l\<rparr>"] by (auto simp: rollup_of_def)
  qed
  show ?case
    using Cons.IH [of st1 more] Cons.prems 1 2 x s
    by (auto simp: nth_Cons split: nat.splits)
qed simp

section \<open>What a history stores\<close>

text \<open>The events a reply says were stored.\<close>

definition accepted_of :: "app_env \<Rightarrow> http_request \<Rightarrow> app_reply \<Rightarrow> crypto_inventory_event list" where
  "accepted_of env rq reply =
     (case reply of
        Answered (EventStored _) \<Rightarrow> (case xt_event env rq of Inr ev \<Rightarrow> [ev] | Inl _ \<Rightarrow> [])
      | Answered (BatchStored _) \<Rightarrow> (case xt_batch env rq of Inr evs \<Rightarrow> evs | Inl _ \<Rightarrow> [])
      | _ \<Rightarrow> [])"

definition accepted :: "app_env \<Rightarrow> ('k, 'c) arrival list \<Rightarrow> app_reply list \<Rightarrow> crypto_inventory_event list" where
  "accepted env rqs replies = concat (map2 (\<lambda>(tk, rs, rq). accepted_of env rq) rqs replies)"

lemma accepted_Cons [simp]:
  "accepted env ((tk, rs, rq) # rqs) (r # replies) = accepted_of env rq r @ accepted env rqs replies"
  "accepted env [] replies = []"
  by (simp_all add: accepted_def)

lemma append_events_any:
  "append_events (any_ops fails) evs (InMemory m) = (Inr (), InMemory (foldl memory_append m evs))"
  by (induction evs arbitrary: m) (simp_all add: any_ops_def)

lemma ingest_any:
  "ingest (any_ops fails) evs (InMemory m) =
     (case find (\<lambda>ev. ev_schema_version ev \<noteq> SCHEMA_VERSION) evs of
        Some ev \<Rightarrow> (version_mismatch ev, InMemory m)
      | None \<Rightarrow> (Inr (), InMemory (foldl memory_append m evs)))"
  by (simp add: ingest_def append_events_any split: option.split)

lemma inventory_any: "inventory (any_ops fails) cfg now (InMemory m) = inventory memory_ops cfg now m"
  by (simp add: inventory_def any_ops_def memory_ops_def)

lemma version_mismatch_Inr [simp]: "version_mismatch ev \<noteq> Inr x"
  by (simp add: version_mismatch_def api_fail_def)

lemma handle_store:
  assumes "app_handle env (any_ops fails) tk h rq st = (reply, st')" "ap_store st = InMemory m"
  shows "ap_store st' = InMemory (foldl memory_append m (accepted_of env rq reply))"
proof (cases "h = IngestOne \<or> h = IngestBatch")
  case False
  have "ap_store st' = ap_store st \<and> accepted_of env rq reply = []"
    using assms(1) False
    by (cases h) (auto simp: app_handle_def extracted_def token_handler_run_def answer_def accepted_of_def
        split: sum.splits prod.splits option.splits)
  then show ?thesis using assms(2) by simp
next
  case True
  then show ?thesis
    using assms
    by (elim disjE)
      (auto simp: app_handle_def extracted_def store_handler_def accepted_of_def ingest_one_def ingest_batch_def
        ingest_any answer_def version_mismatch_def api_fail_def split: sum.splits prod.splits option.splits)
qed

lemma run_store:
  assumes "app_run env (any_ops fails) rqs st = (replies, st')" "ap_store st = InMemory m"
  shows "ap_store st' = InMemory (foldl memory_append m (accepted env rqs replies))"
  using assms
proof (induction rqs arbitrary: st m replies)
  case (Cons x rqs)
  obtain tk rs rq where x: "x = (tk, rs, rq)" by (cases x)
  obtain reply st1 where 1: "app_serve env (any_ops fails) rs tk rq st = (reply, st1)" by fastforce
  obtain more where 2: "app_run env (any_ops fails) rqs st1 = (more, st')" "replies = reply # more"
    using Cons.prems(1) 1 x by (auto split: prod.splits)
  have "ap_store st1 = InMemory (foldl memory_append m (accepted_of env rq reply))"
    using 1
  proof (cases rule: serve_cases)
    case (2 h l)
    then show ?thesis using handle_store [OF 2(2)] Cons.prems(2) by simp
  qed (use Cons.prems(2) in \<open>simp add: accepted_of_def\<close>)
  then show ?case using Cons.IH [OF 2(1)] 2(2) x by simp
qed simp

lemma serve_inventory:
  assumes "app_serve env ops rs tk rq st = (Answered (InventoryPage page), st')"
  shows "inventory ops (rollup_of st) (tk_now tk) (ap_store st) = Inr page"
  using assms
proof (cases rule: serve_cases)
  case (2 h l)
  then show ?thesis
    by (cases h) (auto simp: app_handle_def extracted_def store_handler_def token_handler_run_def rollup_of_def
        answer_cases split: sum.splits prod.splits option.splits)
qed simp

text \<open>What a start that succeeds has set up.\<close>

lemma started:
  assumes "server_main b a fs = (Some (Inr (lns, st)), fs')"
  shows "ap_tokens st = Map.empty" "ap_admin_token st = ar_admin_token a"
    "load_or_init (bo_pki b) (bo_io b) (bo_now b) (ar_ca_dir a) fs = (Inr (ap_ca st), fs')"
    "ar_database_url a = None \<Longrightarrow> ap_store st = InMemory memory_new"
    "ap_horizon_years st = ar_horizon_years a"
    "start_listeners (bo_pki b) (bo_tls b) (bo_is_ip b) (bo_is_addr b) (ap_ca st) (bo_now b) a = Some (Inr lns)"
  using assms
  by (auto simp: server_main_def with_store_def configure_def open_store_def rbind_eq_Inr
      split: sum.splits prod.splits option.splits)

lemma started_load:
  "server_main b a fs = (r, fs') \<Longrightarrow> fs' = fs \<or>
     snd (load_or_init (bo_pki b) (bo_io b) (bo_now b) (ar_ca_dir a) fs) = fs'"
  by (auto simp: server_main_def with_store_def split: sum.splits prod.splits)

lemma settled_start:
  assumes "ca_settled (ar_ca_dir a) pem fs" "server_main b a fs = (r, fs')"
  shows "fs' = fs \<and> (\<forall>lns st. r = Some (Inr (lns, st)) \<longrightarrow> ca_pem (ap_ca st) = pem)"
proof -
  obtain r2 fs2 where l: "load_or_init (bo_pki b) (bo_io b) (bo_now b) (ar_ca_dir a) fs = (r2, fs2)"
    by fastforce
  note * = settled_load [OF assms(1) l]
  have "fs' = fs" using started_load [OF assms(2)] l * by auto
  moreover have "ca_pem (ap_ca st) = pem" if "r = Some (Inr (lns, st))" for lns st
    using started(3) [OF assms(2) [unfolded that]] l * by simp
  ultimately show ?thesis by blast
qed

section \<open>Properties\<close>

text \<open>C2: every certificate is backed by a token.  In any history of requests to a server since its
  start, whatever listener each arrives on and whatever store is behind it, an agent is handed at most as
  many certificates as tokens were issued for it, and a token is issued only to a caller who presents the
  admin secret the server was started with.\<close>

theorem certificates_backed_by_tokens:
  assumes "server_main b a fs = (Some (Inr (lns, st)), fs')" "app_run env ops rqs st = (replies, st')"
  shows "certs_for agent replies \<le> tokens_for agent replies \<and>
     (\<forall>i<length rqs. \<forall>tok. replies ! i = Answered (TokenIssued tok) \<longrightarrow>
        presents_admin_secret (ar_admin_token a) (snd (snd (rqs ! i))))"
proof -
  have "live_tokens agent (ap_tokens st) = 0" by (simp add: started(1) [OF assms(1)] live_tokens_def)
  moreover have "finite (dom (ap_tokens st))" by (simp add: started(1) [OF assms(1)])
  ultimately have "certs_for agent replies \<le> tokens_for agent replies"
    using run_budget [OF assms(2), of agent] by simp
  then show ?thesis using run_constant [OF assms(2)] started(2) [OF assms(1)] by simp
qed

text \<open>C10: the inventory a server shows is what it was told.  After any history of requests to a server
  started without a database, the inventory it answers has one row per asset among the events its
  replies acknowledged, the newest event of that asset with its score under the server's
  configuration and its blocked flag, ordered by decreasing risk.\<close>

theorem served_inventory_exact:
  assumes "ar_database_url a = None" "server_main b a fs = (Some (Inr (lns, st)), fs')"
    and "app_run env (any_ops fails) rqs st = (replies, st1)"
    and "app_serve env (any_ops fails) rs tk rq st1 = (Answered (InventoryPage page), st2)"
  shows "iv_count page = card (key_from_event ` set (accepted env rqs replies)) \<and>
     sorted_wrt (\<lambda>x y. ii_q y \<le> ii_q x) (iv_items page) \<and>
     set (iv_items page) = {inventory_item_of (rollup_of st) (tk_now tk) (is_blocked (ev_agility e)) e | e.
       newest_of id (filter (\<lambda>x. key_from_event x = key_from_event e) (accepted env rqs replies)) = Some e}"
proof -
  have "ap_store st1 = InMemory (memory.append_all (accepted env rqs replies))"
    using run_store [OF assms(3) started(4) [OF assms(2,1)]] by (simp add: memory.append_all_def)
  then have "inventory memory_ops (rollup_of st) (tk_now tk) (memory.append_all (accepted env rqs replies)) = Inr page"
    using serve_inventory [OF assms(4)] run_constant [OF assms(3)] by (simp add: inventory_any)
  then show ?thesis
    using inventory_of_appended [of "rollup_of st" "tk_now tk" "accepted env rqs replies"] by auto
qed

definition certs_in :: "app_reply list list \<Rightarrow> agent_cert set" where
  "certs_in lives = {c. \<exists>replies\<in>set lives. Answered (CertIssued c) \<in> set replies}"

lemma settled_lives:
  assumes "ca_settled dir pem fs" "\<forall>(b, a, rqs)\<in>set lives. ar_ca_dir a = dir" "c \<in> certs_in (server_lives env fails lives fs)"
  shows "ac_ca_cert_pem c = pem"
  using assms
proof (induction lives)
  case (Cons l lives)
  obtain b a rqs where l: "l = (b, a, rqs)" by (cases l)
  obtain r fs1 where m: "server_main b a fs = (r, fs1)" by fastforce
  then have s: "fs1 = fs" "\<And>lns st. r = Some (Inr (lns, st)) \<Longrightarrow> ca_pem (ap_ca st) = pem"
    using settled_start [OF _ m] Cons.prems(1,2) l by auto
  show ?case
  proof (cases "\<exists>lns st. r = Some (Inr (lns, st))")
    case True
    then obtain lns st where r: "r = Some (Inr (lns, st))" by blast
    obtain replies st' where run: "app_run env (any_ops fails) rqs st = (replies, st')" by fastforce
    then show ?thesis
      using Cons run_constant [OF run] l m s r by (auto simp: certs_in_def)
  next
    case False
    then have "server_lives env fails (l # lives) fs = [] # server_lives env fails lives fs"
      using l m s(1) by (auto split: option.splits sum.splits)
    then show ?thesis using Cons by (auto simp: certs_in_def)
  qed
qed (simp add: certs_in_def)

text \<open>C29: one authority for ever.  Through any number of lives of the server over one CA directory, with
  starts that fail or panic among them, every certificate it hands out in any life names the same
  authority certificate.\<close>

theorem one_authority_for_ever:
  assumes "\<forall>(b, a, rqs)\<in>set lives. file_io_law (bo_io b) \<and> ar_ca_dir a = dir"
    and "c1 \<in> certs_in (server_lives env fails lives fs)" "c2 \<in> certs_in (server_lives env fails lives fs)"
  shows "ac_ca_cert_pem c1 = ac_ca_cert_pem c2"
  using assms
proof (induction lives arbitrary: fs)
  case (Cons l lives)
  obtain b a rqs where l: "l = (b, a, rqs)" by (cases l)
  obtain r fs1 where m: "server_main b a fs = (r, fs1)" by fastforce
  have dirs: "\<forall>(b, a, rqs)\<in>set lives. ar_ca_dir a = dir" "ar_ca_dir a = dir" "file_io_law (bo_io b)"
    using Cons.prems(1) l by auto
  show ?case
  proof (cases "\<exists>lns st. r = Some (Inr (lns, st))")
    case True
    then obtain lns st where r: "r = Some (Inr (lns, st))" by blast
    obtain replies st' where run: "app_run env (any_ops fails) rqs st = (replies, st')" by fastforce
    have "ca_settled dir (ca_pem (ap_ca st)) fs1"
      using load_settles [OF dirs(3) started(3) [OF m [unfolded r]]] dirs(2) by simp
    from settled_lives [OF this dirs(1)] run_constant [OF run]
    have "ac_ca_cert_pem c = ca_pem (ap_ca st)" if "c \<in> certs_in (server_lives env fails (l # lives) fs)" for c
      using that l m r run by (auto simp: certs_in_def)
    then show ?thesis using Cons.prems(2,3) by simp
  next
    case False
    then have "server_lives env fails (l # lives) fs = [] # server_lives env fails lives fs1"
      using l m by (auto split: option.splits sum.splits)
    then show ?thesis using Cons.IH [of fs1] Cons.prems by (auto simp: certs_in_def)
  qed
qed (simp add: certs_in_def)

section \<open>Concrete histories\<close>

definition toy_app_env :: app_env where
  "toy_app_env =
     \<lparr>xt_event = (\<lambda>rq. Inr (sample_event (rq_body rq) 1)), xt_batch = (\<lambda>_. Inr []), xt_limit = (\<lambda>_. Inr None),
      xt_deadlines = (\<lambda>_. Inl BAD_REQUEST), xt_compat = (\<lambda>_. Inl BAD_REQUEST), xt_roadmap = (\<lambda>_. Inr []),
      xt_issue = (\<lambda>rq. Inr \<lparr>ir_agent_id = rq_body rq, ir_ttl_hours = None\<rparr>),
      xt_enrol = (\<lambda>rq. Inr \<lparr>er_agent_id = rq_body rq, er_validity_days = None\<rparr>),
      xt_calendar = (\<lambda>_ _ _. 0), xt_add_dur = (\<lambda>t d. Some (t + d)), xt_order = (\<lambda>s. s)\<rparr>"

definition toy_boot :: "(string, cert_params, string, string) boot_env" where
  "toy_boot =
     \<lparr>bo_pki = toy_pki, bo_io = toy_io [] True, bo_tls = toy_tls, bo_is_ip = (\<lambda>_. False), bo_is_addr = (\<lambda>_. True),
      bo_driver = \<lparr>pd_connect = (\<lambda>_. Inl ''refused''), pd_migrate = Inr\<rparr>, bo_parse_time = (\<lambda>_. Inl ''bad''),
      bo_now = 0\<rparr>"

definition toy_plain :: args where
  "toy_plain = toy_args\<lparr>ar_tls := False, ar_admin_token := Some ''s''\<rparr>"

definition toy_tick :: "nat \<Rightarrow> (string, cert_params) tick" where
  "toy_tick t = \<lparr>tk_instant = t, tk_now = int t, tk_later = int t, tk_uuid = ''t'', tk_pki = toy_pki\<rparr>"

definition toy_state :: "(any_store, string, cert_params) app_state" where
  "toy_state =
     \<lparr>ap_store = InMemory memory_new, ap_default_deadline = cnsa_deadline, ap_horizon_years = 5, ap_ca = toy_ca,
      ap_tokens = Map.empty, ap_admin_token = Some ''s'', ap_rate_limiter = limiter_defaults\<rparr>"

lemma toy_started:
  "\<exists>lns fs'. server_main toy_boot toy_plain Map.empty = (Some (Inr (lns, toy_state)), fs')"
proof -
  obtain fs1 where "load_or_init toy_pki (toy_io [] True) 0 toy_dir Map.empty = (Inr toy_ca, fs1)"
    using toy_first_start by blast
  then show ?thesis
    by (simp add: server_main_def toy_boot_def toy_plain_def toy_args_def open_store_def with_store_def configure_def
        start_listeners_def toy_state_def)
qed

definition token_request :: "headers \<Rightarrow> http_request" where
  "token_request hs =
     \<lparr>rq_method = POST, rq_path = ''/v1/admin/bootstrap-tokens'', rq_peer = None, rq_headers = hs, rq_body = ''a''\<rparr>"

definition toy_enrol :: http_request where
  "toy_enrol = (enrol_request_from None [(BOOTSTRAP_HEADER, ''t'')])\<lparr>rq_body := ''a''\<rparr>"

definition toy_history :: "(string, cert_params) arrival list" where
  "toy_history =
     [(toy_tick 2, router, token_request [(ADMIN_HEADER, ''s'')]), (toy_tick 3, router, toy_enrol)]"

lemma toy_request_sel [simp]:
  "rq_headers (token_request hs) = hs" "rq_body (token_request hs) = ''a''"
  "rq_headers toy_enrol = [(BOOTSTRAP_HEADER, ''t'')]" "rq_body toy_enrol = ''a''"
  by (simp_all add: token_request_def toy_enrol_def enrol_request_from_def)

lemma toy_headers [simp]:
  "header_str [(ADMIN_HEADER, ''s'')] ADMIN_HEADER = Some ''s''"
  by code_simp

lemma toy_key [simp]: "request_key (token_request [(ADMIN_HEADER, ''s'')]) = ''unknown''" "request_key toy_enrol = ''unknown''"
  by code_simp+

lemma toy_checks:
  "check_at limiter_defaults k 2 = (True, limiter_defaults\<lparr>rl_buckets := [(k, [2])]\<rparr>)"
  "check_at (limiter_defaults\<lparr>rl_buckets := [(k, [2])]\<rparr>) k 3 = (True, limiter_defaults\<lparr>rl_buckets := [(k, [2, 3])]\<rparr>)"
  by (simp_all add: check_at_def limiter_defaults_def limiter_new_def Let_def DEFAULT_MAX_REQUESTS_def
      KEY_SOFT_CAP_def live_hits_def DEFAULT_WINDOW_def)

lemma toy_routes:
  "find_path router (token_request hs) = Some (route_of True (POST, ''/v1/admin/bootstrap-tokens'', IssueBootstrapToken))"
  "find_route router (token_request hs) = Some (route_of True (POST, ''/v1/admin/bootstrap-tokens'', IssueBootstrapToken))"
  "find_path router toy_enrol = Some (route_of True (POST, ''/v1/enrol'', EnrolAgent))"
  "find_route router toy_enrol = Some (route_of True (POST, ''/v1/enrol'', EnrolAgent))"
  by (simp_all add: find_path_def find_route_def router_def router_bootstrap_def token_request_def toy_enrol_def
      enrol_request_from_def)

lemma toy_served:
  "serve router 2 (token_request [(ADMIN_HEADER, ''s'')]) limiter_defaults =
     (Inr IssueBootstrapToken, limiter_defaults\<lparr>rl_buckets := [(''unknown'', [2])]\<rparr>)"
  "serve router 3 toy_enrol (limiter_defaults\<lparr>rl_buckets := [(''unknown'', [2])]\<rparr>) =
     (Inr EnrolAgent, limiter_defaults\<lparr>rl_buckets := [(''unknown'', [2, 3])]\<rparr>)"
  by (simp_all add: serve_def toy_routes rate_limit_mw_def toy_checks MAX_BODY_BYTES_def)

lemma toy_trim: "trim ''a'' \<noteq> []" by code_simp

definition toy_cert :: agent_cert where
  "toy_cert = \<lparr>ac_cert_pem = ''cert'', ac_key_pem = ''key'', ac_ca_cert_pem = ''cert'', ac_agent_id = ''a'',
      ac_expires_at = 3 + days 365\<rparr>"

lemma toy_replies:
  "fst (app_run toy_app_env ops toy_history toy_state) =
     [Answered (TokenIssued \<lparr>it_token = ''t'', it_agent_id = ''a'', it_expires_at = 2 + hours 24\<rparr>),
      Answered (CertIssued toy_cert)]"
proof -
  have 1: "app_serve toy_app_env ops router (toy_tick 2) (token_request [(ADMIN_HEADER, ''s'')]) toy_state =
     (Answered (TokenIssued \<lparr>it_token = ''t'', it_agent_id = ''a'', it_expires_at = 2 + hours 24\<rparr>),
      toy_state\<lparr>ap_rate_limiter := limiter_defaults\<lparr>rl_buckets := [(''unknown'', [2])]\<rparr>,
        ap_tokens := [''t'' \<mapsto> \<lparr>te_agent_id = ''a'', te_expires_at = 2 + hours 24\<rparr>]\<rparr>)"
  proof -
    have "prune_expired Map.empty 2 = Map.empty" by (simp add: prune_expired_def fun_eq_iff)
    then show ?thesis
      using toy_trim
      by (simp add: app_serve_def toy_tick_def toy_state_def toy_served app_handle_def toy_app_env_def extracted_def
          token_handler_run_def issue_bootstrap_token_def constant_time_eq_iff Let_def issue_def answer_def
          DEFAULT_TOKEN_TTL_HOURS_def)
  qed
  show ?thesis
    by (simp add: toy_history_def 1)
      (simp add: app_serve_def toy_tick_def toy_state_def toy_served app_handle_def toy_app_env_def extracted_def
          token_handler_run_def enrol_def consume_def Let_def answer_def
          DEFAULT_AGENT_VALIDITY_DAYS_def hours_def sign_agent_cert_def toy_pki_def toy_ca_def toy_cert_def)
qed

lemma certificates_backed_by_tokens_witness:
  "\<exists>lns fs'. server_main toy_boot toy_plain Map.empty = (Some (Inr (lns, toy_state)), fs') \<and>
     certs_for ''a'' (fst (app_run toy_app_env (any_ops (\<lambda>_. None)) toy_history toy_state)) = 1 \<and>
     certs_for ''a'' (fst (app_run toy_app_env (any_ops (\<lambda>_. None)) toy_history toy_state)) \<le>
       tokens_for ''a'' (fst (app_run toy_app_env (any_ops (\<lambda>_. None)) toy_history toy_state)) \<and>
     presents_admin_secret (Some ''s'') (token_request [(ADMIN_HEADER, ''s'')])"
proof -
  obtain lns fs' where m: "server_main toy_boot toy_plain Map.empty = (Some (Inr (lns, toy_state)), fs')"
    using toy_started by blast
  obtain st' where run: "app_run toy_app_env (any_ops (\<lambda>_. None)) toy_history toy_state =
      (fst (app_run toy_app_env (any_ops (\<lambda>_. None)) toy_history toy_state), st')" by (metis prod.collapse)
  from certificates_backed_by_tokens [OF m run, of "''a''"] m show ?thesis
    unfolding toy_replies by (auto simp: certs_for_def toy_cert_def toy_history_def toy_plain_def)
qed

definition toy_ingest :: http_request where
  "toy_ingest =
     \<lparr>rq_method = POST, rq_path = ''/v1/events'', rq_peer = None, rq_headers = [], rq_body = ''a''\<rparr>"

lemma toy_ingested:
  "\<exists>st1. app_run toy_app_env (any_ops (\<lambda>_. None)) [(toy_tick 2, router, toy_ingest)] toy_state =
     ([Answered (EventStored ACCEPTED)], st1)"
proof -
  have "serve router 2 toy_ingest limiter_defaults = (Inr IngestOne, limiter_defaults)"
    by (simp add: serve_def find_path_def find_route_def router_def router_bootstrap_def router_main_def
        toy_ingest_def MAX_BODY_BYTES_def)
  then show ?thesis
    by (simp add: app_serve_def toy_tick_def toy_state_def app_handle_def toy_app_env_def extracted_def store_handler_def
        ingest_one_def ingest_any answer_def sample_event_def SCHEMA_VERSION_def)
qed

lemma served_inventory_exact_witness:
  "\<exists>st1 st2 page. app_run toy_app_env (any_ops (\<lambda>_. None)) [(toy_tick 2, router, toy_ingest)] toy_state =
       ([Answered (EventStored ACCEPTED)], st1) \<and>
     app_serve toy_app_env (any_ops (\<lambda>_. None)) router (toy_tick 3) inventory_request st1 =
       (Answered (InventoryPage page), st2) \<and> iv_count page = 1"
proof -
  obtain lns fs' where m: "server_main toy_boot toy_plain Map.empty = (Some (Inr (lns, toy_state)), fs')"
    using toy_started by blast
  obtain st1 where run: "app_run toy_app_env (any_ops (\<lambda>_. None)) [(toy_tick 2, router, toy_ingest)] toy_state =
      ([Answered (EventStored ACCEPTED)], st1)" using toy_ingested by blast
  have "ap_store toy_state = InMemory memory_new" by (simp add: toy_state_def)
  from run_store [OF run this] obtain ms where ms: "ap_store st1 = InMemory ms" by blast
  have r: "serve router 3 inventory_request l = (Inr Inventory, l)" for l
    by (simp add: serve_def find_path_def find_route_def router_def router_bootstrap_def router_main_def
        inventory_request_def)
  obtain page where page: "inventory memory_ops (rollup_of st1) 3 ms = Inr page"
    by (auto simp: inventory_def memory_ops_def lift_store_def Let_def)
  have rl: "rollup_of (st1\<lparr>ap_rate_limiter := l\<rparr>) = rollup_of st1" for l by (simp add: rollup_of_def)
  have inv: "app_serve toy_app_env (any_ops (\<lambda>_. None)) router (toy_tick 3) inventory_request st1 =
      (Answered (InventoryPage page), st1)"
    using page by (simp add: app_serve_def toy_tick_def r app_handle_def rl ms inventory_any answer_def)
  have "ar_database_url toy_plain = None" by (simp add: toy_plain_def toy_args_def)
  from served_inventory_exact [OF this m run inv] run inv show ?thesis
    by (auto simp: accepted_of_def toy_app_env_def)
qed

lemma one_authority_for_ever_witness:
  "toy_cert \<in> certs_in (server_lives toy_app_env (\<lambda>_. None) [(toy_boot, toy_plain, toy_history), (toy_boot, toy_plain, [])] Map.empty) \<and>
   ac_ca_cert_pem toy_cert = ac_ca_cert_pem toy_cert"
proof -
  obtain lns fs' where m: "server_main toy_boot toy_plain Map.empty = (Some (Inr (lns, toy_state)), fs')"
    using toy_started by blast
  let ?lives = "[(toy_boot, toy_plain, toy_history), (toy_boot, toy_plain, [])]"
  have c: "toy_cert \<in> certs_in (server_lives toy_app_env (\<lambda>_. None) ?lives Map.empty)"
    using m by (simp add: certs_in_def toy_replies)
  have "\<forall>(b, a, rqs)\<in>set ?lives. file_io_law (bo_io b) \<and> ar_ca_dir a = toy_dir"
    by (simp add: toy_boot_def toy_io_law toy_plain_def toy_args_def)
  from one_authority_for_ever [OF this c c] c show ?thesis by simp
qed

end
