(* ===== verification/Tls_Collector.thy ===== *)
theory Tls_Collector
  imports App_History
begin

text \<open>
  The collector behind its TLS listeners: whose events it stores and to whom it answers.  A trace lists
  the connections to a server of \<open>App\<close> with their requests, in the order in which they are served.
  rustls is represented by what it decides: a listener with client roots (src/crates/ree0xq-server/src/tls.rs)
  goes on only with a peer whose certificate it verifies against these roots at the time of the handshake.
  Its cryptography is perfect: a peer that is verified holds a certificate the authority signed.
\<close>

section \<open>Connections\<close>

record ('k, 'c, 'd) connection =
  cn_handshake :: timestamp
  cn_cert :: "'d option"
  cn_tick :: "('k, 'c) tick"
  cn_request :: http_request

definition demands_cert :: "('d, 'l) listener \<Rightarrow> 'd list option" where
  "demands_cert lr = Option.bind (ln_config lr) sg_client_roots"

text \<open>\<open>verify roots t c\<close> is rustls's verdict on a client certificate.\<close>

definition admits ::
  "('d list \<Rightarrow> timestamp \<Rightarrow> 'd \<Rightarrow> bool) \<Rightarrow> ('d, 'l) listener \<Rightarrow> ('k, 'c, 'd) connection \<Rightarrow> bool" where
  "admits verify lr cn =
     (case demands_cert lr of
        None \<Rightarrow> True
      | Some roots \<Rightarrow> (case cn_cert cn of None \<Rightarrow> False | Some c \<Rightarrow> verify roots (cn_handshake cn) c))"

type_synonym ('k, 'c, 'd, 'l) exchange = "('d, 'l) listener \<times> ('k, 'c, 'd) connection \<times> app_reply option"

text \<open>The client certificates at large: those the server's replies have handed out, as the PEM reader sees
  them, and those of the authority's earlier lives.\<close>

definition at_large ::
  "(string \<Rightarrow> (string, 'd) result list) \<Rightarrow> 'd set \<Rightarrow> ('k, 'c, 'd, 'l) exchange list \<Rightarrow> 'd set" where
  "at_large certs earlier tr =
     earlier \<union> {c. \<exists>lr cn ac. (lr, cn, Some (Answered (CertIssued ac))) \<in> set tr \<and> certs (ac_cert_pem ac) = [Inr c]}"

inductive tls_trace ::
  "('d list \<Rightarrow> timestamp \<Rightarrow> 'd \<Rightarrow> bool) \<Rightarrow> (string \<Rightarrow> (string, 'd) result list) \<Rightarrow> 'd set \<Rightarrow> app_env \<Rightarrow>
   's store_ops \<Rightarrow> ('d, 'l) listener list \<Rightarrow> ('s, 'k, 'c) app_state \<Rightarrow>
   ('k, 'c, 'd, 'l) exchange list \<Rightarrow> ('s, 'k, 'c) app_state \<Rightarrow> bool"
  for verify certs earlier env ops lns st0
where
  start: "tls_trace verify certs earlier env ops lns st0 [] st0"
| refused: "tls_trace verify certs earlier env ops lns st0 tr st \<Longrightarrow> lr \<in> set lns \<Longrightarrow> \<not> admits verify lr cn \<Longrightarrow>
    tls_trace verify certs earlier env ops lns st0 (tr @ [(lr, cn, None)]) st"
| served: "tls_trace verify certs earlier env ops lns st0 tr st \<Longrightarrow> lr \<in> set lns \<Longrightarrow> admits verify lr cn \<Longrightarrow>
    (\<forall>roots c. demands_cert lr = Some roots \<longrightarrow> cn_cert cn = Some c \<longrightarrow> c \<in> at_large certs earlier tr) \<Longrightarrow>
    app_serve env ops (ln_routes lr) (cn_tick cn) (cn_request cn) st = (reply, st') \<Longrightarrow>
    tls_trace verify certs earlier env ops lns st0 (tr @ [(lr, cn, Some reply)]) st'"

inductive_cases tls_trace_snocE: "tls_trace verify certs earlier env ops lns st0 (tr @ [x]) st"

inductive_simps tls_trace_empty [simp]: "tls_trace verify certs earlier env ops lns st0 [] st"

section \<open>A trace as a history\<close>

definition arrivals :: "('k, 'c, 'd, 'l) exchange list \<Rightarrow> ('k, 'c) arrival list" where
  "arrivals tr = concat (map (\<lambda>(lr, cn, r). case r of
     None \<Rightarrow> [] | Some _ \<Rightarrow> [(cn_tick cn, ln_routes lr, cn_request cn)]) tr)"

definition replies_in :: "('k, 'c, 'd, 'l) exchange list \<Rightarrow> app_reply list" where
  "replies_in tr = List.map_filter (\<lambda>(lr, cn, r). r) tr"

lemma arrivals_append [simp]: "arrivals (tr @ tr') = arrivals tr @ arrivals tr'"
  by (simp add: arrivals_def)

lemma replies_in_append [simp]: "replies_in (tr @ tr') = replies_in tr @ replies_in tr'"
  by (simp add: replies_in_def List.map_filter_def)

lemma exchange_one [simp]:
  "arrivals [(lr, cn, Some r)] = [(cn_tick cn, ln_routes lr, cn_request cn)]" "arrivals [(lr, cn, None)] = []"
  "replies_in [(lr, cn, Some r)] = [r]" "replies_in [(lr, cn, None)] = []"
  "replies_in [] = []" "arrivals [] = []"
  by (simp_all add: arrivals_def replies_in_def List.map_filter_def)

lemma replies_in_set: "r \<in> set (replies_in tr) \<longleftrightarrow> (\<exists>lr cn. (lr, cn, Some r) \<in> set tr)"
  by (force simp: replies_in_def List.map_filter_def)

lemma app_run_append:
  "app_run env ops (a @ b) st =
     (case app_run env ops a st of (rs, st1) \<Rightarrow> case app_run env ops b st1 of (rs', st2) \<Rightarrow> (rs @ rs', st2))"
  by (induction a arbitrary: st) (auto split: prod.splits)

lemma trace_run:
  "tls_trace verify certs earlier env ops lns st0 tr st \<Longrightarrow> app_run env ops (arrivals tr) st0 = (replies_in tr, st)"
  by (induction rule: tls_trace.induct) (auto simp: app_run_append)

lemma trace_prefix:
  "tls_trace verify certs earlier env ops lns st0 (pre @ post) st \<Longrightarrow>
   \<exists>st1. tls_trace verify certs earlier env ops lns st0 pre st1"
proof (induction post arbitrary: st rule: rev_induct)
  case (snoc x post)
  from snoc.prems have "tls_trace verify certs earlier env ops lns st0 ((pre @ post) @ [x]) st" by simp
  then obtain st1 where "tls_trace verify certs earlier env ops lns st0 (pre @ post) st1"
    by (rule tls_trace_snocE) auto
  then show ?case by (rule snoc.IH)
qed auto

text \<open>The request behind a reply that hands out a token.\<close>

lemma trace_token:
  assumes "tls_trace verify certs earlier env ops lns st0 tr st" "(lr, cn, Some (Answered (TokenIssued tok))) \<in> set tr"
  shows "presents_admin_secret (ap_admin_token st0) (cn_request cn)"
  using assms
proof (induction rule: tls_trace.induct)
  case (served tr st lr' cn' reply st')
  show ?case
  proof (cases "(lr, cn, Some (Answered (TokenIssued tok))) \<in> set tr")
    case False
    then have "cn = cn'" "reply = Answered (TokenIssued tok)" using served.prems by auto
    then have "app_run env ops [(cn_tick cn, ln_routes lr', cn_request cn)] st = ([Answered (TokenIssued tok)], st')"
      using served.hyps(5) by simp
    from run_constant [OF this] have "presents_admin_secret (ap_admin_token st) (cn_request cn)" by simp
    then show ?thesis using run_constant [OF trace_run [OF served.hyps(1)]] by simp
  qed (rule served.IH)
qed auto

lemma certs_for_snoc: "certs_for (ac_agent_id ac) (rs @ [Answered (CertIssued ac)]) = Suc (certs_for (ac_agent_id ac) rs)"
  by (simp add: certs_for_def)

lemma tokens_for_snoc: "tokens_for a (rs @ [Answered (CertIssued ac)]) = tokens_for a rs"
  by (simp add: tokens_for_def)

lemma token_handed_out:
  "0 < tokens_for a rs \<Longrightarrow> \<exists>tok. Answered (TokenIssued tok) \<in> set rs \<and> it_agent_id tok = a"
proof (induction rs)
  case (Cons r rs)
  show ?case
  proof (cases "\<exists>tok. r = Answered (TokenIssued tok) \<and> it_agent_id tok = a")
    case False
    then have "tokens_for a (r # rs) = tokens_for a rs"
      by (cases r) (auto simp: tokens_for_def split: app_body.split)
    then show ?thesis using Cons by auto
  qed auto
qed (simp add: tokens_for_def)

text \<open>A certificate handed out in a trace was asked for with a token handed out earlier in it.\<close>

lemma trace_cert:
  assumes "tls_trace verify certs earlier env ops lns st0 tr st" "ap_tokens st0 = Map.empty"
    and "(lr, cn, Some (Answered (CertIssued ac))) \<in> set tr"
  shows "\<exists>p1 p2 lr' cn' tok. tr = p1 @ (lr, cn, Some (Answered (CertIssued ac))) # p2 \<and>
    (lr', cn', Some (Answered (TokenIssued tok))) \<in> set p1 \<and> it_agent_id tok = ac_agent_id ac \<and>
    presents_admin_secret (ap_admin_token st0) (cn_request cn')"
proof -
  obtain p1 p2 where tr: "tr = p1 @ (lr, cn, Some (Answered (CertIssued ac))) # p2" using assms(3) by (meson split_list)
  let ?x = "(lr, cn, Some (Answered (CertIssued ac)))"
  have "tls_trace verify certs earlier env ops lns st0 ((p1 @ [?x]) @ p2) st" using assms(1) tr by simp
  from trace_prefix [OF this] obtain st1 where p: "tls_trace verify certs earlier env ops lns st0 (p1 @ [?x]) st1" by blast
  have "certs_for (ac_agent_id ac) (replies_in (p1 @ [?x])) \<le> tokens_for (ac_agent_id ac) (replies_in (p1 @ [?x]))"
    using run_budget [OF trace_run [OF p], of "ac_agent_id ac"] assms(2) by (simp add: live_tokens_def)
  then have "0 < tokens_for (ac_agent_id ac) (replies_in p1)"
    by (simp add: certs_for_snoc tokens_for_snoc)
  from token_handed_out [OF this] obtain tok where
    tok: "Answered (TokenIssued tok) \<in> set (replies_in p1)" "it_agent_id tok = ac_agent_id ac" by blast
  then obtain lr' cn' where i: "(lr', cn', Some (Answered (TokenIssued tok))) \<in> set p1" by (auto simp: replies_in_set)
  then have "presents_admin_secret (ap_admin_token st0) (cn_request cn')"
    using trace_token [OF p, of lr' cn' tok] by simp
  then show ?thesis using tr i tok(2) by blast
qed

section \<open>Which replies need a certificate\<close>

text \<open>Replies with which the collector has stored events or says anything of its inventory.\<close>

fun of_inventory :: "app_reply \<Rightarrow> bool" where
  "of_inventory (Answered (HealthText _)) = False"
| "of_inventory (Answered (TokenIssued _)) = False"
| "of_inventory (Answered (CertIssued _)) = False"
| "of_inventory (Answered _) = True"
| "of_inventory _ = False"

lemma of_inventory_handler:
  assumes "app_serve env ops rs tk rq st = (reply, st')" "of_inventory reply"
  shows "\<exists>h l. serve rs (tk_instant tk) rq (ap_rate_limiter st) = (Inr h, l) \<and> h \<noteq> Healthz \<and> \<not> token_handler h"
  using assms(1)
proof (cases rule: serve_cases)
  case (1 code l)
  then show ?thesis using assms(2) by simp
next
  case (2 h l)
  moreover have "h \<noteq> Healthz \<and> \<not> token_handler h"
    using 2(2) assms(2)
    by (auto simp: app_handle_def token_handler_def extracted_def token_handler_run_def answer_def
        split: sum.splits prod.splits)
  ultimately show ?thesis by blast
qed

section \<open>Properties\<close>

text \<open>What rustls is relied on for: a certificate is not verified past the end of the validity it was signed with.\<close>

definition expiry_checked ::
  "('d list \<Rightarrow> timestamp \<Rightarrow> 'd \<Rightarrow> bool) \<Rightarrow> (string \<Rightarrow> (string, 'd) result list) \<Rightarrow> ('k, 'c) pki \<Rightarrow> bool" where
  "expiry_checked verify certs pki \<longleftrightarrow>
     (\<forall>params kp ic ik cert c roots t. pk_signed_by pki params kp ic ik = Inr cert \<longrightarrow>
        certs (pk_cert_pem pki cert) = [Inr c] \<longrightarrow> verify roots t c \<longrightarrow> t \<le> cr_not_after params)"

lemma handle_cert_signed:
  assumes "app_handle env ops tk h rq st = (Answered (CertIssued ac), st')"
  shows "\<exists>params kp ic ik cert. pk_signed_by (tk_pki tk) params kp ic ik = Inr cert \<and>
     ac_cert_pem ac = pk_cert_pem (tk_pki tk) cert \<and> ac_expires_at ac = cr_not_after params"
proof -
  have h: "h = EnrolAgent"
    using assms by (cases h) (auto simp: app_handle_def extracted_def store_handler_def token_handler_run_def
        answer_cases split: sum.splits prod.splits option.splits)
  then obtain req tokens' where "enrol (sign_agent_cert (tk_pki tk) (ap_ca st) (tk_later tk)) (rq_headers rq) req
      (tk_now tk) (ap_tokens st) = (Inr ac, tokens')"
    using assms by (auto simp: app_handle_def extracted_def token_handler_run_def answer_cases
        split: sum.splits prod.splits)
  then obtain d where "sign_agent_cert (tk_pki tk) (ap_ca st) (tk_later tk) (er_agent_id req) d = Inr ac"
    by (rule enrol_ok_token) blast
  then obtain kp cert where "pk_signed_by (tk_pki tk) (agent_params (er_agent_id req) d (tk_later tk)) kp
       (ca_issuer_cert (ap_ca st)) (ca_issuer_key (ap_ca st)) = Inr cert"
    "ac_cert_pem ac = pk_cert_pem (tk_pki tk) cert" "ac_expires_at ac = tk_later tk + days d"
    by (auto simp: sign_agent_cert_def rbind_eq_Inr)
  moreover have "cr_not_after (agent_params (er_agent_id req) d (tk_later tk)) = tk_later tk + days d"
    by (simp add: agent_params_def)
  ultimately show ?thesis by metis
qed

lemma serve_cert_signed:
  assumes "app_serve env ops rs tk rq st = (Answered (CertIssued ac), st')"
  shows "\<exists>params kp ic ik cert. pk_signed_by (tk_pki tk) params kp ic ik = Inr cert \<and>
     ac_cert_pem ac = pk_cert_pem (tk_pki tk) cert \<and> ac_expires_at ac = cr_not_after params"
  using assms by (cases rule: serve_cases) (auto dest: handle_cert_signed)

lemma trace_signed:
  assumes "tls_trace verify certs earlier env ops lns st0 tr st" "(lr, cn, Some (Answered (CertIssued ac))) \<in> set tr"
  shows "\<exists>params kp ic ik cert. pk_signed_by (tk_pki (cn_tick cn)) params kp ic ik = Inr cert \<and>
     ac_cert_pem ac = pk_cert_pem (tk_pki (cn_tick cn)) cert \<and> ac_expires_at ac = cr_not_after params"
  using assms by (induction rule: tls_trace.induct) (auto dest: serve_cert_signed)

text \<open>C3: only enrolled agents are served.  In any trace of connections to a server started with TLS, a reply
  that stored events, or that says anything of the inventory, went to a peer with a certificate that was
  verified against the certificates of the internal authority alone.  Unless it stems from an earlier life
  of that authority, the certificate had been handed out earlier in the trace, the connection was opened before it
  expired, and it had been obtained with a token issued, earlier still, for the same agent to a caller who
  presented the admin secret.\<close>

theorem only_enrolled_agents_served:
  assumes "ar_tls a" "server_main b a fs = (Some (Inr (lns, st0)), fs')"
    and "tls_trace verify (tl_certs (bo_tls b)) earlier env ops lns st0 (pre @ (lr, cn, Some reply) # post) st"
    and "\<forall>(lr, cn, r)\<in>set pre. expiry_checked verify (tl_certs (bo_tls b)) (tk_pki (cn_tick cn))"
    and "of_inventory reply"
  shows "\<exists>c roots. cn_cert cn = Some c \<and> verify roots (cn_handshake cn) c \<and>
     roots \<noteq> [] \<and> map Inr roots = tl_certs (bo_tls b) (ca_pem (ap_ca st0)) \<and>
     (c \<in> earlier \<or>
      (\<exists>p1 p2 lr1 cn1 ac lr2 cn2 tok. pre = p1 @ (lr1, cn1, Some (Answered (CertIssued ac))) # p2 \<and>
         tl_certs (bo_tls b) (ac_cert_pem ac) = [Inr c] \<and> cn_handshake cn \<le> ac_expires_at ac \<and>
         (lr2, cn2, Some (Answered (TokenIssued tok))) \<in> set p1 \<and> it_agent_id tok = ac_agent_id ac \<and>
         presents_admin_secret (ar_admin_token a) (cn_request cn2)))"
proof -
  note start = started [OF assms(2)]
  obtain mtls boot roots where l: "lns = [\<lparr>ln_addr = ar_listen a, ln_config = Some mtls, ln_routes = router_main\<rparr>,
        \<lparr>ln_addr = ar_tls_bootstrap_listen a, ln_config = Some boot, ln_routes = router_bootstrap\<rparr>]"
    "sg_client_roots mtls = Some roots" "roots \<noteq> []" "map Inr roots = tl_certs (bo_tls b) (ca_pem (ap_ca st0))"
    by (rule tls_listeners [OF assms(1) start(6)])
  have "tls_trace verify (tl_certs (bo_tls b)) earlier env ops lns st0 ((pre @ [(lr, cn, Some reply)]) @ post) st"
    using assms(3) by simp
  then obtain st2 where "tls_trace verify (tl_certs (bo_tls b)) earlier env ops lns st0 (pre @ [(lr, cn, Some reply)]) st2"
    using trace_prefix by blast
  then obtain st1 where s: "tls_trace verify (tl_certs (bo_tls b)) earlier env ops lns st0 pre st1"
    "lr \<in> set lns" "admits verify lr cn"
    "\<forall>roots c. demands_cert lr = Some roots \<longrightarrow> cn_cert cn = Some c \<longrightarrow> c \<in> at_large (tl_certs (bo_tls b)) earlier pre"
    "app_serve env ops (ln_routes lr) (cn_tick cn) (cn_request cn) st1 = (reply, st2)"
    by (rule tls_trace_snocE) auto
  have "ln_routes lr \<noteq> router_bootstrap"
    using of_inventory_handler [OF s(5) assms(5)] not_bootstrap_routes by blast
  then have "demands_cert lr = Some roots" using s(2) l by (auto simp: demands_cert_def)
  then obtain c where c: "cn_cert cn = Some c" "verify roots (cn_handshake cn) c"
    "c \<in> at_large (tl_certs (bo_tls b)) earlier pre"
    using s(3,4) by (auto simp: admits_def split: option.splits)
  show ?thesis
  proof (cases "c \<in> earlier")
    case False
    then obtain lr1 cn1 ac where i: "(lr1, cn1, Some (Answered (CertIssued ac))) \<in> set pre"
      "tl_certs (bo_tls b) (ac_cert_pem ac) = [Inr c]" using c(3) by (auto simp: at_large_def)
    have "cn_handshake cn \<le> ac_expires_at ac"
      using trace_signed [OF s(1) i(1)] assms(4) i c(2) by (fastforce simp: expiry_checked_def)
    with trace_cert [OF s(1) start(1) i(1)] c l start(2) i(2) show ?thesis by metis
  qed (use c l in blast)
qed

section \<open>A concrete trace\<close>

text \<open>An agent joins: its administrator gets a token, it enrols, and then posts.  A certificate is the
  decimal text of the end of its validity.\<close>

definition dated_pki :: "(string, cert_params) pki" where
  "dated_pki = toy_pki\<lparr>pk_cert_pem := (\<lambda>p. show_nat (nat (cr_not_after p)))\<rparr>"

definition dated_tick :: "nat \<Rightarrow> (string, cert_params) tick" where
  "dated_tick t = (toy_tick t)\<lparr>tk_pki := dated_pki\<rparr>"

definition dated_verify :: "string list \<Rightarrow> timestamp \<Rightarrow> string \<Rightarrow> bool" where
  "dated_verify roots t c \<longleftrightarrow> 0 < t \<and> t \<le> int (digits_value c)"

definition secured_args :: args where
  "secured_args = toy_args\<lparr>ar_admin_token := Some ''s''\<rparr>"

definition dated_cert :: agent_cert where
  "dated_cert = toy_cert\<lparr>ac_cert_pem := show_nat (nat (3 + days 365))\<rparr>"

definition joining :: "nat \<Rightarrow> string option \<Rightarrow> http_request \<Rightarrow> (string, cert_params, string) connection" where
  "joining t cert rq = \<lparr>cn_handshake = int t, cn_cert = cert, cn_tick = dated_tick t, cn_request = rq\<rparr>"

lemma dated_expiry: "expiry_checked dated_verify (tl_certs toy_tls) dated_pki"
  by (auto simp: expiry_checked_def dated_pki_def toy_pki_def toy_tls_def dated_verify_def)

lemma secured_started: "\<exists>lns fs'. server_main toy_boot secured_args Map.empty = (Some (Inr (lns, toy_state)), fs')"
proof -
  obtain fs1 where "load_or_init toy_pki (toy_io [] True) 0 toy_dir Map.empty = (Inr toy_ca, fs1)"
    using toy_first_start by blast
  then show ?thesis
    by (simp add: server_main_def toy_boot_def secured_args_def toy_args_def open_store_def with_store_def configure_def
        toy_state_def start_listeners_def run_tls_def sign_server_cert_def toy_pki_def san_list_def
        to_san_def byte_in_def Let_def build_mtls_config_def build_bootstrap_config_def load_pem_def toy_tls_def)
qed

lemma joined_routes:
  "find_path router_bootstrap (token_request hs) = Some (route_of True (POST, ''/v1/admin/bootstrap-tokens'', IssueBootstrapToken))"
  "find_route router_bootstrap (token_request hs) = Some (route_of True (POST, ''/v1/admin/bootstrap-tokens'', IssueBootstrapToken))"
  "find_path router_bootstrap toy_enrol = Some (route_of True (POST, ''/v1/enrol'', EnrolAgent))"
  "find_route router_bootstrap toy_enrol = Some (route_of True (POST, ''/v1/enrol'', EnrolAgent))"
  by (simp_all add: find_path_def find_route_def router_bootstrap_def token_request_def toy_enrol_def
      enrol_request_from_def)

lemma joined_served:
  "serve router_bootstrap 2 (token_request [(ADMIN_HEADER, ''s'')]) limiter_defaults =
     (Inr IssueBootstrapToken, limiter_defaults\<lparr>rl_buckets := [(''unknown'', [2])]\<rparr>)"
  "serve router_bootstrap 3 toy_enrol (limiter_defaults\<lparr>rl_buckets := [(''unknown'', [2])]\<rparr>) =
     (Inr EnrolAgent, limiter_defaults\<lparr>rl_buckets := [(''unknown'', [2, 3])]\<rparr>)"
  by (simp_all add: serve_def joined_routes rate_limit_mw_def toy_checks MAX_BODY_BYTES_def)

lemma joined_posted: "serve router_main 4 toy_ingest l = (Inr IngestOne, l)"
  by (simp add: serve_def find_path_def find_route_def router_main_def toy_ingest_def MAX_BODY_BYTES_def)

definition joined_tokens :: "(any_store, string, cert_params) app_state" where
  "joined_tokens = toy_state\<lparr>ap_rate_limiter := limiter_defaults\<lparr>rl_buckets := [(''unknown'', [2])]\<rparr>,
     ap_tokens := [''t'' \<mapsto> \<lparr>te_agent_id = ''a'', te_expires_at = 2 + hours 24\<rparr>]\<rparr>"

lemma joined_steps:
  "app_serve toy_app_env ops router_bootstrap (dated_tick 2) (token_request [(ADMIN_HEADER, ''s'')]) toy_state =
     (Answered (TokenIssued \<lparr>it_token = ''t'', it_agent_id = ''a'', it_expires_at = 2 + hours 24\<rparr>), joined_tokens)"
  "\<exists>st. app_serve toy_app_env ops router_bootstrap (dated_tick 3) toy_enrol joined_tokens =
     (Answered (CertIssued dated_cert), st) \<and> ap_store st = InMemory memory_new"
proof -
  have "prune_expired Map.empty 2 = Map.empty" by (simp add: prune_expired_def fun_eq_iff)
  then show "app_serve toy_app_env ops router_bootstrap (dated_tick 2) (token_request [(ADMIN_HEADER, ''s'')]) toy_state =
     (Answered (TokenIssued \<lparr>it_token = ''t'', it_agent_id = ''a'', it_expires_at = 2 + hours 24\<rparr>), joined_tokens)"
    using toy_trim
    by (simp add: app_serve_def dated_tick_def toy_tick_def toy_state_def joined_served app_handle_def toy_app_env_def
        extracted_def token_handler_run_def issue_bootstrap_token_def constant_time_eq_iff Let_def issue_def answer_def
        DEFAULT_TOKEN_TTL_HOURS_def joined_tokens_def)
  show "\<exists>st. app_serve toy_app_env ops router_bootstrap (dated_tick 3) toy_enrol joined_tokens =
     (Answered (CertIssued dated_cert), st) \<and> ap_store st = InMemory memory_new"
    by (simp add: app_serve_def dated_tick_def toy_tick_def toy_state_def joined_served app_handle_def toy_app_env_def
        extracted_def token_handler_run_def enrol_def consume_def Let_def answer_def joined_tokens_def
        DEFAULT_AGENT_VALIDITY_DAYS_def hours_def sign_agent_cert_def dated_pki_def toy_pki_def toy_ca_def toy_cert_def
        dated_cert_def agent_params_def)
qed

lemma joined_ingest:
  "ap_store st = InMemory m \<Longrightarrow>
   \<exists>st'. app_serve toy_app_env (any_ops f) router_main (dated_tick 4) toy_ingest st = (Answered (EventStored ACCEPTED), st')"
  by (simp add: app_serve_def dated_tick_def toy_tick_def joined_posted app_handle_def toy_app_env_def extracted_def
      store_handler_def ingest_one_def ingest_any answer_def sample_event_def SCHEMA_VERSION_def)

lemma only_enrolled_agents_served_witness:
  "\<exists>lns fs' pre lr st (ac::agent_cert). server_main toy_boot secured_args Map.empty = (Some (Inr (lns, toy_state)), fs') \<and>
     tls_trace dated_verify (tl_certs toy_tls) {} toy_app_env (any_ops (\<lambda>_. None)) lns toy_state
       (pre @ [(lr, joining 4 (Some (show_nat (nat (3 + days 365)))) toy_ingest, Some (Answered (EventStored ACCEPTED)))]) st \<and>
     4 \<le> ac_expires_at ac \<and> (\<exists>tok::issued_token. it_agent_id tok = ac_agent_id ac)"
proof -
  obtain lns fs' where m: "server_main toy_boot secured_args Map.empty = (Some (Inr (lns, toy_state)), fs')"
    using secured_started by blast
  have tls: "ar_tls secured_args" by (simp add: secured_args_def toy_args_def)
  obtain mtls boot roots where l: "lns = [\<lparr>ln_addr = ar_listen secured_args, ln_config = Some mtls, ln_routes = router_main\<rparr>,
        \<lparr>ln_addr = ar_tls_bootstrap_listen secured_args, ln_config = Some boot, ln_routes = router_bootstrap\<rparr>]"
    "sg_client_roots mtls = Some roots" "sg_client_roots boot = None"
    by (rule tls_listeners [OF tls started(6) [OF m]])
  define open_ln where "open_ln = lns ! 1"
  define main_ln where "main_ln = lns ! 0"
  have d: "demands_cert open_ln = None" "demands_cert main_ln = Some roots" "open_ln \<in> set lns" "main_ln \<in> set lns"
    "ln_routes open_ln = router_bootstrap" "ln_routes main_ln = router_main"
    using l by (simp_all add: open_ln_def main_ln_def demands_cert_def)
  let ?cert = "show_nat (nat (3 + days 365))"
  let ?tok = "\<lparr>it_token = ''t'', it_agent_id = ''a'', it_expires_at = 2 + hours 24\<rparr>"
  let ?x1 = "(open_ln, joining 2 None (token_request [(ADMIN_HEADER, ''s'')]), Some (Answered (TokenIssued ?tok)))"
  let ?x2 = "(open_ln, joining 3 None toy_enrol, Some (Answered (CertIssued dated_cert)))"
  let ?cn = "joining 4 (Some ?cert) toy_ingest"
  let ?trace = "tls_trace dated_verify (tl_certs toy_tls) {} toy_app_env (any_ops (\<lambda>_. None)) lns toy_state"
  have 1: "?trace ([] @ [?x1]) joined_tokens"
    by (rule tls_trace.served [OF tls_trace.start d(3)]) (simp_all add: d admits_def joining_def joined_steps(1))
  obtain st2 where s2: "app_serve toy_app_env (any_ops (\<lambda>_. None)) router_bootstrap (dated_tick 3) toy_enrol joined_tokens =
     (Answered (CertIssued dated_cert), st2)" "ap_store st2 = InMemory memory_new" using joined_steps(2) by blast
  have 2: "?trace (([] @ [?x1]) @ [?x2]) st2"
    by (rule tls_trace.served [OF 1 d(3)]) (simp_all add: d admits_def joining_def s2)
  obtain st3 where s3: "app_serve toy_app_env (any_ops (\<lambda>_. None)) router_main (dated_tick 4) toy_ingest st2 =
     (Answered (EventStored ACCEPTED), st3)" using joined_ingest [OF s2(2)] by blast
  have v: "dated_verify roots 4 ?cert" by (simp add: dated_verify_def days_def)
  have 3: "?trace ([?x1, ?x2] @ (main_ln, ?cn, Some (Answered (EventStored ACCEPTED))) # []) st3"
  proof -
    have "?trace ((([] @ [?x1]) @ [?x2]) @ [(main_ln, ?cn, Some (Answered (EventStored ACCEPTED)))]) st3"
      by (rule tls_trace.served [OF 2 d(4)])
        (simp_all add: d admits_def joining_def s3 v at_large_def toy_tls_def dated_cert_def)
    then show ?thesis by simp
  qed
  have b: "bo_tls toy_boot = toy_tls" by (simp add: toy_boot_def)
  have law: "\<forall>(lr, cn, r)\<in>set [?x1, ?x2]. expiry_checked dated_verify (tl_certs (bo_tls toy_boot)) (tk_pki (cn_tick cn))"
    using dated_expiry by (simp add: b joining_def dated_tick_def)
  from only_enrolled_agents_served [OF tls m 3 [folded b] law] have
    "\<exists>(ac::agent_cert) (tok::issued_token). cn_handshake ?cn \<le> ac_expires_at ac \<and> it_agent_id tok = ac_agent_id ac" by auto
  then obtain ac :: agent_cert and tok :: issued_token where
    e: "4 \<le> ac_expires_at ac" "it_agent_id tok = ac_agent_id ac" by (auto simp: joining_def)
  show ?thesis by (intro exI conjI, rule m, rule 3, rule e(1), rule e(2))
qed

end
