(* ===== verification/Event_Codec.thy ===== *)
theory Event_Codec
  imports Spool "HOL-Library.Countable"
begin

text \<open>
  Events can be written down: the types of the event schema are countable, so there is a codec that
  satisfies what the spool assumes of the serializer.  The program's own codec is serde's derived
  code; this one shows that its laws can be met for every event.
\<close>

section \<open>The schema is countable\<close>

instance word :: (len) countable
  by (rule countable_classI [of unat]) (simp add: word_unat_eq_iff)

instance json :: countable by countable_datatype
instance asset_kind :: countable by countable_datatype
instance primitive_role :: countable by countable_datatype
instance nist_level :: countable by countable_datatype
instance channel_state :: countable by countable_datatype
instance link_health :: countable by countable_datatype
instance agility_level :: countable by countable_datatype
instance agility_evidence :: countable by countable_datatype

instance asset_ext :: (countable) countable
  by (rule countable_classI [of "\<lambda>r. to_nat (as_kind r, as_identity r, as_host r, asset.more r)"]) simp

instance primitive_ext :: (countable) countable
  by (rule countable_classI [of "\<lambda>r. to_nat (pr_role r, pr_algorithm r, pr_parameters r, pr_pq_resistant r,
     pr_nist r, primitive.more r)"]) simp

instance channel_protection_ext :: (countable) countable
  by (rule countable_classI [of "\<lambda>r. to_nat (cp_state r, cp_kme_endpoint r, cp_key_id_observed r,
     cp_psk_age_seconds r, cp_link_qber r, cp_link_key_rate_bps r, cp_link_health r, cp_degraded_reason r,
     channel_protection.more r)"]) simp

instance agility_block_ext :: (countable) countable
  by (rule countable_classI [of "\<lambda>r. to_nat (ag_level r, ag_level_score r, ag_evidence r, ag_scanner_version r,
     ag_rubric_version r, agility_block.more r)"]) simp

instance posture_ext :: (countable) countable
  by (rule countable_classI [of "\<lambda>r. to_nat (po_score r, po_rationale r, po_replacement r, posture.more r)"]) simp

instance crypto_inventory_event_ext :: (countable) countable
  by (rule countable_classI [of "\<lambda>r. to_nat (ev_schema_version r, ev_schema_minor r, ev_source_module r,
     ev_observed_at r, ev_asset r, ev_primitives r, ev_channel_protection r, ev_agility r, ev_posture r,
     crypto_inventory_event.more r)"]) simp

section \<open>A codec\<close>

text \<open>Events are numbered, with a chosen one first, and written as decimal numbers.\<close>

definition number_enc :: "'e::countable \<Rightarrow> 'e \<Rightarrow> string" where
  "number_enc e0 e = show_nat (if e = e0 then 0 else Suc (to_nat e))"

definition number_dec :: "'e::countable \<Rightarrow> string \<Rightarrow> 'e option" where
  "number_dec e0 s = map_option (\<lambda>n. if n = 0 then e0 else from_nat (n - 1)) (dec_nat s)"

lemma codec_laws_number: "codec_laws (number_enc e0) (number_dec e0)"
  using codec_laws_nat by (simp add: codec_laws_def number_enc_def number_dec_def)

end
