(* ===== verification/Net_Main.thy ===== *)
theory Net_Main
  imports Net_Cli
begin

text \<open>
  The command line of the network agent (src/crates/ree0xq-net/src/bin/ree0xq_net.rs): its subcommands
  with their dispatch, and what any of them does to the collector, to the spool and to standard output.
  Parsing the arguments is clap's; time-outs and pauses between hosts have no effect here.
\<close>

section \<open>The commands\<close>

datatype net_cmd =
    FromZgrab (fz_input: string) (fz_collector: "string option") (fz_spool_dir: "string option")
  | ParseHandshake (ph_hex: string)
  | PqProbe (pb_hosts: string) (pb_port: u16) (pb_timeout_s: nat) (pb_rate_delay_ms: nat)
  | Live (lv_args: live_args)
  | LiveEbpf (le_iface: string) (le_ebpf_object: string) (le_collector: "string option") (le_spool_dir: "string option")

text \<open>The environment: the clock, the host's inputs, the readers of JSON and hexadecimal, what is printed of
  a result or an error, the network of the probe, and the sources of a live observation with the
  features the binary was built with.\<close>

record net_env =
  nm_now :: timestamp
  nm_io :: host_io
  nm_zgrab_array :: "string \<Rightarrow> (string, zgrab_record list) result"
  nm_zgrab_record :: "string \<Rightarrow> zgrab_record option"
  nm_hex :: "string \<Rightarrow> bytes option"
  nm_show_summary :: "handshake_summary \<times> primitive list \<Rightarrow> string"
  nm_show_failure :: "parse_failure \<Rightarrow> string"
  nm_probe :: probe_env
  nm_show_probe :: "pq_probe_result \<Rightarrow> string"
  nm_frames :: frame_env
  nm_pcap :: "string \<Rightarrow> (string, packet list) result"
  nm_lib :: pcap_lib
  nm_live_pcap :: bool
  nm_ebpf :: ebpf_host
  nm_live_interface :: bool

definition print_lines :: "string list \<Rightarrow> 's sink_world \<Rightarrow> 's sink_world" where
  "print_lines lines w = w\<lparr>sw_stdout := sw_stdout w @ lines\<rparr>"

text \<open>\<open>None\<close> is a panic.\<close>

definition net_main ::
  "('s, crypto_inventory_event) sink_env \<Rightarrow> net_env \<Rightarrow> net_cmd \<Rightarrow> 's sink_world \<Rightarrow>
   ((string, unit) result \<times> 's sink_world) option" where
  "net_main env n cmd w = (case cmd of
     FromZgrab input coll spool_dir \<Rightarrow>
       Some (case run_from_zgrab env (nm_zgrab_array n) (nm_zgrab_record n) (read_input (nm_io n) input) coll spool_dir
               (nm_now n) w of
           Inl e \<Rightarrow> (Inl e, w)
         | Inr w' \<Rightarrow> (Inr (), w'))
   | ParseHandshake hex \<Rightarrow>
       Some (case run_parse_handshake (nm_hex n) (handshake_input (nm_io n) hex) of
           Inl e \<Rightarrow> (Inl (nm_show_failure n e), w)
         | Inr s \<Rightarrow> (Inr (), print_lines [nm_show_summary n s] w))
   | PqProbe hosts port timeout_s rate_delay_ms \<Rightarrow>
       Some (case read_input (nm_io n) hosts of
           Inl e \<Rightarrow> (Inl e, w)
         | Inr raw \<Rightarrow> (Inr (), print_lines (map (nm_show_probe n) (run_pq_probe (nm_probe n) raw port)) w))
   | Live a \<Rightarrow>
       map_option (\<lambda>(r, w'). (stats_logged r, w')) (run_live env (nm_frames n) (nm_pcap n) (nm_lib n) (nm_live_pcap n) a w)
   | LiveEbpf iface ebpf_object coll spool_dir \<Rightarrow>
       (case run_live_ebpf env (nm_ebpf n) (nm_live_interface n) iface ebpf_object coll spool_dir w of
          (r, w') \<Rightarrow> Some (stats_logged r, w')))"

section \<open>What a command reports\<close>

text \<open>The subcommands with a sink, and the same command with another \<open>--collector\<close> and \<open>--spool-dir\<close>.\<close>

fun reporting :: "net_cmd \<Rightarrow> bool" where
  "reporting (ParseHandshake _) = False"
| "reporting (PqProbe _ _ _ _) = False"
| "reporting _ = True"

fun net_redirect :: "string option \<Rightarrow> string option \<Rightarrow> net_cmd \<Rightarrow> net_cmd" where
  "net_redirect c d (FromZgrab i _ _) = FromZgrab i c d"
| "net_redirect c d (Live a) = Live (a\<lparr>la_collector := c, la_spool_dir := d\<rparr>)"
| "net_redirect c d (LiveEbpf i b _ _) = LiveEbpf i b c d"
| "net_redirect c d cmd = cmd"

text \<open>The collector is offered some events in order, and the spool then holds those it refused.\<close>

definition offered_world :: "('s, 'e) sink_env \<Rightarrow> 'e list \<Rightarrow> 's sink_world \<Rightarrow> 's sink_world" where
  "offered_world env es w =
     w\<lparr>sw_server := emitted_state (sv_post env) (sw_server w) es,
       sw_spool := spool_file_of (sv_enc env) (refused (sv_post env) (sw_server w) es)\<rparr>"

lemma sink_stdout:
  "sink_new env None dir w = Inr (\<lparr>si_collector = None, si_spool = False\<rparr>, w)"
  "foldl (sink_send env \<lparr>si_collector = None, si_spool = b\<rparr>) w evs = print_lines (map (sv_enc env) evs) w"
proof -
  show "sink_new env None dir w = Inr (\<lparr>si_collector = None, si_spool = False\<rparr>, w)"
    by (simp add: sink_new_def drain_spool_def split: option.split)
  show "foldl (sink_send env \<lparr>si_collector = None, si_spool = b\<rparr>) w evs = print_lines (map (sv_enc env) evs) w"
    by (induction evs arbitrary: w) (simp_all add: sink_send_def print_lines_def)
qed

lemma sink_spooled:
  assumes "spool_works env dir" "pending env w old"
  shows "\<exists>sk w'. sink_new env (Some url) (Some dir) w = Inr (sk, w') \<and>
    (\<forall>evs. foldl (sink_send env sk) w' evs = offered_world env (old @ evs) w)"
proof -
  obtain sk w' where new: "sink_new env (Some url) (Some dir) w = Inr (sk, w')"
    using sink_run_pending [OF assms, of url "[]"] by (auto simp: sink_run_def rbind_eq_Inr)
  have "foldl (sink_send env sk) w' evs = offered_world env (old @ evs) w" for evs
    using sink_run_pending [OF assms, of url evs] by (simp add: sink_run_def new offered_world_def)
  with new show ?thesis by blast
qed

lemma live_observation_redirect [simp]:
  "live_observation fenv read_pcap lib live_pcap (a\<lparr>la_collector := coll, la_spool_dir := dir\<rparr>) =
   live_observation fenv read_pcap lib live_pcap a"
  by (cases "la_pcap a"; cases "la_iface a") (simp_all add: live_observation_def Let_def)

text \<open>C25: printing and posting are the same report.  A reporting subcommand without \<open>--collector\<close> prints
  some events and ends with a result; with a collector and a spool it ends with the same result, having
  offered to the collector first what the spool held and then the same events, each once and in order,
  and leaves in the spool exactly those refused.  This holds for a run that fails half way too, except
  that a run which fails before it opens its sink touches nothing.\<close>

theorem net_reports_exact:
  assumes "spool_works env dir" "pending env w old" "reporting cmd"
    and "net_main env n (net_redirect None None cmd) w \<noteq> None"
  shows "\<exists>r evs. net_main env n (net_redirect None None cmd) w = Some (r, print_lines (map (sv_enc env) evs) w) \<and>
     (net_main env n (net_redirect (Some url) (Some dir) cmd) w = Some (r, offered_world env (old @ evs) w) \<or>
      evs = [] \<and> r \<noteq> Inr () \<and> net_main env n (net_redirect (Some url) (Some dir) cmd) w = Some (r, w))"
proof -
  obtain sk w' where sink: "sink_new env (Some url) (Some dir) w = Inr (sk, w')"
    "\<And>evs. foldl (sink_send env sk) w' evs = offered_world env (old @ evs) w"
    using sink_spooled [OF assms(1,2), of url] by blast
  have none: "print_lines [] w = w" by (simp add: print_lines_def)
  show ?thesis
  proof (cases cmd)
    case (FromZgrab input c d)
    let ?records = "rbind (read_input (nm_io n) input) (parse_zgrab_payload (nm_zgrab_array n) (nm_zgrab_record n))"
    have run: "net_main env n (FromZgrab input coll spool) w =
        Some (case rbind ?records (\<lambda>records. sink_run env coll spool (map (\<lambda>r. event_from_zgrab r (nm_now n)) records) w) of
          Inl e \<Rightarrow> (Inl e, w) | Inr w' \<Rightarrow> (Inr (), w'))" for coll spool
      by (simp add: net_main_def run_from_zgrab_def rbind_assoc)
    show ?thesis
    proof (cases ?records)
      case (Inl e)
      then show ?thesis using FromZgrab by (intro exI [of _ "Inl e"] exI [of _ "[]"]) (simp add: run none)
    next
      case (Inr records)
      let ?evs = "map (\<lambda>r. event_from_zgrab r (nm_now n)) records"
      have "net_main env n (FromZgrab input None None) w = Some (Inr (), print_lines (map (sv_enc env) ?evs) w)"
        "net_main env n (FromZgrab input (Some url) (Some dir)) w = Some (Inr (), offered_world env (old @ ?evs) w)"
        unfolding run Inr by (simp_all add: sink_run_def sink sink_stdout)
      then show ?thesis using FromZgrab by (metis net_redirect.simps(1))
    qed
  next
    case (Live a)
    then obtain r evs where "live_observation (nm_frames n) (nm_pcap n) (nm_lib n) (nm_live_pcap n) a = Some (r, evs)"
      using assms(4) by (auto simp: net_main_def run_live_def sink_stdout split: option.splits)
    then show ?thesis using Live by (auto simp: net_main_def run_live_def sink sink_stdout)
  next
    case (LiveEbpf iface obj c d)
    show ?thesis
    proof (cases "nm_live_interface n")
      case True
      then show ?thesis using LiveEbpf
        by (auto simp: net_main_def run_live_ebpf_def sink sink_stdout split: prod.split)
    next
      case False
      then obtain e where "run_live_ebpf env (nm_ebpf n) (nm_live_interface n) iface obj coll spool w = (Inl e, w)"
        for coll spool by (simp add: run_live_ebpf_def)
      then show ?thesis using LiveEbpf none
        by (intro exI [of _ "Inl e"] exI [of _ "[]"]) (simp add: net_main_def)
    qed
  qed (use assms(3) in simp_all)
qed

section \<open>Sequences of captures\<close>

text \<open>Runs of the agent one after the other, over what the runs before left.\<close>

fun net_runs ::
  "('s, crypto_inventory_event) sink_env \<Rightarrow> net_env \<Rightarrow> net_cmd list \<Rightarrow> 's sink_world \<Rightarrow> 's sink_world option" where
  "net_runs env n [] w = Some w"
| "net_runs env n (cmd # cmds) w = Option.bind (net_main env n cmd w) (\<lambda>(r, w'). net_runs env n cmds w')"

text \<open>\<open>live --pcap\<close> with a collector and a spool.\<close>

definition live_cmd :: "string \<Rightarrow> string \<Rightarrow> nat \<Rightarrow> nat \<Rightarrow> string \<Rightarrow> net_cmd" where
  "live_cmd url dir ttl_secs capacity path =
     Live \<lparr>la_pcap = Some path, la_iface = None, la_filter = ''tcp port 443'', la_promiscuous = False,
       la_snaplen = 1500, la_collector = Some url, la_spool_dir = Some dir,
       la_dedup_ttl_secs = ttl_secs, la_dedup_capacity = capacity\<rparr>"

text \<open>What the captures of an agent report: one run per capture, with a fresh cache.\<close>

definition capture_events :: "frame_env \<Rightarrow> nat \<Rightarrow> nat \<Rightarrow> packet list \<Rightarrow> crypto_inventory_event list" where
  "capture_events fenv ttl_secs capacity pkts =
     lv_events (observe_pcap_with_dedup fenv (live_dedup ttl_secs capacity) pkts)"

lemma capture_events_empty [simp]: "capture_events fenv ttl_secs capacity [] = []"
  by (simp add: capture_events_def observe_pcap_with_dedup_def)

lemma live_cmd_runs:
  assumes "nm_pcap n path = Inr pkts"
    and "sink_run env (Some url) (Some dir) (capture_events (nm_frames n) ttl capacity pkts) w = Inr w'"
  shows "net_main env n (live_cmd url dir ttl capacity path) w = Some (Inr (), w')"
  using assms
  by (auto simp: net_main_def live_cmd_def run_live_def live_observation_def sink_run_def capture_events_def Let_def
      rbind_eq_Inr)

lemma live_runs:
  "list_all2 (\<lambda>p pkts. nm_pcap n p = Inr pkts) paths captures \<Longrightarrow>
   agent_runs env url dir (map (capture_events (nm_frames n) ttl capacity) captures) w = Inr w' \<Longrightarrow>
   net_runs env n (map (live_cmd url dir ttl capacity) paths) w = Some w'"
proof (induction paths captures arbitrary: w rule: list_all2_induct)
  case (Cons p ps pkts captures)
  from Cons.prems obtain w1 where w1:
    "sink_run env (Some url) (Some dir) (capture_events (nm_frames n) ttl capacity pkts) w = Inr w1"
    "agent_runs env url dir (map (capture_events (nm_frames n) ttl capacity) captures) w1 = Inr w'"
    by (auto simp: rbind_eq_Inr)
  show ?case using live_cmd_runs [OF Cons.hyps(1) w1(1)] Cons.IH [OF w1(2)] by simp
qed simp

end
