(* ===== verification/Delivery.thy ===== *)
theory Delivery
  imports App_History Net_Main Capture Event_Codec
begin

text \<open>
  From the wire to the inventory: agents with a spool (\<open>Net_Cli\<close>) post to a running server
  (\<open>App\<close>) over a network that loses requests and replies.  The server behind the network is an
  interpretation of the contract \<open>collector\<close>, so what \<open>Net_Cli\<close> proves of the agent holds here, and
  what \<open>Routes\<close> proves of the inventory says where the events end up.
\<close>

section \<open>The network and the server behind it\<close>

text \<open>What becomes of the next requests; after the schedule every request reaches the server and every
  reply comes back.\<close>

datatype request_fate = Reaches | Unreachable | ReplyLost

record ('k, 'c) remote =
  fs_fates :: "request_fate list"
  fs_clock :: nat
  fs_app :: "(any_store, 'k, 'c) app_state"
  fs_lost :: "crypto_inventory_event list"

definition event_post_request :: "string \<Rightarrow> http_request" where
  "event_post_request body =
     \<lparr>rq_method = POST, rq_path = ''/v1/events'', rq_peer = None,
      rq_headers = [(''content-type'', ''application/json'')], rq_body = body\<rparr>"

definition main_routes :: "bool \<Rightarrow> route list" where
  "main_routes tls = (if tls then router_main else router)"

definition is_success :: "app_reply \<Rightarrow> bool" where
  "is_success r = (case r of Answered _ \<Rightarrow> True | _ \<Rightarrow> False)"

definition always_up :: "pg_store \<Rightarrow> string option" where
  "always_up p = None"

definition remote_post ::
  "app_env \<Rightarrow> (nat \<Rightarrow> ('k, 'c) tick) \<Rightarrow> bool \<Rightarrow> (crypto_inventory_event \<Rightarrow> string) \<Rightarrow>
   ('k, 'c) remote \<Rightarrow> crypto_inventory_event \<Rightarrow> bool \<times> ('k, 'c) remote" where
  "remote_post aenv clock tls enc s e =
     (let fate = (case fs_fates s of [] \<Rightarrow> Reaches | f # _ \<Rightarrow> f);
          s1 = s\<lparr>fs_fates := tl (fs_fates s), fs_clock := fs_clock s + 1\<rparr>
      in if fate = Unreachable then (False, s1)
         else
           (case app_serve aenv (any_ops always_up) (main_routes tls) (clock (fs_clock s))
                   (event_post_request (enc e)) (fs_app s) of
              (reply, app) \<Rightarrow>
                (if fate = ReplyLost
                 then (False, s1\<lparr>fs_app := app, fs_lost := fs_lost s @ (if is_success reply then [e] else [])\<rparr>)
                 else (is_success reply, s1\<lparr>fs_app := app\<rparr>))))"

text \<open>The events a server has logged.  It takes those of its schema version whose body is within the
  limit of the routes, 8 MiB, when its JSON reader reads back the event the agent wrote.\<close>

definition stored_events :: "any_store \<Rightarrow> crypto_inventory_event list" where
  "stored_events s = (case s of InMemory m \<Rightarrow> ms_log m | Postgres p \<Rightarrow> map row_body (pg_events p))"

definition readable :: "app_env \<Rightarrow> (crypto_inventory_event \<Rightarrow> string) \<Rightarrow> crypto_inventory_event \<Rightarrow> bool" where
  "readable aenv enc e \<longleftrightarrow> xt_event aenv (event_post_request (enc e)) = Inr e"

definition within_limits :: "(crypto_inventory_event \<Rightarrow> string) \<Rightarrow> crypto_inventory_event \<Rightarrow> bool" where
  "within_limits enc e \<longleftrightarrow> supported_version e \<and> length (enc e) \<le> MAX_BODY_BYTES"

definition deliverable :: "app_env \<Rightarrow> (crypto_inventory_event \<Rightarrow> string) \<Rightarrow> crypto_inventory_event \<Rightarrow> bool" where
  "deliverable aenv enc e \<longleftrightarrow> readable aenv enc e \<and> within_limits enc e"

lemmas deliverable_defs = deliverable_def readable_def within_limits_def

lemma readable_filter:
  "list_all (readable aenv enc) es \<Longrightarrow>
   filter (deliverable aenv enc) es = filter (within_limits enc) es \<and>
   filter (\<lambda>e. \<not> deliverable aenv enc e) es = filter (\<lambda>e. \<not> within_limits enc e) es"
  by (induction es) (simp_all add: deliverable_def)

lemma deliverable_all:
  "list_all (deliverable aenv enc) es \<Longrightarrow> list_all (readable aenv enc) es \<and> filter (within_limits enc) es = es"
  by (induction es) (simp_all add: deliverable_def)

lemma ingest_one_any:
  assumes "supported_version e"
  shows "ingest_one (any_ops always_up) e s =
    (Inr ACCEPTED, case s of InMemory m \<Rightarrow> InMemory (memory_append m e) | Postgres p \<Rightarrow> Postgres (pg_append p e))"
  using assms
  by (cases s) (simp_all add: ingest_one_def ingest_def supported_version_def any_ops_def always_up_def)

lemma post_route:
  "length body \<le> MAX_BODY_BYTES \<Longrightarrow> serve (main_routes tls) t (event_post_request body) l = (Inr IngestOne, l)"
  by (simp add: serve_def find_path_def find_route_def main_routes_def router_def router_bootstrap_def router_main_def
      event_post_request_def)

lemma deliverable_served:
  assumes "deliverable aenv enc e"
  shows "\<exists>app'. app_serve aenv (any_ops always_up) (main_routes tls) tk (event_post_request (enc e)) app =
      (Answered (EventStored ACCEPTED), app') \<and> stored_events (ap_store app') = stored_events (ap_store app) @ [e]"
proof -
  have "stored_events (case ap_store app of InMemory m \<Rightarrow> InMemory (memory_append m e)
        | Postgres p \<Rightarrow> Postgres (pg_append p e)) = stored_events (ap_store app) @ [e]"
    by (cases "ap_store app") (simp_all add: stored_events_def memory_append_log pg_append_def Let_def)
  then show ?thesis
    using assms
    by (simp add: deliverable_defs app_serve_def post_route app_handle_def extracted_def store_handler_def
        ingest_one_any answer_def)
qed

text \<open>Any other is answered 413 or 400, each time it is posted, and not stored.\<close>

lemma undeliverable_refused:
  assumes "readable aenv enc e" "\<not> deliverable aenv enc e"
  shows "\<exists>reply app'. app_serve aenv (any_ops always_up) (main_routes tls) tk (event_post_request (enc e)) app =
      (reply, app') \<and> \<not> is_success reply \<and> stored_events (ap_store app') = stored_events (ap_store app)"
proof (cases "length (enc e) \<le> MAX_BODY_BYTES")
  case True
  then have "\<not> supported_version e" using assms by (simp add: deliverable_defs)
  then obtain code msg where "ingest_one (any_ops always_up) e s = (Inl (code, msg), s)" for s
    by (simp add: ingest_one_def ingest_def supported_version_def version_mismatch_def api_fail_def)
  then show ?thesis
    using assms(1) True
    by (simp add: readable_def app_serve_def post_route app_handle_def extracted_def store_handler_def answer_def
        is_success_def)
next
  case False
  then have "serve (main_routes tls) t (event_post_request (enc e)) l = (Inl PAYLOAD_TOO_LARGE, l)" for t l
    by (simp add: serve_def find_path_def find_route_def main_routes_def router_def router_bootstrap_def
        router_main_def event_post_request_def)
  then show ?thesis by (simp add: app_serve_def is_success_def)
qed

interpretation remote: collector "remote_post aenv clock tls enc" "\<lambda>s. stored_events (ap_store (fs_app s))" fs_lost
  "\<lambda>s. length (fs_fates s)" "readable aenv enc" "deliverable aenv enc"
  for aenv and clock :: "nat \<Rightarrow> ('k, 'c) tick" and tls enc
proof
  fix e ok and s s' :: "('k, 'c) remote"
  assume "readable aenv enc e" "\<not> deliverable aenv enc e"
  from undeliverable_refused [OF this] obtain reply app' where
    "app_serve aenv (any_ops always_up) (main_routes tls) (clock (fs_clock s)) (event_post_request (enc e)) (fs_app s) =
      (reply, app')" "\<not> is_success reply" "stored_events (ap_store app') = stored_events (ap_store (fs_app s))" by blast
  moreover assume "remote_post aenv clock tls enc s e = (ok, s')"
  ultimately show "\<not> ok \<and> stored_events (ap_store (fs_app s')) = stored_events (ap_store (fs_app s)) \<and>
      fs_lost s' = fs_lost s \<and> length (fs_fates s') \<le> length (fs_fates s)"
    by (auto simp: remote_post_def Let_def split: if_splits list.splits)
next
  fix e and s s' :: "('k, 'c) remote"
  assume d: "deliverable aenv enc e"
  obtain app' where app: "app_serve aenv (any_ops always_up) (main_routes tls) (clock (fs_clock s))
      (event_post_request (enc e)) (fs_app s) = (Answered (EventStored ACCEPTED), app')"
    "stored_events (ap_store app') = stored_events (ap_store (fs_app s)) @ [e]"
    using deliverable_served [OF d] by blast
  {
    assume "remote_post aenv clock tls enc s e = (True, s')"
    then show "stored_events (ap_store (fs_app s')) = stored_events (ap_store (fs_app s)) @ [e] \<and>
        fs_lost s' = fs_lost s \<and> length (fs_fates s') \<le> length (fs_fates s)"
      using app by (auto simp: remote_post_def Let_def is_success_def split: if_splits list.splits)
  next
    assume "remote_post aenv clock tls enc s e = (False, s')"
    then show "length (fs_fates s') < length (fs_fates s) \<and>
        (stored_events (ap_store (fs_app s')) = stored_events (ap_store (fs_app s)) \<and> fs_lost s' = fs_lost s \<or>
         stored_events (ap_store (fs_app s')) = stored_events (ap_store (fs_app s)) @ [e] \<and> fs_lost s' = fs_lost s @ [e])"
      using app by (auto simp: remote_post_def Let_def is_success_def split: if_splits list.splits)
  }
qed

section \<open>The store behind the network\<close>

definition in_memory_history :: "rollup_config \<Rightarrow> ('k, 'c) remote \<Rightarrow> bool" where
  "in_memory_history cfg s \<longleftrightarrow> rollup_of (fs_app s) = cfg \<and>
     ap_store (fs_app s) = InMemory (memory.append_all (stored_events (ap_store (fs_app s))))"

lemma append_all_log: "ms_log (memory.append_all es) = es"
proof (induction es rule: rev_induct)
  case Nil
  show ?case by (simp add: memory.append_all_def) (simp add: memory_new_def)
next
  case (snoc e es)
  then show ?case by (simp add: memory.append_all_snoc memory_append_log)
qed

lemma serve_once: "app_serve env ops rs tk rq st = (r, st') \<Longrightarrow> app_run env ops [(tk, rs, rq)] st = ([r], st')"
  by simp

lemma post_history:
  assumes "in_memory_history cfg s"
  shows "in_memory_history cfg (snd (remote_post aenv clock tls enc s e))"
proof -
  obtain reply app where app: "app_serve aenv (any_ops always_up) (main_routes tls) (clock (fs_clock s))
      (event_post_request (enc e)) (fs_app s) = (reply, app)" by fastforce
  define es where "es = stored_events (ap_store (fs_app s))"
  have m: "ap_store (fs_app s) = InMemory (memory.append_all es)"
    using assms by (simp add: in_memory_history_def es_def)
  obtain xs where "ap_store app = InMemory (memory.append_all (es @ xs))"
    using run_store [OF serve_once [OF app] m] by (auto simp: memory.append_all_def)
  moreover have "rollup_of app = cfg"
    using run_constant [OF serve_once [OF app]] assms by (simp add: in_memory_history_def)
  ultimately have "in_memory_history cfg (s'\<lparr>fs_app := app\<rparr>)" for s' :: "('a, 'b) remote"
    by (simp add: in_memory_history_def stored_events_def append_all_log)
  moreover have "in_memory_history cfg (s\<lparr>fs_fates := a, fs_clock := b\<rparr>)" for a b
    using assms by (simp add: in_memory_history_def)
  ultimately show ?thesis
    using app by (simp add: remote_post_def Let_def in_memory_history_def)
qed

lemma posts_history:
  "in_memory_history cfg s \<Longrightarrow> in_memory_history cfg (emitted_state (remote_post aenv clock tls enc) s es)"
  by (induction es arbitrary: s) (simp_all add: post_history)

section \<open>Properties\<close>

definition first_contact :: "request_fate list \<Rightarrow> (any_store, 'k, 'c) app_state \<Rightarrow> ('k, 'c) remote" where
  "first_contact fates st = \<lparr>fs_fates = fates, fs_clock = 0, fs_app = st, fs_lost = []\<rparr>"

lemma fresh_history:
  assumes "ar_database_url a = None" "server_main b a fs = (Some (Inr (lns, st)), fs')"
  shows "stored_events (ap_store st) = [] \<and> in_memory_history (rollup_of st) (first_contact fates st)"
proof -
  have "ap_store st = InMemory memory_new" using started(4) [OF assms(2,1)] .
  moreover from this have "stored_events (ap_store st) = []" by (simp add: stored_events_def memory_new_def)
  ultimately show ?thesis
    by (simp add: in_memory_history_def first_contact_def memory.append_all_def)
qed

lemma agents_delivered:
  assumes boot: "ar_database_url a = None" "server_main b a fs = (Some (Inr (lns, st)), fs')"
    and agent: "spool_works env dir" "sv_post env = remote_post aenv clock tls (sv_enc env)"
    and start: "sw_server w = first_contact fates st" "sw_spool w = None"
    and read: "list_all (readable aenv (sv_enc env)) (concat runs)" and n: "length fates < n"
  obtains w' where "agent_runs env url dir (runs @ replicate n []) w = Inr w'"
    "sw_spool w' = spool_file_of (sv_enc env) (filter (\<lambda>e. \<not> within_limits (sv_enc env) e) (concat runs))"
    "in_memory_history (rollup_of st) (sw_server w')"
    "mset (stored_events (ap_store (fs_app (sw_server w')))) =
       mset (filter (within_limits (sv_enc env)) (concat runs)) + mset (fs_lost (sw_server w'))"
    "set (stored_events (ap_store (fs_app (sw_server w')))) = set (filter (within_limits (sv_enc env)) (concat runs))"
proof -
  let ?ok = "filter (within_limits (sv_enc env)) (concat runs)"
  have fresh: "stored_events (ap_store (fs_app (sw_server w))) = []" "in_memory_history (rollup_of st) (sw_server w)"
    using fresh_history [OF boot] start(1) by (simp_all add: first_contact_def)
  from remote.recovered [OF agent start(2) read _ fresh(1), of n url] obtain w' where w':
    "agent_runs env url dir (runs @ replicate n []) w = Inr w'"
    "sw_spool w' = spool_file_of (sv_enc env) (filter (\<lambda>e. \<not> within_limits (sv_enc env) e) (concat runs))"
    "mset (stored_events (ap_store (fs_app (sw_server w')))) = mset ?ok + mset (fs_lost (sw_server w'))"
    "set (fs_lost (sw_server w')) \<subseteq> set ?ok"
    using n start(1) unfolding readable_filter [OF read, THEN conjunct1] readable_filter [OF read, THEN conjunct2]
    by (auto simp: first_contact_def)
  have "pending env w []" by (simp add: pending_def spool_file_of_def start(2))
  from agent_runs_posts [OF agent(1) this w'(1)] obtain es where
    es: "sw_server w' = emitted_state (remote_post aenv clock tls (sv_enc env)) (sw_server w) es"
    unfolding agent(2) by blast
  from fresh(2) have "in_memory_history (rollup_of st) (sw_server w')" unfolding es by (rule posts_history)
  moreover have "set (stored_events (ap_store (fs_app (sw_server w')))) = set ?ok"
    using arg_cong [OF w'(3), of set_mset] w'(4) by (simp only: set_mset_mset set_mset_union) blast
  ultimately show ?thesis using that w' by blast
qed

lemma served_rows:
  assumes "in_memory_history cfg s"
    and "app_serve aenv (any_ops fails) rs tk rq (fs_app s) = (Answered (InventoryPage page), st2)"
  shows "iv_count page = card (key_from_event ` set (stored_events (ap_store (fs_app s)))) \<and>
     set (iv_items page) = {inventory_item_of cfg (tk_now tk) (is_blocked (ev_agility e)) e | e.
       newest_of id (filter (\<lambda>x. key_from_event x = key_from_event e) (stored_events (ap_store (fs_app s)))) = Some e}"
proof -
  let ?es = "stored_events (ap_store (fs_app s))"
  have "inventory (any_ops fails) cfg (tk_now tk) (InMemory (memory.append_all ?es)) = Inr page"
    using serve_inventory [OF assms(2)] assms(1) by (metis in_memory_history_def)
  then show ?thesis
    using inventory_of_appended [of cfg "tk_now tk" ?es] by (auto simp: inventory_any)
qed

lemma inventory_answered:
  assumes "in_memory_history cfg s"
  obtains page st2 where
    "app_serve aenv (any_ops fails) (main_routes tls) tk inventory_request (fs_app s) = (Answered (InventoryPage page), st2)"
proof -
  have "serve (main_routes tls) t inventory_request l = (Inr Inventory, l)" for t l
    by (simp add: serve_def find_path_def find_route_def main_routes_def router_def router_bootstrap_def
        router_main_def inventory_request_def)
  moreover obtain page where
    "inventory memory_ops cfg (tk_now tk) (memory.append_all (stored_events (ap_store (fs_app s)))) = Inr page"
    using inventory_of_appended by blast
  moreover have "rollup_of (fs_app s\<lparr>ap_rate_limiter := l\<rparr>) = cfg"
    "ap_store (fs_app s) = InMemory (memory.append_all (stored_events (ap_store (fs_app s))))" for l
    using assms by (simp_all add: in_memory_history_def rollup_of_def)
  ultimately have "fst (app_serve aenv (any_ops fails) (main_routes tls) tk inventory_request (fs_app s)) =
      Answered (InventoryPage page)"
    by (simp add: app_serve_def app_handle_def answer_def) (metis inventory_any old.sum.simps(6))
  then show ?thesis using that by (metis prod.collapse)
qed

lemma newest_exists:
  assumes "e \<in> set es"
  obtains x where "newest_of id (filter (\<lambda>y. key_from_event y = key_from_event e) es) = Some x"
    "key_from_event x = key_from_event e" "x \<in> set es"
proof -
  have "newest_of id (filter (\<lambda>y. key_from_event y = key_from_event e) es) \<noteq> None"
    using assms by (auto simp: filter_empty_conv)
  then obtain x where x: "newest_of id (filter (\<lambda>y. key_from_event y = key_from_event e) es) = Some x" by blast
  from newest_of_in [OF this] have "x \<in> set es" "key_from_event x = key_from_event e" by auto
  with x that show ?thesis by blast
qed

lemma newest_of_max:
  "newest_of id es = Some e \<Longrightarrow> x \<in> set es \<Longrightarrow> ev_observed_at x \<le> ev_observed_at e"
  by (drule newest_of_split) (fastforce simp: less_imp_le)

text \<open>A page with one row for each asset of a list of events, made of one of its newest.\<close>

definition newest_rows ::
  "rollup_config \<Rightarrow> timestamp \<Rightarrow> crypto_inventory_event list \<Rightarrow> inventory_response \<Rightarrow> bool" where
  "newest_rows cfg now es page \<longleftrightarrow>
     iv_count page = card (key_from_event ` set es) \<and> length (iv_items page) = iv_count page \<and>
     (\<forall>e\<in>set es. \<exists>newest\<in>set es.
        inventory_item_of cfg now (is_blocked (ev_agility newest)) newest \<in> set (iv_items page) \<and>
        key_from_event newest = key_from_event e \<and>
        (\<forall>x\<in>set es. key_from_event x = key_from_event e \<longrightarrow> ev_observed_at x \<le> ev_observed_at newest))"

lemma served_newest_rows:
  assumes "in_memory_history cfg s" "set (stored_events (ap_store (fs_app s))) = set es"
    and page: "app_serve aenv (any_ops fails) rs tk rq (fs_app s) = (Answered (InventoryPage page), st2)"
  shows "newest_rows cfg (tk_now tk) es page"
  unfolding newest_rows_def
proof (intro conjI ballI)
  note rows = served_rows [OF assms(1) page]
  show "iv_count page = card (key_from_event ` set es)" using rows assms(2) by simp
  show "length (iv_items page) = iv_count page"
    using serve_inventory [OF page] by (auto simp: inventory_def rbind_eq_Inr Let_def)
  fix e assume "e \<in> set es"
  then obtain x where x: "newest_of id (filter (\<lambda>y. key_from_event y = key_from_event e)
      (stored_events (ap_store (fs_app s)))) = Some x"
    "key_from_event x = key_from_event e" "x \<in> set (stored_events (ap_store (fs_app s)))"
    using newest_exists assms(2) by metis
  have "inventory_item_of cfg (tk_now tk) (is_blocked (ev_agility x)) x \<in> set (iv_items page)"
    unfolding conjunct2 [OF rows] using x(1,2) by auto
  moreover have "ev_observed_at y \<le> ev_observed_at x" if "y \<in> set es" "key_from_event y = key_from_event e" for y
    using newest_of_max [OF x(1), of y] that assms(2) by simp
  ultimately show "\<exists>newest\<in>set es.
      inventory_item_of cfg (tk_now tk) (is_blocked (ev_agility newest)) newest \<in> set (iv_items page) \<and>
      key_from_event newest = key_from_event e \<and>
      (\<forall>x\<in>set es. key_from_event x = key_from_event e \<longrightarrow> ev_observed_at x \<le> ev_observed_at newest)"
    using x(2,3) assms(2) by blast
qed

text \<open>C12: everything an agent reports reaches the inventory, unless the server can never take it.  Let a server
  that keeps its events in memory (no database URL) have just started, and let any runs of one agent be its only
  client, whose HTTP client and spool work (the directory opens and holds no file yet, an event is written as one line
  that reads back as the event), over a network that loses requests and replies
  according to any finite schedule and then none.  Let the server's JSON reader read back what the agent's writer writes.
  After as many further runs as the schedule is long, plus one:  the spool holds, in order, exactly the events whose
  JSON is over the body limit of 8 MiB or which have another schema version, and is empty when there are none; of the
  other events the server has logged each once, plus once for each reply that was lost; and the inventory it
  answers has exactly one row per asset of theirs, made of an event reported for it than which none of them is newer.\<close>

theorem reported_assets_reach_inventory:
  assumes "ar_database_url a = None" "server_main b a fs = (Some (Inr (lns, st)), fs')"
    and "spool_works env dir" "sv_post env = remote_post aenv clock tls (sv_enc env)"
    and "sw_server w = first_contact fates st" "sw_spool w = None"
    and "list_all (readable aenv (sv_enc env)) (concat runs)" "length fates < n"
  shows "\<exists>w'. agent_runs env url dir (runs @ replicate n []) w = Inr w' \<and>
     sw_spool w' = spool_file_of (sv_enc env) (filter (\<lambda>e. \<not> within_limits (sv_enc env) e) (concat runs)) \<and>
     mset (stored_events (ap_store (fs_app (sw_server w')))) =
       mset (filter (within_limits (sv_enc env)) (concat runs)) + mset (fs_lost (sw_server w')) \<and>
     (\<forall>fails tk. \<exists>page st2.
        app_serve aenv (any_ops fails) (main_routes tls) tk inventory_request (fs_app (sw_server w')) =
          (Answered (InventoryPage page), st2) \<and>
        newest_rows (rollup_of st) (tk_now tk) (filter (within_limits (sv_enc env)) (concat runs)) page)"
proof -
  obtain w' where w': "agent_runs env url dir (runs @ replicate n []) w = Inr w'"
    "sw_spool w' = spool_file_of (sv_enc env) (filter (\<lambda>e. \<not> within_limits (sv_enc env) e) (concat runs))"
    "in_memory_history (rollup_of st) (sw_server w')"
    "mset (stored_events (ap_store (fs_app (sw_server w')))) =
       mset (filter (within_limits (sv_enc env)) (concat runs)) + mset (fs_lost (sw_server w'))"
    "set (stored_events (ap_store (fs_app (sw_server w')))) = set (filter (within_limits (sv_enc env)) (concat runs))"
    by (rule agents_delivered [OF assms])
  have "\<exists>page st2.
        app_serve aenv (any_ops fails) (main_routes tls) tk inventory_request (fs_app (sw_server w')) =
          (Answered (InventoryPage page), st2) \<and>
        newest_rows (rollup_of st) (tk_now tk) (filter (within_limits (sv_enc env)) (concat runs)) page" for fails tk
  proof -
    obtain page st2 where page: "app_serve aenv (any_ops fails) (main_routes tls) tk inventory_request
        (fs_app (sw_server w')) = (Answered (InventoryPage page), st2)" by (rule inventory_answered [OF w'(3)])
    then show ?thesis using served_newest_rows [OF w'(3,5) page] by blast
  qed
  then show ?thesis using w'(1,2,4) by blast
qed

lemma session_in_runs:
  assumes "0 < ttl_secs" "pkts \<in> set captures" "(Inr frame, t, now) \<in> set pkts" "frame_event fenv frame now = Some e"
  shows "\<exists>e'\<in>set (concat (map (capture_events fenv ttl_secs capacity) captures)).
    key_from_event e' = key_from_event e \<and> supported_version e'"
proof -
  obtain pre post where pk: "pkts = pre @ (Inr frame, t, now) # post" using assms(3) by (meson split_list)
  let ?out = "lv_events (observe_pcap_with_dedup fenv (Some (dedup_new (ttl_secs * 1000000000) capacity)) pkts)"
  from session_reported [OF pk assms(4) refl, of "ttl_secs * 1000000000" capacity] obtain e' frame' now' where
    e': "e' \<in> set ?out" "ev_session e' = ev_session e" "frame_event fenv frame' now' = Some e'"
    using assms(4) by blast
  have key: "key_from_event x = \<lparr>dk_source_module = MODULE_NAME, dk_kind = TlsSession, dk_identity = ev_session x\<rparr>"
    if "frame_event fenv f n = Some x" for f n x
    using that by (auto simp: frame_event_def key_from_event_def build_live_event_def tls_event_def
        split: option.splits sum.splits prod.splits if_splits)
  have "key_from_event e' = key_from_event e" using key [OF e'(3)] key [OF assms(4)] e'(2) by simp
  moreover have "e' \<in> set (concat (map (capture_events fenv ttl_secs capacity) captures))"
    using e'(1) assms(1,2) by (auto simp: capture_events_def live_dedup_def)
  moreover have "supported_version e'"
    using e'(3) by (auto simp: frame_event_def build_live_event_def tls_event_def supported_version_def
        split: option.splits sum.splits prod.splits if_splits)
  ultimately show ?thesis by blast
qed

text \<open>C1: from the wire to the inventory.  Let a server that keeps its events in memory (no database URL) have just
  started, and let an agent be its only client whose HTTP client and spool work (the directory opens and holds no file yet, an event
  is written as one line that reads back as the event), over a
  network that loses requests and replies according to any finite schedule and then none.  Let the server's JSON
  reader read back what the agent's writer writes.  Whatever readable capture files the agent's live subcommand reads with a positive
  deduplication TTL, every packet with a handshake that parses has, after as many further runs over an
  empty capture as the schedule is long, plus one, a row for its session in the inventory the server answers, provided the JSON of the events reported for
  that session is within the server's body limit of 8 MiB.  An event over the limit, of this or
  another session, does not keep the others from arriving.\<close>

theorem sessions_reach_inventory:
  assumes "ar_database_url a = None" "server_main b a fs = (Some (Inr (lns, st)), fs')"
    and "spool_works env dir" "sv_post env = remote_post aenv clock tls (sv_enc env)"
    and "sw_server w = first_contact fates st" "sw_spool w = None"
    and "list_all (readable aenv (sv_enc env)) (concat (map (capture_events (nm_frames nenv) ttl_secs capacity) captures))"
    and "length fates < n" "0 < ttl_secs"
    and "pkts \<in> set captures" "(Inr frame, t, now) \<in> set pkts" "frame_event (nm_frames nenv) frame now = Some e"
    and "list_all2 (\<lambda>path pkts. nm_pcap nenv path = Inr pkts) paths captures" "nm_pcap nenv idle = Inr []"
    and "\<forall>x\<in>set (concat (map (capture_events (nm_frames nenv) ttl_secs capacity) captures)).
      ev_session x = ev_session e \<longrightarrow> length (sv_enc env x) \<le> MAX_BODY_BYTES"
  shows "\<exists>w'. net_runs env nenv (map (live_cmd url dir ttl_secs capacity) (paths @ replicate n idle)) w = Some w' \<and>
     (\<forall>fails tk. \<exists>page st2.
        app_serve aenv (any_ops fails) (main_routes tls) tk inventory_request (fs_app (sw_server w')) =
          (Answered (InventoryPage page), st2) \<and>
        (\<exists>row\<in>set (iv_items page). ii_source_module row = MODULE_NAME \<and> ii_asset_kind row = TlsSession \<and>
           ii_identity row = as_identity (ev_asset e)))"
proof -
  let ?events = "capture_events (nm_frames nenv) ttl_secs capacity"
  obtain w' where w': "agent_runs env url dir (map ?events captures @ replicate n []) w = Inr w'"
    "in_memory_history (rollup_of st) (sw_server w')"
    "set (stored_events (ap_store (fs_app (sw_server w')))) =
       set (filter (within_limits (sv_enc env)) (concat (map ?events captures)))"
    by (rule agents_delivered [OF assms(1-8)])
  have "list_all2 (\<lambda>path pkts. nm_pcap nenv path = Inr pkts) (paths @ replicate n idle) (captures @ replicate n [])"
    by (rule list_all2_appendI [OF assms(13)]) (simp add: list_all2_conv_all_nth assms(14))
  moreover have "agent_runs env url dir (map ?events (captures @ replicate n [])) w = Inr w'" using w'(1) by simp
  ultimately have run: "net_runs env nenv (map (live_cmd url dir ttl_secs capacity) (paths @ replicate n idle)) w = Some w'"
    by (rule live_runs)
  obtain e1 where e1: "e1 \<in> set (concat (map ?events captures))" "key_from_event e1 = key_from_event e"
    "supported_version e1"
    using session_in_runs [OF assms(9-12), of capacity] by blast
  have "ev_session e1 = ev_session e" using e1(2) by (simp add: key_from_event_def)
  with e1(1,3) assms(15) have "within_limits (sv_enc env) e1" unfolding within_limits_def by blast
  then have e1: "e1 \<in> set (stored_events (ap_store (fs_app (sw_server w'))))" "key_from_event e1 = key_from_event e"
    using e1(1,2) unfolding w'(3) by simp_all
  have e: "ev_source_module e = MODULE_NAME" "as_kind (ev_asset e) = TlsSession"
    using assms(12) by (auto simp: frame_event_def build_live_event_def tls_event_def
        split: option.splits sum.splits prod.splits if_splits)
  have "\<exists>row\<in>set (iv_items page). ii_source_module row = MODULE_NAME \<and> ii_asset_kind row = TlsSession \<and>
      ii_identity row = as_identity (ev_asset e)"
    if page: "app_serve aenv (any_ops fails) rs tk rq (fs_app (sw_server w')) = (Answered (InventoryPage page), st2)"
    for fails rs tk rq page st2
  proof -
    obtain x where x: "newest_of id (filter (\<lambda>y. key_from_event y = key_from_event e1)
        (stored_events (ap_store (fs_app (sw_server w'))))) = Some x" "key_from_event x = key_from_event e1"
      by (rule newest_exists [OF e1(1)])
    have row: "inventory_item_of (rollup_of st) (tk_now tk) (is_blocked (ev_agility x)) x \<in> set (iv_items page)"
      unfolding conjunct2 [OF served_rows [OF w'(2) page]] using x by auto
    have "key_from_event x = key_from_event e" using x(2) e1(2) by simp
    then show ?thesis
      using e by (intro bexI [OF _ row]) (simp add: inventory_item_of_def key_from_event_def)
  qed
  note rows = this
  have "\<exists>page st2.
        app_serve aenv (any_ops fails) (main_routes tls) tk inventory_request (fs_app (sw_server w')) =
          (Answered (InventoryPage page), st2) \<and>
        (\<exists>row\<in>set (iv_items page). ii_source_module row = MODULE_NAME \<and> ii_asset_kind row = TlsSession \<and>
           ii_identity row = as_identity (ev_asset e))" for fails tk
  proof -
    obtain page st2 where page: "app_serve aenv (any_ops fails) (main_routes tls) tk inventory_request
        (fs_app (sw_server w')) = (Answered (InventoryPage page), st2)" by (rule inventory_answered [OF w'(2)])
    show ?thesis by (intro exI conjI) (rule page, rule rows [OF page])
  qed
  then show ?thesis using run by blast
qed

section \<open>Concrete instances\<close>

text \<open>The server of \<open>App_History\<close> reads the numbers of \<open>Event_Codec\<close>; the first request does not reach it,
  the reply to the second is lost.\<close>

definition number_app_env :: "crypto_inventory_event \<Rightarrow> app_env" where
  "number_app_env e0 =
     toy_app_env\<lparr>xt_event := (\<lambda>rq. case number_dec e0 (rq_body rq) of Some e \<Rightarrow> Inr e | None \<Rightarrow> Inl BAD_REQUEST)\<rparr>"

definition number_agent ::
  "crypto_inventory_event \<Rightarrow> ((string, cert_params) remote, crypto_inventory_event) sink_env" where
  "number_agent e0 =
     \<lparr>sv_enc = number_enc e0, sv_dec = number_dec e0,
      sv_post = remote_post (number_app_env e0) toy_tick False (number_enc e0),
      sv_client = Inr (), sv_open = (\<lambda>_. Inr ())\<rparr>"

definition number_world :: "(string, cert_params) remote sink_world" where
  "number_world =
     \<lparr>sw_server = first_contact [Unreachable, ReplyLost] toy_state, sw_stdout = [], sw_spool = None\<rparr>"

lemma number_agent_works: "spool_works (number_agent e0) dir"
  by (simp add: spool_works_def number_agent_def codec_laws_number)

lemma zero_text: "show_nat 0 = ''0''"
  by code_simp

lemma number_world_sel:
  "sw_server number_world = first_contact [Unreachable, ReplyLost] toy_state" "sw_spool number_world = None"
  by (simp_all add: number_world_def)

lemma number_agent_sel:
  "sv_enc (number_agent e0) = number_enc e0"
  "sv_post (number_agent e0) = remote_post (number_app_env e0) toy_tick False (number_enc e0)"
  by (simp_all add: number_agent_def)

lemma number_readable: "readable (number_app_env e0) (number_enc e0) e"
  by (simp add: readable_def number_app_env_def event_post_request_def codec_lawsD(1) [OF codec_laws_number])

lemma number_short: "length (number_enc e0 e0) \<le> MAX_BODY_BYTES"
  by (simp add: number_enc_def zero_text MAX_BODY_BYTES_def)

lemma number_deliverable: "supported_version e0 \<Longrightarrow> deliverable (number_app_env e0) (number_enc e0) e0"
  by (simp add: deliverable_def number_readable within_limits_def number_short)

text \<open>The second of the two events has a schema version of its own and stays in the spool.\<close>

definition stray_event :: crypto_inventory_event where
  "stray_event = (sample_event ''a'' 1)\<lparr>ev_schema_version := 9\<rparr>"

lemma reported_assets_reach_inventory_witness:
  "\<exists>w'. agent_runs (number_agent (sample_event ''a'' 1)) ''http://c'' ''/s''
       ([[stray_event, sample_event ''a'' 1]] @ replicate 3 []) number_world = Inr w' \<and>
     sw_spool w' = spool_file_of (number_enc (sample_event ''a'' 1)) [stray_event] \<and>
     mset (stored_events (ap_store (fs_app (sw_server w')))) = {#sample_event ''a'' 1#} + mset (fs_lost (sw_server w'))"
proof -
  let ?e = "sample_event ''a'' 1"
  let ?runs = "[[stray_event, ?e]]"
  obtain lns fs' where m: "server_main toy_boot toy_plain Map.empty = (Some (Inr (lns, toy_state)), fs')"
    using toy_started by blast
  have db: "ar_database_url toy_plain = None" by (simp add: toy_plain_def toy_args_def)
  have limits: "within_limits (number_enc ?e) ?e" "\<not> within_limits (number_enc ?e) stray_event"
    using number_short [of ?e]
    by (simp_all add: within_limits_def supported_version_def sample_event_def stray_event_def SCHEMA_VERSION_def)
  have r: "list_all (readable (number_app_env ?e) (sv_enc (number_agent ?e))) (concat ?runs)"
    by (simp add: number_agent_sel number_readable)
  have post: "sv_post (number_agent ?e) =
      remote_post (number_app_env ?e) toy_tick False (sv_enc (number_agent ?e))" by (simp add: number_agent_sel)
  have n: "length [Unreachable, ReplyLost] < 3" by simp
  have split: "filter (within_limits (number_enc ?e)) (concat ?runs) = [?e]"
    "filter (\<lambda>e. \<not> within_limits (number_enc ?e) e) (concat ?runs) = [stray_event]"
    "mset [?e] = {#?e#}" using limits by simp_all
  show ?thesis
    using reported_assets_reach_inventory [OF db m number_agent_works post number_world_sel r n, of "''http://c''"]
    unfolding number_agent_sel split by blast
qed

definition toy_net_env :: net_env where
  "toy_net_env =
     \<lparr>nm_now = 0, nm_io = \<lparr>hio_stdin = Inr [], hio_read = (\<lambda>_. Inr []), hio_is_file = (\<lambda>_. False)\<rparr>,
      nm_zgrab_array = (\<lambda>_. Inr []), nm_zgrab_record = (\<lambda>_. None), nm_hex = (\<lambda>_. None), nm_show_summary = (\<lambda>_. []),
      nm_show_failure = (\<lambda>_. []), nm_probe = \<lparr>pe_connect = (\<lambda>_. None), pe_server_name = Inl,
        pe_handshake = (\<lambda>_. None), pe_from_der = (\<lambda>_. None)\<rparr>, nm_show_probe = (\<lambda>_. []), nm_frames = toy_env,
      nm_pcap = (\<lambda>path. Inr (if path = ''a'' then [(Inr (frame_bytes (hello_frame small_hello)), 0, 0)] else [])),
      nm_lib = \<lparr>pl_from_device = (\<lambda>_. Inr ()), pl_open = (\<lambda>_. Inr ()), pl_filter = (\<lambda>_. Inr ()),
        pl_polls = (\<lambda>_. [PollPacket (frame_bytes (hello_frame small_hello)) 0 0, PollError ''gone''])\<rparr>,
      nm_live_pcap = True,
      nm_ebpf = \<lparr>eh_load_file = (\<lambda>_. Inr ()), eh_has_program = (\<lambda>_. True), eh_load_program = Inr (), eh_attach = (\<lambda>_. Inr ()),
        eh_has_map = (\<lambda>_. True), eh_ring = Inr (), eh_items = [], eh_wait_error = ''closed''\<rparr>,
      nm_live_interface = True\<rparr>"

text \<open>A capture on an interface that goes away after one handshake.\<close>

definition toy_iface_cmd :: net_cmd where
  "toy_iface_cmd =
     Live \<lparr>la_pcap = None, la_iface = Some ''eth0'', la_filter = [], la_promiscuous = False, la_snaplen = 1500,
       la_collector = None, la_spool_dir = None, la_dedup_ttl_secs = 300, la_dedup_capacity = 2\<rparr>"

lemma net_reports_exact_witness:
  "\<exists>r evs.
     net_main (number_agent (sample_event ''a'' 1)) toy_net_env (net_redirect None None toy_iface_cmd) number_world =
       Some (r, print_lines (map (sv_enc (number_agent (sample_event ''a'' 1))) evs) number_world) \<and>
     (net_main (number_agent (sample_event ''a'' 1)) toy_net_env (net_redirect (Some ''http://c'') (Some ''/s'')
        toy_iface_cmd) number_world =
        Some (r, offered_world (number_agent (sample_event ''a'' 1)) ([] @ evs) number_world) \<or>
      evs = [] \<and> r \<noteq> Inr () \<and>
      net_main (number_agent (sample_event ''a'' 1)) toy_net_env (net_redirect (Some ''http://c'') (Some ''/s'')
        toy_iface_cmd) number_world = Some (r, number_world))"
proof (rule net_reports_exact [OF number_agent_works])
  show "pending (number_agent (sample_event ''a'' 1)) number_world []"
    by (simp add: pending_def spool_file_of_def number_world_sel)
qed (simp_all add: toy_iface_cmd_def net_main_def run_live_def sink_stdout live_observation_def Let_def
    split_beta)

lemma sessions_reach_inventory_witness:
  "\<exists>e w'. frame_event toy_env (frame_bytes (hello_frame small_hello)) 0 = Some e \<and>
     net_runs (number_agent e) toy_net_env (map (live_cmd ''http://c'' ''/s'' 300 2) ([''a''] @ replicate 3 ''b''))
       number_world = Some w'"
proof -
  obtain e where e: "frame_event toy_env (frame_bytes (hello_frame small_hello)) 0 = Some e"
    using small_frame_event by blast
  let ?pkts = "[(Inr (frame_bytes (hello_frame small_hello)), 0, 0)] :: packet list"
  have one: "set (lv_events (observe_pcap_with_dedup toy_env (live_dedup 300 2) ?pkts)) \<subseteq> {e}"
  proof -
    obtain fresh c' where o: "observe_at (dedup_new 300000000000 2) (ev_session e) 0 = (fresh, c')" by fastforce
    show ?thesis
      using observe_packet_event [OF e _ o, of "\<lparr>lv_stats = stats_zero, lv_dedup = Some (dedup_new 300000000000 2), lv_events = []\<rparr>"]
      by (auto simp: observe_pcap_with_dedup_def live_dedup_def)
  qed
  have good: "list_all (readable (number_app_env e) (sv_enc (number_agent e)))
      (concat (map (capture_events (nm_frames toy_net_env) 300 2) [?pkts]))"
    by (simp add: number_agent_def number_readable list_all_iff)
  have short: "\<forall>x\<in>set (concat (map (capture_events (nm_frames toy_net_env) 300 2) [?pkts])).
      ev_session x = ev_session e \<longrightarrow> length (sv_enc (number_agent e) x) \<le> MAX_BODY_BYTES"
    using one number_short [of e] by (auto simp: capture_events_def number_agent_def toy_net_env_def)
  obtain lns fs' where m: "server_main toy_boot toy_plain Map.empty = (Some (Inr (lns, toy_state)), fs')"
    using toy_started by blast
  have db: "ar_database_url toy_plain = None" by (simp add: toy_plain_def toy_args_def)
  have post: "sv_post (number_agent e) =
      remote_post (number_app_env e) toy_tick False (sv_enc (number_agent e))" by (simp add: number_agent_sel)
  have n: "length [Unreachable, ReplyLost] < 3" "0 < (300::nat)" "?pkts \<in> set [?pkts]"
    "(Inr (frame_bytes (hello_frame small_hello)), 0, 0) \<in> set ?pkts" by simp_all
  have p: "list_all2 (\<lambda>path pkts. nm_pcap toy_net_env path = Inr pkts) [''a''] [?pkts]"
    "nm_pcap toy_net_env ''b'' = Inr []" "frame_event (nm_frames toy_net_env) (frame_bytes (hello_frame small_hello)) 0 = Some e"
    using e by (simp_all add: toy_net_env_def)
  show ?thesis
    using sessions_reach_inventory [OF db m number_agent_works post number_world_sel good n p(3,1,2) short] e by blast
qed

end
