(* ===== verification/Module_Cli.thy ===== *)
theory Module_Cli
  imports Ct_Scan Vault Chain Id Delivery
begin

text \<open>
  The command lines of the three scanners: the subcommands of src/crates/ree0xq-cert/src/bin/ree0xq_cert.rs,
  src/crates/ree0xq-chain/src/bin/ree0xq_chain.rs and src/crates/ree0xq-id/src/bin/ree0xq_id.rs with their
  dispatch, and what becomes of the events of a sequence of commands.  Parsing the arguments is clap's;
  the pauses between requests have no effect here.  What the outside world answers during a command is a
  \<open>module_env\<close>; the collector is a step function \<open>post\<close> on a state of its own.
\<close>

section \<open>The commands\<close>

datatype cert_cmd =
    HostScan (hs_root: "string list") (hs_collector: "string option") (hs_spool_dir: "string option")
  | VaultScan (va_addr: string) (va_mounts: "string list") (va_token_env: string) (va_rate_delay_ms: nat)
      (va_collector: "string option") (va_spool_dir: "string option")
  | CtScan (cs_domain: "string list") (cs_cursor: "string option") (cs_rate_delay_ms: nat)
      (cs_collector: "string option") (cs_spool_dir: "string option")

datatype chain_cmd =
    BitcoinScan (bi_addresses: string) (bi_collector: "string option") (bi_spool_dir: "string option")
  | EthereumScan (eh_addresses: string) (eh_collector: "string option") (eh_spool_dir: "string option")
  | QrlScan (qr_addresses: string) (qr_collector: "string option") (qr_spool_dir: "string option")

datatype id_cmd =
    InventoryScan (in_input: string) (in_collector: "string option") (in_spool_dir: "string option")
  | Pkcs11Scan (pk_library: string) (pk_pin_env: "string option") (pk_only_slot: "nat option")
      (pk_collector: "string option") (pk_spool_dir: "string option")
  | AwsKmsScan (aw_region: "string option") (aw_collector: "string option") (aw_spool_dir: "string option")

text \<open>The environment: the clock, the HTTP client's construction, the serialiser, the variables and inputs
  of the host, and each module's sources; \<open>cm_pkcs11\<close> and \<open>cm_aws\<close> are the features the binary was built
  with.\<close>

record module_env =
  cm_now :: timestamp
  cm_client :: "(string, unit) result"
  cm_show :: "crypto_inventory_event \<Rightarrow> string"
  cm_getenv :: "string \<Rightarrow> string option"
  cm_io :: host_io
  cm_cert :: cert_env
  cm_walk :: "string \<Rightarrow> cert_entry list option"
  cm_vault :: "string \<Rightarrow> string \<Rightarrow> (string, vault_backend) result"
  cm_ct :: "(string, ct_backend) result"
  cm_cursor_dec :: "string \<Rightarrow> (string, cursor_map) result"
  cm_cursor_enc :: "cursor_map \<Rightarrow> string"
  cm_cursor_write :: "string \<Rightarrow> (string, unit) result"
  cm_slots_json :: "string \<Rightarrow> (string, slot_inventory list) result"
  cm_pkcs11 :: bool
  cm_library :: "string \<Rightarrow> (string, pk_slot list) result"
  cm_aws :: bool
  cm_kms :: "string option \<Rightarrow> (string, kms_service) result"

text \<open>The cursor files by path; the collector and the lines printed.\<close>

type_synonym 's module_world = "(string \<Rightarrow> cursor_file) \<times> 's \<times> string list"

definition cert_main ::
  "module_env \<Rightarrow> ('s \<Rightarrow> crypto_inventory_event \<Rightarrow> bool \<times> 's) \<Rightarrow> cert_cmd \<Rightarrow> 's module_world \<Rightarrow>
   (string, unit) result \<times> 's module_world" where
  "cert_main env post cmd w = (case w of (files, sinks) \<Rightarrow> (case cmd of
     HostScan roots coll spool_dir \<Rightarrow>
       (case run_host_scan (cm_cert env) (cm_walk env) (cm_client env) post (cm_show env) roots coll sinks of
          (r, sinks') \<Rightarrow> (stats_logged r, files, sinks'))
   | CtScan domain cursor rate_delay_ms coll spool_dir \<Rightarrow>
       (let path = (case cursor of Some p \<Rightarrow> p | None \<Rightarrow> []) in
        case run_ct_scan (cm_cert env) (cm_cursor_dec env) (cm_cursor_enc env) (cm_cursor_write env path)
               (cm_client env) post (cm_show env) \<lparr>cg_domains = domain, cg_cursor = cursor \<noteq> None\<rparr> (cm_ct env)
               coll (files path, sinks) of
          (r, file, sinks') \<Rightarrow> (stats_logged r, if cursor = None then files else files(path := file), sinks'))
   | VaultScan addr mounts token_env rate_delay_ms coll spool_dir \<Rightarrow>
       (case run_vault_scan (cm_cert env) (cm_getenv env) (cm_vault env) (cm_client env) post (cm_show env)
               addr mounts token_env coll sinks of
          (r, sinks') \<Rightarrow> (stats_logged r, files, sinks'))))"

definition chain_main ::
  "module_env \<Rightarrow> ('s \<Rightarrow> crypto_inventory_event \<Rightarrow> bool \<times> 's) \<Rightarrow> chain_cmd \<Rightarrow> 's \<times> string list \<Rightarrow>
   (string, unit) result \<times> 's \<times> string list" where
  "chain_main env post cmd sinks = (case cmd of
     BitcoinScan addresses coll spool_dir \<Rightarrow>
       (case run_chain (bitcoin_scan (cm_now env)) (cm_client env) (cm_show env) post (read_input (cm_io env) addresses)
               coll sinks of (r, sinks') \<Rightarrow> (stats_logged r, sinks'))
   | EthereumScan addresses coll spool_dir \<Rightarrow>
       (case run_chain (eth_scan (cm_now env)) (cm_client env) (cm_show env) post (read_input (cm_io env) addresses)
               coll sinks of (r, sinks') \<Rightarrow> (stats_logged r, sinks'))
   | QrlScan addresses coll spool_dir \<Rightarrow>
       (case run_chain (qrl_scan (cm_now env)) (cm_client env) (cm_show env) post (read_input (cm_io env) addresses)
               coll sinks of (r, sinks') \<Rightarrow> (stats_logged r, sinks')))"

text \<open>\<open>None\<close> is a listing of a KMS that does not end.\<close>

definition id_main ::
  "module_env \<Rightarrow> ('s \<Rightarrow> crypto_inventory_event \<Rightarrow> bool \<times> 's) \<Rightarrow> id_cmd \<Rightarrow> 's \<times> string list \<Rightarrow>
   ((string, unit) result \<times> 's \<times> string list) option" where
  "id_main env post cmd sinks = (case cmd of
     InventoryScan input coll spool_dir \<Rightarrow>
       (case run_inventory_scan (cm_now env) (cm_slots_json env) (cm_client env) (cm_show env) post
               (hio_read (cm_io env) input) coll sinks of (r, sinks') \<Rightarrow> Some (stats_logged r, sinks'))
   | Pkcs11Scan library pin_env slot coll spool_dir \<Rightarrow>
       (case run_pkcs11_scan (cm_pkcs11 env) (cm_now env) (cm_getenv env) (cm_library env library) (cm_client env)
               (cm_show env) post pin_env slot coll sinks of (r, sinks') \<Rightarrow> Some (stats_logged r, sinks'))
   | AwsKmsScan region coll spool_dir \<Rightarrow>
       (case run_aws_kms_scan (cm_aws env) (cm_now env) (cm_kms env) (cm_client env) (cm_show env) post region
               coll sinks of
          None \<Rightarrow> None
        | Some (r, sinks') \<Rightarrow> Some (stats_logged r, sinks')))"

text \<open>One run of one of the three binaries.\<close>

datatype module_cmd = RunCert cert_cmd | RunChain chain_cmd | RunId id_cmd

definition module_main ::
  "module_env \<Rightarrow> ('s \<Rightarrow> crypto_inventory_event \<Rightarrow> bool \<times> 's) \<Rightarrow> module_cmd \<Rightarrow> 's module_world \<Rightarrow>
   ((string, unit) result \<times> 's module_world) option" where
  "module_main env post cmd w = (case cmd of
     RunCert c \<Rightarrow> Some (cert_main env post c w)
   | RunChain c \<Rightarrow> (case w of (files, sinks) \<Rightarrow> (case chain_main env post c sinks of (r, sinks') \<Rightarrow> Some (r, files, sinks')))
   | RunId c \<Rightarrow> (case w of (files, sinks) \<Rightarrow> map_option (\<lambda>(r, sinks'). (r, files, sinks')) (id_main env post c sinks)))"

section \<open>Scanning apart from delivering\<close>

fun cmd_collector :: "module_cmd \<Rightarrow> string option" where
  "cmd_collector (RunCert (HostScan _ c _)) = c"
| "cmd_collector (RunCert (VaultScan _ _ _ _ c _)) = c"
| "cmd_collector (RunCert (CtScan _ _ _ c _)) = c"
| "cmd_collector (RunChain (BitcoinScan _ c _)) = c"
| "cmd_collector (RunChain (EthereumScan _ c _)) = c"
| "cmd_collector (RunChain (QrlScan _ c _)) = c"
| "cmd_collector (RunId (InventoryScan _ c _)) = c"
| "cmd_collector (RunId (Pkcs11Scan _ _ _ c _)) = c"
| "cmd_collector (RunId (AwsKmsScan _ c _)) = c"

text \<open>The same command with another \<open>--collector\<close> and \<open>--spool-dir\<close>.\<close>

fun redirect :: "string option \<Rightarrow> string option \<Rightarrow> module_cmd \<Rightarrow> module_cmd" where
  "redirect c d (RunCert (HostScan r _ _)) = RunCert (HostScan r c d)"
| "redirect c d (RunCert (VaultScan a m t n _ _)) = RunCert (VaultScan a m t n c d)"
| "redirect c d (RunCert (CtScan ds cu n _ _)) = RunCert (CtScan ds cu n c d)"
| "redirect c d (RunChain (BitcoinScan a _ _)) = RunChain (BitcoinScan a c d)"
| "redirect c d (RunChain (EthereumScan a _ _)) = RunChain (EthereumScan a c d)"
| "redirect c d (RunChain (QrlScan a _ _)) = RunChain (QrlScan a c d)"
| "redirect c d (RunId (InventoryScan i _ _)) = RunId (InventoryScan i c d)"
| "redirect c d (RunId (Pkcs11Scan l p s _ _)) = RunId (Pkcs11Scan l p s c d)"
| "redirect c d (RunId (AwsKmsScan r _ _)) = RunId (AwsKmsScan r c d)"

text \<open>A collector that records what it is sent: the events a command reports, whatever it is posted to.\<close>

definition recorder :: "crypto_inventory_event list \<Rightarrow> crypto_inventory_event \<Rightarrow> bool \<times> crypto_inventory_event list" where
  "recorder es e = (True, es @ [e])"

definition module_scan ::
  "module_env \<Rightarrow> module_cmd \<Rightarrow> (string \<Rightarrow> cursor_file) \<Rightarrow>
   ((string, unit) result \<times> (string \<Rightarrow> cursor_file) \<times> crypto_inventory_event list) option" where
  "module_scan env cmd files =
     map_option (\<lambda>(r, files', es, out). (r, files', es))
       (module_main env recorder (redirect (Some []) None cmd) (files, [], []))"


lemma deliver_stdout [simp]: "cert_deliver post show_ev None (srv, out) evs = (srv, out @ map show_ev evs)"
  by (induction evs arbitrary: out) (simp_all add: cert_deliver_def cert_sink_send_def)

lemma deliver_nothing [simp]: "cert_deliver post show_ev coll w [] = w"
  by (simp add: cert_deliver_def)

lemma deliver_posts [simp]:
  "cert_deliver post show_ev (Some url) (srv, out) evs = (emitted_state post srv evs, out)"
  by (induction evs arbitrary: srv) (simp_all add: cert_deliver_def cert_sink_send_def)

lemma recorded [simp]: "emitted_state recorder es evs = es @ evs"
  by (induction evs arbitrary: es) (simp_all add: recorder_def)

lemma sink_new_connected [simp]: "cert_sink_new (Inr ()) coll = Inr ()"
  by (simp add: cert_sink_new_def split: option.split)

lemmas run_defs = run_host_scan_def run_ct_scan_def run_vault_scan_def run_chain_def run_inventory_scan_def
  run_pkcs11_scan_def run_aws_kms_scan_def

text \<open>Every subcommand scans first and hands each event to the sink, so a command is its scan followed by
  the delivery of what the scan reports.\<close>

lemma cert_main_scan:
  assumes "cm_client env = Inr ()"
  shows "module_main env post (RunCert c) (files, sinks) =
    map_option (\<lambda>(r, files', evs). (r, files', cert_deliver post (cm_show env) (cmd_collector (RunCert c)) sinks evs))
      (module_scan env (RunCert c) files)"
  using assms
  by (cases c) (auto simp: module_scan_def module_main_def cert_main_def run_defs Let_def
      split: sum.split prod.split option.split)

lemma chain_main_scan:
  assumes "cm_client env = Inr ()"
  shows "module_main env post (RunChain c) (files, sinks) =
    map_option (\<lambda>(r, files', evs). (r, files', cert_deliver post (cm_show env) (cmd_collector (RunChain c)) sinks evs))
      (module_scan env (RunChain c) files)"
  using assms
  by (cases c) (auto simp: module_scan_def module_main_def chain_main_def run_defs
      split: sum.split prod.split option.split)

lemma id_main_scan:
  assumes "cm_client env = Inr ()"
  shows "module_main env post (RunId c) (files, sinks) =
    map_option (\<lambda>(r, files', evs). (r, files', cert_deliver post (cm_show env) (cmd_collector (RunId c)) sinks evs))
      (module_scan env (RunId c) files)"
  using assms
  by (cases c) (auto simp: module_scan_def module_main_def id_main_def run_defs
      split: sum.split prod.split option.split)

lemma module_main_scan:
  "cm_client env = Inr () \<Longrightarrow> module_main env post cmd (files, sinks) =
    map_option (\<lambda>(r, files', evs). (r, files', cert_deliver post (cm_show env) (cmd_collector cmd) sinks evs))
      (module_scan env cmd files)"
  by (cases cmd) (simp_all only: cert_main_scan chain_main_scan id_main_scan)

lemma scan_redirect [simp]: "module_scan env (redirect coll dir cmd) files = module_scan env cmd files"
  by (cases "(coll, dir, cmd)" rule: redirect.cases) (simp_all add: module_scan_def)

lemma collector_redirect [simp]: "cmd_collector (redirect coll dir cmd) = coll"
  by (cases "(coll, dir, cmd)" rule: redirect.cases) simp_all

section \<open>Sequences of commands\<close>

fun modules_run ::
  "('s \<Rightarrow> crypto_inventory_event \<Rightarrow> bool \<times> 's) \<Rightarrow> (module_env \<times> module_cmd) list \<Rightarrow> 's module_world \<Rightarrow>
   's module_world option" where
  "modules_run post [] w = Some w"
| "modules_run post ((env, cmd) # cmds) w =
     Option.bind (module_main env post cmd w) (\<lambda>(r, w'). modules_run post cmds w')"

text \<open>What the commands report, each over the cursor files the ones before it left.\<close>

fun modules_report ::
  "(module_env \<times> module_cmd) list \<Rightarrow> (string \<Rightarrow> cursor_file) \<Rightarrow> crypto_inventory_event list option" where
  "modules_report [] files = Some []"
| "modules_report ((env, cmd) # cmds) files =
     Option.bind (module_scan env cmd files) (\<lambda>(r, files', evs).
       map_option (\<lambda>rest. evs @ rest) (modules_report cmds files'))"

definition connected :: "module_env \<times> module_cmd \<Rightarrow> bool" where
  "connected c \<longleftrightarrow> cm_client (fst c) = Inr () \<and> cmd_collector (snd c) \<noteq> None"

lemma modules_run_posts:
  "list_all connected cmds \<Longrightarrow> modules_report cmds files = Some evs \<Longrightarrow>
   \<exists>files'. modules_run post cmds (files, srv, out) = Some (files', emitted_state post srv evs, out)"
proof (induction cmds arbitrary: files srv evs)
  case (Cons c cmds)
  obtain env cmd where c: "c = (env, cmd)" by fastforce
  from Cons.prems(1) obtain url where env: "cm_client env = Inr ()" "cmd_collector cmd = Some url"
    by (auto simp: c connected_def)
  from Cons.prems(2) obtain r files' evs1 rest where one: "module_scan env cmd files = Some (r, files', evs1)"
    "modules_report cmds files' = Some rest" "evs = evs1 @ rest"
    by (auto simp: c bind_eq_Some_conv)
  show ?case
    using Cons.IH [OF _ one(2), of "emitted_state post srv evs1"] Cons.prems(1)
    by (simp add: c module_main_scan [OF env(1)] env(2) one(1,3) emitted_append)
qed simp

text \<open>The events whose request reaches the server, under a schedule of fates.\<close>

fun reached :: "request_fate list \<Rightarrow> 'e list \<Rightarrow> 'e list" where
  "reached fates [] = []"
| "reached [] es = es"
| "reached (f # fates) (e # es) = (if f = Unreachable then reached fates es else e # reached fates es)"

lemma reached_up [simp]: "reached [] es = es"
  by (cases es) simp_all

lemma remote_post_stored:
  assumes "readable aenv enc e"
  shows "stored_events (ap_store (fs_app (snd (remote_post aenv clock tls enc s e)))) =
      stored_events (ap_store (fs_app s)) @ filter (within_limits enc) (reached (take 1 (fs_fates s)) [e]) \<and>
    fs_fates (snd (remote_post aenv clock tls enc s e)) = tl (fs_fates s)"
proof (cases "within_limits enc e")
  case True
  then have "deliverable aenv enc e" using assms by (simp add: deliverable_def)
  from deliverable_served [OF this, of tls "clock (fs_clock s)" "fs_app s"] True show ?thesis
    by (cases "fs_fates s") (auto simp: remote_post_def Let_def)
next
  case False
  then have "\<not> deliverable aenv enc e" by (simp add: deliverable_def)
  from undeliverable_refused [OF assms this, of tls "clock (fs_clock s)" "fs_app s"] False show ?thesis
    by (cases "fs_fates s") (auto simp: remote_post_def Let_def)
qed

lemma posts_reached:
  "list_all (readable aenv enc) es \<Longrightarrow>
   stored_events (ap_store (fs_app (emitted_state (remote_post aenv clock tls enc) s es))) =
     stored_events (ap_store (fs_app s)) @ filter (within_limits enc) (reached (fs_fates s) es)"
proof (induction es arbitrary: s)
  case (Cons e es)
  then have "readable aenv enc e" by simp
  note one = remote_post_stored [OF this, of clock tls s]
  show ?case using Cons one by (cases "fs_fates s") simp_all
qed simp

section \<open>Properties\<close>

text \<open>C38: printing and posting are the same report.  Whatever \<open>--spool-dir\<close> says, a command without
  \<open>--collector\<close> prints, and with \<open>--collector\<close> posts, the same events in the same order, with the same
  result and the same cursor files; it posts each once and goes on when the collector refuses one.\<close>

theorem printed_is_posted:
  assumes "cm_client env = Inr ()"
  shows "\<exists>scan.
     module_main env post (redirect None dir cmd) (files, srv, out) =
       map_option (\<lambda>(r, files', evs). (r, files', srv, out @ map (cm_show env) evs)) scan \<and>
     module_main env post (redirect (Some url) dir' cmd) (files, srv, out) =
       map_option (\<lambda>(r, files', evs). (r, files', emitted_state post srv evs, out)) scan"
  by (intro exI [of _ "module_scan env cmd files"]) (simp add: module_main_scan [OF assms])

text \<open>C13: what the scanners report is what the inventory shows.  Let a server that keeps its events in memory (no
  database URL) have just started, and let any sequence of scanner commands with \<open>--collector\<close>, each of which
  builds its HTTP client and ends, be its only client, over a network that loses requests and replies by a finite
  schedule.  Let the server's JSON reader read back what the commands' writer writes.  The server has logged, in
  order and once each, exactly the events whose request reached it and whose JSON is within the body limit of 8 MiB
  and of its schema version; and the inventory it answers has exactly one row per asset of theirs, made of a newest one.  Without a
  spool an event whose request is lost or refused is not sent again.\<close>

theorem scans_reach_inventory:
  assumes "ar_database_url a = None" "server_main b a fs = (Some (Inr (lns, st)), fs')"
    and "list_all connected cmds" "modules_report cmds files = Some evs" "list_all (readable aenv enc) evs"
  shows "\<exists>files' srv. modules_run (remote_post aenv clock tls enc) cmds (files, first_contact fates st, out) =
      Some (files', srv, out) \<and>
     stored_events (ap_store (fs_app srv)) = filter (within_limits enc) (reached fates evs) \<and>
     (\<forall>fails tk. \<exists>page st2.
        app_serve aenv (any_ops fails) (main_routes tls) tk inventory_request (fs_app srv) =
          (Answered (InventoryPage page), st2) \<and>
        newest_rows (rollup_of st) (tk_now tk) (filter (within_limits enc) (reached fates evs)) page)"
proof -
  let ?post = "remote_post aenv clock tls enc"
  obtain files' where run: "modules_run ?post cmds (files, first_contact fates st, out) =
      Some (files', emitted_state ?post (first_contact fates st) evs, out)"
    using modules_run_posts [OF assms(3,4), of ?post "first_contact fates st" out] by auto
  have start: "stored_events (ap_store st) = []" "in_memory_history (rollup_of st) (first_contact fates st)"
    using fresh_history [OF assms(1,2)] by simp_all
  let ?srv = "emitted_state ?post (first_contact fates st) evs"
  have stored: "stored_events (ap_store (fs_app ?srv)) = filter (within_limits enc) (reached fates evs)"
    using posts_reached [OF assms(5), of clock tls "first_contact fates st"] start(1) by (simp add: first_contact_def)
  note history = posts_history [OF start(2), of aenv clock tls enc evs]
  have "\<exists>page st2. app_serve aenv (any_ops fails) (main_routes tls) tk inventory_request (fs_app ?srv) =
        (Answered (InventoryPage page), st2) \<and> newest_rows (rollup_of st) (tk_now tk) (filter (within_limits enc) (reached fates evs)) page"
    for fails tk
  proof -
    obtain page st2 where page: "app_serve aenv (any_ops fails) (main_routes tls) tk inventory_request
        (fs_app ?srv) = (Answered (InventoryPage page), st2)" by (rule inventory_answered [OF history])
    then show ?thesis using served_newest_rows [OF history _ page, of "filter (within_limits enc) (reached fates evs)"] stored by auto
  qed
  then show ?thesis using run stored by blast
qed

section \<open>Concrete instances\<close>

definition toy_key :: key_inventory where
  "toy_key = \<lparr>ki_key_id = ''k'', ki_key_type = ''RSA'', ki_key_size_bits = Some 2048, ki_usage = []\<rparr>"

definition toy_slot :: slot_inventory where
  "toy_slot = \<lparr>sl_hsm_vendor = ''v'', sl_hsm_model = None, sl_slot_id = ''0'', sl_label = None, sl_keys = [toy_key]\<rparr>"

definition toy_module_env :: module_env where
  "toy_module_env =
     \<lparr>cm_now = 0, cm_client = Inr (), cm_show = as_identity \<circ> ev_asset, cm_getenv = (\<lambda>_. None), cm_io = \<lparr>hio_stdin = Inr [], hio_read = (\<lambda>_. Inr []), hio_is_file = (\<lambda>_. True)\<rparr>,
      cm_cert = toy_cert_env, cm_walk = (\<lambda>_. None), cm_vault = (\<lambda>_ _. Inl []), cm_ct = Inr (toy_ct_backend [] []),
      cm_cursor_dec = toy_cursor_dec, cm_cursor_enc = toy_cursor_enc, cm_cursor_write = (\<lambda>_. Inr ()),
      cm_slots_json = (\<lambda>_. Inr [toy_slot]), cm_pkcs11 = False, cm_library = (\<lambda>_. Inl []), cm_aws = False,
      cm_kms = (\<lambda>_. Inl [])\<rparr>"

definition toy_scan_cmd :: module_cmd where
  "toy_scan_cmd = RunId (InventoryScan ''i'' (Some ''http://c'') None)"

lemma toy_scanned: "module_scan toy_module_env toy_scan_cmd files = Some (Inr (), files, [key_event 0 toy_slot toy_key])"
proof -
  have "inventory_scan 0 [toy_slot] = (\<lparr>is_slots_seen = 1, is_keys_seen = 1, is_events_emitted = 1, is_skipped = 0\<rparr>,
      [key_event 0 toy_slot toy_key])"
    by (simp add: inventory_scan_exact toy_slot_def)
  then show ?thesis
    by (simp add: module_scan_def toy_scan_cmd_def module_main_def id_main_def run_inventory_scan_def toy_module_env_def recorder_def)
qed

lemma printed_is_posted_witness:
  "\<exists>scan.
     module_main toy_module_env (\<lambda>s e. (False, Suc s)) (redirect None None toy_scan_cmd) (Map.empty, 0, []) =
       map_option (\<lambda>(r, files', evs). (r, files', 0, [] @ map (cm_show toy_module_env) evs)) scan \<and>
     module_main toy_module_env (\<lambda>s e. (False, Suc s)) (redirect (Some ''u'') (Some ''d'') toy_scan_cmd) (Map.empty, 0, []) =
       map_option (\<lambda>(r, files', evs). (r, files', emitted_state (\<lambda>s e. (False, Suc s)) 0 evs, [])) scan"
  by (rule printed_is_posted) (simp add: toy_module_env_def)

text \<open>The first of two runs meets an outage.\<close>

lemma scans_reach_inventory_witness:
  "\<exists>files' srv. modules_run
       (remote_post (number_app_env (key_event 0 toy_slot toy_key)) toy_tick False (number_enc (key_event 0 toy_slot toy_key)))
       [(toy_module_env, toy_scan_cmd), (toy_module_env, toy_scan_cmd)]
       (Map.empty, first_contact [Unreachable] toy_state, []) = Some (files', srv, []) \<and>
     stored_events (ap_store (fs_app srv)) = [key_event 0 toy_slot toy_key]"
proof -
  let ?e = "key_event 0 toy_slot toy_key"
  let ?cmds = "[(toy_module_env, toy_scan_cmd), (toy_module_env, toy_scan_cmd)]"
  obtain lns fs' where m: "server_main toy_boot toy_plain Map.empty = (Some (Inr (lns, toy_state)), fs')"
    using toy_started by blast
  have db: "ar_database_url toy_plain = None" by (simp add: toy_plain_def toy_args_def)
  have "supported_version ?e" by (simp add: supported_version_def key_event_def id_build_event_def SCHEMA_VERSION_def)
  then have limits: "within_limits (number_enc ?e) ?e" using number_short [of ?e] by (simp add: within_limits_def)
  have d: "list_all (readable (number_app_env ?e) (number_enc ?e)) [?e, ?e]" by (simp add: number_readable)
  have c: "list_all connected ?cmds" "modules_report ?cmds Map.empty = Some [?e, ?e]"
    by (simp_all add: connected_def toy_scanned) (simp add: toy_module_env_def toy_scan_cmd_def)
  show ?thesis using scans_reach_inventory [OF db m c d, of toy_tick False "[Unreachable]" "[]"] limits by auto
qed

end
