(* ===== verification/Qkd_Cli.thy ===== *)
theory Qkd_Cli
  imports Qkd
begin

text \<open>
  The two long-running QKD binaries: the collector (src/crates/ree0xq-qkd/src/bin/collector.rs) and the
  KME emulator (src/crates/ree0xq-qkd/src/bin/kme_emulator.rs), from their arguments to their loops.
\<close>

section \<open>The collector\<close>

record collector_args =
  ca_kme_endpoints :: "string list"
  ca_slave_sae_id :: string
  ca_status_poll_interval :: nat
  ca_collector :: "string option"
  ca_qber_warn :: f32
  ca_qber_fail :: f32

text \<open>clap's defaults for what is not given; \<open>--kme\<close> has to be.\<close>

definition collector_args_of :: "string list \<Rightarrow> collector_args" where
  "collector_args_of kmes =
     \<lparr>ca_kme_endpoints = kmes, ca_slave_sae_id = ''SAE-REE0XQ-COLLECTOR'', ca_status_poll_interval = 5,
      ca_collector = None, ca_qber_warn = rnd32 (5/100), ca_qber_fail = rnd32 (11/100)\<rparr>"

definition collector_cfg :: "collector_args \<Rightarrow> collector_config" where
  "collector_cfg args =
     \<lparr>cc_kme_endpoints = ca_kme_endpoints args, cc_slave_sae_id = ca_slave_sae_id args,
      cc_status_interval = ca_status_poll_interval args, cc_collector_endpoint = ca_collector args,
      cc_qber_warn = ca_qber_warn args, cc_qber_fail = ca_qber_fail args\<rparr>"

text \<open>The first \<open>n\<close> turns of the loop, which has no end; \<open>None\<close> is the panic of \<open>tokio::time::interval\<close> on a
  period of zero.\<close>

definition collector_main :: "'s kme_client \<Rightarrow> collector_args \<Rightarrow> nat \<Rightarrow> 's \<Rightarrow> 's option" where
  "collector_main cl args n s =
     (if ca_status_poll_interval args = 0 then None else Some (collector_run cl (collector_cfg args) n s))"

lemma collector_defaults:
  "collector_main cl (collector_args_of kmes) n s =
   Some (collector_run cl (collector_config_default\<lparr>cc_kme_endpoints := kmes\<rparr>) n s)"
  by (simp add: collector_main_def collector_args_of_def collector_cfg_def collector_config_default_def)

lemma zero_interval_panics: "collector_main cl (args\<lparr>ca_status_poll_interval := 0\<rparr>) n s = None"
  by (simp add: collector_main_def)

section \<open>The emulator\<close>

definition emulator_config_default :: emulator_config where
  "emulator_config_default =
     \<lparr>ec_kme_id = ''KME-A'', ec_paired_kme_id = ''KME-B'', ec_key_size = 256, ec_initial_qber = rnd32 (18/1000),
      ec_initial_key_rate_bps = 12480, ec_max_key_count = 100000\<rparr>"

record emulator_args =
  em_listen :: string
  em_kme_id :: string
  em_paired_kme :: string
  em_key_size :: u32
  em_qber_arg :: f32
  em_key_rate_arg :: u64

definition emulator_args_default :: emulator_args where
  "emulator_args_default =
     \<lparr>em_listen = ''127.0.0.1:11071'', em_kme_id = ''KME-A'', em_paired_kme = ''KME-B'', em_key_size = 256,
      em_qber_arg = rnd32 (18/1000), em_key_rate_arg = 12000\<rparr>"

definition emulator_cfg :: "emulator_args \<Rightarrow> emulator_config" where
  "emulator_cfg args =
     \<lparr>ec_kme_id = em_kme_id args, ec_paired_kme_id = em_paired_kme args, ec_key_size = em_key_size args,
      ec_initial_qber = em_qber_arg args, ec_initial_key_rate_bps = em_key_rate_arg args, ec_max_key_count = 100000\<rparr>"

text \<open>The state is filled before the address is bound; the answers to the requests served until the
  process ends.\<close>

definition emulator_main ::
  "'r rng_env \<Rightarrow> (string \<Rightarrow> (string, unit) result) \<Rightarrow> emulator_args \<Rightarrow> kme_request list \<Rightarrow> 'r \<Rightarrow>
   (string, kme_response list) result" where
  "emulator_main env bind args reqs r =
     (let s = emulator_new env (emulator_cfg args) r in
      rbind (bind (em_listen args)) (\<lambda>_. Inr (fst (kme_run env reqs s))))"

lemma emulator_defaults:
  "emulator_cfg emulator_args_default = emulator_config_default\<lparr>ec_initial_key_rate_bps := 12000\<rparr>"
  by (simp add: emulator_cfg_def emulator_args_default_def emulator_config_default_def)

end
