(* ===== verification/Qkd_Delivery.thy ===== *)
theory Qkd_Delivery
  imports Qkd_Cli Module_Cli
begin

text \<open>
  From the key-management entities to the page of links: the QKD collector
  (src/crates/ree0xq-qkd/src/bin/collector.rs) polls emulators (\<open>Kme\<close>) that a replay may have driven
  (\<open>Qkd\<close>), and posts to a running server (\<open>App\<close>) over the network of \<open>Delivery\<close>.
\<close>

section \<open>The testbed\<close>

text \<open>The emulators by the URL of their \<open>/status\<close>, the turns the collector has begun, and the server behind its
  network.  The wall clock shows \<open>time i\<close> during turn \<open>i\<close>; it may jump.  The collector has no spool: what is not accepted is only logged.\<close>

record ('k, 'c) testbed =
  tb_kmes :: "string \<Rightarrow> emulator_state option"
  tb_turn :: nat
  tb_server :: "('k, 'c) remote"

definition testbed_client ::
  "app_env \<Rightarrow> (nat \<Rightarrow> ('k, 'c) tick) \<Rightarrow> bool \<Rightarrow> (crypto_inventory_event \<Rightarrow> string) \<Rightarrow> (nat \<Rightarrow> timestamp) \<Rightarrow> string \<Rightarrow>
   ('k, 'c) testbed kme_client" where
  "testbed_client aenv clock tls enc time slave =
     \<lparr>kc_get = (\<lambda>s url.
        (case tb_kmes s url of
           None \<Rightarrow> Inl ''connection refused''
         | Some st \<Rightarrow> Inr (emulator_answer (handle_status st slave)), s)),
      kc_post = (\<lambda>s url ev. case remote_post aenv clock tls enc (tb_server s) ev of
        (ok, srv) \<Rightarrow> (if ok then Inr 202 else Inl ''not accepted'', s\<lparr>tb_server := srv\<rparr>)),
      kc_now = (\<lambda>s. time (tb_turn s)), kc_wait_tick = (\<lambda>s n. s\<lparr>tb_turn := tb_turn s + 1\<rparr>), kc_show_status = show_nat\<rparr>"

text \<open>What a visit to an endpoint reports.\<close>

definition reported :: "'s kme_client \<Rightarrow> collector_config \<Rightarrow> 's \<Rightarrow> string \<Rightarrow> crypto_inventory_event list" where
  "reported cl cfg s endpoint =
     (case fst (poll_once cl endpoint (cc_slave_sae_id cfg) cfg s) of Inr ev \<Rightarrow> [ev] | Inl _ \<Rightarrow> [])"

definition turn_at :: "('k, 'c) testbed \<Rightarrow> nat \<Rightarrow> ('k, 'c) testbed" where
  "turn_at s i = s\<lparr>tb_turn := tb_turn s + i\<rparr>"

definition turn_reports ::
  "('k, 'c) testbed kme_client \<Rightarrow> collector_config \<Rightarrow> ('k, 'c) testbed \<Rightarrow> nat \<Rightarrow> crypto_inventory_event list" where
  "turn_reports cl cfg s i = concat (map (reported cl cfg (turn_at s i)) (cc_kme_endpoints cfg))"

definition run_reports ::
  "('k, 'c) testbed kme_client \<Rightarrow> collector_config \<Rightarrow> ('k, 'c) testbed \<Rightarrow> nat \<Rightarrow> crypto_inventory_event list" where
  "run_reports cl cfg s n = concat (map (turn_reports cl cfg s) [1..<Suc n])"

lemma poll_testbed:
  "snd (poll_once (testbed_client aenv clock tls enc time sae) endpoint slave cfg s) = s"
  "fst (poll_once (testbed_client aenv clock tls enc time sae) endpoint slave cfg (s\<lparr>tb_server := x\<rparr>)) =
   fst (poll_once (testbed_client aenv clock tls enc time sae) endpoint slave cfg s)"
  by (auto simp: poll_once_def testbed_client_def split: option.splits sum.splits prod.splits if_splits)

lemma reported_server [simp]:
  "reported (testbed_client aenv clock tls enc time sae) cfg (s\<lparr>tb_server := x\<rparr>) endpoint =
   reported (testbed_client aenv clock tls enc time sae) cfg s endpoint"
  by (simp add: reported_def poll_testbed)

lemma visit_testbed:
  assumes "cc_collector_endpoint cfg = Some url"
  shows "visit_endpoint (testbed_client aenv clock tls enc time sae) cfg s endpoint =
    s\<lparr>tb_server := emitted_state (remote_post aenv clock tls enc) (tb_server s)
       (reported (testbed_client aenv clock tls enc time sae) cfg s endpoint)\<rparr>"
proof -
  let ?cl = "testbed_client aenv clock tls enc time sae"
  obtain r where r: "poll_once ?cl endpoint (cc_slave_sae_id cfg) cfg s = (r, s)"
    using poll_testbed(1) by (metis prod.collapse)
  have "snd (forward_event ?cl url ev s) = s\<lparr>tb_server := snd (remote_post aenv clock tls enc (tb_server s) ev)\<rparr>" for ev
    by (auto simp: forward_event_def testbed_client_def split: prod.splits)
  then show ?thesis using r assms by (simp add: visit_endpoint_def reported_def split: sum.splits)
qed

lemma visits_testbed:
  assumes "cc_collector_endpoint cfg = Some url"
  shows "foldl (visit_endpoint (testbed_client aenv clock tls enc time sae) cfg) s es =
    s\<lparr>tb_server := emitted_state (remote_post aenv clock tls enc) (tb_server s)
       (concat (map (reported (testbed_client aenv clock tls enc time sae) cfg s) es))\<rparr>"
proof (induction es arbitrary: s)
  case (Cons e es)
  have "reported (testbed_client aenv clock tls enc time sae) cfg (s\<lparr>tb_server := x\<rparr>) =
      reported (testbed_client aenv clock tls enc time sae) cfg s" for x
    by (rule ext) simp
  then show ?case using Cons [of "visit_endpoint (testbed_client aenv clock tls enc time sae) cfg s e"]
    by (simp add: visit_testbed [OF assms] emitted_append)
qed simp

lemma run_testbed:
  assumes "cc_collector_endpoint cfg = Some url"
  shows "collector_run (testbed_client aenv clock tls enc time sae) cfg n s =
    (turn_at s n)\<lparr>tb_server := emitted_state (remote_post aenv clock tls enc) (tb_server s)
       (run_reports (testbed_client aenv clock tls enc time sae) cfg s n)\<rparr>"
proof (induction n)
  case 0
  show ?case by (simp add: collector_run_def turn_at_def run_reports_def)
next
  case (Suc n)
  let ?cl = "testbed_client aenv clock tls enc time sae"
  let ?s = "collector_run ?cl cfg n s"
  have later: "kc_wait_tick ?cl ?s (cc_status_interval cfg) = (turn_at s (Suc n))\<lparr>tb_server := tb_server ?s\<rparr>"
    unfolding Suc by (simp add: testbed_client_def turn_at_def algebra_simps)
  have "reported ?cl cfg ((turn_at s (Suc n))\<lparr>tb_server := x\<rparr>) = reported ?cl cfg (turn_at s (Suc n))" for x
    by (rule ext) simp
  moreover have "collector_run ?cl cfg (Suc n) s = collector_turn ?cl cfg ?s" by (simp add: collector_run_def)
  ultimately show ?case
    unfolding collector_turn_def later visits_testbed [OF assms]
    by (simp add: Suc run_reports_def turn_reports_def emitted_append)
qed

section \<open>The reports\<close>

definition link_identity :: "string \<Rightarrow> emulator_state \<Rightarrow> string" where
  "link_identity endpoint st =
     (if em_forced_failure st = None then ec_kme_id (em_cfg st) else ''unreachable:'' @ endpoint)"

text \<open>A row of the page without its time, and the row an emulator should have.\<close>

definition link_face :: "qkd_link_summary \<Rightarrow> string \<times> string option \<times> string \<times> f32 option" where
  "link_face l = (ql_identity l, ql_kme_endpoint l, ql_link_health l, ql_link_qber l)"

definition expected_face ::
  "collector_config \<Rightarrow> string \<Rightarrow> emulator_state \<Rightarrow> string \<times> string option \<times> string \<times> f32 option" where
  "expected_face cfg endpoint st =
     (link_identity endpoint st, Some endpoint, link_health_text (expected_health cfg st),
      if em_forced_failure st = None then Some (em_qber st) else None)"

definition answering :: "collector_config \<Rightarrow> ('k, 'c) testbed \<Rightarrow> (string \<times> emulator_state) set" where
  "answering cfg s =
     {(e, st). e \<in> set (cc_kme_endpoints cfg) \<and> tb_kmes s (status_url e (cc_slave_sae_id cfg)) = Some st}"

definition report_of :: "collector_config \<Rightarrow> string \<Rightarrow> emulator_state \<Rightarrow> crypto_inventory_event \<Rightarrow> bool" where
  "report_of cfg endpoint st ev \<longleftrightarrow> link_face (qkd_link_summary_of ev) = expected_face cfg endpoint st \<and>
     as_kind (ev_asset ev) = QkdKme \<and> ev_source_module ev = SOURCE_MODULE"

lemma report_identity: "report_of cfg e st ev \<Longrightarrow> as_identity (ev_asset ev) = link_identity e st"
  by (simp add: report_of_def link_face_def expected_face_def qkd_link_summary_of_def Let_def)

lemma report_key:
  "report_of cfg e st ev \<Longrightarrow>
   key_from_event ev = \<lparr>dk_source_module = SOURCE_MODULE, dk_kind = QkdKme, dk_identity = link_identity e st\<rparr>"
  by (simp add: key_from_event_def report_identity) (simp add: report_of_def)

lemma reported_emulator:
  assumes "tb_kmes s (status_url e (cc_slave_sae_id cfg)) = Some st"
  shows "\<exists>ev. reported (testbed_client aenv clock tls enc time (cc_slave_sae_id cfg)) cfg s e = [ev] \<and> report_of cfg e st ev"
proof -
  let ?cl = "testbed_client aenv clock tls enc time (cc_slave_sae_id cfg)"
  have "kc_get ?cl s (status_url e (cc_slave_sae_id cfg)) =
      (Inr (emulator_answer (handle_status st (cc_slave_sae_id cfg))), s)"
    using assms by (simp add: testbed_client_def)
  from poll_emulator [OF this, of cfg] show ?thesis
    by (auto simp: reported_def report_of_def link_face_def expected_face_def qkd_link_summary_of_def link_identity_def
        Let_def)
qed

lemma reported_none:
  assumes "tb_kmes s (status_url e (cc_slave_sae_id cfg)) = None"
  shows "reported (testbed_client aenv clock tls enc time (cc_slave_sae_id cfg)) cfg s e = []"
  using assms by (simp add: reported_def poll_once_def testbed_client_def)

lemma turn_reports_exact:
  "ev \<in> set (turn_reports (testbed_client aenv clock tls enc time (cc_slave_sae_id cfg)) cfg s i) \<Longrightarrow>
     \<exists>(e, st)\<in>answering cfg s. report_of cfg e st ev"
  "(e, st) \<in> answering cfg s \<Longrightarrow>
     \<exists>ev\<in>set (turn_reports (testbed_client aenv clock tls enc time (cc_slave_sae_id cfg)) cfg s i). report_of cfg e st ev"
proof -
  let ?cl = "testbed_client aenv clock tls enc time (cc_slave_sae_id cfg)"
  have up: "tb_kmes (turn_at s i) = tb_kmes s" by (simp add: turn_at_def)
  {
    assume "ev \<in> set (turn_reports ?cl cfg s i)"
    then obtain e where e: "e \<in> set (cc_kme_endpoints cfg)" "ev \<in> set (reported ?cl cfg (turn_at s i) e)"
      by (auto simp: turn_reports_def)
    then obtain st where "tb_kmes s (status_url e (cc_slave_sae_id cfg)) = Some st"
      using reported_none [of "turn_at s i" e cfg] up by fastforce
    then have st: "(e, st) \<in> answering cfg s" "tb_kmes (turn_at s i) (status_url e (cc_slave_sae_id cfg)) = Some st"
      using e(1) up by (simp_all add: answering_def)
    then have "report_of cfg e st ev" using e(2) reported_emulator [OF st(2), of aenv clock tls enc time] by auto
    then show "\<exists>(e, st)\<in>answering cfg s. report_of cfg e st ev" using st(1) by blast
  next
    assume "(e, st) \<in> answering cfg s"
    then have e: "e \<in> set (cc_kme_endpoints cfg)" "tb_kmes (turn_at s i) (status_url e (cc_slave_sae_id cfg)) = Some st"
      by (simp_all add: answering_def up)
    from reported_emulator [OF e(2)] obtain ev where
      "reported ?cl cfg (turn_at s i) e = [ev]" "report_of cfg e st ev" by blast
    then show "\<exists>ev\<in>set (turn_reports ?cl cfg s i). report_of cfg e st ev"
      using e(1) by (force simp: turn_reports_def)
  }
qed

section \<open>What the network lets through\<close>

lemma reached_subset: "set (reached fates es) \<subseteq> set es"
  by (induction fates es rule: reached.induct) auto

lemma reached_delivered:
  "list_all (deliverable aenv enc) es \<Longrightarrow> filter (within_limits enc) (reached fates es) = reached fates es"
  using reached_subset [of fates es] by (intro filter_True) (auto simp: list_all_iff deliverable_def)

lemma reached_late: "length fates \<le> length xs \<Longrightarrow> reached fates (xs @ ys) = reached fates xs @ ys"
  by (induction fates xs rule: reached.induct) auto

lemma concat_length: "\<forall>xs\<in>set xss. xs \<noteq> [] \<Longrightarrow> length xss \<le> length (concat xss)"
proof (induction xss)
  case (Cons xs xss)
  then have "Suc 0 \<le> length xs" "length xss \<le> length (concat xss)" by (simp_all add: Suc_le_eq)
  then show ?case by simp
qed simp

text \<open>A schedule shorter than the run is over before its last turn.\<close>

lemma last_turn_reaches:
  assumes "length fates < n" "ev \<in> set (turn_reports cl cfg s n)" "\<forall>i. turn_reports cl cfg s i \<noteq> []"
  shows "ev \<in> set (reached fates (run_reports cl cfg s n))"
proof -
  from assms(1) obtain m where m: "n = Suc m" "length fates \<le> m" by (cases n) auto
  have "m \<le> length (run_reports cl cfg s m)"
    using concat_length [of "map (turn_reports cl cfg s) [1..<Suc m]"] assms(3)
    by (simp add: run_reports_def del: upt_Suc)
  then have "reached fates (run_reports cl cfg s m @ turn_reports cl cfg s n) =
      reached fates (run_reports cl cfg s m) @ turn_reports cl cfg s n"
    using m(2) by (intro reached_late) simp
  moreover have "run_reports cl cfg s n = run_reports cl cfg s m @ turn_reports cl cfg s n"
    by (simp add: run_reports_def m(1))
  ultimately show ?thesis using assms(2) by simp
qed

section \<open>The page of links\<close>

definition links_request :: http_request where
  "links_request =
     \<lparr>rq_method = GET, rq_path = ''/v1/qkd/links'', rq_peer = None, rq_headers = [], rq_body = []\<rparr>"

definition links_of :: "crypto_inventory_event list \<Rightarrow> qkd_link_summary list" where
  "links_of es = map qkd_link_summary_of
     (filter (\<lambda>ev. as_kind (ev_asset ev) = QkdLink \<or> as_kind (ev_asset ev) = QkdKme)
       (memory_latest_per_asset (memory.append_all es)))"

lemma links_served:
  assumes "in_memory_history cfg s"
  shows "fst (app_serve aenv (any_ops fails) (main_routes tls) tk links_request (fs_app s)) =
    (let links = links_of (stored_events (ap_store (fs_app s))) in Answered (LinksPage (length links) links))"
proof -
  have "serve (main_routes tls) t links_request l = (Inr QkdLinks, l)" for t l
    by (simp add: serve_def find_path_def find_route_def main_routes_def router_def router_bootstrap_def
        router_main_def links_request_def)
  moreover have "qkd_links (any_ops fails) (ap_store (fs_app s)) =
      Inr (length (links_of (stored_events (ap_store (fs_app s)))), links_of (stored_events (ap_store (fs_app s))))"
  proof -
    define es where "es = stored_events (ap_store (fs_app s))"
    have "ap_store (fs_app s) = InMemory (memory.append_all es)"
      using assms by (simp add: in_memory_history_def es_def)
    then show ?thesis
      unfolding es_def [symmetric] by (simp add: qkd_links_def any_ops_def lift_store_def links_of_def Let_def)
  qed
  ultimately show ?thesis
    by (simp add: app_serve_def app_handle_def answer_def Let_def)
qed

lemma links_of_reports:
  assumes "\<forall>ev\<in>set es. \<exists>(e, st)\<in>up. report_of cfg e st ev"
    and "\<forall>(e, st)\<in>up. \<exists>ev\<in>set es. report_of cfg e st ev"
    and "inj_on (\<lambda>(e, st). link_identity e st) up"
  shows "link_face ` set (links_of es) = (\<lambda>(e, st). expected_face cfg e st) ` up"
    and "distinct (map ql_identity (links_of es))"
proof -
  let ?l = "memory_latest_per_asset (memory.append_all es)"
  have set: "set ?l = {e. newest_of id (filter (\<lambda>x. key_from_event x = key_from_event e) es) = Some e}"
    by (rule memory.append_all_latest_per_asset)
  then have sub: "set ?l \<subseteq> set es" by (auto dest: newest_of_in)
  have kme: "as_kind (ev_asset ev) = QkdKme" if "ev \<in> set es" for ev
    using assms(1) that by (fastforce simp: report_of_def)
  then have links: "links_of es = map qkd_link_summary_of ?l"
    using sub by (auto simp: links_of_def intro!: arg_cong [of _ _ "map qkd_link_summary_of"] filter_True)
  show "link_face ` set (links_of es) = (\<lambda>(e, st). expected_face cfg e st) ` up"
  proof (intro equalityI subsetI)
    fix f assume "f \<in> link_face ` set (links_of es)"
    then obtain ev where "ev \<in> set es" "f = link_face (qkd_link_summary_of ev)" using sub by (auto simp: links)
    then show "f \<in> (\<lambda>(e, st). expected_face cfg e st) ` up" using assms(1) by (fastforce simp: report_of_def)
  next
    fix f assume "f \<in> (\<lambda>(e, st). expected_face cfg e st) ` up"
    then obtain e st where e: "(e, st) \<in> up" "f = expected_face cfg e st" by auto
    then obtain ev where ev: "ev \<in> set es" "report_of cfg e st ev" using assms(2) by blast
    obtain x where x: "newest_of id (filter (\<lambda>y. key_from_event y = key_from_event ev) es) = Some x"
      "x \<in> set es" "key_from_event x = key_from_event ev" by (rule newest_exists [OF ev(1)])
    obtain e' st' where e': "(e', st') \<in> up" "report_of cfg e' st' x" using assms(1) x(2) by blast
    have "link_identity e' st' = link_identity e st" using x(3) report_key ev(2) e'(2) by fastforce
    then have "(e', st') = (e, st)" using inj_onD [OF assms(3) _ e'(1) e(1)] by simp
    moreover have "x \<in> set ?l" using x(1,3) by (simp add: set)
    ultimately show "f \<in> link_face ` set (links_of es)" using e(2) e'(2) by (force simp: links report_of_def)
  qed
  have "distinct (map key_from_event ?l)"
    by (rule memory.latest_per_asset_distinct [OF memory.append_all_inv])
  moreover have "key_from_event x = key_from_event y"
    if "x \<in> set ?l" "y \<in> set ?l" "as_identity (ev_asset x) = as_identity (ev_asset y)" for x y
  proof -
    have "x \<in> set es" "y \<in> set es" using that sub by auto
    then obtain e st e' st' where "report_of cfg e st x" "report_of cfg e' st' y" using assms(1) by blast
    then show ?thesis using that(3) by (simp add: report_key report_identity)
  qed
  ultimately have "distinct (map (\<lambda>ev. as_identity (ev_asset ev)) ?l)"
    unfolding distinct_map by (meson inj_on_def)
  moreover have "map ql_identity (links_of es) = map (\<lambda>ev. as_identity (ev_asset ev)) ?l"
    by (simp add: links qkd_link_summary_of_def Let_def comp_def)
  ultimately show "distinct (map ql_identity (links_of es))" by simp
qed

section \<open>A scenario on the page of links\<close>

text \<open>C14: what a replay does to an emulator shows on the server.  Let a server that keeps its events in memory (no
  database URL) have just started, let a valid scenario be replayed into an emulator, and let the collector binary,
  the server's only client, then poll this and other emulators for longer than the network
  goes on losing requests and replies.  When the emulators that answer go
  by different names and the server takes every event the collector reports (its JSON reader reads it back, and it is
  within the body limit of 8 MiB and of the server's schema version), \<open>/v1/qkd/links\<close> lists each of these emulators exactly once and
  nothing else, each with the
  endpoint, the health and the error rate that belong to the emulator's state; the one replayed into, with
  those of the state that the scenario's operations have led to.\<close>

theorem scenario_on_links_page:
  assumes "ar_database_url a = None" "server_main b a fs = (Some (Inr (lns, st)), fs')"
    and "drives w em" "load_scenario w path raw = Inr sc" "validate sc = Inr ()"
    and "replay_main w path raw r0 = (res, r1)"
    and "tb_kmes s (status_url endpoint (ca_slave_sae_id args)) = Some (em r1)" "endpoint \<in> set (ca_kme_endpoints args)"
    and "tb_server s = first_contact fates st" "length fates < n" "ca_collector args = Some url"
    and "ca_status_poll_interval args \<noteq> 0" "cl = testbed_client aenv clock tls enc time (ca_slave_sae_id args)"
    and "inj_on (\<lambda>(e, k). link_identity e k) (answering (collector_cfg args) s)"
    and "list_all (deliverable aenv enc) (run_reports cl (collector_cfg args) s n)"
  shows "\<exists>s' st2 links. collector_main cl args n s = Some s' \<and>
    app_serve aenv (any_ops fails) (main_routes tls) tk links_request (fs_app (tb_server s')) =
      (Answered (LinksPage (length links) links), st2) \<and>
    distinct (map ql_identity links) \<and>
    link_face ` set links = (\<lambda>(e, k). expected_face (collector_cfg args) e k) ` answering (collector_cfg args) s \<and>
    expected_face (collector_cfg args) endpoint (foldl (\<lambda>k ev. handle_control (re_op ev) k) (em r0) (rs_events sc))
      \<in> link_face ` set links"
proof -
  let ?cfg = "collector_cfg args" and ?post = "remote_post aenv clock tls enc"
  let ?es = "run_reports cl ?cfg s n"
  let ?srv = "emitted_state ?post (tb_server s) ?es"
  have sae: "cc_slave_sae_id ?cfg = ca_slave_sae_id args" "cc_kme_endpoints ?cfg = ca_kme_endpoints args"
    "cc_collector_endpoint ?cfg = Some url" using assms(11) by (simp_all add: collector_cfg_def)
  have cl: "cl = testbed_client aenv clock tls enc time (cc_slave_sae_id ?cfg)" using assms(13) sae(1) by simp
  have run: "collector_main cl args n s = Some ((turn_at s n)\<lparr>tb_server := ?srv\<rparr>)"
    using assms(12) run_testbed [OF sae(3)] by (simp add: collector_main_def cl)
  have start: "stored_events (ap_store (fs_app (tb_server s))) = []" "in_memory_history (rollup_of st) (tb_server s)"
    using fresh_history [OF assms(1,2)] assms(9) by (simp_all add: first_contact_def)
  have stored: "stored_events (ap_store (fs_app ?srv)) = reached fates ?es"
    using posts_reached [OF deliverable_all [OF assms(15), THEN conjunct1], of clock tls "tb_server s"] start(1) assms(9)
      reached_delivered [OF assms(15)] by (simp add: first_contact_def)
  define links where "links = links_of (reached fates ?es)"
  have "fst (app_serve aenv (any_ops fails) (main_routes tls) tk links_request (fs_app ?srv)) =
      Answered (LinksPage (length links) links)"
    using links_served [OF posts_history [OF start(2)]] stored by (simp add: links_def Let_def)
  then obtain st2 where page: "app_serve aenv (any_ops fails) (main_routes tls) tk links_request (fs_app ?srv) =
      (Answered (LinksPage (length links) links), st2)" by (metis prod.collapse)
  have known: "\<forall>ev\<in>set (reached fates ?es). \<exists>(e, k)\<in>answering ?cfg s. report_of ?cfg e k ev"
  proof
    fix ev assume "ev \<in> set (reached fates ?es)"
    then have "ev \<in> set ?es" using reached_subset by fast
    then obtain i where "ev \<in> set (turn_reports cl ?cfg s i)" by (auto simp: run_reports_def)
    then show "\<exists>(e, k)\<in>answering ?cfg s. report_of ?cfg e k ev" unfolding cl by (rule turn_reports_exact(1))
  qed
  have shown: "\<forall>(e, k)\<in>answering ?cfg s. \<exists>ev\<in>set (reached fates ?es). report_of ?cfg e k ev"
  proof clarify
    fix e k assume e: "(e, k) \<in> answering ?cfg s"
    have some: "\<exists>ev\<in>set (turn_reports cl ?cfg s i). report_of ?cfg e k ev" for i
      using turn_reports_exact(2) [OF e] cl by simp
    have each: "\<forall>i. turn_reports cl ?cfg s i \<noteq> []"
    proof
      fix i show "turn_reports cl ?cfg s i \<noteq> []" using some [of i] by (cases "turn_reports cl ?cfg s i") simp_all
    qed
    show "\<exists>ev\<in>set (reached fates ?es). report_of ?cfg e k ev"
      using some [of n] last_turn_reaches [OF assms(10) _ each] by blast
  qed
  note lp = links_of_reports [OF known shown assms(14), folded links_def]
  have "em r1 = foldl (\<lambda>k ev. handle_control (re_op ev) k) (em r0) (rs_events sc)"
    using replay_drives [OF assms(3), of "rs_events sc" r0] assms(3-6) by (auto simp: replay_main_def)
  then have "(endpoint, foldl (\<lambda>k ev. handle_control (re_op ev) k) (em r0) (rs_events sc)) \<in> answering ?cfg s"
    using assms(7,8) sae by (simp add: answering_def)
  then show ?thesis using run page lp by force
qed

section \<open>A concrete link\<close>

definition r2_state :: emulator_state where
  "r2_state = foldl (\<lambda>k ev. handle_control (re_op ev) k) (toy_kme\<lparr>em_keys := [(''a'', [7])]\<rparr>) (rs_events toy_scenario)"

definition r2_args :: collector_args where
  "r2_args = (collector_args_of [''http://kme/api/v1''])
     \<lparr>ca_collector := Some ''http://c'', ca_qber_warn := 5/100, ca_qber_fail := 11/100\<rparr>"

definition r2_testbed :: "(string, cert_params) testbed" where
  "r2_testbed = \<lparr>tb_kmes = (\<lambda>url. Some r2_state), tb_turn = 0, tb_server = first_contact [] toy_state\<rparr>"

definition r2_event :: crypto_inventory_event where
  "r2_event = build_kme_event ''http://kme/api/v1'' (build_status r2_state ''SAE-MASTER'' ''SAE-REE0XQ-COLLECTOR'')
     HealthDegraded (Some (''QBER '' @ show_fixed3 (7/100) @ '' '' @ at_least_sign @ '' warn threshold '' @ show_fixed3 (5/100))) 7"

definition r2_client :: "(string, cert_params) testbed kme_client" where
  "r2_client = testbed_client (number_app_env r2_event) toy_tick False (number_enc r2_event) (\<lambda>_. 7) ''SAE-REE0XQ-COLLECTOR''"

lemma r2_qber: "em_forced_failure r2_state = None" "em_qber r2_state = 7/100"
  by (simp_all add: r2_state_def toy_scenario_def)

lemma r2_health:
  "derive_link_health (build_status r2_state m sl) (1/20) (11/100) =
   (HealthDegraded, Some (''QBER '' @ show_fixed3 (7/100) @ '' '' @ at_least_sign @ '' warn threshold '' @ show_fixed3 (5/100)))"
  by (simp add: derive_link_health_def build_status_def r2_qber)

lemma r2_cfg:
  "cc_slave_sae_id (collector_cfg r2_args) = ''SAE-REE0XQ-COLLECTOR''"
  "cc_kme_endpoints (collector_cfg r2_args) = [''http://kme/api/v1'']"
  "cc_qber_warn (collector_cfg r2_args) = 5/100" "cc_qber_fail (collector_cfg r2_args) = 11/100"
  by (simp_all add: collector_cfg_def r2_args_def collector_args_of_def)

lemma r2_poll:
  "fst (poll_once r2_client ''http://kme/api/v1'' ''SAE-REE0XQ-COLLECTOR'' (collector_cfg r2_args) (turn_at r2_testbed i)) =
   Inr r2_event"
proof -
  have "kc_get r2_client (turn_at r2_testbed i) url =
      (Inr (200, Inr (build_status r2_state ''SAE-MASTER'' ''SAE-REE0XQ-COLLECTOR'')), turn_at r2_testbed i)" for url
    by (simp add: r2_client_def testbed_client_def turn_at_def r2_testbed_def emulator_answer_def handle_status_def r2_qber)
  moreover have "kc_now r2_client x = 7" for x by (simp add: r2_client_def testbed_client_def)
  ultimately show ?thesis by (simp add: poll_once_def Prelude.is_success_def r2_cfg r2_health r2_event_def)
qed

lemma r2_reports: "run_reports r2_client (collector_cfg r2_args) r2_testbed 1 = [r2_event]"
  by (simp add: run_reports_def turn_reports_def reported_def r2_cfg r2_poll)

lemma scenario_on_links_page_witness:
  "\<exists>s' st2 links. collector_main r2_client r2_args 1 r2_testbed = Some s' \<and>
    app_serve (number_app_env r2_event) (any_ops always_up) (main_routes False) (toy_tick 9) links_request (fs_app (tb_server s')) =
      (Answered (LinksPage (length links) links), st2) \<and>
    (''KME-A'', Some ''http://kme/api/v1'', ''degraded'', Some (7/100)) \<in> link_face ` set links"
proof -
  obtain lns fs' where m: "server_main toy_boot toy_plain Map.empty = (Some (Inr (lns, toy_state)), fs')"
    using toy_started by blast
  have db: "ar_database_url toy_plain = None" by (simp add: toy_plain_def toy_args_def)
  let ?r0 = "(0 :: nat, toy_kme\<lparr>em_keys := [(''a'', [7])]\<rparr>)"
  have world: "drives toy_replay snd" by (auto simp: drives_def toy_replay_def)
  have load: "load_scenario toy_replay ''r2.yaml'' (Inr []) = Inr toy_scenario"
    by (simp add: load_scenario_def toy_replay_def path_extension_def path_file_name_def Let_def)
  have valid: "validate toy_scenario = Inr ()" by (simp add: validate_def toy_scenario_def)
  obtain res r1 where replay: "replay_main toy_replay ''r2.yaml'' (Inr []) ?r0 = (res, r1)"
    by (metis prod.exhaust)
  have "snd r1 = r2_state"
    using replay_drives [OF world, of "rs_events toy_scenario" ?r0] load valid replay world
    by (auto simp: replay_main_def r2_state_def)
  then have kme: "tb_kmes r2_testbed (status_url ''http://kme/api/v1'' (ca_slave_sae_id r2_args)) = Some (snd r1)"
    by (simp add: r2_testbed_def)
  have args: "''http://kme/api/v1'' \<in> set (ca_kme_endpoints r2_args)" "tb_server r2_testbed = first_contact [] toy_state"
    "length ([] :: request_fate list) < 1" "ca_collector r2_args = Some ''http://c''" "ca_status_poll_interval r2_args \<noteq> 0"
    "r2_client = testbed_client (number_app_env r2_event) toy_tick False (number_enc r2_event) (\<lambda>_. 7) (ca_slave_sae_id r2_args)"
    by (simp_all add: r2_args_def collector_args_of_def r2_testbed_def r2_client_def)
  have one: "inj_on (\<lambda>(e, k). link_identity e k) (answering (collector_cfg r2_args) r2_testbed)"
    by (auto simp: inj_on_def answering_def r2_cfg r2_testbed_def)
  have "supported_version r2_event" by (simp add: supported_version_def r2_event_def build_kme_event_def SCHEMA_VERSION_def)
  then have d: "list_all (deliverable (number_app_env r2_event) (number_enc r2_event))
      (run_reports r2_client (collector_cfg r2_args) r2_testbed 1)"
    using number_deliverable [of r2_event] unfolding r2_reports by simp
  have face: "expected_face (collector_cfg r2_args) ''http://kme/api/v1''
        (foldl (\<lambda>k ev. handle_control (re_op ev) k) (snd ?r0) (rs_events toy_scenario)) =
      (''KME-A'', Some ''http://kme/api/v1'', ''degraded'', Some (7/100))"
    unfolding snd_conv r2_state_def [symmetric]
    by (simp add: expected_face_def link_identity_def expected_health_def r2_qber r2_cfg)
      (simp add: r2_state_def toy_scenario_def toy_kme_def)
  from scenario_on_links_page [OF db m world load valid replay kme args(1-5) args(6) one d,
      of always_up "toy_tick 9"] show ?thesis
    unfolding face by blast
qed

end
